(* ===== verification/Prelude.thy ===== *)
theory Prelude
  imports Main "HOL-Library.Monad_Syntax"
begin

text \<open>
  Shared vocabulary of the development: the type of instants, the truth value
  Python gives to optional and string values, tables of graph nodes and the
  read and write clauses of Cypher over them (MATCH, SET, MERGE, DELETE on one
  key), with the update and lookup laws every repository proof uses.

  Collections: \<open>table_simps\<close> rewrites a lookup after a write;
  \<open>inv_intros\<close> holds one preservation lemma per operation.
\<close>

named_theorems table_simps \<open>lookup after write on node tables\<close>
named_theorems inv_intros \<open>invariant preservation, one lemma per operation\<close>

type_synonym instant = int

section \<open>Python truth values and defaults\<close>

text \<open>\<open>x or d\<close> on an optional string: None and the empty string give d.\<close>

definition py_or :: "string option \<Rightarrow> string \<Rightarrow> string" where
  "py_or x d = (case x of None \<Rightarrow> d | Some s \<Rightarrow> if s = [] then d else s)"

text \<open>\<open>x or None\<close>: the empty string becomes None.\<close>

definition or_none :: "string option \<Rightarrow> string option" where
  "or_none x = (case x of None \<Rightarrow> None | Some s \<Rightarrow> if s = [] then None else Some s)"

text \<open>Cypher \<open>COALESCE(x, d)\<close>.\<close>

definition coalesce :: "'a option \<Rightarrow> 'a \<Rightarrow> 'a" where
  "coalesce x d = (case x of None \<Rightarrow> d | Some v \<Rightarrow> v)"

lemma coalesce_simps [simp]:
  "coalesce None d = d" "coalesce (Some v) d = v"
  by (simp_all add: coalesce_def)

lemma py_or_simps [simp]:
  "py_or None d = d" "py_or (Some []) d = d" "py_or (Some (c # s)) d = c # s"
  by (simp_all add: py_or_def)

lemma or_none_simps [simp]:
  "or_none None = None" "or_none (Some []) = None" "or_none (Some (c # s)) = Some (c # s)"
  by (simp_all add: or_none_def)

lemma or_none_nonempty: "or_none x = Some s \<Longrightarrow> s \<noteq> []"
  by (auto simp: or_none_def split: option.splits if_splits)

section \<open>Strings\<close>

definition ascii_lower_char :: "char \<Rightarrow> char" where
  "ascii_lower_char c =
     (if 65 \<le> (of_char c :: nat) \<and> (of_char c :: nat) \<le> 90 then char_of ((of_char c :: nat) + 32) else c)"

definition lower :: "string \<Rightarrow> string" where
  "lower s = map ascii_lower_char s"

text \<open>Python's \<open>sub in s\<close>.\<close>

fun substr_in :: "'a list \<Rightarrow> 'a list \<Rightarrow> bool" where
  "substr_in sub [] = (sub = [])"
| "substr_in sub (x # s) = (take (length sub) (x # s) = sub \<or> substr_in sub s)"

lemma substr_in_iff: "substr_in sub s \<longleftrightarrow> (\<exists>a b. s = a @ sub @ b)"
proof (induction s)
  case (Cons x s)
  have "take (length sub) (x # s) = sub \<longleftrightarrow> (\<exists>b. x # s = sub @ b)"
    by (metis append_eq_conv_conj append_take_drop_id)
  moreover have "(\<exists>a b. x # s = a @ sub @ b) \<longleftrightarrow>
      (\<exists>b. x # s = sub @ b) \<or> (\<exists>a b. s = a @ sub @ b)"
    by (metis append_Cons append_Nil list.inject neq_Nil_conv)
  ultimately show ?case using Cons by simp
qed simp

section \<open>Tables of nodes\<close>

text \<open>A label is the list of its nodes in scan order. A pattern
  \<open>(n:Label {key: k})\<close> binds one row per node whose key is k.\<close>

definition match_on :: "('n \<Rightarrow> 'k) \<Rightarrow> 'k \<Rightarrow> 'n list \<Rightarrow> 'n list" where
  "match_on key k ns = filter (\<lambda>n. key n = k) ns"

definition set_on :: "('n \<Rightarrow> 'k) \<Rightarrow> 'k \<Rightarrow> ('n \<Rightarrow> 'n) \<Rightarrow> 'n list \<Rightarrow> 'n list" where
  "set_on key k f ns = map (\<lambda>n. if key n = k then f n else n) ns"

definition merge_on :: "('n \<Rightarrow> 'k) \<Rightarrow> 'k \<Rightarrow> 'n \<Rightarrow> ('n \<Rightarrow> 'n) \<Rightarrow> 'n list \<Rightarrow> 'n list" where
  "merge_on key k new on_match ns =
     (if match_on key k ns = [] then ns @ [new] else set_on key k on_match ns)"

definition delete_on :: "('n \<Rightarrow> 'k) \<Rightarrow> 'k \<Rightarrow> 'n list \<Rightarrow> 'n list" where
  "delete_on key k ns = filter (\<lambda>n. key n \<noteq> k) ns"

definition unique_key :: "('n \<Rightarrow> 'k) \<Rightarrow> 'n list \<Rightarrow> bool" where
  "unique_key key ns = distinct (map key ns)"

definition row1 :: "'r list \<Rightarrow> 'r option" where
  "row1 rs = (case rs of [] \<Rightarrow> None | r # _ \<Rightarrow> Some r)"

lemma row1_simps [simp]: "row1 [] = None" "row1 (r # rs) = Some r"
  by (simp_all add: row1_def)

lemma row1_None_iff [simp]: "row1 rs = None \<longleftrightarrow> rs = []"
  by (cases rs) simp_all

lemma row1_map [simp]: "row1 (map f rs) = map_option f (row1 rs)"
  by (cases rs) simp_all

lemma match_on_set_same [table_simps]:
  assumes "\<And>n. key n = k \<Longrightarrow> key (f n) = k"
  shows "match_on key k (set_on key k f ns) = map f (match_on key k ns)"
  using assms by (induction ns) (auto simp: match_on_def set_on_def)

lemma match_on_set_other [table_simps]:
  assumes "\<And>n. key n = k \<Longrightarrow> key (f n) = k" "k' \<noteq> k"
  shows "match_on key k' (set_on key k f ns) = match_on key k' ns"
  using assms by (induction ns) (auto simp: match_on_def set_on_def)

lemma match_on_append [simp]:
  "match_on key k (xs @ ys) = match_on key k xs @ match_on key k ys"
  by (simp add: match_on_def)

lemma match_on_Nil [simp]: "match_on key k [] = []"
  by (simp add: match_on_def)

lemma match_on_Cons [simp]:
  "match_on key k (n # ns) = (if key n = k then n # match_on key k ns else match_on key k ns)"
  by (simp add: match_on_def)

lemma set_on_Nil [simp]: "set_on key k f [] = []"
  by (simp add: set_on_def)

lemma set_on_Cons [simp]:
  "set_on key k f (n # ns) = (if key n = k then f n else n) # set_on key k f ns"
  by (simp add: set_on_def)

lemma match_on_delete_same [table_simps]: "match_on key k (delete_on key k ns) = []"
  by (simp add: match_on_def delete_on_def filter_empty_conv)

lemma match_on_delete_other [table_simps]:
  "k' \<noteq> k \<Longrightarrow> match_on key k' (delete_on key k ns) = match_on key k' ns"
  by (induction ns) (auto simp: match_on_def delete_on_def)

lemma match_on_key: "n \<in> set (match_on key k ns) \<Longrightarrow> key n = k"
  by (simp add: match_on_def)

lemma set_on_no_match: "match_on key k ns = [] \<Longrightarrow> set_on key k f ns = ns"
  by (induction ns) (auto simp: match_on_def set_on_def split: if_splits)

lemma unique_key_match: 
  assumes "unique_key key ns"
  shows "match_on key k ns = [] \<or> (\<exists>n. match_on key k ns = [n])"
  using assms
proof (induction ns)
  case (Cons n ns)
  show ?case
  proof (cases "key n = k")
    case True
    then have "match_on key k ns = []"
      using Cons.prems True by (auto simp: unique_key_def match_on_def filter_empty_conv rev_image_eqI)
    with True show ?thesis by simp
  next
    case False
    with Cons show ?thesis by (simp add: unique_key_def)
  qed
qed simp

lemma set_on_keys:
  "(\<And>n. key n = k \<Longrightarrow> key' (f n) = key' n) \<Longrightarrow> map key' (set_on key k f ns) = map key' ns"
  by (simp add: set_on_def)

lemma unique_key_set_on [inv_intros]:
  assumes "unique_key key' ns" "\<And>n. key n = k \<Longrightarrow> key' (f n) = key' n"
  shows "unique_key key' (set_on key k f ns)"
  using assms by (simp add: unique_key_def set_on_keys)

lemma unique_key_merge_on [inv_intros]:
  assumes "unique_key key ns" "key new = k" "\<And>n. key n = k \<Longrightarrow> key (f n) = k"
  shows "unique_key key (merge_on key k new f ns)"
proof (cases "match_on key k ns = []")
  case True
  then have "k \<notin> key ` set ns"
    by (force simp: match_on_def filter_empty_conv)
  with True assms show ?thesis by (simp add: merge_on_def unique_key_def)
next
  case False
  then show ?thesis using assms by (simp add: merge_on_def unique_key_set_on)
qed

lemma unique_key_delete_on [inv_intros]:
  "unique_key key ns \<Longrightarrow> unique_key key (delete_on key k ns)"
  by (simp add: unique_key_def delete_on_def distinct_map_filter)

lemma unique_key_filter [inv_intros]:
  "unique_key key ns \<Longrightarrow> unique_key key (filter P ns)"
  by (simp add: unique_key_def distinct_map_filter)

lemma match_on_merge_same [table_simps]:
  assumes "key new = k" "\<And>n. key n = k \<Longrightarrow> key (f n) = k"
  shows "match_on key k (merge_on key k new f ns) =
    (if match_on key k ns = [] then [new] else map f (match_on key k ns))"
  using assms by (simp add: merge_on_def match_on_set_same)

lemma match_on_merge_other [table_simps]:
  assumes "key new = k" "\<And>n. key n = k \<Longrightarrow> key (f n) = k" "k' \<noteq> k"
  shows "match_on key k' (merge_on key k new f ns) = match_on key k' ns"
  using assms by (auto simp: merge_on_def match_on_set_other)

lemma delete_on_no_match: "match_on key k ns = [] \<Longrightarrow> delete_on key k ns = ns"
  by (auto simp: match_on_def delete_on_def filter_empty_conv)

lemma length_filter_delete_on:
  "unique_key key ns \<Longrightarrow> length (filter Q ns) \<le> Suc (length (filter Q (delete_on key k ns)))"
proof (induction ns)
  case (Cons n ns)
  then have u: "unique_key key ns" by (simp add: unique_key_def)
  show ?case
  proof (cases "key n = k")
    case True
    then have "match_on key k ns = []"
      using Cons.prems by (auto simp: unique_key_def match_on_def filter_empty_conv rev_image_eqI)
    then have "delete_on key k (n # ns) = ns"
      using True delete_on_no_match[of key k ns] by (simp add: delete_on_def)
    then show ?thesis by simp
  next
    case False
    then show ?thesis using Cons.IH[OF u] by (simp add: delete_on_def)
  qed
qed simp

section \<open>Pages\<close>

lemma concat_pages:
  "concat (map (\<lambda>i. take l (drop (i * l) xs)) [0..<k]) = take (k * l) xs"
proof (induction k)
  case (Suc k)
  have "take (k * l) xs @ take l (drop (k * l) xs) = take (l + k * l) xs"
    by (metis add.commute take_add)
  with Suc show ?case by simp
qed simp

end
