(* ===== verification/GraphStore.thy ===== *)
theory GraphStore
  imports Prelude
begin

text \<open>
  The graph database as the repositories under src/app/service see it: the
  properties of the User node (user_repository.py, usage_repository.py), the
  Project, Team and VibeRepo nodes and the OWNS, MEMBER and HAS_PROJECT
  relationships, and the retry loop of clients/neo4j_client.py that runs one
  query. A property that may be absent is an option; text that is only passed
  through is a string; instants are integers.
\<close>

section \<open>Nodes and relationships\<close>

text \<open>The value of User.notion_export_map, a JSON text: what json.loads makes of it.
  An entry of the map is a dict of page ids or some other value.\<close>

record export_entry =
  e_hub_page_id :: "string option"
  e_cps_page_id :: "string option"
  e_prd_page_id :: "string option"
  e_design_page_id :: "string option"
  e_synced_at :: "int option"

datatype export_value = EntryDict export_entry | NullValue | OtherValue

datatype export_json = Unparsable | NonObject | JsonObject "(string \<times> export_value) list"

record user_profile =
  u_id :: string
  u_email :: string
  u_name :: string
  u_hashed_password :: string
  u_github_username :: "string option"
  u_subscription_type :: "string option"
  u_subscription_updated_at :: "instant option"
  u_subscription_ends_at :: "instant option"
  u_is_admin :: "bool option"
  u_auto_progress :: "bool option"
  u_locale :: "string option"
  u_is_suspended :: "bool option"
  u_suspended_at :: "instant option"
  u_suspended_reason :: "string option"
  u_suspended_by_email :: "string option"
  u_unsuspended_at :: "instant option"
  u_created_at :: "instant option"
  u_updated_at :: "instant option"
  u_last_active_at :: "instant option"
  u_created :: "bool option"

record user_usage = user_profile +
  u_usage_meeting_count :: "int option"
  u_usage_total_tokens :: "int option"
  u_usage_total_chars :: "int option"
  u_usage_lite_tokens :: "int option"
  u_usage_lite_daily_tokens :: "int option"
  u_usage_reset_at :: "instant option"
  u_usage_lite_daily_reset_at :: "instant option"
  u_usage_updated_at :: "instant option"

record user_node = user_usage +
  u_github_id :: "int option"
  u_github_access_token :: "string option"
  u_github_scopes :: "string option"
  u_github_linked_at :: "instant option"
  u_google_id :: "string option"
  u_google_email :: "string option"
  u_google_linked_at :: "instant option"
  u_notion_access_token :: "string option"
  u_notion_workspace_id :: "string option"
  u_notion_workspace_name :: "string option"
  u_notion_bot_id :: "string option"
  u_notion_linked_at :: "instant option"
  u_notion_export_map :: "export_json option"

text \<open>A Project node has an identity of its own (\<open>p_nid\<close>): legacy nodes lack
  the id and owner_email properties until the backfill of
  ownership_repository.ensure_project_constraint.\<close>

record project_node =
  p_nid :: nat
  p_id :: "string option"
  p_name :: string
  p_owner_email :: "string option"
  p_team_id :: "string option"
  p_created_by :: "string option"
  p_created_at :: "instant option"

record owns_rel =
  o_user :: string
  o_project :: nat
  o_created_at :: "instant option"

record team_rel =
  h_team :: string
  h_project :: nat
  h_created_at :: "instant option"

record vibe_repo =
  v_owner :: string
  v_user_email :: string
  v_url :: string

record graph =
  g_users :: "user_node list"
  g_projects :: "project_node list"
  g_owns :: "owns_rel list"
  g_teams :: "string list"
  g_members :: "(string \<times> string) list"
  g_has_project :: "team_rel list"
  g_vibe :: "vibe_repo list"
  g_subchanges :: "string list"

definition empty_graph :: graph where
  "empty_graph = \<lparr>g_users = [], g_projects = [], g_owns = [], g_teams = [], g_members = [],
     g_has_project = [], g_vibe = [], g_subchanges = []\<rparr>"

text \<open>A freshly created User node: every property the CREATE clause does not
  set is absent.\<close>

definition blank_user :: "string \<Rightarrow> user_node" where
  "blank_user e = \<lparr>u_id = '''', u_email = e, u_name = '''', u_hashed_password = '''',
     u_github_username = None, u_subscription_type = None, u_subscription_updated_at = None,
     u_subscription_ends_at = None, u_is_admin = None, u_auto_progress = None, u_locale = None,
     u_is_suspended = None, u_suspended_at = None, u_suspended_reason = None,
     u_suspended_by_email = None, u_unsuspended_at = None, u_created_at = None,
     u_updated_at = None, u_last_active_at = None, u_created = None,
     u_usage_meeting_count = None, u_usage_total_tokens = None, u_usage_total_chars = None,
     u_usage_lite_tokens = None, u_usage_lite_daily_tokens = None, u_usage_reset_at = None,
     u_usage_lite_daily_reset_at = None, u_usage_updated_at = None,
     u_github_id = None, u_github_access_token = None, u_github_scopes = None,
     u_github_linked_at = None, u_google_id = None, u_google_email = None,
     u_google_linked_at = None, u_notion_access_token = None, u_notion_workspace_id = None,
     u_notion_workspace_name = None, u_notion_bot_id = None, u_notion_linked_at = None,
     u_notion_export_map = None\<rparr>"

section \<open>Matching and updating users\<close>

abbreviation users_with :: "string \<Rightarrow> graph \<Rightarrow> user_node list" where
  "users_with e g \<equiv> match_on u_email e (g_users g)"

definition set_users :: "string \<Rightarrow> (user_node \<Rightarrow> user_node) \<Rightarrow> graph \<Rightarrow> graph" where
  "set_users e f g = g\<lparr>g_users := set_on u_email e f (g_users g)\<rparr>"

definition find_user :: "string \<Rightarrow> graph \<Rightarrow> user_node option" where
  "find_user e g = row1 (users_with e g)"

text \<open>The constraint user_email_unique.\<close>

definition users_ok :: "graph \<Rightarrow> bool" where
  "users_ok g = unique_key u_email (g_users g)"

lemma set_users_sel [simp]:
  "g_users (set_users e f g) = set_on u_email e f (g_users g)"
  "g_projects (set_users e f g) = g_projects g"
  "g_owns (set_users e f g) = g_owns g"
  "g_teams (set_users e f g) = g_teams g"
  "g_members (set_users e f g) = g_members g"
  "g_has_project (set_users e f g) = g_has_project g"
  "g_vibe (set_users e f g) = g_vibe g"
  "g_subchanges (set_users e f g) = g_subchanges g"
  by (simp_all add: set_users_def)

lemma find_set_users_same [table_simps]:
  assumes "\<And>u. u_email (f u) = u_email u"
  shows "find_user e (set_users e f g) = map_option f (find_user e g)"
  using assms by (simp add: find_user_def match_on_set_same)

lemma find_set_users_other [table_simps]:
  assumes "\<And>u. u_email (f u) = u_email u" "e' \<noteq> e"
  shows "find_user e' (set_users e f g) = find_user e' g"
  using assms by (simp add: find_user_def match_on_set_other)

lemma users_ok_set_users [inv_intros]:
  assumes "users_ok g" "\<And>u. u_email (f u) = u_email u"
  shows "users_ok (set_users e f g)"
  using assms by (simp add: users_ok_def unique_key_set_on)

lemma find_user_email: "find_user e g = Some u \<Longrightarrow> u_email u = e"
  by (cases "users_with e g") (auto simp: find_user_def intro: match_on_key[of u u_email e "g_users g"])

lemma find_user_None_iff: "find_user e g = None \<longleftrightarrow> users_with e g = []"
  by (simp add: find_user_def)

lemma users_ok_rows:
  "users_ok g \<Longrightarrow> find_user e g = Some u \<Longrightarrow> users_with e g = [u]"
  using unique_key_match[of u_email "g_users g" e] by (auto simp: users_ok_def find_user_def)

lemma users_ok_empty [simp]: "users_ok empty_graph"
  by (simp add: users_ok_def unique_key_def empty_graph_def)

section \<open>Running one query: neo4j_client.run_cypher\<close>

datatype neo4j_error = ServiceUnavailable | OtherNeo4jError | ConfigError

text \<open>What the driver does on one attempt; the server outcome is an input.\<close>

datatype attempt = Runs | Unavailable | Fails

definition run_cypher_max_attempts :: nat where
  "run_cypher_max_attempts = 3"

text \<open>The loop \<open>for attempt in range(3)\<close>: n attempts are left, d is the number of the
  next one and \<open>outs d\<close> what happens to it. The result holds the rows or the raised
  error, the graph, the number of attempts made and the sleeps (in half seconds).
  ServiceUnavailable means that the query was not executed.\<close>

fun run_cypher_loop ::
  "nat \<Rightarrow> nat \<Rightarrow> (nat \<Rightarrow> attempt) \<Rightarrow> ('g \<Rightarrow> 'r \<times> 'g) \<Rightarrow> 'g
   \<Rightarrow> (neo4j_error + 'r) \<times> 'g \<times> nat \<times> nat list" where
  "run_cypher_loop 0 d outs q g = (Inl ServiceUnavailable, g, d, [])"
| "run_cypher_loop (Suc n) d outs q g =
     (case outs d of
        Runs \<Rightarrow> (let (r, g') = q g in (Inr r, g', Suc d, []))
      | Fails \<Rightarrow> (Inl OtherNeo4jError, g, Suc d, [])
      | Unavailable \<Rightarrow>
          (if n > 0
           then (let (r, g', k, sl) = run_cypher_loop n (Suc d) outs q g
                 in (r, g', k, Suc d # sl))
           else (Inl ServiceUnavailable, g, Suc d, [])))"

definition run_cypher ::
  "bool \<Rightarrow> (nat \<Rightarrow> attempt) \<Rightarrow> ('g \<Rightarrow> 'r \<times> 'g) \<Rightarrow> 'g
   \<Rightarrow> (neo4j_error + 'r) \<times> 'g \<times> nat \<times> nat list" where
  "run_cypher configured outs q g =
     (if \<not> configured then (Inl ConfigError, g, 0, [])
      else run_cypher_loop run_cypher_max_attempts 0 outs q g)"

text \<open>run_in_transaction: the operations run in order inside one write
  transaction; a failure rolls the graph back. The flags say which operation
  the server fails.\<close>

fun unit_of_work :: "(('g \<Rightarrow> 'r \<times> 'g) \<times> bool) list \<Rightarrow> 'g \<Rightarrow> ('r list \<times> 'g) option" where
  "unit_of_work [] g = Some ([], g)"
| "unit_of_work ((q, ok) # ops) g =
     (if \<not> ok then None
      else let (r, g') = q g in
        (case unit_of_work ops g' of None \<Rightarrow> None | Some (rs, g'') \<Rightarrow> Some (r # rs, g'')))"

definition run_in_transaction ::
  "(('g \<Rightarrow> 'r \<times> 'g) \<times> bool) list \<Rightarrow> 'g \<Rightarrow> (neo4j_error + 'r list) \<times> 'g" where
  "run_in_transaction ops g =
     (if ops = [] then (Inr [], g)
      else case unit_of_work ops g of
             None \<Rightarrow> (Inl OtherNeo4jError, g)
           | Some (rs, g') \<Rightarrow> (Inr rs, g'))"

lemma run_cypher_loop_attempts:
  "run_cypher_loop n d outs q g = (r, g', k, sl) \<Longrightarrow> d \<le> k \<and> k \<le> d + n \<and> length sl \<le> n"
  by (induction n arbitrary: d r g' k sl)
     (fastforce split: attempt.splits prod.splits if_splits simp: Let_def)+

lemma run_cypher_loop_error_frame:
  "run_cypher_loop n d outs q g = (Inl e, g', k, sl) \<Longrightarrow> g' = g"
  by (induction n arbitrary: d e g' k sl)
     (fastforce split: attempt.splits prod.splits if_splits simp: Let_def)+

lemma run_cypher_loop_success:
  "run_cypher_loop n d outs q g = (Inr r, g', k, sl) \<Longrightarrow> (r, g') = q g"
  by (induction n arbitrary: d r g' k sl)
     (fastforce split: attempt.splits prod.splits if_splits simp: Let_def)+

lemma unit_of_work_prefix:
  "unit_of_work ops g = Some (rs, g') \<Longrightarrow>
     length rs = length ops \<and> g' = fold (\<lambda>(q, _) s. snd (q s)) ops g"
  by (induction ops arbitrary: g rs)
     (auto split: if_splits prod.splits option.splits simp: Let_def)

end
