(* ===== verification/Users.thy ===== *)
theory Users
  imports GraphStore
begin

text \<open>
  src/app/service/user_repository.py: every Cypher statement is a function on
  the graph that returns its rows, every Python function the value computed from
  the first row. \<open>now\<close> is the transaction's datetime(), \<open>uuid\<close> the value of
  randomUUID(), \<open>plus_month\<close> the database's \<open>+ duration({months: 1})\<close>. The
  functions describe a call whose query runs; a query that raises leaves the
  graph unchanged (GraphStore.run_cypher), and the functions that catch the
  exception take the flag \<open>db_ok\<close>.
\<close>

definition SUBSCRIPTION_FREE :: string where "SUBSCRIPTION_FREE = ''free''"
definition SUBSCRIPTION_PRO :: string where "SUBSCRIPTION_PRO = ''pro''"

record user_in_db =
  d_id :: string
  d_email :: string
  d_name :: string
  d_hashed_password :: string
  d_github_username :: "string option"
  d_created_at :: "instant option"
  d_updated_at :: "instant option"
  d_subscription_type :: string
  d_is_admin :: bool
  d_auto_progress :: bool
  d_locale :: string
  d_is_suspended :: bool
  d_suspended_at :: "instant option"
  d_suspended_reason :: "string option"
  d_suspended_by_email :: "string option"
  d_unsuspended_at :: "instant option"

record user_public =
  b_id :: string
  b_email :: string
  b_name :: string
  b_github_username :: "string option"
  b_created_at :: "instant option"
  b_subscription_type :: string
  b_is_admin :: bool
  b_auto_progress :: bool
  b_locale :: string

definition from_db :: "user_in_db \<Rightarrow> user_public" where
  "from_db d = \<lparr>b_id = d_id d, b_email = d_email d, b_name = d_name d,
     b_github_username = d_github_username d, b_created_at = d_created_at d,
     b_subscription_type = d_subscription_type d, b_is_admin = d_is_admin d,
     b_auto_progress = d_auto_progress d, b_locale = d_locale d\<rparr>"

section \<open>Sign-up\<close>

datatype create_status = Created | Conflict

text \<open>_CREATE_USER_CYPHER: MERGE on the email; ON MATCH only clears the marker
  property \<open>created\<close>. The row carries the status and the node.\<close>

definition create_user_new ::
  "(instant \<Rightarrow> instant) \<Rightarrow> instant \<Rightarrow> string \<Rightarrow> string \<Rightarrow> string \<Rightarrow> string \<Rightarrow> user_node" where
  "create_user_new plus_month now uuid e nm hp = (blank_user e)
     \<lparr>u_id := uuid, u_name := nm, u_hashed_password := hp, u_github_username := Some '''',
      u_subscription_type := Some ''free'', u_subscription_updated_at := Some now,
      u_is_admin := Some False, u_created_at := Some now, u_updated_at := Some now,
      u_usage_reset_at := Some (plus_month now), u_created := Some True\<rparr>"

definition create_rows :: "string \<Rightarrow> graph \<Rightarrow> (create_status \<times> user_node) list" where
  "create_rows e g = map (\<lambda>u. (if u_created u = Some True then Created else Conflict, u)) (users_with e g)"

definition create_user_cypher ::
  "(instant \<Rightarrow> instant) \<Rightarrow> instant \<Rightarrow> string \<Rightarrow> string \<Rightarrow> string \<Rightarrow> string
   \<Rightarrow> graph \<Rightarrow> (create_status \<times> user_node) list \<times> graph" where
  "create_user_cypher plus_month now uuid e nm hp g =
     (let g' = g\<lparr>g_users := merge_on u_email e (create_user_new plus_month now uuid e nm hp)
                              (\<lambda>u. u\<lparr>u_created := Some False\<rparr>) (g_users g)\<rparr>
      in (create_rows e g', g'))"

definition create_user_from_github_new ::
  "(instant \<Rightarrow> instant) \<Rightarrow> instant \<Rightarrow> string \<Rightarrow> string \<Rightarrow> string \<Rightarrow> int \<Rightarrow> string \<Rightarrow> string \<Rightarrow> string
   \<Rightarrow> user_node" where
  "create_user_from_github_new plus_month now uuid e nm gid gname enc scopes = (blank_user e)
     \<lparr>u_id := uuid, u_name := nm, u_hashed_password := '''', u_github_id := Some gid,
      u_github_username := Some gname, u_github_access_token := Some enc,
      u_github_scopes := Some scopes, u_github_linked_at := Some now,
      u_subscription_type := Some ''free'', u_subscription_updated_at := Some now,
      u_is_admin := Some False, u_created_at := Some now, u_updated_at := Some now,
      u_usage_reset_at := Some (plus_month now), u_created := Some True\<rparr>"

definition create_user_from_github_cypher ::
  "(instant \<Rightarrow> instant) \<Rightarrow> instant \<Rightarrow> string \<Rightarrow> string \<Rightarrow> string \<Rightarrow> int \<Rightarrow> string \<Rightarrow> string \<Rightarrow> string
   \<Rightarrow> graph \<Rightarrow> (create_status \<times> user_node) list \<times> graph" where
  "create_user_from_github_cypher plus_month now uuid e nm gid gname enc scopes g =
     (let g' = g\<lparr>g_users := merge_on u_email e
                    (create_user_from_github_new plus_month now uuid e nm gid gname enc scopes)
                    (\<lambda>u. u\<lparr>u_created := Some False\<rparr>) (g_users g)\<rparr>
      in (create_rows e g', g'))"

text \<open>_CREATE_USER_FROM_GOOGLE_CYPHER sets no usage_reset_at.\<close>

definition create_user_from_google_new ::
  "instant \<Rightarrow> string \<Rightarrow> string \<Rightarrow> string \<Rightarrow> string \<Rightarrow> user_node" where
  "create_user_from_google_new now uuid e nm gid = (blank_user e)
     \<lparr>u_id := uuid, u_name := nm, u_hashed_password := '''', u_google_id := Some gid,
      u_google_email := Some e, u_google_linked_at := Some now,
      u_subscription_type := Some ''free'', u_subscription_updated_at := Some now,
      u_is_admin := Some False, u_created_at := Some now, u_updated_at := Some now,
      u_created := Some True\<rparr>"

definition create_user_from_google_cypher ::
  "instant \<Rightarrow> string \<Rightarrow> string \<Rightarrow> string \<Rightarrow> string
   \<Rightarrow> graph \<Rightarrow> (create_status \<times> user_node) list \<times> graph" where
  "create_user_from_google_cypher now uuid e nm gid g =
     (let g' = g\<lparr>g_users := merge_on u_email e (create_user_from_google_new now uuid e nm gid)
                    (\<lambda>u. u\<lparr>u_created := Some False\<rparr>) (g_users g)\<rparr>
      in (create_rows e g', g'))"

text \<open>\<open>_row_to_public\<close>; the OAuth rows carry neither auto_progress nor locale.\<close>

definition row_to_public :: "user_node \<Rightarrow> user_public option" where
  "row_to_public u =
     (if u_email u = '''' then None
      else Some \<lparr>b_id = u_id u, b_email = u_email u, b_name = u_name u,
        b_github_username = or_none (u_github_username u), b_created_at = u_created_at u,
        b_subscription_type = py_or (Some (coalesce (u_subscription_type u) ''free'')) SUBSCRIPTION_FREE,
        b_is_admin = coalesce (u_is_admin u) False, b_auto_progress = True, b_locale = ''ko''\<rparr>)"

definition oauth_create_result ::
  "(create_status \<times> user_node) list \<times> graph \<Rightarrow> (user_public option \<times> bool) \<times> graph" where
  "oauth_create_result p =
     (case row1 (fst p) of
        None \<Rightarrow> (None, False)
      | Some (st, u) \<Rightarrow> (row_to_public u, st = Created), snd p)"

definition create_user_from_github ::
  "(string \<Rightarrow> string) \<Rightarrow> (instant \<Rightarrow> instant) \<Rightarrow> instant \<Rightarrow> string \<Rightarrow> string \<Rightarrow> string \<Rightarrow> int
   \<Rightarrow> string \<Rightarrow> string \<Rightarrow> string \<Rightarrow> graph \<Rightarrow> (user_public option \<times> bool) \<times> graph" where
  "create_user_from_github encrypt plus_month now uuid e nm gid gname tok scopes g =
     oauth_create_result (create_user_from_github_cypher plus_month now uuid e nm gid gname
       (encrypt tok) scopes g)"

definition create_user_from_google ::
  "instant \<Rightarrow> string \<Rightarrow> string \<Rightarrow> string \<Rightarrow> string \<Rightarrow> graph \<Rightarrow> (user_public option \<times> bool) \<times> graph" where
  "create_user_from_google now uuid e nm gid g =
     oauth_create_result (create_user_from_google_cypher now uuid e nm gid g)"

section \<open>Reading and updating one user\<close>

text \<open>get_user_by_email with the defaults of _GET_USER_BY_EMAIL_CYPHER.\<close>

definition to_user_in_db :: "user_node \<Rightarrow> user_in_db" where
  "to_user_in_db u = \<lparr>d_id = u_id u, d_email = u_email u, d_name = u_name u,
     d_hashed_password = u_hashed_password u,
     d_github_username = or_none (Some (coalesce (u_github_username u) '''')),
     d_created_at = u_created_at u, d_updated_at = u_updated_at u,
     d_subscription_type = py_or (Some (coalesce (u_subscription_type u) ''free'')) SUBSCRIPTION_FREE,
     d_is_admin = coalesce (u_is_admin u) False,
     d_auto_progress = coalesce (u_auto_progress u) True,
     d_locale = py_or (Some (coalesce (u_locale u) ''ko'')) ''ko'',
     d_is_suspended = coalesce (u_is_suspended u) False,
     d_suspended_at = u_suspended_at u,
     d_suspended_reason = or_none (Some (coalesce (u_suspended_reason u) '''')),
     d_suspended_by_email = or_none (Some (coalesce (u_suspended_by_email u) '''')),
     d_unsuspended_at = u_unsuspended_at u\<rparr>"

definition get_user_by_email :: "string \<Rightarrow> graph \<Rightarrow> user_in_db option" where
  "get_user_by_email e g =
     (case find_user e g of
        None \<Rightarrow> None
      | Some u \<Rightarrow> if u_email u = '''' then None else Some (to_user_in_db u))"

definition update_user_set ::
  "instant \<Rightarrow> string option \<Rightarrow> string option \<Rightarrow> bool option \<Rightarrow> string option \<Rightarrow> user_node \<Rightarrow> user_node" where
  "update_user_set now nm gh ap loc u = u
     \<lparr>u_name := (if nm \<noteq> None \<and> nm \<noteq> Some '''' then the nm else u_name u),
      u_github_username := (if gh \<noteq> None then gh else Some (coalesce (u_github_username u) '''')),
      u_auto_progress := (if ap \<noteq> None then ap else Some (coalesce (u_auto_progress u) True)),
      u_locale := (if loc \<noteq> None \<and> loc \<noteq> Some '''' then loc else Some (coalesce (u_locale u) ''ko'')),
      u_updated_at := Some now\<rparr>"

text \<open>update_user: the created_at of the answer is the updated_at of the row.\<close>

definition update_user_public :: "user_node \<Rightarrow> user_public option" where
  "update_user_public u =
     (if u_email u = '''' then None
      else Some \<lparr>b_id = u_id u, b_email = u_email u, b_name = u_name u,
        b_github_username = or_none (Some (coalesce (u_github_username u) '''')),
        b_created_at = u_updated_at u,
        b_subscription_type = py_or (Some (coalesce (u_subscription_type u) ''free'')) SUBSCRIPTION_FREE,
        b_is_admin = coalesce (u_is_admin u) False,
        b_auto_progress = coalesce (u_auto_progress u) True,
        b_locale = py_or (Some (coalesce (u_locale u) ''ko'')) ''ko''\<rparr>)"

definition update_user ::
  "instant \<Rightarrow> string \<Rightarrow> string option \<Rightarrow> string option \<Rightarrow> bool option \<Rightarrow> string option
   \<Rightarrow> graph \<Rightarrow> user_public option \<times> graph" where
  "update_user now e nm gh ap loc g =
     (let g' = set_users e (update_user_set now nm gh ap loc) g
      in (Option.bind (find_user e g') update_user_public, g'))"

text \<open>\<open>bool(row and row.get("email"))\<close> on the first row after an update.\<close>

definition row_email_true :: "string \<Rightarrow> graph \<Rightarrow> bool" where
  "row_email_true e g = (case find_user e g of None \<Rightarrow> False | Some u \<Rightarrow> u_email u \<noteq> '''')"

definition set_password :: "instant \<Rightarrow> string \<Rightarrow> string \<Rightarrow> graph \<Rightarrow> bool \<times> graph" where
  "set_password now e hp g =
     (let g' = set_users e (\<lambda>u. u\<lparr>u_hashed_password := hp, u_updated_at := Some now\<rparr>) g
      in (row_email_true e g', g'))"

definition touch_last_active :: "bool \<Rightarrow> instant \<Rightarrow> string \<Rightarrow> graph \<Rightarrow> graph" where
  "touch_last_active db_ok now e g =
     (if db_ok then set_users e (\<lambda>u. u\<lparr>u_last_active_at := Some now\<rparr>) g else g)"

section \<open>Administrators\<close>

definition is_admin_node :: "user_node \<Rightarrow> bool" where
  "is_admin_node u = (u_is_admin u = Some True)"

definition admin_count :: "graph \<Rightarrow> nat" where
  "admin_count g = length (filter is_admin_node (g_users g))"

definition needs_defaults :: "user_node \<Rightarrow> bool" where
  "needs_defaults u = (u_subscription_type u = None \<or> u_is_admin u = None \<or> u_is_suspended u = None)"

definition set_defaults :: "instant \<Rightarrow> user_node \<Rightarrow> user_node" where
  "set_defaults now u = u
     \<lparr>u_subscription_type := Some (coalesce (u_subscription_type u) ''free''),
      u_subscription_updated_at := Some (coalesce (u_subscription_updated_at u) now),
      u_is_admin := Some (coalesce (u_is_admin u) False),
      u_is_suspended := Some (coalesce (u_is_suspended u) False)\<rparr>"

text \<open>_MIGRATE_USER_DEFAULTS_CYPHER returns the number of nodes it changed.\<close>

definition migrate_user_defaults :: "bool \<Rightarrow> instant \<Rightarrow> graph \<Rightarrow> nat \<times> graph" where
  "migrate_user_defaults db_ok now g =
     (if \<not> db_ok then (0, g)
      else (length (filter needs_defaults (g_users g)),
            g\<lparr>g_users := map (\<lambda>u. if needs_defaults u then set_defaults now u else u) (g_users g)\<rparr>))"

fun promote_unwind :: "instant \<Rightarrow> string list \<Rightarrow> graph \<Rightarrow> string list \<times> graph" where
  "promote_unwind now [] g = ([], g)"
| "promote_unwind now (e # es) g =
     (let g' = set_users e (\<lambda>u. u\<lparr>u_is_admin := Some True, u_updated_at := Some now\<rparr>) g;
          (rs, g'') = promote_unwind now es g'
      in (map u_email (users_with e g') @ rs, g''))"

definition promote_admins_by_emails ::
  "bool \<Rightarrow> instant \<Rightarrow> string list \<Rightarrow> graph \<Rightarrow> string list \<times> graph" where
  "promote_admins_by_emails db_ok now es g =
     (if es = [] \<or> \<not> db_ok then ([], g) else promote_unwind now (map lower es) g)"

section \<open>Account deletion\<close>

datatype delete_status = Deleted | LastAdmin | NotFound

definition would_orphan :: "graph \<Rightarrow> user_node \<Rightarrow> bool" where
  "would_orphan g u = (coalesce (u_is_admin u) False \<and> admin_count g \<le> 1)"

text \<open>DETACH DELETE u with the VibeRepo and SubscriptionChange nodes that hang
  on the user; the Project nodes stay.\<close>

definition detach_user :: "(user_node \<Rightarrow> bool) \<Rightarrow> string \<Rightarrow> graph \<Rightarrow> graph" where
  "detach_user del e g = g
     \<lparr>g_users := filter (\<lambda>u. \<not> del u) (g_users g),
      g_owns := filter (\<lambda>r. o_user r \<noteq> e) (g_owns g),
      g_members := filter (\<lambda>m. fst m \<noteq> e) (g_members g),
      g_vibe := filter (\<lambda>v. \<not> (v_owner v = e \<and> v_user_email v = e)) (g_vibe g),
      g_subchanges := filter (\<lambda>s. s \<noteq> e) (g_subchanges g)\<rparr>"

text \<open>_DELETE_USER_CYPHER. The CALL subquery starts with
  \<open>WITH u WHERE NOT would_orphan\<close> and returns one row per user it deleted; for a
  user that would be orphaned it returns none, and CALL then drops the outer row
  before the final RETURN can name the status last_admin.\<close>

definition call_subquery :: "graph \<Rightarrow> user_node \<Rightarrow> string list" where
  "call_subquery g u = (if \<not> would_orphan g u then [u_email u] else [])"

definition delete_user_cypher :: "string \<Rightarrow> graph \<Rightarrow> delete_status list \<times> graph" where
  "delete_user_cypher e g =
     (let rows = concat (map (\<lambda>u. map (\<lambda>_. u) (call_subquery g u)) (users_with e g));
          del = (\<lambda>u. u_email u = e \<and> \<not> would_orphan g u)
      in (map (\<lambda>u. if would_orphan g u then LastAdmin else Deleted) rows,
          if rows = [] then g else detach_user del e g))"

definition delete_user :: "string \<Rightarrow> graph \<Rightarrow> delete_status \<times> graph" where
  "delete_user e g =
     (let (rows, g') = delete_user_cypher e g
      in (case row1 rows of None \<Rightarrow> NotFound | Some st \<Rightarrow> st, g'))"

definition list_owned_project_names :: "string \<Rightarrow> graph \<Rightarrow> string list" where
  "list_owned_project_names e g =
     concat (map (\<lambda>_. filter (\<lambda>n. n \<noteq> '''')
       (concat (map (\<lambda>r. map p_name (filter (\<lambda>p. p_nid p = o_project r \<and> p_owner_email p = Some e)
          (g_projects g))) (filter (\<lambda>r. o_user r = e) (g_owns g))))) (users_with e g))"

section \<open>Linked accounts\<close>

datatype unique_violation = UniqueViolation

definition find_by_github_id :: "int \<Rightarrow> graph \<Rightarrow> user_public option" where
  "find_by_github_id gid g =
     Option.bind (row1 (filter (\<lambda>u. u_github_id u = Some gid) (g_users g))) row_to_public"

definition get_user_by_google_id :: "string \<Rightarrow> graph \<Rightarrow> user_public option" where
  "get_user_by_google_id gid g =
     Option.bind (row1 (filter (\<lambda>u. u_google_id u = Some gid) (g_users g))) row_to_public"

text \<open>The UNIQUE constraints on github_id and google_id are created at boot;
  \<open>enforced\<close> says whether that succeeded.\<close>

definition link_github ::
  "bool \<Rightarrow> (string \<Rightarrow> string) \<Rightarrow> instant \<Rightarrow> string \<Rightarrow> int \<Rightarrow> string \<Rightarrow> string \<Rightarrow> string
   \<Rightarrow> graph \<Rightarrow> (unique_violation + user_public option) \<times> graph" where
  "link_github enforced encrypt now e gid gname tok scopes g =
     (let g' = set_users e (\<lambda>u. u\<lparr>u_github_id := Some gid, u_github_username := Some gname,
                 u_github_access_token := Some (encrypt tok), u_github_scopes := Some scopes,
                 u_github_linked_at := Some now, u_updated_at := Some now\<rparr>) g
      in if enforced \<and> users_with e g \<noteq> []
            \<and> (\<exists>u \<in> set (g_users g). u_email u \<noteq> e \<and> u_github_id u = Some gid)
         then (Inl UniqueViolation, g)
         else (Inr (Option.bind (find_user e g') row_to_public), g'))"

definition unlink_github :: "instant \<Rightarrow> string \<Rightarrow> graph \<Rightarrow> bool \<times> graph" where
  "unlink_github now e g =
     (let g' = set_users e (\<lambda>u. u\<lparr>u_github_id := None, u_github_access_token := None,
                 u_github_scopes := None, u_github_linked_at := None,
                 u_github_username := Some '''', u_updated_at := Some now\<rparr>) g
      in (row_email_true e g', g'))"

text \<open>get_github_access_token: decryption failure is None (try_decrypt).\<close>

definition get_github_access_token ::
  "(string \<Rightarrow> string option) \<Rightarrow> string \<Rightarrow> graph \<Rightarrow> string option" where
  "get_github_access_token try_decrypt e g =
     (case find_user e g of
        None \<Rightarrow> None
      | Some u \<Rightarrow> (let enc = coalesce (u_github_access_token u) ''''
                   in if enc = '''' then None else try_decrypt enc))"

definition link_google ::
  "bool \<Rightarrow> instant \<Rightarrow> string \<Rightarrow> string \<Rightarrow> string
   \<Rightarrow> graph \<Rightarrow> (unique_violation + user_public option) \<times> graph" where
  "link_google enforced now e gid gmail g =
     (let g' = set_users e (\<lambda>u. u\<lparr>u_google_id := Some gid, u_google_email := Some gmail,
                 u_google_linked_at := Some now, u_updated_at := Some now\<rparr>) g
      in if enforced \<and> users_with e g \<noteq> []
            \<and> (\<exists>u \<in> set (g_users g). u_email u \<noteq> e \<and> u_google_id u = Some gid)
         then (Inl UniqueViolation, g)
         else (Inr (Option.bind (find_user e g') row_to_public), g'))"

definition unlink_google :: "instant \<Rightarrow> string \<Rightarrow> graph \<Rightarrow> bool \<times> graph" where
  "unlink_google now e g =
     (let g' = set_users e (\<lambda>u. u\<lparr>u_google_id := None, u_google_email := None,
                 u_google_linked_at := None, u_updated_at := Some now\<rparr>) g
      in (row_email_true e g', g'))"

record notion_info =
  ni_workspace_id :: string
  ni_workspace_name :: string
  ni_bot_id :: string
  ni_access_token :: "string option"
  ni_linked_at :: "instant option"

definition link_notion ::
  "(string \<Rightarrow> string) \<Rightarrow> instant \<Rightarrow> string \<Rightarrow> string \<Rightarrow> string option \<Rightarrow> string option \<Rightarrow> string option
   \<Rightarrow> graph \<Rightarrow> string option \<times> graph" where
  "link_notion encrypt now e tok wid wname botid g =
     (let g' = set_users e (\<lambda>u. u\<lparr>u_notion_access_token := Some (encrypt tok),
                 u_notion_workspace_id := Some (py_or wid ''''),
                 u_notion_workspace_name := Some (py_or wname ''''),
                 u_notion_bot_id := Some (py_or botid ''''),
                 u_notion_linked_at := Some now, u_updated_at := Some now\<rparr>) g
      in (case find_user e g' of
            None \<Rightarrow> None
          | Some u \<Rightarrow> Some (py_or (u_notion_workspace_name u) ''''), g'))"

definition unlink_notion :: "instant \<Rightarrow> string \<Rightarrow> graph \<Rightarrow> bool \<times> graph" where
  "unlink_notion now e g =
     (let g' = set_users e (\<lambda>u. u\<lparr>u_notion_access_token := None, u_notion_workspace_id := None,
                 u_notion_workspace_name := None, u_notion_bot_id := None,
                 u_notion_linked_at := None, u_notion_export_map := None,
                 u_updated_at := Some now\<rparr>) g
      in (row_email_true e g', g'))"

definition get_notion_info ::
  "(string \<Rightarrow> string option) \<Rightarrow> string \<Rightarrow> graph \<Rightarrow> notion_info option" where
  "get_notion_info try_decrypt e g =
     (case find_user e g of
        None \<Rightarrow> None
      | Some u \<Rightarrow>
         (case or_none (u_notion_access_token u) of
            None \<Rightarrow> None
          | Some enc \<Rightarrow> Some \<lparr>ni_workspace_id = py_or (u_notion_workspace_id u) '''',
              ni_workspace_name = py_or (u_notion_workspace_name u) '''',
              ni_bot_id = py_or (u_notion_bot_id u) '''',
              ni_access_token = try_decrypt enc, ni_linked_at = u_notion_linked_at u\<rparr>))"

section \<open>The Notion export map\<close>

definition load_notion_export_map :: "string \<Rightarrow> graph \<Rightarrow> (string \<times> export_value) list" where
  "load_notion_export_map e g =
     (case Option.bind (find_user e g) u_notion_export_map of
        Some (JsonObject m) \<Rightarrow> m
      | _ \<Rightarrow> [])"

definition get_notion_export_map :: "string \<Rightarrow> string \<Rightarrow> graph \<Rightarrow> export_entry option" where
  "get_notion_export_map e proj g =
     (case map_of (load_notion_export_map e g) proj of
        Some (EntryDict d) \<Rightarrow> Some d
      | _ \<Rightarrow> None)"

definition empty_entry :: export_entry where
  "empty_entry = \<lparr>e_hub_page_id = None, e_cps_page_id = None, e_prd_page_id = None,
     e_design_page_id = None, e_synced_at = None\<rparr>"

definition keep_or :: "'a option \<Rightarrow> 'a option \<Rightarrow> 'a option" where
  "keep_or new old = (if Option.is_none new then old else new)"

text \<open>A dict assignment keeps the position of a key it already has.\<close>

fun dict_set :: "'k \<Rightarrow> 'v \<Rightarrow> ('k \<times> 'v) list \<Rightarrow> ('k \<times> 'v) list" where
  "dict_set k v [] = [(k, v)]"
| "dict_set k v ((k', v') # m) = (if k' = k then (k, v) # m else (k', v') # dict_set k v m)"

text \<open>save_notion_export_map: None when \<open>dict(entry)\<close> raises because the stored
  entry is neither a dict nor falsy; otherwise the new graph.\<close>

definition save_notion_export_map ::
  "instant \<Rightarrow> int \<Rightarrow> string \<Rightarrow> string \<Rightarrow> string option \<Rightarrow> string option \<Rightarrow> string option \<Rightarrow> string option
   \<Rightarrow> graph \<Rightarrow> graph option" where
  "save_notion_export_map now epoch_ms e proj hub cps prd design g =
     (let m = load_notion_export_map e g;
          old = (case map_of m proj of
                   Some (EntryDict d) \<Rightarrow> Some d
                 | Some OtherValue \<Rightarrow> None
                 | _ \<Rightarrow> Some empty_entry)
      in (case old of
            None \<Rightarrow> None
          | Some d \<Rightarrow>
             (let d' = \<lparr>e_hub_page_id = keep_or hub (e_hub_page_id d),
                        e_cps_page_id = keep_or cps (e_cps_page_id d),
                        e_prd_page_id = keep_or prd (e_prd_page_id d),
                        e_design_page_id = keep_or design (e_design_page_id d),
                        e_synced_at = Some epoch_ms\<rparr>
              in Some (set_users e (\<lambda>u. u\<lparr>u_notion_export_map :=
                          Some (JsonObject (dict_set proj (EntryDict d') m)),
                        u_updated_at := Some now\<rparr>) g))))"

section \<open>Invariants\<close>

lemma users_ok_merge:
  assumes "users_ok g" "u_email new = e" "\<And>u. u_email u = e \<Longrightarrow> u_email (f u) = e"
  shows "users_ok (g\<lparr>g_users := merge_on u_email e new f (g_users g)\<rparr>)"
  using assms by (simp add: users_ok_def unique_key_merge_on)

lemma create_user_new_email [simp]:
  "u_email (create_user_new pm now uuid e nm hp) = e"
  "u_email (create_user_from_github_new pm now uuid e nm gid gname enc sc) = e"
  "u_email (create_user_from_google_new now uuid e nm ggid) = e"
  by (simp_all add: create_user_new_def create_user_from_github_new_def
      create_user_from_google_new_def blank_user_def)

lemma users_ok_create [inv_intros]:
  "users_ok g \<Longrightarrow> users_ok (snd (create_user_cypher pm now uuid e nm hp g))"
  "users_ok g \<Longrightarrow> users_ok (snd (create_user_from_github encr pm now uuid e nm gid gname tok sc g))"
  "users_ok g \<Longrightarrow> users_ok (snd (create_user_from_google now uuid e nm ggid g))"
  by (simp_all add: create_user_cypher_def create_user_from_github_def
      create_user_from_github_cypher_def create_user_from_google_def
      create_user_from_google_cypher_def oauth_create_result_def Let_def users_ok_merge)

lemma users_ok_update [inv_intros]:
  assumes "users_ok g"
  shows "users_ok (snd (update_user now e nm gh ap loc g))"
    "users_ok (snd (set_password now e hp g))"
    "users_ok (touch_last_active ok now e g)"
    "users_ok (snd (link_github enf encr now e gid gname tok sc g))"
    "users_ok (snd (unlink_github now e g))"
    "users_ok (snd (link_google enf now e ggid gmail g))"
    "users_ok (snd (unlink_google now e g))"
    "users_ok (snd (link_notion encr now e tok wid wn bid g))"
    "users_ok (snd (unlink_notion now e g))"
  using assms
  by (auto simp: update_user_def update_user_set_def set_password_def touch_last_active_def
      link_github_def unlink_github_def link_google_def unlink_google_def link_notion_def
      unlink_notion_def Let_def intro!: users_ok_set_users)

lemma users_ok_migrate [inv_intros]:
  "users_ok g \<Longrightarrow> users_ok (snd (migrate_user_defaults ok now g))"
  by (simp add: migrate_user_defaults_def users_ok_def unique_key_def set_defaults_def comp_def if_distrib
      cong: if_cong map_cong)

lemma users_ok_promote_unwind:
  "users_ok g \<Longrightarrow> users_ok (snd (promote_unwind now es g))"
  by (induction es arbitrary: g)
     (simp_all add: Let_def split_beta users_ok_set_users)

lemma users_ok_promote [inv_intros]:
  "users_ok g \<Longrightarrow> users_ok (snd (promote_admins_by_emails ok now es g))"
  by (simp add: promote_admins_by_emails_def users_ok_promote_unwind)

lemma users_ok_delete [inv_intros]:
  "users_ok g \<Longrightarrow> users_ok (snd (delete_user e g))"
  by (simp add: delete_user_def delete_user_cypher_def Let_def detach_user_def users_ok_def
      unique_key_filter)

section \<open>Deletion keeps an administrator\<close>

lemma delete_rows:
  assumes "users_ok g"
  shows "delete_user e g =
    (case find_user e g of
       None \<Rightarrow> (NotFound, g)
     | Some u \<Rightarrow> if would_orphan g u then (NotFound, g)
                 else (Deleted, detach_user (\<lambda>u. u_email u = e \<and> \<not> would_orphan g u) e g))"
proof (cases "find_user e g")
  case None
  moreover from None have "users_with e g = []" by (simp add: find_user_None_iff)
  ultimately show ?thesis
    by (simp add: delete_user_def delete_user_cypher_def)
next
  case (Some u)
  then have "users_with e g = [u]" using assms by (rule users_ok_rows[rotated])
  with Some show ?thesis
    by (simp add: delete_user_def delete_user_cypher_def call_subquery_def)
qed


lemma detach_user_users:
  assumes "users_ok g" "find_user e g = Some u" "\<not> would_orphan g u"
  shows "g_users (detach_user (\<lambda>u. u_email u = e \<and> \<not> would_orphan g u) e g)
    = delete_on u_email e (g_users g)"
proof -
  have "\<forall>v \<in> set (g_users g). u_email v = e \<longrightarrow> v = u"
  proof (intro ballI impI)
    fix v assume "v \<in> set (g_users g)" "u_email v = e"
    then have "v \<in> set (users_with e g)" by (simp add: match_on_def)
    then show "v = u" using users_ok_rows[OF assms(1,2)] by simp
  qed
  with assms(3) show ?thesis
    by (auto simp: detach_user_def delete_on_def intro!: filter_cong)
qed

lemma admin_count_delete_on:
  "users_ok g \<Longrightarrow> admin_count g \<le> Suc (admin_count (g\<lparr>g_users := delete_on u_email e (g_users g)\<rparr>))"
  by (simp add: admin_count_def users_ok_def length_filter_delete_on)

lemma admin_count_delete_non_admin:
  assumes "users_ok g" "find_user e g = Some u" "\<not> is_admin_node u"
  shows "admin_count (g\<lparr>g_users := delete_on u_email e (g_users g)\<rparr>) = admin_count g"
proof -
  have "\<forall>v \<in> set (g_users g). u_email v = e \<longrightarrow> v = u"
  proof (intro ballI impI)
    fix v assume "v \<in> set (g_users g)" "u_email v = e"
    then have "v \<in> set (users_with e g)" by (simp add: match_on_def)
    then show "v = u" using users_ok_rows[OF assms(1,2)] by simp
  qed
  then have "filter is_admin_node (delete_on u_email e (g_users g)) = filter is_admin_node (g_users g)"
    using assms(3) by (auto simp: delete_on_def intro!: filter_cong)
  then show ?thesis by (simp add: admin_count_def)
qed

lemma admin_count_users: "g_users g = g_users g' \<Longrightarrow> admin_count g = admin_count g'"
  by (simp add: admin_count_def)

lemma delete_user_keeps_admin:
  assumes "users_ok g" "admin_count g > 0"
  shows "admin_count (snd (delete_user e g)) > 0"
proof (cases "find_user e g")
  case None
  with assms show ?thesis by (simp add: delete_rows)
next
  case (Some u)
  show ?thesis
  proof (cases "would_orphan g u")
    case True
    with Some assms show ?thesis by (simp add: delete_rows)
  next
    case False
    let ?g = "g\<lparr>g_users := delete_on u_email e (g_users g)\<rparr>"
    have "admin_count (snd (delete_user e g)) = admin_count ?g"
      using Some False assms(1) by (simp add: delete_rows detach_user_users admin_count_def)
    moreover have "admin_count ?g > 0"
    proof (cases "is_admin_node u")
      case True
      then have "admin_count g > 1" using False by (auto simp: would_orphan_def is_admin_node_def)
      then show ?thesis using admin_count_delete_on[OF assms(1), of e] by simp
    next
      case False
      then show ?thesis using admin_count_delete_non_admin[OF assms(1) Some] assms(2) by simp
    qed
    ultimately show ?thesis by simp
  qed
qed

lemma delete_user_last_admin_unreachable: "users_ok g \<Longrightarrow> fst (delete_user e g) \<noteq> LastAdmin"
  by (simp add: delete_rows split: option.split)

text \<open>C8: Account deletion never removes the last administrator, and deleting someone else's
  account leaves every other user as it was; but the answer last_admin, which the query promises
  for the refused case, is never given: the refused deletion is reported as not_found.\<close>

theorem delete_user_protects_last_admin:
  assumes "users_ok g" "admin_count g > 0"
  shows "admin_count (snd (delete_user e g)) > 0 \<and>
    (\<forall>e'. e' \<noteq> e \<longrightarrow> find_user e' (snd (delete_user e g)) = find_user e' g) \<and>
    (\<forall>u. find_user e g = Some u \<and> would_orphan g u \<longrightarrow> delete_user e g = (NotFound, g)) \<and>
    fst (delete_user e g) \<noteq> LastAdmin"
proof -
  have "find_user e' (snd (delete_user e g)) = find_user e' g" if "e' \<noteq> e" for e'
  proof (cases "find_user e g")
    case None
    then show ?thesis by (simp add: delete_rows[OF assms(1)])
  next
    case (Some u)
    then show ?thesis
      using that detach_user_users[OF assms(1) Some]
      by (simp add: delete_rows[OF assms(1)] find_user_def match_on_delete_other)
  qed
  moreover have "delete_user e g = (NotFound, g)" if "find_user e g = Some u" "would_orphan g u" for u
    using that by (simp add: delete_rows[OF assms(1)])
  ultimately show ?thesis
    using delete_user_keeps_admin[OF assms] delete_user_last_admin_unreachable[OF assms(1)] by simp
qed

definition admin_demo :: graph where
  "admin_demo = empty_graph\<lparr>g_users := [(blank_user ''root@x'')\<lparr>u_is_admin := Some True\<rparr>,
     (blank_user ''b@x'')\<lparr>u_is_admin := Some False\<rparr>]\<rparr>"

lemma delete_user_protects_last_admin_witness:
  "admin_count (snd (delete_user ''root@x'' admin_demo)) > 0 \<and>
   delete_user ''root@x'' admin_demo = (NotFound, admin_demo)"
proof -
  have "users_ok admin_demo" "admin_count admin_demo > 0"
    by (simp_all add: admin_demo_def empty_graph_def blank_user_def users_ok_def unique_key_def
        admin_count_def is_admin_node_def)
  moreover have "find_user ''root@x'' admin_demo = Some ((blank_user ''root@x'')\<lparr>u_is_admin := Some True\<rparr>)"
    "would_orphan admin_demo ((blank_user ''root@x'')\<lparr>u_is_admin := Some True\<rparr>)"
    by (simp_all add: admin_demo_def empty_graph_def blank_user_def find_user_def would_orphan_def
        admin_count_def is_admin_node_def)
  ultimately show ?thesis using delete_user_protects_last_admin by blast
qed

text \<open>Sign-up. The first sign-up with an address creates one free, non-administrator account
  whose quota period ends a month later; every later sign-up with it reports a conflict and
  changes nothing of the account but the marker property created. Other accounts are untouched.\<close>

theorem signup_once:
  assumes "users_ok g"
  shows "case find_user e g of
      None \<Rightarrow> (let new = create_user_new pm now uuid e nm hp in
        create_user_cypher pm now uuid e nm hp g = ([(Created, new)], g\<lparr>g_users := g_users g @ [new]\<rparr>) \<and>
        u_subscription_type new = Some ''free'' \<and> \<not> is_admin_node new \<and>
        u_usage_reset_at new = Some (pm now) \<and> u_hashed_password new = hp)
    | Some u \<Rightarrow>
        create_user_cypher pm now uuid e nm hp g =
          ([(Conflict, u\<lparr>u_created := Some False\<rparr>)], set_users e (\<lambda>u. u\<lparr>u_created := Some False\<rparr>) g)"
proof (cases "find_user e g")
  case None
  then have m: "users_with e g = []" by (simp add: find_user_None_iff)
  let ?new = "create_user_new pm now uuid e nm hp"
  have "merge_on u_email e ?new (\<lambda>u. u\<lparr>u_created := Some False\<rparr>) (g_users g) = g_users g @ [?new]"
    by (simp add: merge_on_def m)
  moreover have "u_created ?new = Some True"
    by (simp add: create_user_new_def)
  ultimately show ?thesis
    using None m
    by (simp add: create_user_cypher_def create_rows_def create_user_new_def
        is_admin_node_def blank_user_def)
next
  case (Some u)
  then have m: "users_with e g = [u]" using assms by (rule users_ok_rows[rotated])
  have "match_on u_email e (set_on u_email e (\<lambda>u. u\<lparr>u_created := Some False\<rparr>) (g_users g))
      = [u\<lparr>u_created := Some False\<rparr>]"
    using m by (simp add: match_on_set_same)
  with Some m show ?thesis
    by (simp add: create_user_cypher_def create_rows_def merge_on_def set_users_def)
qed

lemma signup_once_witness:
  "\<exists>u g'. create_user_cypher (\<lambda>t. t + 9) 5 ''id'' ''b@x'' ''B'' ''hash'' admin_demo = ([(Conflict, u)], g')"
proof -
  have "users_ok admin_demo"
    by (simp add: admin_demo_def empty_graph_def blank_user_def users_ok_def unique_key_def)
  moreover have "find_user ''b@x'' admin_demo = Some ((blank_user ''b@x'')\<lparr>u_is_admin := Some False\<rparr>)"
    by (simp add: admin_demo_def empty_graph_def blank_user_def find_user_def)
  ultimately show ?thesis
    using signup_once[where g = admin_demo and e = "''b@x''" and pm = "\<lambda>t. t + 9" and now = 5
        and uuid = "''id''" and nm = "''B''" and hp = "''hash''"] by simp
qed

section \<open>The credential store\<close>

text \<open>What the authentication service relies on: the stored hash of an account and
  its replacement.\<close>

locale credential_store =
  fixes ok :: "'s \<Rightarrow> bool"
    and hash_of :: "string \<Rightarrow> 's \<Rightarrow> string option"
    and set_hash :: "string \<Rightarrow> string \<Rightarrow> 's \<Rightarrow> 's"
  assumes hash_set_same: "ok s \<Longrightarrow> hash_of e s \<noteq> None \<Longrightarrow> hash_of e (set_hash e h s) = Some h"
    and hash_set_other: "ok s \<Longrightarrow> e' \<noteq> e \<Longrightarrow> hash_of e' (set_hash e h s) = hash_of e' s"
    and hash_set_absent: "ok s \<Longrightarrow> hash_of e s = None \<Longrightarrow> hash_of e (set_hash e h s) = None"
    and ok_set: "ok s \<Longrightarrow> ok (set_hash e h s)"
begin

text \<open>Checking a password against the stored hash with a verification function.\<close>

definition accepts :: "(string \<Rightarrow> string \<Rightarrow> bool) \<Rightarrow> string \<Rightarrow> string \<Rightarrow> 's \<Rightarrow> bool" where
  "accepts verify pw e s = (case hash_of e s of None \<Rightarrow> False | Some h \<Rightarrow> verify pw h)"

lemma accepts_new:
  "ok s \<Longrightarrow> hash_of e s \<noteq> None \<Longrightarrow> accepts verify pw e (set_hash e h s) = verify pw h"
  by (simp add: accepts_def hash_set_same)

lemma accepts_frame:
  "ok s \<Longrightarrow> e' \<noteq> e \<Longrightarrow> accepts verify pw e' (set_hash e h s) = accepts verify pw e' s"
  by (simp add: accepts_def hash_set_other)

lemma accepts_twice:
  "ok s \<Longrightarrow> hash_of e s \<noteq> None \<Longrightarrow>
   accepts verify pw e (set_hash e h (set_hash e h' s)) = verify pw h"
  by (simp add: accepts_def hash_set_same ok_set)

end

definition stored_hash :: "string \<Rightarrow> graph \<Rightarrow> string option" where
  "stored_hash e g = map_option d_hashed_password (get_user_by_email e g)"

lemma find_set_password:
  "find_user e' (snd (set_password now e h g)) =
     (if e' = e then map_option (\<lambda>u. u\<lparr>u_hashed_password := h, u_updated_at := Some now\<rparr>) (find_user e g)
      else find_user e' g)"
  by (simp add: set_password_def Let_def find_set_users_same find_set_users_other)

interpretation credentials: credential_store users_ok stored_hash "\<lambda>e h g. snd (set_password now e h g)"
  for now
  by unfold_locales
     (auto simp: stored_hash_def get_user_by_email_def find_set_password to_user_in_db_def
       users_ok_update split: option.splits if_splits)

end
