(* ===== verification/Usage.thy ===== *)
theory Usage
  imports Users
begin

text \<open>
  src/app/service/usage_repository.py: the quota counters on the User node.
  Every statement starts with the self-healing resets (monthly, and weekly for
  the lite counter), then reads or adds. \<open>now\<close> is datetime(), \<open>plus_month\<close> the
  database's calendar addition of one month, a week is 7 * 86400 seconds.
\<close>

record usage_row =
  s_email :: string
  s_subscription_type :: string
  s_meeting_count :: int
  s_total_tokens :: int
  s_total_chars :: int
  s_reset_at :: "instant option"
  s_subscription_ends_at :: "instant option"
  s_lite_tokens :: int
  s_lite_daily_tokens :: int
  s_lite_daily_reset_at :: "instant option"

record increment_result =
  i_exceeded :: bool
  i_current :: int
  i_limit :: int
  i_subscription_type :: string
  i_reset_at :: "instant option"

section \<open>The self-healing resets\<close>

definition due :: "instant \<Rightarrow> instant option \<Rightarrow> bool" where
  "due now at = (case at of None \<Rightarrow> True | Some t \<Rightarrow> t \<le> now)"

definition seven_days :: int where "seven_days = 7 * 86400"

text \<open>Only get_usage contains the expiry of a granted subscription.\<close>

definition expire_subscription :: "instant \<Rightarrow> user_node \<Rightarrow> user_node" where
  "expire_subscription now u =
     (case u_subscription_ends_at u of
        None \<Rightarrow> u
      | Some t \<Rightarrow> if t \<le> now
                  then u\<lparr>u_subscription_type := Some ''free'', u_subscription_ends_at := None,
                         u_subscription_updated_at := Some now\<rparr>
                  else u)"

definition monthly_reset :: "(instant \<Rightarrow> instant) \<Rightarrow> instant \<Rightarrow> user_node \<Rightarrow> user_node" where
  "monthly_reset plus_month now u =
     (if due now (u_usage_reset_at u)
      then u\<lparr>u_usage_meeting_count := Some 0, u_usage_total_tokens := Some 0,
             u_usage_total_chars := Some 0, u_usage_lite_tokens := Some 0,
             u_usage_reset_at := Some (plus_month now)\<rparr>
      else u)"

definition weekly_reset :: "instant \<Rightarrow> user_node \<Rightarrow> user_node" where
  "weekly_reset now u =
     (if due now (u_usage_lite_daily_reset_at u)
      then u\<lparr>u_usage_lite_daily_tokens := Some 0,
             u_usage_lite_daily_reset_at := Some (now + seven_days)\<rparr>
      else u)"

section \<open>get_usage\<close>

text \<open>In _GET_USAGE_CYPHER usage_updated_at changes only when the monthly reset fires.\<close>

definition get_usage_set :: "(instant \<Rightarrow> instant) \<Rightarrow> instant \<Rightarrow> user_node \<Rightarrow> user_node" where
  "get_usage_set plus_month now u =
     (let u1 = expire_subscription now u;
          u2 = monthly_reset plus_month now u1;
          u3 = (if due now (u_usage_reset_at u1) then u2\<lparr>u_usage_updated_at := Some now\<rparr> else u2)
      in weekly_reset now u3)"

definition usage_of :: "user_node \<Rightarrow> usage_row" where
  "usage_of u = \<lparr>s_email = u_email u,
     s_subscription_type = py_or (Some (coalesce (u_subscription_type u) ''free'')) SUBSCRIPTION_FREE,
     s_meeting_count = coalesce (u_usage_meeting_count u) 0,
     s_total_tokens = coalesce (u_usage_total_tokens u) 0,
     s_total_chars = coalesce (u_usage_total_chars u) 0,
     s_reset_at = u_usage_reset_at u,
     s_subscription_ends_at = u_subscription_ends_at u,
     s_lite_tokens = coalesce (u_usage_lite_tokens u) 0,
     s_lite_daily_tokens = coalesce (u_usage_lite_daily_tokens u) 0,
     s_lite_daily_reset_at = u_usage_lite_daily_reset_at u\<rparr>"

definition get_usage ::
  "(instant \<Rightarrow> instant) \<Rightarrow> instant \<Rightarrow> string \<Rightarrow> graph \<Rightarrow> usage_row option \<times> graph" where
  "get_usage plus_month now e g =
     (let g' = set_users e (get_usage_set plus_month now) g
      in (case find_user e g' of
            None \<Rightarrow> None
          | Some u \<Rightarrow> if u_email u = '''' then None else Some (usage_of u), g'))"

section \<open>Increments\<close>

definition try_increment_set ::
  "(instant \<Rightarrow> instant) \<Rightarrow> instant \<Rightarrow> int \<Rightarrow> user_node \<Rightarrow> increment_result \<times> user_node" where
  "try_increment_set plus_month now limit u =
     (let u1 = monthly_reset plus_month now (u\<lparr>u_usage_updated_at := Some now\<rparr>);
          current = coalesce (u_usage_meeting_count u1) 0;
          exceeded = (current \<ge> limit);
          u2 = (if exceeded then u1 else u1\<lparr>u_usage_meeting_count := Some (current + 1)\<rparr>)
      in (\<lparr>i_exceeded = exceeded, i_current = (if exceeded then current else current + 1),
           i_limit = limit,
           i_subscription_type = py_or (Some (coalesce (u_subscription_type u1) ''free'')) SUBSCRIPTION_FREE,
           i_reset_at = u_usage_reset_at u2\<rparr>, u2))"

definition try_increment_meeting_count ::
  "(instant \<Rightarrow> instant) \<Rightarrow> instant \<Rightarrow> string \<Rightarrow> int \<Rightarrow> graph \<Rightarrow> increment_result option \<times> graph" where
  "try_increment_meeting_count plus_month now e limit g =
     (map_option (\<lambda>u. fst (try_increment_set plus_month now limit u)) (find_user e g),
      set_users e (\<lambda>u. snd (try_increment_set plus_month now limit u)) g)"

definition add_tokens_set :: "(instant \<Rightarrow> instant) \<Rightarrow> instant \<Rightarrow> int \<Rightarrow> user_node \<Rightarrow> user_node" where
  "add_tokens_set plus_month now delta u =
     (let u1 = monthly_reset plus_month now (u\<lparr>u_usage_updated_at := Some now\<rparr>)
      in u1\<lparr>u_usage_total_tokens := Some (coalesce (u_usage_total_tokens u1) 0 + delta)\<rparr>)"

definition add_lite_tokens_set :: "(instant \<Rightarrow> instant) \<Rightarrow> instant \<Rightarrow> int \<Rightarrow> user_node \<Rightarrow> user_node" where
  "add_lite_tokens_set plus_month now delta u =
     (let u1 = monthly_reset plus_month now (u\<lparr>u_usage_updated_at := Some now\<rparr>);
          u2 = weekly_reset now u1
      in u2\<lparr>u_usage_lite_tokens := Some (coalesce (u_usage_lite_tokens u2) 0 + delta),
            u_usage_lite_daily_tokens := Some (coalesce (u_usage_lite_daily_tokens u2) 0 + delta)\<rparr>)"

definition add_chars_set :: "(instant \<Rightarrow> instant) \<Rightarrow> instant \<Rightarrow> int \<Rightarrow> user_node \<Rightarrow> user_node" where
  "add_chars_set plus_month now delta u =
     (let u1 = monthly_reset plus_month now (u\<lparr>u_usage_updated_at := Some now\<rparr>)
      in u1\<lparr>u_usage_total_chars := Some (coalesce (u_usage_total_chars u1) 0 + delta)\<rparr>)"

datatype bucket = BucketMain | BucketLite

definition add_tokens ::
  "(instant \<Rightarrow> instant) \<Rightarrow> instant \<Rightarrow> string \<Rightarrow> int \<Rightarrow> bucket \<Rightarrow> graph \<Rightarrow> int option \<times> graph" where
  "add_tokens plus_month now e delta b g =
     (if delta \<le> 0 then (None, g)
      else (case b of
        BucketLite \<Rightarrow>
          (let g' = set_users e (add_lite_tokens_set plus_month now delta) g
           in (map_option (\<lambda>u. coalesce (u_usage_lite_daily_tokens u) 0) (find_user e g'), g'))
      | BucketMain \<Rightarrow>
          (let g' = set_users e (add_tokens_set plus_month now delta) g
           in (map_option (\<lambda>u. coalesce (u_usage_total_tokens u) 0) (find_user e g'), g'))))"

definition add_chars ::
  "(instant \<Rightarrow> instant) \<Rightarrow> instant \<Rightarrow> string \<Rightarrow> int \<Rightarrow> graph \<Rightarrow> int option \<times> graph" where
  "add_chars plus_month now e delta g =
     (if delta \<le> 0 then (None, g)
      else (let g' = set_users e (add_chars_set plus_month now delta) g
            in (map_option (\<lambda>u. coalesce (u_usage_total_chars u) 0) (find_user e g'), g')))"

definition reset_usage_set :: "instant \<Rightarrow> user_node \<Rightarrow> user_node" where
  "reset_usage_set now u = u
     \<lparr>u_usage_meeting_count := Some 0, u_usage_total_tokens := Some 0, u_usage_total_chars := Some 0,
      u_usage_lite_tokens := Some 0, u_usage_lite_daily_tokens := Some 0,
      u_usage_updated_at := Some now\<rparr>"

definition reset_usage :: "instant \<Rightarrow> string \<Rightarrow> graph \<Rightarrow> bool \<times> graph" where
  "reset_usage now e g =
     (let g' = set_users e (reset_usage_set now) g in (row_email_true e g', g'))"

section \<open>Frame and invariant\<close>

lemma usage_set_email [simp]:
  "u_email (expire_subscription now u) = u_email u"
  "u_email (monthly_reset pm now u) = u_email u"
  "u_email (weekly_reset now u) = u_email u"
  "u_email (get_usage_set pm now u) = u_email u"
  "u_email (snd (try_increment_set pm now l u)) = u_email u"
  "u_email (add_tokens_set pm now d u) = u_email u"
  "u_email (add_lite_tokens_set pm now d u) = u_email u"
  "u_email (add_chars_set pm now d u) = u_email u"
  "u_email (reset_usage_set now u) = u_email u"
  by (simp_all add: expire_subscription_def monthly_reset_def weekly_reset_def get_usage_set_def
      try_increment_set_def add_tokens_set_def add_lite_tokens_set_def add_chars_set_def
      reset_usage_set_def Let_def split: option.split)

lemma users_ok_usage [inv_intros]:
  assumes "users_ok g"
  shows "users_ok (snd (get_usage pm now e g))"
    "users_ok (snd (try_increment_meeting_count pm now e l g))"
    "users_ok (snd (add_tokens pm now e d b g))"
    "users_ok (snd (add_chars pm now e d g))"
    "users_ok (snd (reset_usage now e g))"
  using assms
  by (simp_all add: get_usage_def try_increment_meeting_count_def add_tokens_def add_chars_def
      reset_usage_def Let_def users_ok_set_users split: bucket.split)

section \<open>Counters that reset lazily\<close>

text \<open>The value a counter has at an instant, whether or not the reset that is due
  has been written to the node already.\<close>

definition eff_meetings :: "instant \<Rightarrow> user_node \<Rightarrow> int" where
  "eff_meetings t u = (if due t (u_usage_reset_at u) then 0 else coalesce (u_usage_meeting_count u) 0)"

definition eff_tokens :: "instant \<Rightarrow> user_node \<Rightarrow> int" where
  "eff_tokens t u = (if due t (u_usage_reset_at u) then 0 else coalesce (u_usage_total_tokens u) 0)"

definition eff_chars :: "instant \<Rightarrow> user_node \<Rightarrow> int" where
  "eff_chars t u = (if due t (u_usage_reset_at u) then 0 else coalesce (u_usage_total_chars u) 0)"

definition eff_lite :: "instant \<Rightarrow> user_node \<Rightarrow> int" where
  "eff_lite t u = (if due t (u_usage_reset_at u) then 0 else coalesce (u_usage_lite_tokens u) 0)"

definition eff_weekly :: "instant \<Rightarrow> user_node \<Rightarrow> int" where
  "eff_weekly t u =
     (if due t (u_usage_lite_daily_reset_at u) then 0 else coalesce (u_usage_lite_daily_tokens u) 0)"

lemmas eff_defs = eff_meetings_def eff_tokens_def eff_chars_def eff_lite_def eff_weekly_def

text \<open>What a client of such a counter relies on. \<open>period_end now\<close> is the end of a
  period opened at now.\<close>

locale period_counter =
  fixes eff :: "instant \<Rightarrow> 's \<Rightarrow> int"
    and add :: "instant \<Rightarrow> int \<Rightarrow> 's \<Rightarrow> 's"
    and ends :: "'s \<Rightarrow> instant option"
    and period_end :: "instant \<Rightarrow> instant"
  assumes add_open: "\<not> due now (ends s) \<Longrightarrow> eff now (add now d s) = eff now s + d"
    and ends_open: "\<not> due now (ends s) \<Longrightarrow> ends (add now d s) = ends s"
    and eff_open: "\<not> due now (ends s) \<Longrightarrow> \<not> due t (ends s) \<Longrightarrow> eff t s = eff now s"
    and eff_due: "due now (ends s) \<Longrightarrow> eff now s = 0"
    and add_due: "due now (ends s) \<Longrightarrow> now < period_end now \<Longrightarrow> eff now (add now d s) = d"
    and ends_due: "due now (ends s) \<Longrightarrow> ends (add now d s) = Some (period_end now)"
begin

lemma add_any: "now < period_end now \<Longrightarrow> eff now (add now d s) = eff now s + d"
  by (cases "due now (ends s)") (simp_all add: add_open add_due eff_due)

lemma ends_fold:
  "\<forall>p \<in> set evs. \<not> due (fst p) (ends s) \<Longrightarrow>
   ends (fold (\<lambda>(t, d). add t d) evs s) = ends s"
proof (induction evs arbitrary: s)
  case (Cons ev evs)
  obtain t d where [simp]: "ev = (t, d)" by force
  have "\<not> due t (ends s)" using Cons.prems by auto
  then have "ends (add t d s) = ends s" by (rule ends_open)
  then show ?case using Cons.IH[of "add t d s"] Cons.prems by simp
qed simp

lemma sum_in_period:
  assumes "\<not> due now (ends s)" "\<forall>p \<in> set evs. \<not> due (fst p) (ends s)"
  shows "eff now (fold (\<lambda>(t, d). add t d) evs s) = eff now s + sum_list (map snd evs)"
  using assms
proof (induction evs arbitrary: s)
  case (Cons ev evs)
  obtain t d where [simp]: "ev = (t, d)" by force
  have t: "\<not> due t (ends s)" using Cons.prems by auto
  then have e: "ends (add t d s) = ends s" by (rule ends_open)
  have "eff now (add t d s) = eff t (add t d s)"
    using eff_open[of t "add t d s" now] t Cons.prems(1) e by simp
  also have "\<dots> = eff now s + d"
    using add_open[OF t] eff_open[OF Cons.prems(1) t] by simp
  finally show ?case
    using Cons.IH[of "add t d s"] Cons.prems e by simp
qed simp

end

interpretation main_counter: period_counter eff_tokens "add_tokens_set pm" u_usage_reset_at pm
  for pm
  by unfold_locales
     (simp_all add: eff_defs add_tokens_set_def monthly_reset_def Let_def due_def)

interpretation chars_counter: period_counter eff_chars "add_chars_set pm" u_usage_reset_at pm
  for pm
  by unfold_locales
     (simp_all add: eff_defs add_chars_set_def monthly_reset_def Let_def due_def)

interpretation lite_counter: period_counter eff_lite "add_lite_tokens_set pm" u_usage_reset_at pm
  for pm
  by unfold_locales
     (simp_all add: eff_defs add_lite_tokens_set_def monthly_reset_def weekly_reset_def Let_def due_def)

interpretation weekly_counter: period_counter eff_weekly "add_lite_tokens_set pm"
  u_usage_lite_daily_reset_at "\<lambda>now. now + seven_days"
  for pm
  by unfold_locales
     (simp_all add: eff_defs add_lite_tokens_set_def monthly_reset_def weekly_reset_def Let_def due_def)

lemma seven_days_pos [simp]: "0 < seven_days"
  by (simp add: seven_days_def)

text \<open>A read may write the resets that are due; it never changes what a counter
  is worth from then on.\<close>

lemma get_usage_eff:
  assumes "now \<le> t"
  shows "eff_meetings t (get_usage_set pm now u) = eff_meetings t u"
    "eff_tokens t (get_usage_set pm now u) = eff_tokens t u"
    "eff_chars t (get_usage_set pm now u) = eff_chars t u"
    "eff_lite t (get_usage_set pm now u) = eff_lite t u"
    "eff_weekly t (get_usage_set pm now u) = eff_weekly t u"
  using assms
  by (auto simp: eff_defs get_usage_set_def expire_subscription_def monthly_reset_def
      weekly_reset_def Let_def due_def split: option.splits if_splits)

lemma get_usage_row:
  assumes "now < pm now"
  shows "s_meeting_count (usage_of (get_usage_set pm now u)) = eff_meetings now u"
    "s_total_tokens (usage_of (get_usage_set pm now u)) = eff_tokens now u"
    "s_total_chars (usage_of (get_usage_set pm now u)) = eff_chars now u"
    "s_lite_tokens (usage_of (get_usage_set pm now u)) = eff_lite now u"
    "s_lite_daily_tokens (usage_of (get_usage_set pm now u)) = eff_weekly now u"
  by (auto simp: usage_of_def eff_defs get_usage_set_def expire_subscription_def monthly_reset_def
      weekly_reset_def Let_def due_def split: option.splits if_splits)

lemma get_usage_expiry:
  "u_subscription_ends_at (get_usage_set pm now u) =
     (if u_subscription_ends_at u \<noteq> None \<and> due now (u_subscription_ends_at u) then None
      else u_subscription_ends_at u)"
  "u_subscription_type (get_usage_set pm now u) =
     (if u_subscription_ends_at u \<noteq> None \<and> due now (u_subscription_ends_at u) then Some ''free''
      else u_subscription_type u)"
  by (auto simp: get_usage_set_def expire_subscription_def monthly_reset_def weekly_reset_def
      Let_def due_def split: option.splits if_splits)

lemma try_increment_facts:
  assumes "now < pm now"
  shows "i_exceeded (fst (try_increment_set pm now l u)) \<longleftrightarrow> l \<le> eff_meetings now u"
    "i_current (fst (try_increment_set pm now l u)) = eff_meetings now (snd (try_increment_set pm now l u))"
    "eff_meetings now (snd (try_increment_set pm now l u)) =
       (if l \<le> eff_meetings now u then eff_meetings now u else eff_meetings now u + 1)"
    "\<not> due now (u_usage_reset_at u) \<Longrightarrow>
       u_usage_reset_at (snd (try_increment_set pm now l u)) = u_usage_reset_at u"
  using assms
  by (auto simp: try_increment_set_def monthly_reset_def eff_defs Let_def due_def)

section \<open>Behaviour of the operations on the graph\<close>

lemma find_user_usage [table_simps]:
  "find_user e (snd (get_usage pm now e g)) = map_option (get_usage_set pm now) (find_user e g)"
  "find_user e (snd (try_increment_meeting_count pm now e l g)) =
     map_option (\<lambda>u. snd (try_increment_set pm now l u)) (find_user e g)"
  by (simp_all add: get_usage_def try_increment_meeting_count_def Let_def find_set_users_same)

lemma find_user_usage_other [table_simps]:
  assumes "e' \<noteq> e"
  shows "find_user e' (snd (get_usage pm now e g)) = find_user e' g"
    "find_user e' (snd (try_increment_meeting_count pm now e l g)) = find_user e' g"
    "find_user e' (snd (add_tokens pm now e d b g)) = find_user e' g"
    "find_user e' (snd (add_chars pm now e d g)) = find_user e' g"
    "find_user e' (snd (reset_usage now e g)) = find_user e' g"
  using assms
  by (simp_all add: get_usage_def try_increment_meeting_count_def add_tokens_def add_chars_def
      reset_usage_def Let_def find_set_users_other split: bucket.split)

text \<open>The requests one user makes at the instants ts, each with the same limit.\<close>

fun meeting_run ::
  "(instant \<Rightarrow> instant) \<Rightarrow> string \<Rightarrow> int \<Rightarrow> instant list \<Rightarrow> graph
   \<Rightarrow> increment_result option list \<times> graph" where
  "meeting_run pm e l [] g = ([], g)"
| "meeting_run pm e l (t # ts) g =
     (let (r, g') = try_increment_meeting_count pm t e l g;
          (rs, g'') = meeting_run pm e l ts g'
      in (r # rs, g''))"

definition admitted :: "increment_result option \<Rightarrow> bool" where
  "admitted r = (case r of None \<Rightarrow> False | Some i \<Rightarrow> \<not> i_exceeded i)"

lemma try_increment_open:
  assumes "\<not> due t (u_usage_reset_at u)"
  shows "admitted (Some (fst (try_increment_set pm t l u))) \<longleftrightarrow>
      coalesce (u_usage_meeting_count u) 0 < l"
    "u_usage_reset_at (snd (try_increment_set pm t l u)) = u_usage_reset_at u"
    "coalesce (u_usage_meeting_count (snd (try_increment_set pm t l u))) 0 =
      (if coalesce (u_usage_meeting_count u) 0 < l then coalesce (u_usage_meeting_count u) 0 + 1
       else coalesce (u_usage_meeting_count u) 0)"
  using assms by (auto simp: try_increment_set_def monthly_reset_def Let_def admitted_def)

lemma try_increment_result:
  "find_user e g = Some u \<Longrightarrow>
   fst (try_increment_meeting_count pm t e l g) = Some (fst (try_increment_set pm t l u))"
  by (simp add: try_increment_meeting_count_def)

text \<open>C0: Quota. However many postMeeting requests one user makes inside a quota period,
  exactly \<open>limit - count\<close> of them are admitted (none when the counter is at or over the
  limit); the rest are reported exceeded.\<close>

theorem quota_admits_exactly:
  assumes "find_user e g = Some u" "\<forall>t \<in> set ts. \<not> due t (u_usage_reset_at u)"
  shows "int (length (filter admitted (fst (meeting_run pm e l ts g)))) =
    min (int (length ts)) (max 0 (l - coalesce (u_usage_meeting_count u) 0))"
  using assms
proof (induction ts arbitrary: g u)
  case (Cons t ts)
  let ?u = "snd (try_increment_set pm t l u)" and ?g = "snd (try_increment_meeting_count pm t e l g)"
  have t: "\<not> due t (u_usage_reset_at u)" using Cons.prems by simp
  have "find_user e ?g = Some ?u" using Cons.prems by (simp add: find_user_usage)
  then have "int (length (filter admitted (fst (meeting_run pm e l ts ?g)))) =
      min (int (length ts)) (max 0 (l - coalesce (u_usage_meeting_count ?u) 0))"
    using Cons.prems try_increment_open(2)[OF t, of pm l] by (intro Cons.IH) simp_all
  then show ?case
    using try_increment_open(1,3)[OF t, of pm l] Cons.prems(1)
    by (simp add: try_increment_result split_beta Let_def split: if_splits)
qed simp

definition quota_demo :: graph where
  "quota_demo = empty_graph\<lparr>g_users := [(blank_user ''a@x'')
     \<lparr>u_usage_meeting_count := Some 3, u_usage_reset_at := Some 1000\<rparr>]\<rparr>"

lemma quota_admits_exactly_witness:
  "int (length (filter admitted (fst (meeting_run (\<lambda>t. t + 2592000) ''a@x'' 5 [10, 20, 20, 30] quota_demo)))) = 2"
proof -
  have "find_user ''a@x'' quota_demo = Some ((blank_user ''a@x'')
     \<lparr>u_usage_meeting_count := Some 3, u_usage_reset_at := Some 1000\<rparr>)"
    by (simp add: quota_demo_def empty_graph_def blank_user_def find_user_def)
  from quota_admits_exactly[OF this, of "[10, 20, 20, 30]" "\<lambda>t. t + 2592000" 5]
  show ?thesis by (simp add: due_def)
qed



text \<open>Token accounting. A positive delta is added to what the counter of its bucket is
  worth at that instant and the sum is returned (main: the monthly total, lite: the weekly total,
  the monthly lite counter growing with it); a delta that is not positive, or an unknown user,
  changes nothing and returns None.\<close>

theorem add_tokens_accounts:
  assumes "\<And>t. t < pm t"
  shows "add_tokens pm now e d b g =
    (case find_user e g of
       None \<Rightarrow> (None, g)
     | Some u \<Rightarrow>
         if d \<le> 0 then (None, g)
         else (Some ((case b of BucketMain \<Rightarrow> eff_tokens now u | BucketLite \<Rightarrow> eff_weekly now u) + d),
               set_users e (case b of BucketMain \<Rightarrow> add_tokens_set pm now d
                                    | BucketLite \<Rightarrow> add_lite_tokens_set pm now d) g))
    \<and> (\<forall>u. eff_lite now (add_lite_tokens_set pm now d u) = eff_lite now u + d)"
proof -
  have m: "coalesce (u_usage_total_tokens (add_tokens_set pm now d u)) 0 = eff_tokens now u + d" for u
    by (simp add: add_tokens_set_def monthly_reset_def eff_defs Let_def)
  have l: "coalesce (u_usage_lite_daily_tokens (add_lite_tokens_set pm now d u)) 0 = eff_weekly now u + d" for u
    by (simp add: add_lite_tokens_set_def monthly_reset_def weekly_reset_def eff_defs Let_def)
  have n: "set_users e f g = g" if "find_user e g = None" for f
    using that by (simp add: set_users_def set_on_no_match find_user_None_iff)
  show ?thesis
    using lite_counter.add_any[of now pm] assms
    by (auto simp: add_tokens_def find_set_users_same m l n Let_def split: option.split bucket.split)
qed

lemma add_tokens_accounts_witness:
  "fst (add_tokens (\<lambda>t. t + 2592000) 2000 ''a@x'' 70 BucketMain quota_demo) = Some 70"
  using add_tokens_accounts[of "\<lambda>t. t + 2592000" 2000 "''a@x''" 70 BucketMain quota_demo]
  by (simp add: quota_demo_def empty_graph_def blank_user_def find_user_def eff_tokens_def due_def)

section \<open>Reachable counters\<close>

definition counters_ok :: "int \<Rightarrow> user_node \<Rightarrow> bool" where
  "counters_ok l u \<longleftrightarrow>
     0 \<le> coalesce (u_usage_meeting_count u) 0 \<and> coalesce (u_usage_meeting_count u) 0 \<le> max 0 l \<and>
     0 \<le> coalesce (u_usage_total_tokens u) 0 \<and> 0 \<le> coalesce (u_usage_total_chars u) 0 \<and>
     0 \<le> coalesce (u_usage_lite_tokens u) 0 \<and> 0 \<le> coalesce (u_usage_lite_daily_tokens u) 0"

text \<open>One request against the usage tables, at any instant and for any user; the
  limit of postMeeting is l.\<close>

inductive usage_step :: "(instant \<Rightarrow> instant) \<Rightarrow> int \<Rightarrow> graph \<Rightarrow> graph \<Rightarrow> bool" for pm l where
  step_get: "usage_step pm l g (snd (get_usage pm now e g))"
| step_increment: "usage_step pm l g (snd (try_increment_meeting_count pm now e l g))"
| step_tokens: "usage_step pm l g (snd (add_tokens pm now e d b g))"
| step_chars: "usage_step pm l g (snd (add_chars pm now e d g))"
| step_reset: "usage_step pm l g (snd (reset_usage now e g))"

inductive_cases usage_stepE: "usage_step pm l g g'"

lemma counters_ok_set:
  assumes "\<And>u. counters_ok l u \<Longrightarrow> counters_ok l (f u)" "\<forall>u \<in> set (g_users g). counters_ok l u"
  shows "\<forall>u \<in> set (g_users (set_users e f g)). counters_ok l u"
  using assms by (auto simp: set_on_def)

lemma counters_ok_resets [inv_intros]:
  assumes "counters_ok l u"
  shows "counters_ok l (expire_subscription now u)"
    "counters_ok l (monthly_reset pm now u)"
    "counters_ok l (weekly_reset now u)"
    "counters_ok l (u\<lparr>u_usage_updated_at := x\<rparr>)"
    "counters_ok l (reset_usage_set now u)"
  using assms
  by (auto simp: counters_ok_def expire_subscription_def monthly_reset_def weekly_reset_def
      reset_usage_set_def split: option.split)

lemma counters_ok_get [inv_intros]: "counters_ok l u \<Longrightarrow> counters_ok l (get_usage_set pm now u)"
  by (simp add: get_usage_set_def Let_def counters_ok_resets)

lemma counters_ok_increment [inv_intros]:
  assumes "counters_ok l u"
  shows "counters_ok l (snd (try_increment_set pm now l u))"
proof -
  have "counters_ok l (monthly_reset pm now (u\<lparr>u_usage_updated_at := Some now\<rparr>))"
    by (intro counters_ok_resets assms)
  then show ?thesis
    by (auto simp: try_increment_set_def Let_def counters_ok_def)
qed

lemma counters_ok_add [inv_intros]:
  assumes "counters_ok l u" "0 < d"
  shows "counters_ok l (add_tokens_set pm now d u)" "counters_ok l (add_lite_tokens_set pm now d u)"
    "counters_ok l (add_chars_set pm now d u)"
proof -
  have m: "counters_ok l (monthly_reset pm now (u\<lparr>u_usage_updated_at := Some now\<rparr>))"
    by (intro counters_ok_resets assms)
  then have w: "counters_ok l (weekly_reset now (monthly_reset pm now (u\<lparr>u_usage_updated_at := Some now\<rparr>)))"
    by (rule counters_ok_resets)
  show "counters_ok l (add_tokens_set pm now d u)" "counters_ok l (add_chars_set pm now d u)"
    using m assms(2) by (auto simp: add_tokens_set_def add_chars_set_def Let_def counters_ok_def)
  show "counters_ok l (add_lite_tokens_set pm now d u)"
    using w assms(2) by (auto simp: add_lite_tokens_set_def Let_def counters_ok_def)
qed

lemma counters_ok_add_tokens:
  assumes "\<forall>u \<in> set (g_users g). counters_ok l u"
  shows "\<forall>u \<in> set (g_users (snd (add_tokens pm now e d b g))). counters_ok l u"
proof (cases "d \<le> 0")
  case True
  with assms show ?thesis by (simp add: add_tokens_def)
next
  case False
  then have "\<forall>u \<in> set (g_users (set_users e (add_tokens_set pm now d) g)). counters_ok l u"
    "\<forall>u \<in> set (g_users (set_users e (add_lite_tokens_set pm now d) g)). counters_ok l u"
    by (intro counters_ok_set assms counters_ok_add; simp)+
  with False show ?thesis
    by (cases b) (simp_all only: add_tokens_def Let_def snd_conv bucket.case if_False)
qed

lemma counters_ok_add_chars:
  assumes "\<forall>u \<in> set (g_users g). counters_ok l u"
  shows "\<forall>u \<in> set (g_users (snd (add_chars pm now e d g))). counters_ok l u"
proof (cases "d \<le> 0")
  case True
  with assms show ?thesis by (simp add: add_chars_def)
next
  case False
  then have "\<forall>u \<in> set (g_users (set_users e (add_chars_set pm now d) g)). counters_ok l u"
    by (intro counters_ok_set assms counters_ok_add; simp)
  with False show ?thesis
    by (simp only: add_chars_def Let_def snd_conv if_False)
qed

lemma usage_step_counters:
  assumes "usage_step pm l g g'" "\<forall>u \<in> set (g_users g). counters_ok l u"
  shows "\<forall>u \<in> set (g_users g'). counters_ok l u"
  using assms
proof (induction rule: usage_step.induct)
  case (step_get g now e)
  then show ?case
    unfolding get_usage_def Let_def snd_conv by - (rule counters_ok_set, erule counters_ok_get)
next
  case (step_increment g now e)
  then show ?case
    unfolding try_increment_meeting_count_def snd_conv
    by - (rule counters_ok_set, erule counters_ok_increment)
next
  case (step_reset g now e)
  then show ?case
    unfolding reset_usage_def Let_def snd_conv by - (rule counters_ok_set, erule counters_ok_resets(5))
qed (rule counters_ok_add_tokens counters_ok_add_chars, assumption)+

text \<open>Reachable counters. From a database whose counters are sound, no sequence of usage
  operations of any users at any instants makes a counter negative or drives a meeting count
  over the limit.\<close>

theorem usage_reachable_counters:
  assumes "(usage_step pm l)\<^sup>*\<^sup>* g g'" "\<forall>u \<in> set (g_users g). counters_ok l u" "users_ok g"
  shows "(\<forall>u \<in> set (g_users g'). counters_ok l u) \<and> users_ok g'"
  using assms
proof (induction rule: rtranclp_induct)
  case (step g1 g2)
  then have "users_ok g2"
    by (auto elim!: usage_stepE intro: users_ok_usage)
  then show ?case using step usage_step_counters by blast
qed simp

lemma usage_reachable_counters_witness:
  "list_all (counters_ok 5) (g_users (snd (add_tokens (\<lambda>t. t + 9) 5 ''a@x'' 7 BucketLite
      (snd (try_increment_meeting_count (\<lambda>t. t + 9) 4 ''a@x'' 5 quota_demo)))))"
proof -
  have "(usage_step (\<lambda>t. t + 9) 5)\<^sup>*\<^sup>* quota_demo (snd (add_tokens (\<lambda>t. t + 9) 5 ''a@x'' 7 BucketLite
      (snd (try_increment_meeting_count (\<lambda>t. t + 9) 4 ''a@x'' 5 quota_demo))))"
    by (rule rtranclp.rtrancl_into_rtrancl[OF r_into_rtranclp]) (rule step_increment step_tokens)+
  moreover have "\<forall>u \<in> set (g_users quota_demo). counters_ok 5 u" "users_ok quota_demo"
    by (simp_all add: quota_demo_def empty_graph_def blank_user_def counters_ok_def users_ok_def
        unique_key_def)
  ultimately show ?thesis unfolding list_all_iff using usage_reachable_counters by blast
qed

lemma get_usage_set_done:
  assumes "\<not> due now (u_usage_reset_at v)" "\<not> due now (u_usage_lite_daily_reset_at v)"
    "u_subscription_ends_at v = None \<or> \<not> due now (u_subscription_ends_at v)"
  shows "get_usage_set pm now v = v"
  using assms
  by (cases "u_subscription_ends_at v")
     (simp_all add: get_usage_set_def expire_subscription_def monthly_reset_def weekly_reset_def due_def)

lemma get_usage_set_resets:
  "u_usage_reset_at (get_usage_set pm now u) =
     (if due now (u_usage_reset_at u) then Some (pm now) else u_usage_reset_at u)"
  "u_usage_lite_daily_reset_at (get_usage_set pm now u) =
     (if due now (u_usage_lite_daily_reset_at u) then Some (now + seven_days)
      else u_usage_lite_daily_reset_at u)"
  by (simp_all add: get_usage_set_def expire_subscription_def monthly_reset_def weekly_reset_def
      Let_def split: option.split)

lemma get_usage_set_idem:
  "now < pm now \<Longrightarrow> get_usage_set pm now (get_usage_set pm now u) = get_usage_set pm now u"
  by (rule get_usage_set_done)
     (auto simp: get_usage_set_resets get_usage_expiry due_def seven_days_def)

text \<open>get_usage. The row it returns holds what every counter is worth at that instant and,
  when a granted subscription has run out, the free plan with no end date; reading again at the
  same instant gives the same row.\<close>

theorem get_usage_reports:
  assumes "\<And>t. t < pm t" "find_user e g = Some u" "e \<noteq> ''''"
  shows "\<exists>r. fst (get_usage pm now e g) = Some r \<and>
    (s_meeting_count r, s_total_tokens r, s_total_chars r, s_lite_tokens r, s_lite_daily_tokens r) =
      (eff_meetings now u, eff_tokens now u, eff_chars now u, eff_lite now u, eff_weekly now u) \<and>
    (if u_subscription_ends_at u \<noteq> None \<and> due now (u_subscription_ends_at u)
     then s_subscription_type r = ''free'' \<and> s_subscription_ends_at r = None
     else s_subscription_type r = s_subscription_type (usage_of u) \<and>
          s_subscription_ends_at r = u_subscription_ends_at u) \<and>
    fst (get_usage pm now e (snd (get_usage pm now e g))) = Some r"
proof -
  have em: "u_email u = e" using assms(2) by (rule find_user_email)
  let ?v = "get_usage_set pm now u"
  have fu: "find_user e (set_users e (get_usage_set pm now) g') = map_option (get_usage_set pm now) (find_user e g')" for g'
    by (rule find_set_users_same) simp
  have r: "fst (get_usage pm now e g) = Some (usage_of ?v)"
    using assms(2,3) em by (simp add: get_usage_def Let_def fu)
  have idem: "get_usage_set pm now ?v = ?v"
    by (rule get_usage_set_idem) (rule assms(1))
  have "fst (get_usage pm now e (snd (get_usage pm now e g))) = Some (usage_of ?v)"
    using assms(2,3) em by (simp add: get_usage_def Let_def fu idem)
  with r show ?thesis
    using get_usage_row[where pm = pm and now = now and u = u] get_usage_expiry[of pm now u] assms(1)
    by (auto simp: usage_of_def SUBSCRIPTION_FREE_def)
qed

lemma get_usage_reports_witness:
  "\<exists>r. fst (get_usage (\<lambda>t. t + 9) 2000 ''a@x'' quota_demo) = Some r \<and> s_meeting_count r = 0"
proof -
  have "find_user ''a@x'' quota_demo = Some ((blank_user ''a@x'')
     \<lparr>u_usage_meeting_count := Some 3, u_usage_reset_at := Some 1000\<rparr>)"
    by (simp add: quota_demo_def empty_graph_def blank_user_def find_user_def)
  from get_usage_reports[of "\<lambda>t. t + 9", OF _ this, of 2000]
  show ?thesis by (auto simp: eff_meetings_def due_def)
qed

end
