(* ===== verification/Ownership.thy ===== *)
theory Ownership
  imports Usage
begin

text \<open>
  src/app/service/ownership_repository.py: projects, their owners and the team
  projects. A query is a function on the graph; a Python function returns an error
  or a value together with the graph. Modules that the code imports and that are
  not in the repository (app.core.project_scope, app.core.quota,
  app.core.subscription, app.service.team_repository) are fields of \<open>own_ext\<close>; None
  stands for the ImportError the import raises when the module is missing.
\<close>

datatype own_error = Http nat | ImportFailure | UnsafeName | CypherSyntaxError

record own_ext =
  x_assert_safe :: "(string \<Rightarrow> bool) option"
  x_within_limit :: "(string \<Rightarrow> graph \<Rightarrow> own_error option) option"
  x_paid :: "string list option"
  x_team_role :: "(string \<Rightarrow> string \<Rightarrow> graph \<Rightarrow> own_error option) option"

record env =
  ev_now :: instant
  ev_plus_month :: "instant \<Rightarrow> instant"
  ev_uuid :: "nat \<Rightarrow> string"

section \<open>Queries\<close>

definition owner_key :: "project_node \<Rightarrow> string \<times> string option" where
  "owner_key p = (p_name p, p_owner_email p)"

definition team_key :: "project_node \<Rightarrow> string \<times> string option" where
  "team_key p = (p_name p, p_team_id p)"

definition fresh_nid :: "graph \<Rightarrow> nat" where
  "fresh_nid g = Suc (fold max (map p_nid (g_projects g)) 0)"

definition merge_owns :: "instant \<Rightarrow> string \<Rightarrow> nat \<Rightarrow> owns_rel list \<Rightarrow> owns_rel list" where
  "merge_owns now e n rs =
     (if \<exists>r \<in> set rs. o_user r = e \<and> o_project r = n then rs
      else rs @ [\<lparr>o_user = e, o_project = n, o_created_at = Some now\<rparr>])"

definition merge_has_project :: "instant \<Rightarrow> string \<Rightarrow> nat \<Rightarrow> team_rel list \<Rightarrow> team_rel list" where
  "merge_has_project now t n rs =
     (if \<exists>r \<in> set rs. h_team r = t \<and> h_project r = n then rs
      else rs @ [\<lparr>h_team = t, h_project = n, h_created_at = Some now\<rparr>])"

definition fill_id :: "env \<Rightarrow> project_node \<Rightarrow> project_node" where
  "fill_id v p = p\<lparr>p_id := Some (coalesce (p_id p) (ev_uuid v (p_nid p)))\<rparr>"

text \<open>_CLAIM_PROJECT_CYPHER: no user, no row; otherwise MERGE of the node and of the
  relationship.\<close>

definition claim_project_new :: "env \<Rightarrow> string \<Rightarrow> string \<Rightarrow> nat \<Rightarrow> project_node" where
  "claim_project_new v e proj n = \<lparr>p_nid = n, p_id = Some (ev_uuid v n), p_name = proj,
     p_owner_email = Some e, p_team_id = None, p_created_by = None, p_created_at = Some (ev_now v)\<rparr>"

definition claim_project_cypher :: "env \<Rightarrow> string \<Rightarrow> string \<Rightarrow> graph \<Rightarrow> project_node list \<times> graph" where
  "claim_project_cypher v e proj g =
     (if users_with e g = [] then ([], g)
      else let ps = merge_on owner_key (proj, Some e) (claim_project_new v e proj (fresh_nid g))
                      (fill_id v) (g_projects g);
               rows = match_on owner_key (proj, Some e) ps
           in (rows, g\<lparr>g_projects := ps,
                 g_owns := fold (\<lambda>p rs. merge_owns (ev_now v) e (p_nid p) rs) rows (g_owns g)\<rparr>))"

definition owned_matching :: "string \<Rightarrow> string \<Rightarrow> graph \<Rightarrow> project_node list" where
  "owned_matching e proj g =
     (if users_with e g = [] then []
      else filter (\<lambda>p. \<exists>r \<in> set (g_owns g). o_user r = e \<and> o_project r = p_nid p)
             (match_on owner_key (proj, Some e) (g_projects g)))"

definition team_matching :: "string \<Rightarrow> string \<Rightarrow> string \<Rightarrow> graph \<Rightarrow> project_node list" where
  "team_matching e proj t g =
     (if users_with e g = [] \<or> (e, t) \<notin> set (g_members g) \<or> t \<notin> set (g_teams g) then []
      else filter (\<lambda>p. \<exists>r \<in> set (g_has_project g). h_team r = t \<and> h_project r = p_nid p)
             (match_on team_key (proj, Some t) (g_projects g)))"

definition claim_team_project_new :: "env \<Rightarrow> string \<Rightarrow> string \<Rightarrow> string \<Rightarrow> nat \<Rightarrow> project_node" where
  "claim_team_project_new v e t proj n = \<lparr>p_nid = n, p_id = Some (ev_uuid v n), p_name = proj,
     p_owner_email = None, p_team_id = Some t, p_created_by = Some e, p_created_at = Some (ev_now v)\<rparr>"

definition claim_team_project_cypher ::
  "env \<Rightarrow> string \<Rightarrow> string \<Rightarrow> string \<Rightarrow> graph \<Rightarrow> project_node list \<times> graph" where
  "claim_team_project_cypher v e t proj g =
     (if users_with e g = [] \<or> (e, t) \<notin> set (g_members g) \<or> t \<notin> set (g_teams g) then ([], g)
      else let ps = merge_on team_key (proj, Some t) (claim_team_project_new v e t proj (fresh_nid g))
                      (fill_id v) (g_projects g);
               rows = match_on team_key (proj, Some t) ps
           in (rows, g\<lparr>g_projects := ps,
                 g_has_project := fold (\<lambda>p rs. merge_has_project (ev_now v) t (p_nid p) rs) rows
                                    (g_has_project g)\<rparr>))"

section \<open>Owner operations\<close>

definition is_owner :: "string \<Rightarrow> string \<Rightarrow> graph \<Rightarrow> bool" where
  "is_owner e proj g = (e \<noteq> '''' \<and> proj \<noteq> '''' \<and> owned_matching e proj g \<noteq> [])"

definition resolve_project_id :: "string \<Rightarrow> string \<Rightarrow> graph \<Rightarrow> string option" where
  "resolve_project_id e proj g =
     (if e = '''' \<or> proj = '''' then None
      else Option.bind (row1 (owned_matching e proj g)) p_id)"

definition count_user_projects :: "string \<Rightarrow> graph \<Rightarrow> nat" where
  "count_user_projects e g =
     (if e = '''' \<or> users_with e g = [] then 0
      else length (concat (map (\<lambda>r. filter (\<lambda>p. p_nid p = o_project r) (g_projects g))
             (filter (\<lambda>r. o_user r = e) (g_owns g)))))"

definition claim_project ::
  "own_ext \<Rightarrow> env \<Rightarrow> string \<Rightarrow> string \<Rightarrow> graph \<Rightarrow> (own_error + string option) \<times> graph" where
  "claim_project x v e proj g =
     (if e = '''' \<or> proj = '''' then (Inr None, g)
      else case x_assert_safe x of
        None \<Rightarrow> (Inl ImportFailure, g)
      | Some safe \<Rightarrow>
          if \<not> safe proj then (Inl UnsafeName, g)
          else case (if is_owner e proj g then None
                     else case x_within_limit x of
                            None \<Rightarrow> Some ImportFailure
                          | Some within \<Rightarrow> within e g) of
            Some err \<Rightarrow> (Inl err, g)
          | None \<Rightarrow> (let (rows, g') = claim_project_cypher v e proj g
                     in (Inr (Option.bind (row1 rows) p_id), g')))"

definition record_ownership :: "own_ext \<Rightarrow> env \<Rightarrow> string \<Rightarrow> string \<Rightarrow> graph \<Rightarrow> graph" where
  "record_ownership x v e proj g = snd (claim_project x v e proj g)"

definition assert_owns :: "string \<Rightarrow> string \<Rightarrow> graph \<Rightarrow> own_error + unit" where
  "assert_owns e proj g =
     (if proj = '''' then Inl (Http 400)
      else if \<not> is_owner e proj g then Inl (Http 403) else Inr ())"

text \<open>list_owned_projects: newest first; in Cypher null sorts first when descending.\<close>

definition newest_first :: "('r \<Rightarrow> instant option) \<Rightarrow> 'r list \<Rightarrow> 'r list" where
  "newest_first at rs = filter (\<lambda>r. at r = None) rs
     @ sort_key (\<lambda>r. - the (at r)) (filter (\<lambda>r. at r \<noteq> None) rs)"

definition list_owned_projects ::
  "string \<Rightarrow> graph \<Rightarrow> (string option \<times> string \<times> instant option) list" where
  "list_owned_projects e g =
     (if e = '''' \<or> users_with e g = [] then []
      else filter (\<lambda>(i, n, t). n \<noteq> '''')
        (concat (map (\<lambda>r. map (\<lambda>p. (p_id p, p_name p, o_created_at r))
             (filter (\<lambda>p. p_nid p = o_project r) (g_projects g)))
           (newest_first o_created_at (filter (\<lambda>r. o_user r = e) (g_owns g))))))"

definition remove_user_ownerships :: "string \<Rightarrow> graph \<Rightarrow> nat \<times> graph" where
  "remove_user_ownerships e g =
     (if e = '''' \<or> users_with e g = [] then (0, g)
      else (length (filter (\<lambda>r. o_user r = e) (g_owns g)),
            g\<lparr>g_owns := filter (\<lambda>r. o_user r \<noteq> e) (g_owns g)\<rparr>))"

text \<open>_DELETE_PROJECT_OWNERSHIP_CYPHER begins with a line that starts with \<open>#\<close>. Cypher
  comments are \<open>//\<close> and \<open>/* */\<close>, so the server rejects the statement as a syntax
  error before it runs.\<close>

definition delete_project_node :: "string \<Rightarrow> string \<Rightarrow> graph \<Rightarrow> (own_error + unit) \<times> graph" where
  "delete_project_node e proj g =
     (if proj = '''' then (Inr (), g) else (Inl CypherSyntaxError, g))"

section \<open>Team access\<close>

text \<open>The lazy plan check: get_usage runs (and may write resets), then the plan is
  looked up in PAID_SUBSCRIPTIONS. The import of app.core.subscription comes first.\<close>

definition check_paid :: "own_ext \<Rightarrow> env \<Rightarrow> string \<Rightarrow> graph \<Rightarrow> own_error option \<times> graph" where
  "check_paid x v e g =
     (case x_paid x of
        None \<Rightarrow> (Some ImportFailure, g)
      | Some paid \<Rightarrow>
          (let (us, g') = get_usage (ev_plus_month v) (ev_now v) e g;
               sub = (case us of Some r \<Rightarrow> s_subscription_type r | None \<Rightarrow> ''free'')
           in (if sub \<in> set paid then None else Some (Http 402), g')))"

definition assert_access ::
  "own_ext \<Rightarrow> env \<Rightarrow> string \<Rightarrow> string \<Rightarrow> string option \<Rightarrow> graph \<Rightarrow> (own_error + unit) \<times> graph" where
  "assert_access x v e proj tid g =
     (case or_none tid of
        None \<Rightarrow> (assert_owns e proj g, g)
      | Some t \<Rightarrow>
          if proj = '''' then (Inl (Http 400), g)
          else if team_matching e proj t g = [] then (Inl (Http 403), g)
          else (case check_paid x v e g of
                  (Some err, g') \<Rightarrow> (Inl err, g')
                | (None, g') \<Rightarrow> (Inr (), g')))"

definition can_access ::
  "own_ext \<Rightarrow> env \<Rightarrow> string \<Rightarrow> string \<Rightarrow> string option \<Rightarrow> graph \<Rightarrow> (own_error + bool) \<times> graph" where
  "can_access x v e proj tid g =
     (if proj = '''' then (Inr False, g)
      else case or_none tid of
        None \<Rightarrow> (Inr (is_owner e proj g), g)
      | Some t \<Rightarrow>
          if team_matching e proj t g = [] then (Inr False, g)
          else (case check_paid x v e g of
                  (Some err, g') \<Rightarrow> (Inl err, g')
                | (None, g') \<Rightarrow> (Inr True, g')))"

definition claim_team_project ::
  "own_ext \<Rightarrow> env \<Rightarrow> string \<Rightarrow> string \<Rightarrow> string \<Rightarrow> graph \<Rightarrow> (own_error + string option) \<times> graph" where
  "claim_team_project x v e t proj g =
     (if e = '''' \<or> t = '''' \<or> proj = '''' then (Inr None, g)
      else case x_assert_safe x of
        None \<Rightarrow> (Inl ImportFailure, g)
      | Some safe \<Rightarrow>
          if \<not> safe proj then (Inl UnsafeName, g)
          else (let (rows, g') = claim_team_project_cypher v e t proj g
                in (Inr (Option.bind (row1 rows) p_id), g')))"

definition assert_team_access ::
  "own_ext \<Rightarrow> env \<Rightarrow> string \<Rightarrow> string \<Rightarrow> graph \<Rightarrow> (own_error + unit) \<times> graph" where
  "assert_team_access x v e t g =
     (if t = '''' then (Inl (Http 400), g)
      else case x_team_role x of
        None \<Rightarrow> (Inl ImportFailure, g)
      | Some role \<Rightarrow>
          (case role e t g of
             Some err \<Rightarrow> (Inl err, g)
           | None \<Rightarrow> (case check_paid x v e g of
                       (Some err, g') \<Rightarrow> (Inl err, g')
                     | (None, g') \<Rightarrow> (Inr (), g'))))"

definition claim ::
  "own_ext \<Rightarrow> env \<Rightarrow> string \<Rightarrow> string \<Rightarrow> string option \<Rightarrow> graph \<Rightarrow> (own_error + string option) \<times> graph" where
  "claim x v e proj tid g =
     (case or_none tid of
        None \<Rightarrow> claim_project x v e proj g
      | Some t \<Rightarrow>
          (case assert_team_access x v e t g of
             (Inl err, g') \<Rightarrow> (Inl err, g')
           | (Inr _, g') \<Rightarrow> claim_team_project x v e t proj g'))"

definition list_team_projects ::
  "string \<Rightarrow> string \<Rightarrow> graph \<Rightarrow> (string option \<times> string \<times> string option \<times> instant option) list" where
  "list_team_projects e t g =
     (if users_with e g = [] \<or> (e, t) \<notin> set (g_members g) \<or> t \<notin> set (g_teams g) then []
      else filter (\<lambda>(i, n, tm, at). n \<noteq> '''')
        (concat (map (\<lambda>r. map (\<lambda>p. (p_id p, p_name p, p_team_id p, h_created_at r))
             (filter (\<lambda>p. p_nid p = h_project r) (g_projects g)))
           (newest_first h_created_at (filter (\<lambda>r. h_team r = t) (g_has_project g))))))"

definition delete_team_project_node :: "string \<Rightarrow> string \<Rightarrow> graph \<Rightarrow> graph" where
  "delete_team_project_node t proj g =
     (if proj = '''' \<or> t = '''' \<or> t \<notin> set (g_teams g) then g
      else let dead = (\<lambda>p. team_key p = (proj, Some t)
                 \<and> (\<exists>r \<in> set (g_has_project g). h_team r = t \<and> h_project r = p_nid p));
               ids = map p_nid (filter dead (g_projects g))
           in g\<lparr>g_projects := filter (\<lambda>p. \<not> dead p) (g_projects g),
                g_owns := filter (\<lambda>r. o_project r \<notin> set ids) (g_owns g),
                g_has_project := filter (\<lambda>r. h_project r \<notin> set ids) (g_has_project g)\<rparr>)"

section \<open>Boot-time backfill\<close>

definition backfill_project_id :: "env \<Rightarrow> graph \<Rightarrow> nat \<times> graph" where
  "backfill_project_id v g =
     (length (filter (\<lambda>p. p_id p = None) (g_projects g)),
      g\<lparr>g_projects := map (\<lambda>p. if p_id p = None then p\<lparr>p_id := Some (ev_uuid v (p_nid p))\<rparr> else p)
          (g_projects g)\<rparr>)"

definition owner_of :: "graph \<Rightarrow> nat \<Rightarrow> string option" where
  "owner_of g n = map_option o_user (row1 (filter (\<lambda>r. o_project r = n) (g_owns g)))"

definition backfill_project_owner_email :: "graph \<Rightarrow> graph" where
  "backfill_project_owner_email g =
     g\<lparr>g_projects := map (\<lambda>p. if p_owner_email p = None then p\<lparr>p_owner_email := owner_of g (p_nid p)\<rparr>
          else p) (g_projects g)\<rparr>"

text \<open>ensure_project_constraint: six steps, each in its own try block; a step that
  fails (flag False) changes nothing. Steps 1, 2, 3 and 6 only touch constraints.\<close>

definition ensure_project_constraint :: "env \<Rightarrow> (nat \<Rightarrow> bool) \<Rightarrow> graph \<Rightarrow> graph" where
  "ensure_project_constraint v succeeds g =
     (let g1 = (if succeeds 4 then snd (backfill_project_id v g) else g)
      in if succeeds 5 then backfill_project_owner_email g1 else g1)"

section \<open>Relationships and claims\<close>

lemma merge_owns_has: "\<exists>r \<in> set (merge_owns now e n rs). o_user r = e \<and> o_project r = n"
  by (auto simp: merge_owns_def)

lemma merge_owns_mono: "set rs \<subseteq> set (merge_owns now e n rs)"
  by (auto simp: merge_owns_def)

lemma merge_owns_new:
  "r \<in> set (merge_owns now e n rs) \<Longrightarrow> r \<in> set rs \<or> o_user r = e \<and> o_project r = n"
  by (auto simp: merge_owns_def split: if_splits)

lemma merge_owns_noop:
  "\<exists>r \<in> set rs. o_user r = e \<and> o_project r = n \<Longrightarrow> merge_owns now e n rs = rs"
  by (simp add: merge_owns_def)

lemma fold_owns_mono: "set rs \<subseteq> set (fold (\<lambda>p. merge_owns now e (p_nid p)) ps rs)"
  by (induction ps arbitrary: rs) (auto dest: subsetD[OF merge_owns_mono])

lemma fold_owns_has:
  "p \<in> set ps \<Longrightarrow>
   \<exists>r \<in> set (fold (\<lambda>p. merge_owns now e (p_nid p)) ps rs). o_user r = e \<and> o_project r = p_nid p"
proof (induction ps arbitrary: rs)
  case (Cons q ps)
  show ?case
  proof (cases "p = q")
    case True
    then show ?thesis
      using merge_owns_has[where now = now and e = e and n = "p_nid q" and rs = rs]
        fold_owns_mono[where rs = "merge_owns now e (p_nid q) rs" and ps = ps and now = now and e = e]
      by (simp, blast)
  next
    case False
    then show ?thesis using Cons.IH[of "merge_owns now e (p_nid q) rs"] Cons.prems by simp
  qed
qed simp

lemma fold_owns_new:
  "r \<in> set (fold (\<lambda>p. merge_owns now e (p_nid p)) ps rs) \<Longrightarrow>
   r \<in> set rs \<or> o_user r = e \<and> (\<exists>p \<in> set ps. o_project r = p_nid p)"
  by (induction ps arbitrary: rs) (auto dest: merge_owns_new)

lemma fold_owns_noop:
  "\<forall>p \<in> set ps. \<exists>r \<in> set rs. o_user r = e \<and> o_project r = p_nid p \<Longrightarrow>
   fold (\<lambda>p. merge_owns now e (p_nid p)) ps rs = rs"
  by (induction ps arbitrary: rs) (simp_all add: merge_owns_noop)

lemma fill_id_simps [simp]:
  "owner_key (fill_id v p) = owner_key p" "team_key (fill_id v p) = team_key p"
  "p_nid (fill_id v p) = p_nid p" "p_id (fill_id v p) \<noteq> None"
  by (simp_all add: fill_id_def owner_key_def team_key_def)

lemma fill_id_done: "p_id p \<noteq> None \<Longrightarrow> fill_id v p = p"
  by (auto simp: fill_id_def)

lemma claim_project_new_key [simp]: "owner_key (claim_project_new v e proj n) = (proj, Some e)"
  "p_id (claim_project_new v e proj n) \<noteq> None"
  by (simp_all add: claim_project_new_def owner_key_def)

lemma fold_max_bound: "x \<in> set xs \<Longrightarrow> x \<le> fold max xs (m::nat)" "m \<le> fold max xs m"
proof (induction xs arbitrary: m)
  case (Cons a xs)
  { case 1 then show ?case using Cons.IH(1)[of "max a m"] Cons.IH(2)[of "max a m"] by auto }
  { case 2 then show ?case using Cons.IH(2)[of "max a m"] by simp }
qed simp_all

lemma fresh_nid: "p \<in> set (g_projects g) \<Longrightarrow> p_nid p \<noteq> fresh_nid g"
  using fold_max_bound(1)[of "p_nid p" "map p_nid (g_projects g)" 0] by (auto simp: fresh_nid_def)

text \<open>The rows a claim returns and the graph it leaves.\<close>

lemma claim_cypher_rows:
  assumes "users_with e g \<noteq> []" "claim_project_cypher v e proj g = (rows, g')"
  shows "rows \<noteq> []" "\<forall>p \<in> set rows. p_id p \<noteq> None" "match_on owner_key (proj, Some e) (g_projects g') = rows"
    "owned_matching e proj g' = rows" "g_users g' = g_users g"
proof -
  have "rows = (if match_on owner_key (proj, Some e) (g_projects g) = []
      then [claim_project_new v e proj (fresh_nid g)]
      else map (fill_id v) (match_on owner_key (proj, Some e) (g_projects g)))"
    using assms by (simp add: claim_project_cypher_def Let_def match_on_merge_same)
  then show "rows \<noteq> []" "\<forall>p \<in> set rows. p_id p \<noteq> None"
    using claim_project_new_key(2) fill_id_simps(4) by (auto simp del: not_None_eq split: if_splits)
  show m: "match_on owner_key (proj, Some e) (g_projects g') = rows" and u: "g_users g' = g_users g"
    using assms by (auto simp: claim_project_cypher_def Let_def)
  have "g_owns g' = fold (\<lambda>p. merge_owns (ev_now v) e (p_nid p)) rows (g_owns g)"
    using assms by (auto simp: claim_project_cypher_def Let_def)
  then show "owned_matching e proj g' = rows"
    using assms(1) m u fold_owns_has[of _ rows "ev_now v" e "g_owns g"]
    by (simp add: owned_matching_def filter_id_conv)
qed

lemma claim_cypher_frame:
  assumes "claim_project_cypher v e proj g = (rows, g')" "e' \<noteq> e"
  shows "owned_matching e' proj' g' = owned_matching e' proj' g"
proof (cases "users_with e g = []")
  case True
  with assms show ?thesis by (simp add: claim_project_cypher_def)
next
  case False
  have m: "match_on owner_key (proj', Some e') (g_projects g') = match_on owner_key (proj', Some e') (g_projects g)"
    using assms False by (auto simp: claim_project_cypher_def Let_def match_on_merge_other)
  have "g_owns g' = fold (\<lambda>p. merge_owns (ev_now v) e (p_nid p)) rows (g_owns g)"
    "g_users g' = g_users g"
    using assms False by (auto simp: claim_project_cypher_def Let_def)
  then show ?thesis
    using assms(2) m fold_owns_new[of _ "ev_now v" e rows "g_owns g"]
      fold_owns_mono[of "g_owns g" "ev_now v" e rows]
    by (auto simp: owned_matching_def intro!: filter_cong)
qed

lemma claim_cypher_again:
  assumes "users_with e g \<noteq> []" "claim_project_cypher v e proj g = (rows, g')"
  shows "claim_project_cypher v' e proj g' = (rows, g')"
proof -
  note r = claim_cypher_rows[OF assms]
  have s: "set_on owner_key (proj, Some e) (fill_id v') (g_projects g') = g_projects g'"
  proof -
    have "\<forall>p \<in> set (g_projects g'). owner_key p = (proj, Some e) \<longrightarrow> fill_id v' p = p"
      using r(2,3) fill_id_done by (auto simp: match_on_def)
    then show ?thesis by (auto simp: set_on_def intro!: map_idI)
  qed
  have "merge_on owner_key (proj, Some e) (claim_project_new v' e proj (fresh_nid g')) (fill_id v')
      (g_projects g') = g_projects g'"
    using r(1,3) s by (simp add: merge_on_def)
  moreover have "fold (\<lambda>p. merge_owns (ev_now v') e (p_nid p)) rows (g_owns g') = g_owns g'"
    using r(4) assms(1) r(5) by (intro fold_owns_noop) (auto simp: owned_matching_def)
  moreover have "users_with e g' \<noteq> []" using r(5) assms(1) by simp
  ultimately show ?thesis
    using r(3) by (simp add: claim_project_cypher_def)
qed

text \<open>Claiming. When the name is acceptable and the project limit permits it, an existing
  user ends up owning the project, its id resolves, a second claim by anyone's clock and whatever
  the limit says returns the same id and changes nothing, and no other user gains or loses a
  project. This holds also when another user owns a project of the same name: no conflict is
  raised.\<close>

theorem claim_project_grants:
  assumes "e \<noteq> ''''" "proj \<noteq> ''''" "find_user e g \<noteq> None"
    and "x_assert_safe x = Some safe" "safe proj"
    and "is_owner e proj g \<or> (\<exists>w. x_within_limit x = Some w \<and> w e g = None)"
  shows "\<exists>i g'. claim_project x v e proj g = (Inr (Some i), g') \<and>
    is_owner e proj g' \<and> resolve_project_id e proj g' = Some i \<and>
    claim_project (x\<lparr>x_within_limit := w'\<rparr>) v' e proj g' = (Inr (Some i), g') \<and>
    (\<forall>e' proj'. e' \<noteq> e \<longrightarrow> is_owner e' proj' g' = is_owner e' proj' g)"
proof -
  obtain rows g' where c: "claim_project_cypher v e proj g = (rows, g')" by force
  have u: "users_with e g \<noteq> []" using assms(3) by (simp add: find_user_def)
  note r = claim_cypher_rows[OF u c]
  then obtain p ps i where p: "rows = p # ps" "p_id p = Some i"
    by (cases rows) auto
  have first: "claim_project x v e proj g = (Inr (Some i), g')"
    using assms c p by (auto simp: claim_project_def)
  have own: "is_owner e proj g'"
    using r(4) p assms(1,2) by (simp add: is_owner_def)
  have "claim_project (x\<lparr>x_within_limit := w'\<rparr>) v' e proj g' = (Inr (Some i), g')"
    using assms own claim_cypher_again[OF u c] p by (simp add: claim_project_def)
  moreover have "is_owner e' proj' g' = is_owner e' proj' g" if "e' \<noteq> e" for e' proj'
    using claim_cypher_frame[OF c that] by (simp add: is_owner_def)
  moreover have "resolve_project_id e proj g' = Some i"
    using r(4) p assms(1,2) by (simp add: resolve_project_id_def)
  ultimately show ?thesis using first own by blast
qed

definition own_demo :: graph where
  "own_demo = empty_graph\<lparr>g_users := [blank_user ''a@x'', blank_user ''b@x''],
     g_projects := [\<lparr>p_nid = 1, p_id = Some ''p1'', p_name = ''app'', p_owner_email = Some ''b@x'',
        p_team_id = None, p_created_by = None, p_created_at = None\<rparr>],
     g_owns := [\<lparr>o_user = ''b@x'', o_project = 1, o_created_at = None\<rparr>]\<rparr>"

definition ext_demo :: own_ext where
  "ext_demo = \<lparr>x_assert_safe = Some (\<lambda>n. n \<noteq> ''::''), x_within_limit = Some (\<lambda>_ _. None),
     x_paid = Some [''pro''], x_team_role = Some (\<lambda>_ _ _. None)\<rparr>"

definition env_demo :: env where
  "env_demo = \<lparr>ev_now = 50, ev_plus_month = (\<lambda>t. t + 2592000), ev_uuid = (\<lambda>n. ''id'')\<rparr>"

lemma own_demo_facts:
  "find_user ''a@x'' own_demo \<noteq> None" "is_owner ''b@x'' ''app'' own_demo"
  "\<not> is_owner ''a@x'' ''app'' own_demo"
  by (simp_all add: own_demo_def empty_graph_def blank_user_def find_user_def is_owner_def
      owned_matching_def owner_key_def)

lemma claim_project_grants_witness:
  "\<exists>i g'. claim_project ext_demo env_demo ''a@x'' ''app'' own_demo = (Inr (Some i), g') \<and>
     is_owner ''a@x'' ''app'' g' \<and> is_owner ''b@x'' ''app'' g'"
proof -
  have h: "x_assert_safe ext_demo = Some (\<lambda>n. n \<noteq> ''::'')" "''app'' \<noteq> ''::''"
    "is_owner ''a@x'' ''app'' own_demo \<or> (\<exists>w. x_within_limit ext_demo = Some w \<and> w ''a@x'' own_demo = None)"
    by (simp_all add: ext_demo_def)
  obtain i g' where g: "claim_project ext_demo env_demo ''a@x'' ''app'' own_demo = (Inr (Some i), g')"
    "is_owner ''a@x'' ''app'' g'"
    "\<forall>e' proj'. e' \<noteq> ''a@x'' \<longrightarrow> is_owner e' proj' g' = is_owner e' proj' own_demo"
    using claim_project_grants[OF _ _ own_demo_facts(1) h(1) h(2) h(3), of env_demo None env_demo]
    by auto
  have "is_owner ''b@x'' ''app'' g'" using g(3) own_demo_facts(2) by simp
  with g(1,2) show ?thesis by blast
qed

section \<open>Access\<close>

lemma check_paid_errors:
  "check_paid x v e g = (Some err, g') \<Longrightarrow> err = ImportFailure \<or> err = Http 402"
  by (auto simp: check_paid_def Let_def split_beta split: option.splits if_splits)

lemma check_paid_ok:
  "check_paid x v e g = (None, g') \<Longrightarrow>
   \<exists>paid. x_paid x = Some paid \<and>
     (case fst (get_usage (ev_plus_month v) (ev_now v) e g) of
        Some r \<Rightarrow> s_subscription_type r | None \<Rightarrow> ''free'') \<in> set paid"
  by (auto simp: check_paid_def Let_def split_beta split: option.splits if_splits)

text \<open>C7: Access. The raising gate and the boolean gate decide alike for every named project:
  403 corresponds to False, every other error is raised by both, and both leave the same graph.
  The raising gate lets a caller through only if they own the project, or, with a team id, are a
  member of the team that has it and are on a paid plan.\<close>

theorem access_gates_agree:
  assumes "proj \<noteq> ''''"
  shows "can_access x v e proj tid g =
      (case assert_access x v e proj tid g of
         (Inr _, g') \<Rightarrow> (Inr True, g')
       | (Inl err, g') \<Rightarrow> (if err = Http 403 then Inr False else Inl err, g'))
    \<and> (\<forall>g'. assert_access x v e proj tid g = (Inr (), g') \<longrightarrow>
        (case or_none tid of
           None \<Rightarrow> is_owner e proj g \<and> g' = g
         | Some t \<Rightarrow> (e, t) \<in> set (g_members g) \<and> team_matching e proj t g \<noteq> [] \<and>
             (\<exists>paid. x_paid x = Some paid \<and>
               (case fst (get_usage (ev_plus_month v) (ev_now v) e g) of
                  Some r \<Rightarrow> s_subscription_type r | None \<Rightarrow> ''free'') \<in> set paid)))"
proof (cases "or_none tid")
  case None
  then show ?thesis
    using assms by (auto simp: can_access_def assert_access_def assert_owns_def)
next
  case (Some t)
  have m: "team_matching e proj t g \<noteq> [] \<Longrightarrow> (e, t) \<in> set (g_members g)"
    by (auto simp: team_matching_def split: if_splits)
  obtain r g1 where c: "check_paid x v e g = (r, g1)" by force
  show ?thesis
    using Some assms m c check_paid_errors[of x v e g _ g1] check_paid_ok[of x v e g g1]
    by (cases r) (auto simp: can_access_def assert_access_def)
qed

lemma access_gates_agree_witness:
  "fst (can_access ext_demo env_demo ''b@x'' ''app'' None own_demo) = Inr True \<and>
   fst (can_access ext_demo env_demo ''a@x'' ''app'' None own_demo) = Inr False"
  using access_gates_agree[of "''app''" ext_demo env_demo "''b@x''" None own_demo]
    access_gates_agree[of "''app''" ext_demo env_demo "''a@x''" None own_demo] own_demo_facts
  by (simp add: assert_access_def assert_owns_def)

text \<open>A team project can be claimed by members only: for anyone else the call returns no
  project and the graph is unchanged.\<close>

theorem team_claim_needs_membership:
  "(e, t) \<notin> set (g_members g) \<Longrightarrow>
   snd (claim_team_project x v e t proj g) = g \<and>
   (\<forall>i. fst (claim_team_project x v e t proj g) \<noteq> Inr (Some i))"
  by (auto simp: claim_team_project_def claim_team_project_cypher_def Let_def
      split: option.split)

lemma team_claim_needs_membership_witness:
  "claim_team_project ext_demo env_demo ''a@x'' ''t1'' ''app'' own_demo = (Inr None, own_demo)"
proof -
  have "(''a@x'', ''t1'') \<notin> set (g_members own_demo)"
    by (simp add: own_demo_def empty_graph_def)
  from team_claim_needs_membership[OF this, of ext_demo env_demo "''app''"] show ?thesis
    by (simp add: claim_team_project_def ext_demo_def claim_team_project_cypher_def own_demo_def
        empty_graph_def)
qed

lemma owned_matching_removed:
  "owned_matching e' proj (g\<lparr>g_owns := filter (\<lambda>r. o_user r \<noteq> e) (g_owns g)\<rparr>) =
     (if e' = e then [] else owned_matching e' proj g)"
  by (auto simp: owned_matching_def intro!: filter_cong)

lemma owned_matching_no_user: "users_with e g = [] \<Longrightarrow> owned_matching e proj g = []"
  by (simp add: owned_matching_def)

text \<open>Removal. When an account leaves, all its ownerships end, every project node stays and
  other owners keep theirs. Deleting one's own project never works: the statement is rejected by
  the database, so an existing project is still owned afterwards.\<close>

theorem ownership_removal:
  "snd (remove_user_ownerships e g) = g' \<Longrightarrow>
   \<not> is_owner e proj g' \<and> g_projects g' = g_projects g \<and>
   (\<forall>e'. e' \<noteq> e \<longrightarrow> is_owner e' proj g' = is_owner e' proj g) \<and>
   (proj \<noteq> '''' \<longrightarrow> delete_project_node e proj g = (Inl CypherSyntaxError, g))"
  by (cases "e = '''' \<or> users_with e g = []")
     (auto simp: remove_user_ownerships_def is_owner_def owned_matching_removed
       delete_project_node_def owned_matching_no_user)

lemma ownership_removal_witness:
  "\<not> is_owner ''b@x'' ''app'' (snd (remove_user_ownerships ''b@x'' own_demo)) \<and>
   delete_project_node ''b@x'' ''app'' own_demo = (Inl CypherSyntaxError, own_demo)"
  using ownership_removal[of "''b@x''" own_demo _ "''app''"] by simp

end
