(* ===== verification/Redis.thy ===== *)
theory Redis
  imports Prelude
begin

text \<open>
  Redis is a service outside the repository: the commands the code sends are
  fields of a record that the definitions take as an argument, and what the code
  relies on is stated as named laws (the documented effect of each command, in
  terms of what a later read returns). A reference instance on association lists
  shows that the laws can hold and lets the witnesses compute.
\<close>

section \<open>Sorted sets\<close>

record 'r zset_api =
  z_remrangebyscore :: "string \<Rightarrow> int \<Rightarrow> 'r \<Rightarrow> 'r"
  z_card :: "string \<Rightarrow> 'r \<Rightarrow> nat"
  z_score :: "string \<Rightarrow> string \<Rightarrow> 'r \<Rightarrow> int option"
  z_add :: "string \<Rightarrow> string \<Rightarrow> int \<Rightarrow> 'r \<Rightarrow> 'r"
  z_rem :: "string \<Rightarrow> string \<Rightarrow> 'r \<Rightarrow> 'r"
  z_expire :: "string \<Rightarrow> int \<Rightarrow> 'r \<Rightarrow> 'r"

definition above :: "int \<Rightarrow> int option \<Rightarrow> int option" where
  "above hi x = (case x of None \<Rightarrow> None | Some v \<Rightarrow> if v \<le> hi then None else Some v)"

definition zset_laws :: "'r zset_api \<Rightarrow> bool" where
  "zset_laws a \<longleftrightarrow>
     (\<forall>k m k' m' x s. z_score a k m (z_add a k' m' x s) =
        (if k = k' \<and> m = m' then Some x else z_score a k m s)) \<and>
     (\<forall>k m k' m' s. z_score a k m (z_rem a k' m' s) =
        (if k = k' \<and> m = m' then None else z_score a k m s)) \<and>
     (\<forall>k m k' hi s. z_score a k m (z_remrangebyscore a k' hi s) =
        (if k = k' then above hi (z_score a k m s) else z_score a k m s)) \<and>
     (\<forall>k m k' ttl s. z_score a k m (z_expire a k' ttl s) = z_score a k m s) \<and>
     (\<forall>k s. finite {m. z_score a k m s \<noteq> None} \<and> z_card a k s = card {m. z_score a k m s \<noteq> None})"

lemma zset_lawsD:
  assumes "zset_laws a"
  shows "z_score a k m (z_add a k' m' x s) = (if k = k' \<and> m = m' then Some x else z_score a k m s)"
    "z_score a k m (z_rem a k' m' s) = (if k = k' \<and> m = m' then None else z_score a k m s)"
    "z_score a k m (z_remrangebyscore a k' hi s) =
       (if k = k' then above hi (z_score a k m s) else z_score a k m s)"
    "z_score a k m (z_expire a k' ttl s) = z_score a k m s"
    "finite {m. z_score a k m s \<noteq> None}"
    "z_card a k s = card {m. z_score a k m s \<noteq> None}"
  using assms by (auto simp: zset_laws_def simp del: not_None_eq)

text \<open>The reference instance: one association list over (key, member).\<close>

definition al_delete :: "('k \<Rightarrow> bool) \<Rightarrow> ('k \<times> 'v) list \<Rightarrow> ('k \<times> 'v) list" where
  "al_delete p s = filter (\<lambda>kv. \<not> p (fst kv)) s"

definition al_put :: "'k \<Rightarrow> 'v \<Rightarrow> ('k \<times> 'v) list \<Rightarrow> ('k \<times> 'v) list" where
  "al_put k v s = (k, v) # al_delete (\<lambda>k'. k' = k) s"

lemma map_of_al_delete: "map_of (al_delete p s) k = (if p k then None else map_of s k)"
  by (induction s) (auto simp: al_delete_def)

lemma map_of_al_put: "map_of (al_put k v s) k' = (if k' = k then Some v else map_of s k')"
  by (simp add: al_put_def map_of_al_delete)

definition ref_zset :: "((string \<times> string) \<times> int) list zset_api" where
  "ref_zset = \<lparr>
     z_remrangebyscore = (\<lambda>k hi s. al_delete (\<lambda>km. fst km = k \<and> above hi (map_of s km) = None) s),
     z_card = (\<lambda>k s. length (remdups (map (snd \<circ> fst) (filter (\<lambda>kv. fst (fst kv) = k) s)))),
     z_score = (\<lambda>k m s. map_of s (k, m)),
     z_add = (\<lambda>k m x s. al_put (k, m) x s),
     z_rem = (\<lambda>k m s. al_delete (\<lambda>km. km = (k, m)) s),
     z_expire = (\<lambda>k ttl s. s)\<rparr>"

lemma ref_members:
  "{m. map_of s (k, m) \<noteq> None} = set (map (snd \<circ> fst) (filter (\<lambda>kv. fst (fst kv) = k) s))"
  by (force simp: map_of_eq_None_iff image_iff simp del: not_None_eq)

lemma ref_zset_laws: "zset_laws ref_zset"
proof -
  have c: "finite {m. map_of s (k, m) \<noteq> None} \<and>
      length (remdups (map (snd \<circ> fst) (filter (\<lambda>kv. fst (fst kv) = k) s))) =
        card {m. map_of s (k, m) \<noteq> None}" for k :: string and s :: "((string \<times> string) \<times> int) list"
    unfolding ref_members by (metis List.finite_set card_set)
  show ?thesis
    unfolding zset_laws_def ref_zset_def zset_api.simps
    by (intro conjI allI)
       (simp_all only: map_of_al_delete map_of_al_put fst_conv, use c in \<open>auto simp: above_def split: option.splits if_splits\<close>)
qed

section \<open>Strings with a time to live\<close>

record 'r kv_api =
  kv_get :: "string \<Rightarrow> instant \<Rightarrow> 'r \<Rightarrow> string option"
  kv_set :: "string \<Rightarrow> string \<Rightarrow> int \<Rightarrow> instant \<Rightarrow> 'r \<Rightarrow> 'r"
  kv_set_nx :: "string \<Rightarrow> string \<Rightarrow> int \<Rightarrow> instant \<Rightarrow> 'r \<Rightarrow> bool \<times> 'r"
  kv_del :: "string \<Rightarrow> instant \<Rightarrow> 'r \<Rightarrow> 'r"

definition kv_laws :: "'r kv_api \<Rightarrow> bool" where
  "kv_laws a \<longleftrightarrow>
     (\<forall>k v ttl now s k' t. now \<le> t \<longrightarrow>
        kv_get a k' t (kv_set a k v ttl now s) =
          (if k' = k then (if t < now + ttl then Some v else None) else kv_get a k' t s)) \<and>
     (\<forall>k v ttl now s. fst (kv_set_nx a k v ttl now s) = (kv_get a k now s = None)) \<and>
     (\<forall>k v ttl now s k' t. now \<le> t \<longrightarrow>
        kv_get a k' t (snd (kv_set_nx a k v ttl now s)) =
          (if kv_get a k now s = None \<and> k' = k
           then (if t < now + ttl then Some v else None) else kv_get a k' t s)) \<and>
     (\<forall>k now s k' t. now \<le> t \<longrightarrow>
        kv_get a k' t (kv_del a k now s) = (if k' = k then None else kv_get a k' t s)) \<and>
     (\<forall>k s t t' v. t \<le> t' \<longrightarrow> kv_get a k t' s = Some v \<longrightarrow> kv_get a k t s = Some v)"

lemma kv_lawsD:
  assumes "kv_laws a"
  shows "now \<le> t \<Longrightarrow> kv_get a k' t (kv_set a k v ttl now s) =
          (if k' = k then (if t < now + ttl then Some v else None) else kv_get a k' t s)"
    "fst (kv_set_nx a k v ttl now s) = (kv_get a k now s = None)"
    "now \<le> t \<Longrightarrow> kv_get a k' t (snd (kv_set_nx a k v ttl now s)) =
          (if kv_get a k now s = None \<and> k' = k
           then (if t < now + ttl then Some v else None) else kv_get a k' t s)"
    "now \<le> t \<Longrightarrow> kv_get a k' t (kv_del a k now s) = (if k' = k then None else kv_get a k' t s)"
    "t \<le> t' \<Longrightarrow> kv_get a k t' s = Some v' \<Longrightarrow> kv_get a k t s = Some v'"
  using assms by (auto simp: kv_laws_def simp del: not_None_eq)

definition live_value :: "instant \<Rightarrow> (string \<times> instant) option \<Rightarrow> string option" where
  "live_value t x = (case x of None \<Rightarrow> None | Some (v, e) \<Rightarrow> if t < e then Some v else None)"

definition ref_kv :: "(string \<times> string \<times> instant) list kv_api" where
  "ref_kv = \<lparr>
     kv_get = (\<lambda>k t s. live_value t (map_of s k)),
     kv_set = (\<lambda>k v ttl now s. al_put k (v, now + ttl) s),
     kv_set_nx = (\<lambda>k v ttl now s.
        if live_value now (map_of s k) = None then (True, al_put k (v, now + ttl) s) else (False, s)),
     kv_del = (\<lambda>k now s. al_delete (\<lambda>k'. k' = k) s)\<rparr>"

lemma ref_kv_laws: "kv_laws ref_kv"
  unfolding kv_laws_def ref_kv_def kv_api.simps
  apply (intro conjI allI impI)
  subgoal by (auto simp: live_value_def map_of_al_put split: option.splits if_splits)
  subgoal by (auto simp: live_value_def map_of_al_put split: option.splits if_splits)
  subgoal by (auto simp: live_value_def map_of_al_put split: option.splits if_splits)
  subgoal by (auto simp: live_value_def map_of_al_delete split: option.splits if_splits)
  subgoal by (auto simp: live_value_def map_of_al_put split: option.splits if_splits)
  done

end
