(* ===== verification/Concurrency.thy ===== *)
theory Concurrency
  imports Redis
begin

text \<open>
  src/app/core/concurrency.py: the per-account slots and the per-project marker,
  both sorted sets whose members are task ids scored with the time they were
  taken. The argument \<open>fails\<close> says which command of a call raises (they are
  numbered in program order); every handler then lets the caller through, with
  the commands before it done. A Redis that is None is \<open>present = False\<close>.
\<close>

definition stale_age :: int where "stale_age = 1500"

definition default_concurrency_limit :: nat where "default_concurrency_limit = 2"

definition heavy_jobs :: "string list" where
  "heavy_jobs = [''post_meeting_pipeline_job'', ''cps_pipeline_job'', ''prd_pipeline_job'',
     ''design_pipeline_job'', ''run_lint_job'', ''generate_fix_spec_job'', ''create_md_job'',
     ''recommend_skills_job'', ''autofill_api_specs_job'']"

definition master_write_jobs :: "string list" where
  "master_write_jobs = [''post_meeting_pipeline_job'', ''cps_pipeline_job'', ''prd_pipeline_job'',
     ''delete_meeting_job'', ''design_pipeline_job'', ''autofill_api_specs_job'']"

definition slot_key :: "string \<Rightarrow> string" where
  "slot_key e = ''harness:inflight:'' @ e"

definition project_inflight_key :: "string \<Rightarrow> string" where
  "project_inflight_key k = ''harness:inflight:project:'' @ k"

text \<open>\<open>not await redis.zscore(...)\<close>: an absent score and the score 0 are both falsy.\<close>

definition score_true :: "int option \<Rightarrow> bool" where
  "score_true x = (x \<noteq> None \<and> x \<noteq> Some 0)"

text \<open>The body shared by the two acquire functions, on one key.\<close>

definition acquire_on ::
  "'r zset_api \<Rightarrow> (nat \<Rightarrow> bool) \<Rightarrow> nat \<Rightarrow> instant \<Rightarrow> string \<Rightarrow> string \<Rightarrow> 'r \<Rightarrow> bool \<times> 'r" where
  "acquire_on a fails limit now key task s =
     (if fails 0 then (True, s)
      else let s1 = z_remrangebyscore a key (now - stale_age) s in
        if fails 1 then (True, s1)
        else let count = z_card a key s1 in
          if count \<ge> limit \<and> fails 2 then (True, s1)
          else if count \<ge> limit \<and> \<not> score_true (z_score a key task s1) then (False, s1)
          else if fails 3 then (True, s1)
          else let s2 = z_add a key task now s1 in
            if fails 4 then (True, s2)
            else (True, z_expire a key (stale_age * 2) s2))"

definition try_acquire_slot ::
  "'r zset_api \<Rightarrow> bool \<Rightarrow> (nat \<Rightarrow> bool) \<Rightarrow> nat \<Rightarrow> instant \<Rightarrow> string \<Rightarrow> string \<Rightarrow> 'r \<Rightarrow> bool \<times> 'r" where
  "try_acquire_slot a present fails limit now e task s =
     (if e = '''' \<or> \<not> present then (True, s)
      else acquire_on a fails limit now (slot_key e) task s)"

definition release_slot ::
  "'r zset_api \<Rightarrow> bool \<Rightarrow> bool \<Rightarrow> string \<Rightarrow> string \<Rightarrow> 'r \<Rightarrow> 'r" where
  "release_slot a present fail e task s =
     (if e = '''' \<or> \<not> present \<or> fail then s else z_rem a (slot_key e) task s)"

definition try_acquire_project ::
  "'r zset_api \<Rightarrow> bool \<Rightarrow> (nat \<Rightarrow> bool) \<Rightarrow> instant \<Rightarrow> string \<Rightarrow> string \<Rightarrow> 'r \<Rightarrow> bool \<times> 'r" where
  "try_acquire_project a present fails now pk task s =
     (if pk = '''' \<or> \<not> present then (True, s)
      else acquire_on a fails 1 now (project_inflight_key pk) task s)"

definition is_project_busy ::
  "'r zset_api \<Rightarrow> bool \<Rightarrow> (nat \<Rightarrow> bool) \<Rightarrow> instant \<Rightarrow> string \<Rightarrow> 'r \<Rightarrow> bool \<times> 'r" where
  "is_project_busy a present fails now pk s =
     (if pk = '''' \<or> \<not> present \<or> fails 0 then (False, s)
      else let s1 = z_remrangebyscore a (project_inflight_key pk) (now - stale_age) s
           in if fails 1 then (False, s1)
              else (z_card a (project_inflight_key pk) s1 > 0, s1))"

definition release_project ::
  "'r zset_api \<Rightarrow> bool \<Rightarrow> bool \<Rightarrow> string \<Rightarrow> string \<Rightarrow> 'r \<Rightarrow> 'r" where
  "release_project a present fail pk task s =
     (if pk = '''' \<or> \<not> present \<or> fail then s else z_rem a (project_inflight_key pk) task s)"

section \<open>What a gate promises\<close>

text \<open>The interface the queue client and the worker use: who holds the gate since
  when, taking it, giving it back. \<open>ok\<close> is the provider's invariant.\<close>

locale inflight_gate =
  fixes ok :: "'s \<Rightarrow> bool"
    and since :: "'s \<Rightarrow> string \<Rightarrow> int option"
    and acquire :: "string \<Rightarrow> int \<Rightarrow> 's \<Rightarrow> bool \<times> 's"
    and release :: "string \<Rightarrow> 's \<Rightarrow> 's"
    and capacity :: nat
    and stale :: int
  assumes finite_held: "ok s \<Longrightarrow> finite {t. since s t \<noteq> None}"
    and ok_acquire: "ok s \<Longrightarrow> ok (snd (acquire t now s))"
    and ok_release: "ok s \<Longrightarrow> ok (release t s)"
    and acquire_iff: "ok s \<Longrightarrow> fst (acquire t now s) \<longleftrightarrow>
        card {t'. above (now - stale) (since s t') \<noteq> None} < capacity
        \<or> score_true (above (now - stale) (since s t))"
    and acquire_since: "ok s \<Longrightarrow> since (snd (acquire t now s)) t' =
        (if fst (acquire t now s) \<and> t' = t then Some now else above (now - stale) (since s t'))"
    and release_since: "ok s \<Longrightarrow> since (release t s) t' = (if t' = t then None else since s t')"
begin

definition held :: "'s \<Rightarrow> string set" where
  "held s = {t. since s t \<noteq> None}"

lemma above_Some_None: "above hi x \<noteq> None \<Longrightarrow> x \<noteq> None"
  by (auto simp: above_def split: option.splits)

lemma live_subset: "{t'. above hi (since s t') \<noteq> None} \<subseteq> held s"
  using above_Some_None by (auto simp: held_def)

lemma held_acquire:
  assumes "ok s"
  shows "held (snd (acquire t now s)) =
    {t'. above (now - stale) (since s t') \<noteq> None} \<union> (if fst (acquire t now s) then {t} else {})"
  using assms by (auto simp: held_def acquire_since)

text \<open>The number of holders never exceeds the capacity.\<close>

lemma capacity_acquire:
  assumes "ok s" "card (held s) \<le> capacity" "0 < capacity"
  shows "card (held (snd (acquire t now s))) \<le> capacity"
proof -
  let ?L = "{t'. above (now - stale) (since s t') \<noteq> None}"
  have fin: "finite ?L" using finite_held[OF assms(1)] live_subset[of "now - stale" s]
    by (auto simp: held_def intro: finite_subset)
  have le: "card ?L \<le> capacity"
    by (rule le_trans[OF card_mono[OF _ live_subset] assms(2)])
       (use finite_held[OF assms(1)] in \<open>simp add: held_def\<close>)
  show ?thesis
  proof (cases "fst (acquire t now s)")
    case True
    then consider "card ?L < capacity" | "t \<in> ?L"
      using acquire_iff[OF assms(1)] by (auto simp: score_true_def)
    then show ?thesis
    proof cases
      case 1
      then show ?thesis using fin True by (simp add: held_acquire[OF assms(1)] card_insert_if)
    next
      case 2
      then have "?L \<union> {t} = ?L" by blast
      then show ?thesis using le True by (simp only: held_acquire[OF assms(1)] if_True)
    qed
  next
    case False
    then show ?thesis using le by (simp add: held_acquire[OF assms(1)])
  qed
qed

lemma held_release: "ok s \<Longrightarrow> held (release t s) = held s - {t}"
  by (auto simp: held_def release_since)

lemma capacity_release:
  "ok s \<Longrightarrow> card (held s) \<le> capacity \<Longrightarrow> card (held (release t s)) \<le> capacity"
  using card_Diff1_le[of "held s" t] by (simp add: held_release)

text \<open>A job that gives its slot back makes room at once.\<close>

lemma release_makes_room:
  assumes "ok s" "card (held s) \<le> capacity" "t \<in> held s"
  shows "fst (acquire t' now (release t s))"
proof -
  have ok': "ok (release t s)" using assms(1) by (rule ok_release)
  have fin: "finite (held s)" using finite_held[OF assms(1)] by (simp add: held_def)
  have "{u. above (now - stale) (since (release t s) u) \<noteq> None} \<subseteq> held s - {t}"
    using live_subset[of "now - stale" "release t s"] held_release[OF assms(1)] by simp
  then have "card {u. above (now - stale) (since (release t s) u) \<noteq> None} \<le> card (held s - {t})"
    using fin by (intro card_mono) auto
  also have "\<dots> < capacity"
    using assms(2,3) fin card_Diff1_less[of "held s" t] by simp
  finally show ?thesis using acquire_iff[OF ok'] by blast
qed

text \<open>Leaked slots cannot block for longer than the stale age.\<close>

lemma stale_reclaimed:
  assumes "ok s" "0 < capacity" "\<And>u x. since s u = Some x \<Longrightarrow> x \<le> now - stale"
  shows "fst (acquire t now s)"
proof -
  have "{u. above (now - stale) (since s u) \<noteq> None} = {}"
    using assms(3) by (auto simp: above_def split: option.splits)
  then show ?thesis using acquire_iff[OF assms(1)] assms(2) by simp
qed

end

section \<open>The code's gates satisfy the interface\<close>

text \<open>The state a gate works on is the Redis client with its contents; the laws of
  the sorted-set commands are the invariant.\<close>

definition zset_ok :: "'r zset_api \<times> 'r \<Rightarrow> bool" where
  "zset_ok p = zset_laws (fst p)"

definition slot_since :: "string \<Rightarrow> 'r zset_api \<times> 'r \<Rightarrow> string \<Rightarrow> int option" where
  "slot_since e p t = z_score (fst p) (slot_key e) t (snd p)"

definition project_since :: "string \<Rightarrow> 'r zset_api \<times> 'r \<Rightarrow> string \<Rightarrow> int option" where
  "project_since pk p t = z_score (fst p) (project_inflight_key pk) t (snd p)"

definition slot_acquire :: "string \<Rightarrow> nat \<Rightarrow> string \<Rightarrow> int \<Rightarrow> 'r zset_api \<times> 'r \<Rightarrow> bool \<times> 'r zset_api \<times> 'r" where
  "slot_acquire e limit t now p =
     (let (b, s) = try_acquire_slot (fst p) True (\<lambda>_. False) limit now e t (snd p) in (b, fst p, s))"

definition project_acquire :: "string \<Rightarrow> string \<Rightarrow> int \<Rightarrow> 'r zset_api \<times> 'r \<Rightarrow> bool \<times> 'r zset_api \<times> 'r" where
  "project_acquire pk t now p =
     (let (b, s) = try_acquire_project (fst p) True (\<lambda>_. False) now pk t (snd p) in (b, fst p, s))"

definition slot_release :: "string \<Rightarrow> string \<Rightarrow> 'r zset_api \<times> 'r \<Rightarrow> 'r zset_api \<times> 'r" where
  "slot_release e t p = (fst p, release_slot (fst p) True False e t (snd p))"

definition project_release :: "string \<Rightarrow> string \<Rightarrow> 'r zset_api \<times> 'r \<Rightarrow> 'r zset_api \<times> 'r" where
  "project_release pk t p = (fst p, release_project (fst p) True False pk t (snd p))"

lemma acquire_on_no_fault:
  assumes "zset_laws a"
  shows "fst (acquire_on a (\<lambda>_. False) limit now key t s) \<longleftrightarrow>
      card {u. above (now - stale_age) (z_score a key u s) \<noteq> None} < limit
      \<or> score_true (above (now - stale_age) (z_score a key t s))"
    "z_score a k u (snd (acquire_on a (\<lambda>_. False) limit now key t s)) =
      (if k \<noteq> key then z_score a k u s
       else if fst (acquire_on a (\<lambda>_. False) limit now key t s) \<and> u = t then Some now
       else above (now - stale_age) (z_score a key u s))"
  using zset_lawsD[OF assms] by (auto simp: acquire_on_def Let_def)

text \<open>The e-mail address c # e and the project key c # pk range over the non-empty
  keys: for the empty key the code lets every caller through.\<close>

interpretation account_slots: inflight_gate zset_ok "slot_since (c # e)" "slot_acquire (c # e) limit"
  "slot_release (c # e)" limit stale_age
  for c e limit
proof (unfold_locales, goal_cases)
  case (1 s)
  then show ?case using zset_lawsD(5)[of "fst s" "slot_key (c # e)" "snd s"]
    by (simp add: zset_ok_def slot_since_def)
next
  case (2 s t now)
  then show ?case by (simp add: zset_ok_def slot_acquire_def split_beta Let_def)
next
  case (3 s t)
  then show ?case by (simp add: zset_ok_def slot_release_def)
next
  case (4 s t now)
  then show ?case using acquire_on_no_fault(1)[of "fst s"]
    by (simp add: zset_ok_def slot_acquire_def slot_since_def try_acquire_slot_def split_beta Let_def)
next
  case (5 s t now t')
  then show ?case using acquire_on_no_fault(2)[of "fst s"]
    by (simp add: zset_ok_def slot_acquire_def slot_since_def try_acquire_slot_def split_beta Let_def)
next
  case (6 s t t')
  then show ?case using zset_lawsD(2)[of "fst s"]
    by (simp add: zset_ok_def slot_release_def slot_since_def release_slot_def)
qed

interpretation project_markers: inflight_gate zset_ok "project_since (c # pk)" "project_acquire (c # pk)"
  "project_release (c # pk)" 1 stale_age
  for c pk
proof (unfold_locales, goal_cases)
  case (1 s)
  then show ?case using zset_lawsD(5)[of "fst s" "project_inflight_key (c # pk)" "snd s"]
    by (simp add: zset_ok_def project_since_def)
next
  case (2 s t now)
  then show ?case by (simp add: zset_ok_def project_acquire_def split_beta Let_def)
next
  case (3 s t)
  then show ?case by (simp add: zset_ok_def project_release_def)
next
  case (4 s t now)
  then show ?case using acquire_on_no_fault(1)[of "fst s"]
    by (simp add: zset_ok_def project_acquire_def project_since_def try_acquire_project_def split_beta Let_def)
next
  case (5 s t now t')
  then show ?case using acquire_on_no_fault(2)[of "fst s"]
    by (simp add: zset_ok_def project_acquire_def project_since_def try_acquire_project_def split_beta Let_def)
next
  case (6 s t t')
  then show ?case using zset_lawsD(2)[of "fst s"]
    by (simp add: zset_ok_def project_release_def project_since_def release_project_def)
qed

section \<open>Properties of the account slots\<close>

datatype gate_op = AcquireOp string int | ReleaseOp string

fun run_gate :: "'r zset_api \<Rightarrow> string \<Rightarrow> nat \<Rightarrow> gate_op list \<Rightarrow> 'r \<Rightarrow> 'r" where
  "run_gate a e limit [] s = s"
| "run_gate a e limit (AcquireOp t now # ops) s =
     run_gate a e limit ops (snd (try_acquire_slot a True (\<lambda>_. False) limit now e t s))"
| "run_gate a e limit (ReleaseOp t # ops) s =
     run_gate a e limit ops (release_slot a True False e t s)"

definition slot_holders :: "'r zset_api \<Rightarrow> string \<Rightarrow> 'r \<Rightarrow> string set" where
  "slot_holders a e s = {t. z_score a (slot_key e) t s \<noteq> None}"

lemma slot_holders_held:
  "slot_holders a (c # e) s = account_slots.held c e (a, s)"
  by (simp add: slot_holders_def account_slots.held_def slot_since_def)

lemma slot_acquire_snd:
  "snd (slot_acquire e limit t now (a, s)) = (a, snd (try_acquire_slot a True (\<lambda>_. False) limit now e t s))"
  "fst (slot_acquire e limit t now (a, s)) = fst (try_acquire_slot a True (\<lambda>_. False) limit now e t s)"
  by (simp_all add: slot_acquire_def split_beta Let_def)

text \<open>C3: Account slots. Whatever a client does with the gate one call after the other,
  at whatever times, an account never holds more slots than the limit.\<close>

theorem slots_within_limit:
  assumes "zset_laws a" "e \<noteq> ''''" "0 < limit" "card (slot_holders a e s) \<le> limit"
  shows "card (slot_holders a e (run_gate a e limit ops s)) \<le> limit"
proof -
  obtain c e' where e: "e = c # e'" using assms(2) by (cases e) auto
  have ok: "zset_ok (a, s)" for s using assms(1) by (simp add: zset_ok_def)
  show ?thesis using assms(4)
  proof (induction ops arbitrary: s)
    case (Cons op ops)
    show ?case
    proof (cases op)
      case (AcquireOp t now)
      then show ?thesis
        using account_slots.capacity_acquire[OF ok, of c e' s limit t now] Cons assms(3)
        by (simp add: e slot_holders_held slot_acquire_snd)
    next
      case (ReleaseOp t)
      then show ?thesis
        using account_slots.capacity_release[OF ok, of c e' s limit t] Cons
        by (simp add: e slot_holders_held slot_release_def)
    qed
  qed simp
qed

lemma slots_within_limit_witness:
  "card (slot_holders ref_zset ''a@x'' (run_gate ref_zset ''a@x'' 2
     [AcquireOp ''j1'' 10, AcquireOp ''j2'' 11, AcquireOp ''j3'' 12] [])) \<le> 2"
  by (rule slots_within_limit[OF ref_zset_laws]) (simp_all add: slot_holders_def ref_zset_def)

text \<open>C4: A finished job makes room. Releasing a held slot removes exactly that holder, and the
  next request of any task is admitted; slots leaked by crashed workers are reclaimed, so after
  the stale age a request is admitted even if no release ever came.\<close>

theorem slot_release_and_reclaim:
  assumes "zset_laws a" "e \<noteq> ''''" "0 < limit" "card (slot_holders a e s) \<le> limit"
  shows "(\<forall>t \<in> slot_holders a e s.
      slot_holders a e (release_slot a True False e t s) = slot_holders a e s - {t} \<and>
      fst (try_acquire_slot a True (\<lambda>_. False) limit now e t' (release_slot a True False e t s))) \<and>
    ((\<forall>t x. z_score a (slot_key e) t s = Some x \<longrightarrow> x \<le> now - stale_age) \<longrightarrow>
      fst (try_acquire_slot a True (\<lambda>_. False) limit now e t' s))"
proof -
  obtain c e' where e: "e = c # e'" using assms(2) by (cases e) auto
  have ok: "zset_ok (a, s)" using assms(1) by (simp add: zset_ok_def)
  have r: "slot_release (c # e') t (a, s) = (a, release_slot a True False e t s)" for t
    by (simp add: slot_release_def e)
  have "slot_holders a e (release_slot a True False e t s) = slot_holders a e s - {t} \<and>
      fst (try_acquire_slot a True (\<lambda>_. False) limit now e t' (release_slot a True False e t s))"
    if "t \<in> slot_holders a e s" for t
    using account_slots.held_release[OF ok, of c e' t]
      account_slots.release_makes_room[OF ok, of c e' limit t t' now] that assms(4) r[of t]
    by (simp add: e slot_holders_held slot_acquire_snd)
  moreover have "fst (try_acquire_slot a True (\<lambda>_. False) limit now e t' s)"
    if "\<forall>t x. z_score a (slot_key e) t s = Some x \<longrightarrow> x \<le> now - stale_age"
    using account_slots.stale_reclaimed[OF ok assms(3), of c e' now t'] that
    by (simp add: slot_since_def e slot_acquire_snd)
  ultimately show ?thesis by blast
qed

lemma slot_release_and_reclaim_witness:
  "fst (try_acquire_slot ref_zset True (\<lambda>_. False) 1 20 ''a@x'' ''j2''
     (release_slot ref_zset True False ''a@x'' ''j1'' [((slot_key ''a@x'', ''j1''), 10)]))"
proof -
  have h: "slot_holders ref_zset ''a@x'' [((slot_key ''a@x'', ''j1''), 10)] = {''j1''}"
    by (auto simp: slot_holders_def ref_zset_def)
  show ?thesis
    using slot_release_and_reclaim[OF ref_zset_laws, of "''a@x''" 1 "[((slot_key ''a@x'', ''j1''), 10)]"]
    by (simp add: h)
qed

section \<open>Two clients at once\<close>

text \<open>The commands of one acquire in two phases: clean-up and count, then the decision
  and the insertion. Another client's commands may run between them.\<close>

definition check_phase :: "'r zset_api \<Rightarrow> instant \<Rightarrow> string \<Rightarrow> 'r \<Rightarrow> nat \<times> 'r" where
  "check_phase a now key s =
     (let s1 = z_remrangebyscore a key (now - stale_age) s in (z_card a key s1, s1))"

definition insert_phase ::
  "'r zset_api \<Rightarrow> nat \<Rightarrow> instant \<Rightarrow> string \<Rightarrow> string \<Rightarrow> nat \<Rightarrow> 'r \<Rightarrow> bool \<times> 'r" where
  "insert_phase a limit now key task count s =
     (if count \<ge> limit \<and> \<not> score_true (z_score a key task s) then (False, s)
      else (True, z_expire a key (stale_age * 2) (z_add a key task now s)))"

lemma acquire_phases:
  "acquire_on a (\<lambda>_. False) limit now key task s =
     (let (n, s1) = check_phase a now key s in insert_phase a limit now key task n s1)"
  by (simp add: acquire_on_def check_phase_def insert_phase_def Let_def)

text \<open>The gate is not atomic. With one slot left, two clients whose counts both run
  before either insertion are both admitted, and the account holds one slot more than the
  limit.\<close>

theorem slot_race_exceeds_limit:
  assumes "zset_laws a" "card (slot_holders a e s) + 1 = limit" "t1 \<noteq> t2"
    and "t1 \<notin> slot_holders a e s" "t2 \<notin> slot_holders a e s"
    and "\<And>t x. z_score a (slot_key e) t s = Some x \<Longrightarrow> now - stale_age < x"
  shows "let (n1, s1) = check_phase a now (slot_key e) s;
             (n2, s2) = check_phase a now (slot_key e) s1;
             (b1, s3) = insert_phase a limit now (slot_key e) t1 n1 s2;
             (b2, s4) = insert_phase a limit now (slot_key e) t2 n2 s3
         in b1 \<and> b2 \<and> card (slot_holders a e s4) = limit + 1"
proof -
  note L = zset_lawsD[OF assms(1)]
  have ab: "above (now - stale_age) (z_score a (slot_key e) t s) = z_score a (slot_key e) t s" for t
    using assms(6)[of t] by (fastforce simp: above_def split: option.split)
  have fin: "finite (slot_holders a e s)" using L(5) by (simp add: slot_holders_def)
  let ?S = "slot_holders a e s" and ?k = "slot_key e"
  define s1 where "s1 = z_remrangebyscore a ?k (now - stale_age) s"
  define s2 where "s2 = z_remrangebyscore a ?k (now - stale_age) s1"
  define s3 where "s3 = z_expire a ?k (stale_age * 2) (z_add a ?k t1 now s2)"
  define s4 where "s4 = z_expire a ?k (stale_age * 2) (z_add a ?k t2 now s3)"
  have sc1: "z_score a ?k t s1 = z_score a ?k t s" for t
    by (simp only: s1_def L(3) ab if_True simp_thms)
  have sc2: "z_score a ?k t s2 = z_score a ?k t s" for t
    by (simp only: s2_def L(3) sc1 ab if_True simp_thms)
  have sc4: "z_score a ?k t s4 = (if t = t2 \<or> t = t1 then Some now else z_score a ?k t s)" for t
    by (simp add: s4_def s3_def L sc2)
  have n1: "z_card a ?k s1 = card ?S" and n2: "z_card a ?k s2 = card ?S"
    by (simp_all only: L(6) sc1 sc2 slot_holders_def)
  have "slot_holders a e s4 = insert t2 (insert t1 ?S)"
    by (auto simp: slot_holders_def sc4)
  then have c: "card (slot_holders a e s4) = limit + 1"
    using assms(2-5) fin by (simp add: card_insert_if)
  have p1: "check_phase a now ?k s = (card ?S, s1)" and p2: "check_phase a now ?k s1 = (card ?S, s2)"
    by (simp_all add: check_phase_def Let_def n1 n2 flip: s1_def s2_def)
  have i1: "insert_phase a limit now ?k t1 (card ?S) s2 = (True, s3)"
    and i2: "insert_phase a limit now ?k t2 (card ?S) s3 = (True, s4)"
    using assms(2) by (simp_all add: insert_phase_def s3_def s4_def)
  show ?thesis by (simp add: p1 p2 i1 i2 c)
qed

lemma slot_race_exceeds_limit_witness:
  "let (n1, s1) = check_phase ref_zset 100 (slot_key ''a'') [];
       (n2, s2) = check_phase ref_zset 100 (slot_key ''a'') s1;
       (b1, s3) = insert_phase ref_zset 1 100 (slot_key ''a'') ''j1'' n1 s2;
       (b2, s4) = insert_phase ref_zset 1 100 (slot_key ''a'') ''j2'' n2 s3
   in b1 \<and> b2 \<and> card (slot_holders ref_zset ''a'' s4) = 1 + 1"
  by (rule slot_race_exceeds_limit[OF ref_zset_laws]) (simp_all add: slot_holders_def ref_zset_def)

end
