(* ===== verification/MasterLock.thy ===== *)
theory MasterLock
  imports Redis
begin

text \<open>
  src/app/core/master_lock.py: the lock that serialises writes to a project's
  master documents, a Redis string with a time to live whose value is the holder.
  Commands of one call are numbered; \<open>fails n\<close> makes command n raise, and the code
  then goes on without the lock.
\<close>

definition lock_ttl :: int where "lock_ttl = 600"
definition wait_timeout_default :: int where "wait_timeout_default = 300"

definition lock_key :: "string \<Rightarrow> string" where
  "lock_key pk = ''harness:lock:master:'' @ pk"

definition try_acquire ::
  "'r kv_api \<Rightarrow> (nat \<Rightarrow> bool) \<Rightarrow> string \<Rightarrow> string \<Rightarrow> instant \<Rightarrow> 'r \<Rightarrow> bool \<times> 'r" where
  "try_acquire a fails pk holder now s =
     (if fails 0 then (True, s)
      else let (got, s1) = kv_set_nx a (lock_key pk) holder lock_ttl now s in
        if got then (True, s1)
        else if fails 1 then (True, s1)
        else if kv_get a (lock_key pk) now s1 = Some holder
          then (if fails 2 then (True, s1)
                else (True, kv_set a (lock_key pk) holder lock_ttl now s1))
        else (False, s1))"

definition release_lock ::
  "'r kv_api \<Rightarrow> (nat \<Rightarrow> bool) \<Rightarrow> string \<Rightarrow> string \<Rightarrow> instant \<Rightarrow> 'r \<Rightarrow> 'r" where
  "release_lock a fails pk holder now s =
     (if fails 0 then s
      else if kv_get a (lock_key pk) now s = Some holder \<and> \<not> fails 1
        then kv_del a (lock_key pk) now s
      else s)"

text \<open>The polling loop. Attempt k happens at \<open>clock k\<close>; between two attempts the rest of
  the world changes the store by \<open>others k\<close>. The fuel bounds the number of attempts; None
  is "still polling".\<close>

datatype lock_outcome = Acquired nat | MasterLockTimeout nat

fun lock_wait ::
  "nat \<Rightarrow> 'r kv_api \<Rightarrow> (nat \<Rightarrow> nat \<Rightarrow> bool) \<Rightarrow> (nat \<Rightarrow> instant) \<Rightarrow> (nat \<Rightarrow> 'r \<Rightarrow> 'r)
   \<Rightarrow> string \<Rightarrow> string \<Rightarrow> instant \<Rightarrow> nat \<Rightarrow> 'r \<Rightarrow> (lock_outcome \<times> 'r) option" where
  "lock_wait 0 a fails clock others pk holder deadline k s = None"
| "lock_wait (Suc n) a fails clock others pk holder deadline k s =
     (let (b, s1) = try_acquire a (fails k) pk holder (clock k) s in
      if b then Some (Acquired k, s1)
      else if clock k \<ge> deadline then Some (MasterLockTimeout k, s1)
      else lock_wait n a fails clock others pk holder deadline (Suc k) (others k s1))"

text \<open>The context manager around a body; the finally clause releases whether or not
  the body raised. Without Redis or without a key the body runs unlocked.\<close>

definition master_write_lock ::
  "nat \<Rightarrow> 'r kv_api \<Rightarrow> bool \<Rightarrow> (nat \<Rightarrow> nat \<Rightarrow> bool) \<Rightarrow> (nat \<Rightarrow> instant) \<Rightarrow> (nat \<Rightarrow> 'r \<Rightarrow> 'r)
   \<Rightarrow> int option \<Rightarrow> string \<Rightarrow> string \<Rightarrow> ('r \<Rightarrow> ('x + 'y) \<times> 'r) \<Rightarrow> (nat \<Rightarrow> bool) \<Rightarrow> instant
   \<Rightarrow> 'r \<Rightarrow> ((lock_outcome + 'x + 'y) \<times> 'r) option" where
  "master_write_lock fuel a present fails clock others wait pk holder body rel_fails rel_time s =
     (if \<not> present \<or> pk = ''''
      then Some (let (r, s1) = body s in (Inr r, s1))
      else case lock_wait fuel a fails clock others pk holder
                  (clock 0 + (case wait of Some w \<Rightarrow> w | None \<Rightarrow> wait_timeout_default)) 0 s of
        None \<Rightarrow> None
      | Some (MasterLockTimeout k, s1) \<Rightarrow> Some (Inl (MasterLockTimeout k), s1)
      | Some (Acquired k, s1) \<Rightarrow>
          Some (let (r, s2) = body s1
                in (Inr r, release_lock a rel_fails pk holder rel_time s2)))"

section \<open>What a lock promises\<close>

locale exclusive_lock =
  fixes ok :: "'s \<Rightarrow> bool"
    and holder_at :: "instant \<Rightarrow> 's \<Rightarrow> string option"
    and acquire :: "string \<Rightarrow> instant \<Rightarrow> 's \<Rightarrow> bool \<times> 's"
    and release :: "string \<Rightarrow> instant \<Rightarrow> 's \<Rightarrow> 's"
    and ttl :: int
  assumes ok_acquire: "ok s \<Longrightarrow> ok (snd (acquire h now s))"
    and ok_release: "ok s \<Longrightarrow> ok (release h now s)"
    and acquire_iff: "ok s \<Longrightarrow>
        fst (acquire h now s) \<longleftrightarrow> holder_at now s = None \<or> holder_at now s = Some h"
    and acquire_holds: "ok s \<Longrightarrow> fst (acquire h now s) \<Longrightarrow> now \<le> t \<Longrightarrow>
        holder_at t (snd (acquire h now s)) = (if t < now + ttl then Some h else None)"
    and acquire_fails: "ok s \<Longrightarrow> \<not> fst (acquire h now s) \<Longrightarrow> now \<le> t \<Longrightarrow>
        holder_at t (snd (acquire h now s)) = holder_at t s"
    and release_holds: "ok s \<Longrightarrow> now \<le> t \<Longrightarrow>
        holder_at t (release h now s) = (if holder_at now s = Some h then None else holder_at t s)"
    and expiry: "ok s \<Longrightarrow> t \<le> t' \<Longrightarrow> holder_at t' s = Some h \<Longrightarrow> holder_at t s = Some h"
begin

text \<open>Calls of others, each with its time: acquire (True) or release (False).\<close>

fun run_ops :: "(bool \<times> string \<times> instant) list \<Rightarrow> 's \<Rightarrow> 's" where
  "run_ops [] s = s"
| "run_ops ((True, h, now) # ops) s = run_ops ops (snd (acquire h now s))"
| "run_ops ((False, h, now) # ops) s = run_ops ops (release h now s)"

lemma ok_run: "ok s \<Longrightarrow> ok (run_ops ops s)"
  by (induction ops s rule: run_ops.induct) (simp_all add: ok_acquire ok_release)

lemma others_keep:
  assumes "ok s" "holder_at t s = Some h"
    and "\<forall>(b, h', now) \<in> set ops. h' \<noteq> h \<and> now \<le> t"
  shows "holder_at t (run_ops ops s) = Some h"
  using assms
proof (induction ops s rule: run_ops.induct)
  case (2 h' now ops s)
  then have now: "holder_at now s = Some h" using expiry[of s now t h] by auto
  then have "\<not> fst (acquire h' now s)" using acquire_iff[of s h' now] 2 by auto
  then show ?case using 2 acquire_fails[of s h' now t] by (auto simp: ok_acquire)
next
  case (3 h' now ops s)
  then have now: "holder_at now s = Some h" using expiry[of s now t h] by auto
  then show ?case using 3 release_holds[of s now t h'] by (auto simp: ok_release)
qed simp

text \<open>Mutual exclusion for the time to live.\<close>

lemma exclusion:
  assumes "ok s" "fst (acquire h t0 s)" "h' \<noteq> h" "t0 \<le> t" "t < t0 + ttl"
    and "\<forall>(b, g, now) \<in> set ops. g \<noteq> h \<and> now \<le> t"
  shows "\<not> fst (acquire h' t (run_ops ops (snd (acquire h t0 s))))"
proof -
  let ?s = "snd (acquire h t0 s)"
  have "holder_at t ?s = Some h" using acquire_holds[OF assms(1,2,4)] assms(5) by simp
  then have "holder_at t (run_ops ops ?s) = Some h"
    using others_keep[OF ok_acquire[OF assms(1)]] assms(6) by blast
  then show ?thesis
    using acquire_iff[OF ok_run[OF ok_acquire[OF assms(1)]]] assms(3) by simp
qed

end

definition kv_ok :: "'r kv_api \<times> 'r \<Rightarrow> bool" where
  "kv_ok p = kv_laws (fst p)"

definition lock_holder :: "string \<Rightarrow> instant \<Rightarrow> 'r kv_api \<times> 'r \<Rightarrow> string option" where
  "lock_holder pk t p = kv_get (fst p) (lock_key pk) t (snd p)"

definition lock_acquire :: "string \<Rightarrow> string \<Rightarrow> instant \<Rightarrow> 'r kv_api \<times> 'r \<Rightarrow> bool \<times> 'r kv_api \<times> 'r" where
  "lock_acquire pk h now p =
     (let (b, s) = try_acquire (fst p) (\<lambda>_. False) pk h now (snd p) in (b, fst p, s))"

definition lock_release :: "string \<Rightarrow> string \<Rightarrow> instant \<Rightarrow> 'r kv_api \<times> 'r \<Rightarrow> 'r kv_api \<times> 'r" where
  "lock_release pk h now p = (fst p, release_lock (fst p) (\<lambda>_. False) pk h now (snd p))"

interpretation master: exclusive_lock kv_ok "lock_holder pk" "lock_acquire pk" "lock_release pk" lock_ttl
  for pk
proof (unfold_locales, goal_cases)
  case (3 s h now)
  then show ?case using kv_lawsD(2,3)[of "fst s"]
    by (auto simp: kv_ok_def lock_acquire_def lock_holder_def try_acquire_def split_beta Let_def)
next
  case (4 s h now t)
  then show ?case using kv_lawsD(1,2,3)[of "fst s"]
    by (auto simp: kv_ok_def lock_acquire_def lock_holder_def try_acquire_def split_beta Let_def
        split: if_splits)
next
  case (5 s h now t)
  then show ?case using kv_lawsD(2,3)[of "fst s"]
    by (auto simp: kv_ok_def lock_acquire_def lock_holder_def try_acquire_def split_beta Let_def
        split: if_splits)
next
  case (6 s now t h)
  then show ?case using kv_lawsD(4)[of "fst s"]
    by (simp add: kv_ok_def lock_release_def lock_holder_def release_lock_def)
next
  case (7 s t t' h)
  then show ?case using kv_lawsD(5)[of "fst s"] by (simp add: kv_ok_def lock_holder_def)
qed (simp_all add: kv_ok_def lock_acquire_def lock_release_def split_beta Let_def)

section \<open>Properties of the master lock\<close>

text \<open>What other jobs may do meanwhile: attempts (True) and releases (False).\<close>

fun other_jobs :: "'r kv_api \<Rightarrow> string \<Rightarrow> (bool \<times> string \<times> instant) list \<Rightarrow> 'r \<Rightarrow> 'r" where
  "other_jobs a pk [] s = s"
| "other_jobs a pk ((True, h, now) # ops) s =
     other_jobs a pk ops (snd (try_acquire a (\<lambda>_. False) pk h now s))"
| "other_jobs a pk ((False, h, now) # ops) s =
     other_jobs a pk ops (release_lock a (\<lambda>_. False) pk h now s)"

lemma lock_acquire_pair:
  "fst (lock_acquire pk h now (a, s)) = fst (try_acquire a (\<lambda>_. False) pk h now s)"
  "snd (lock_acquire pk h now (a, s)) = (a, snd (try_acquire a (\<lambda>_. False) pk h now s))"
  by (simp_all add: lock_acquire_def split_beta Let_def)

lemma lock_release_pair:
  "lock_release pk h now (a, s) = (a, release_lock a (\<lambda>_. False) pk h now s)"
  by (simp add: lock_release_def)

lemma other_jobs_run: "master.run_ops pk ops (a, s) = (a, other_jobs a pk ops s)"
  by (induction a pk ops s rule: other_jobs.induct)
     (simp_all add: lock_acquire_pair lock_release_pair)

text \<open>C5: Mutual exclusion. Once a job has the lock of a project, no other job gets it during
  the next ten minutes unless the owner releases it, whatever attempts and releases other jobs
  make; the owner itself may take it again.\<close>

theorem master_lock_exclusive:
  assumes "kv_laws a" "fst (try_acquire a (\<lambda>_. False) pk h t0 s)" "t0 \<le> t" "t < t0 + lock_ttl"
    and "\<forall>(b, g, now) \<in> set ops. g \<noteq> h \<and> now \<le> t"
    and "s' = other_jobs a pk ops (snd (try_acquire a (\<lambda>_. False) pk h t0 s))"
  shows "fst (try_acquire a (\<lambda>_. False) pk h' t s') \<longleftrightarrow> h' = h"
proof -
  have ok: "kv_ok (a, s)" using assms(1) by (simp add: kv_ok_def)
  have "\<not> fst (try_acquire a (\<lambda>_. False) pk h' t s')" if "h' \<noteq> h"
    using master.exclusion[OF ok, of pk h t0 h' t ops] assms that
    by (simp add: lock_acquire_pair other_jobs_run)
  moreover have "lock_holder pk t (a, s') = Some h"
  proof -
    have "lock_holder pk t (a, snd (try_acquire a (\<lambda>_. False) pk h t0 s)) = Some h"
      using master.acquire_holds[OF ok, of pk h t0 t] assms(2-4) by (simp add: lock_acquire_pair)
    then show ?thesis
      using master.others_keep[of "(a, snd (try_acquire a (\<lambda>_. False) pk h t0 s))" pk t h ops] assms(1,5,6)
      by (simp add: other_jobs_run kv_ok_def)
  qed
  then have "fst (try_acquire a (\<lambda>_. False) pk h t s')"
    using master.acquire_iff[of "(a, s')" pk h t] assms(1) by (simp add: kv_ok_def lock_acquire_pair)
  ultimately show ?thesis by blast
qed

lemma master_lock_exclusive_witness:
  "\<not> fst (try_acquire ref_kv (\<lambda>_. False) ''p'' ''job2'' 500
     (other_jobs ref_kv ''p'' [(False, ''job3'', 100)]
       (snd (try_acquire ref_kv (\<lambda>_. False) ''p'' ''job1'' 10 []))))"
proof -
  have "fst (try_acquire ref_kv (\<lambda>_. False) ''p'' ''job1'' 10 [])"
    by (simp add: try_acquire_def ref_kv_def live_value_def)
  from master_lock_exclusive[OF ref_kv_laws this, of 500 "[(False, ''job3'', 100)]" _ "''job2''"]
  show ?thesis by (simp add: lock_ttl_def)
qed

lemma lock_wait_returns:
  assumes "\<And>k. clock k + 1 \<le> clock (Suc k)" "deadline \<le> clock (k + n)"
  shows "lock_wait (Suc n) a fails clock others pk h deadline k s \<noteq> None"
  using assms(2)
proof (induction n arbitrary: k s)
  case (Suc n)
  then show ?case by (simp add: split_beta Let_def del: not_None_eq)
qed (simp add: split_beta Let_def)

lemma clock_grows: "(\<And>k. clock k + 1 \<le> clock (Suc k)) \<Longrightarrow> clock 0 + int n \<le> (clock n :: int)"
proof (induction n)
  case (Suc n)
  have "clock n + 1 \<le> clock (Suc n)" by (rule Suc.prems)
  then show ?case using Suc.IH[OF Suc.prems] by simp
qed simp

text \<open>C6: Waiting ends. With a poll every second the loop makes at most wait + 1 attempts:
  that many suffice for an answer (the lock, or MasterLockTimeout), and the body is then run
  with the lock held or not at all.\<close>

theorem master_lock_wait_ends:
  assumes "\<And>k. clock k + 1 \<le> clock (Suc k)" "0 \<le> w"
  shows "master_write_lock (Suc (nat w)) a present fails clock others (Some w) pk h body rf rt s \<noteq> None"
proof -
  have "clock 0 + w \<le> clock (0 + nat w)"
    using clock_grows[where clock = clock and n = "nat w"] assms by simp
  then have "lock_wait (Suc (nat w)) a fails clock others pk h (clock 0 + w) 0 s \<noteq> None"
    by (rule lock_wait_returns[where clock = clock, OF assms(1)])
  then show ?thesis
    by (auto simp: master_write_lock_def split_beta Let_def split: lock_outcome.split)
qed

lemma master_lock_wait_ends_witness:
  "master_write_lock 6 ref_kv True (\<lambda>_ _. False) int (\<lambda>_ s. s) (Some 5) ''p'' ''job1''
     (\<lambda>s. (Inr ''done'' :: unit + string, s)) (\<lambda>_. False) 9 [(lock_key ''p'', ''job2'', 600)] \<noteq> None"
  using master_lock_wait_ends[of int 5 ref_kv True "\<lambda>_ _. False" "\<lambda>_ s. s" "''p''" "''job1''"
      "\<lambda>s. (Inr ''done'' :: unit + string, s)" "\<lambda>_. False" 9 "[(lock_key ''p'', ''job2'', 600)]"]
  by simp

text \<open>The two commands of a release, between which the lock may change hands.\<close>

definition release_check :: "'r kv_api \<Rightarrow> string \<Rightarrow> string \<Rightarrow> instant \<Rightarrow> 'r \<Rightarrow> bool" where
  "release_check a pk h now s = (kv_get a (lock_key pk) now s = Some h)"

definition release_delete :: "'r kv_api \<Rightarrow> string \<Rightarrow> instant \<Rightarrow> bool \<Rightarrow> 'r \<Rightarrow> 'r" where
  "release_delete a pk now mine s = (if mine then kv_del a (lock_key pk) now s else s)"

lemma release_phases:
  "release_lock a (\<lambda>_. False) pk h now s = release_delete a pk now (release_check a pk h now s) s"
  by (simp add: release_lock_def release_check_def release_delete_def)

text \<open>Releasing. A release that runs as a whole never removes another job's lock. Its check
  and its deletion are separate commands, though: when the owner's lock expires between them and a
  second job takes it, the deletion removes the second job's lock, and a third job gets the lock
  while the second still holds it.\<close>

theorem master_lock_release:
  assumes "kv_laws a"
  shows "(kv_get a (lock_key pk) now s = Some h' \<and> h' \<noteq> h \<longrightarrow>
        (\<forall>t \<ge> now. kv_get a (lock_key pk) t (release_lock a (\<lambda>_. False) pk h now s) = kv_get a (lock_key pk) t s))
    \<and> (t1 \<le> t2 \<and> t2 \<le> t3 \<and> t3 \<le> t4 \<and> release_check a pk h t1 s \<and> kv_get a (lock_key pk) t2 s = None \<longrightarrow>
        (let (b2, s2) = try_acquire a (\<lambda>_. False) pk h2 t2 s;
             s3 = release_delete a pk t3 (release_check a pk h t1 s) s2;
             (b3, s4) = try_acquire a (\<lambda>_. False) pk h3 t4 s3
         in b2 \<and> b3))"
  using kv_lawsD[OF assms]
  by (auto simp: release_lock_def release_delete_def try_acquire_def Let_def split_beta)

lemma master_lock_release_witness:
  "let (b2, s2) = try_acquire ref_kv (\<lambda>_. False) ''p'' ''job2'' 601 [(lock_key ''p'', ''job1'', 600)];
       s3 = release_delete ref_kv ''p'' 602 (release_check ref_kv ''p'' ''job1'' 599 [(lock_key ''p'', ''job1'', 600)]) s2;
       (b3, s4) = try_acquire ref_kv (\<lambda>_. False) ''p'' ''job3'' 603 s3
   in b2 \<and> b3"
proof -
  have "release_check ref_kv ''p'' ''job1'' 599 [(lock_key ''p'', ''job1'', 600)]"
    "kv_get ref_kv (lock_key ''p'') 601 [(lock_key ''p'', ''job1'', 600)] = None"
    by (simp_all add: release_check_def ref_kv_def live_value_def)
  then show ?thesis
    using master_lock_release[OF ref_kv_laws, of "''p''" 0 "[(lock_key ''p'', ''job1'', 600)]" "''x''" "''job1''"
        599 601 602 603 "''job2''" "''job3''"] by simp
qed

end
