(* ===== verification/QueueClient.thy ===== *)
theory QueueClient
  imports Ownership Concurrency
begin

text \<open>
  src/app/queue/client.py, settings.py and status_guard.py: admission of a job
  (account slot, project marker, queue by plan), the enqueue functions with the
  keyword arguments each of them passes on, the status of a job and the guard in
  front of it. arq is a library outside the repository: enqueueing and the job
  views are fields of the environment. So are the missing modules
  app.core.project_scope (\<open>q_scoped\<close>) and app.core.subscription (\<open>q_paid\<close>); None is the
  ImportError.
\<close>

section \<open>Keyword arguments\<close>

datatype pyarg = PyNone | PyStr string | PyBool bool | PyObj string

type_synonym kwargs = "(string \<times> pyarg) list"

text \<open>\<open>kwargs.get(k) or ""\<close> for a string argument.\<close>

definition kw_str :: "kwargs \<Rightarrow> string \<Rightarrow> string" where
  "kw_str kw k = (case map_of kw k of Some (PyStr s) \<Rightarrow> s | _ \<Rightarrow> '''')"

definition opt_arg :: "string option \<Rightarrow> pyarg" where
  "opt_arg x = (case x of None \<Rightarrow> PyNone | Some s \<Rightarrow> PyStr s)"

section \<open>Queue names\<close>

record queue_names =
  n_default :: string
  n_pro :: string
  n_free :: string

definition queue_names_of_env :: "string option \<Rightarrow> string option \<Rightarrow> string option \<Rightarrow> queue_names" where
  "queue_names_of_env q pro free =
     (let d = coalesce q ''gayoje:jobs''
      in \<lparr>n_default = d, n_pro = py_or pro d, n_free = py_or free d\<rparr>)"

section \<open>Environment and state\<close>

record ('r, 'q) qenv =
  q_zset :: "'r zset_api"
  q_enqueue_job :: "string \<Rightarrow> string \<Rightarrow> string \<Rightarrow> kwargs \<Rightarrow> 'q \<Rightarrow> string option option \<times> 'q"
  q_scoped :: "(string \<Rightarrow> string option \<Rightarrow> string) option"
  q_paid :: "string list option"
  q_names :: queue_names
  q_now :: instant
  q_plus_month :: "instant \<Rightarrow> instant"
  q_usage_ok :: bool
  q_slot_fails :: "nat \<Rightarrow> bool"
  q_project_fails :: "nat \<Rightarrow> bool"
  q_release_fails :: bool

record ('r, 'q) qstate =
  qs_redis :: 'r
  qs_arq :: 'q
  qs_graph :: graph

datatype queue_error = ConcurrencyLimit | ProjectBusy | QueueImportFailure | EnqueueRaised

section \<open>Routing\<close>

text \<open>\<open>_select_queue_for_user\<close>: every exception, the ImportError included, is
  swallowed and means the free queue.\<close>

definition select_queue_for_user ::
  "('r, 'q) qenv \<Rightarrow> string option \<Rightarrow> graph \<Rightarrow> string \<times> graph" where
  "select_queue_for_user v e g =
     (case or_none e of
        None \<Rightarrow> (n_free (q_names v), g)
      | Some em \<Rightarrow>
         (case q_paid v of
            None \<Rightarrow> (n_free (q_names v), g)
          | Some paid \<Rightarrow>
             if \<not> q_usage_ok v then (n_free (q_names v), g)
             else (let (us, g') = get_usage (q_plus_month v) (q_now v) em g
                   in (case us of
                         Some r \<Rightarrow> if s_subscription_type r \<in> set paid then n_pro (q_names v)
                                    else n_free (q_names v)
                       | None \<Rightarrow> n_free (q_names v), g'))))"

section \<open>Admission\<close>

text \<open>The first gate: heavy jobs of a known user take an account slot.\<close>

definition slot_gate ::
  "('r, 'q) qenv \<Rightarrow> string \<Rightarrow> string option \<Rightarrow> string \<Rightarrow> 'r \<Rightarrow> bool \<times> 'r" where
  "slot_gate v fn em task s =
     (case em of
        None \<Rightarrow> (True, s)
      | Some e \<Rightarrow> if fn \<in> set heavy_jobs
                  then try_acquire_slot (q_zset v) True (q_slot_fails v) default_concurrency_limit
                         (q_now v) e task s
                  else (True, s))"

text \<open>The second gate: jobs that write the master documents take the project marker;
  a refusal gives the account slot back.\<close>

definition project_gate ::
  "('r, 'q) qenv \<Rightarrow> string \<Rightarrow> string option \<Rightarrow> kwargs \<Rightarrow> string \<Rightarrow> 'r \<Rightarrow> queue_error option \<times> 'r" where
  "project_gate v fn em kw task s =
     (case em of
        None \<Rightarrow> (None, s)
      | Some e \<Rightarrow>
         if fn \<in> set master_write_jobs
         then (case q_scoped v of
                 None \<Rightarrow> (Some QueueImportFailure, s)
               | Some scoped \<Rightarrow>
                  (let pk = scoped (kw_str kw ''project_name'') (or_none (Some (kw_str kw ''team_id'')));
                       (b, s1) = try_acquire_project (q_zset v) True (q_project_fails v) (q_now v) pk task s
                   in if b then (None, s1)
                      else (Some ProjectBusy,
                            release_slot (q_zset v) True (q_release_fails v) e task s1)))
         else (None, s))"

definition enqueue ::
  "('r, 'q) qenv \<Rightarrow> string \<Rightarrow> string \<Rightarrow> kwargs \<Rightarrow> ('r, 'q) qstate
   \<Rightarrow> (queue_error + string) \<times> ('r, 'q) qstate" where
  "enqueue v fn task kw st =
     (let em = or_none (Some (kw_str kw ''user_email''));
          (b, s1) = slot_gate v fn em task (qs_redis st)
      in if \<not> b then (Inl ConcurrencyLimit, st\<lparr>qs_redis := s1\<rparr>)
         else case project_gate v fn em kw task s1 of
           (Some err, s2) \<Rightarrow> (Inl err, st\<lparr>qs_redis := s2\<rparr>)
         | (None, s2) \<Rightarrow>
            (let (queue, g') = (if em = None then (n_default (q_names v), qs_graph st)
                                else select_queue_for_user v em (qs_graph st));
                 (r, q') = q_enqueue_job v fn task queue kw (qs_arq st);
                 st' = st\<lparr>qs_redis := s2, qs_graph := g', qs_arq := q'\<rparr>
             in case r of
                  None \<Rightarrow> (Inl EnqueueRaised, st')
                | Some None \<Rightarrow> (Inr task, st')
                | Some (Some job_id) \<Rightarrow> (Inr job_id, st')))"

section \<open>The enqueue functions\<close>

definition enqueue_cps where
  "enqueue_cps v task project_name version date meeting_content previous_cps_id user_email team_id =
     enqueue v ''cps_pipeline_job'' task
       [(''project_name'', PyStr project_name), (''version'', PyStr version), (''date'', PyStr date),
        (''meeting_content'', PyStr meeting_content), (''previous_cps_id'', opt_arg previous_cps_id),
        (''user_email'', opt_arg user_email), (''team_id'', PyStr team_id)]"

definition enqueue_post_meeting where
  "enqueue_post_meeting v task project_name version date meeting_content previous_cps_id
       previous_prd_id user_email next_meeting team_id =
     enqueue v ''post_meeting_pipeline_job'' task
       [(''project_name'', PyStr project_name), (''version'', PyStr version), (''date'', PyStr date),
        (''meeting_content'', PyStr meeting_content), (''previous_cps_id'', opt_arg previous_cps_id),
        (''previous_prd_id'', opt_arg previous_prd_id), (''user_email'', opt_arg user_email),
        (''next_meeting'', (case next_meeting of None \<Rightarrow> PyNone | Some m \<Rightarrow> PyObj m)),
        (''team_id'', PyStr team_id)]"

definition enqueue_prefetch_extract where
  "enqueue_prefetch_extract v task project_name version meeting_content previous_cps_id
       previous_prd_id user_email team_id =
     enqueue v ''prefetch_extract_job'' task
       [(''project_name'', PyStr project_name), (''version'', PyStr version),
        (''meeting_content'', PyStr meeting_content), (''previous_cps_id'', opt_arg previous_cps_id),
        (''previous_prd_id'', opt_arg previous_prd_id), (''user_email'', opt_arg user_email),
        (''team_id'', PyStr team_id)]"

definition enqueue_prd where
  "enqueue_prd v task project_name version cps_graph previous_prd_id user_email team_id =
     enqueue v ''prd_pipeline_job'' task
       [(''project_name'', PyStr project_name), (''version'', PyStr version),
        (''cps_graph'', PyObj cps_graph), (''previous_prd_id'', opt_arg previous_prd_id),
        (''user_email'', opt_arg user_email), (''team_id'', PyStr team_id)]"

definition enqueue_design where
  "enqueue_design v task project_name user_email team_id =
     enqueue v ''design_pipeline_job'' task
       [(''project_name'', PyStr project_name), (''user_email'', opt_arg user_email),
        (''team_id'', PyStr team_id)]"

definition enqueue_autofill_api_specs where
  "enqueue_autofill_api_specs v task project_name user_email team_id =
     enqueue v ''autofill_api_specs_job'' task
       [(''project_name'', PyStr project_name), (''user_email'', opt_arg user_email),
        (''team_id'', PyStr team_id)]"

definition enqueue_recommend_skills where
  "enqueue_recommend_skills v task project_name skill_catalog allowed_categories user_email team_id =
     enqueue v ''recommend_skills_job'' task
       [(''project_name'', PyStr project_name), (''skill_catalog'', PyObj skill_catalog),
        (''allowed_categories'', PyObj allowed_categories), (''user_email'', opt_arg user_email),
        (''team_id'', PyStr team_id)]"

definition enqueue_run_lint where
  "enqueue_run_lint v task project_name github_url user_token user_email team_id =
     enqueue v ''run_lint_job'' task
       [(''project_name'', PyStr project_name), (''github_url'', PyStr github_url),
        (''user_token'', opt_arg user_token), (''user_email'', opt_arg user_email),
        (''team_id'', PyStr team_id)]"

definition enqueue_generate_fix_spec where
  "enqueue_generate_fix_spec v task project_name github_url lint_result user_email =
     enqueue v ''generate_fix_spec_job'' task
       [(''project_name'', PyStr project_name), (''github_url'', PyStr github_url),
        (''lint_result'', PyObj lint_result), (''user_email'', opt_arg user_email)]"

definition enqueue_analyze_lineage where
  "enqueue_analyze_lineage v task project_name user_token team_id =
     enqueue v ''analyze_lineage_job'' task
       [(''project_name'', PyStr project_name), (''user_token'', opt_arg user_token),
        (''team_id'', PyStr team_id)]"

definition enqueue_delete_meeting where
  "enqueue_delete_meeting v task project_name version user_email team_id =
     enqueue v ''delete_meeting_job'' task
       [(''project_name'', PyStr project_name), (''version'', PyStr version),
        (''user_email'', opt_arg user_email), (''team_id'', PyStr team_id)]"

definition enqueue_github_onboard where
  "enqueue_github_onboard v task project_name github_url user_token user_email team_id =
     enqueue v ''github_onboard_job'' task
       [(''project_name'', PyStr project_name), (''github_url'', PyStr github_url),
        (''user_token'', opt_arg user_token), (''user_email'', opt_arg user_email),
        (''team_id'', PyStr team_id)]"

definition enqueue_cleanup_master_prd where
  "enqueue_cleanup_master_prd v task project_name dry_run user_email team_id =
     enqueue v ''cleanup_master_prd_job'' task
       [(''project_name'', PyStr project_name), (''dry_run'', PyBool dry_run),
        (''user_email'', opt_arg user_email), (''team_id'', PyStr team_id)]"

definition enqueue_create_md where
  "enqueue_create_md v task project_name user_email =
     enqueue v ''create_md_job'' task
       [(''project_name'', PyStr project_name), (''user_email'', opt_arg user_email)]"

section \<open>Job status\<close>

datatype job_status = JobNotFound | JobQueued | JobInProgress | JobComplete

text \<open>What arq tells about a job looked up under a queue name, and the stage marker
  the worker wrote; None for the info means that info() is None or raised, the result
  is an error text or a value.\<close>

record job_view =
  jv_status :: job_status
  jv_kwargs :: "kwargs option"
  jv_times :: "instant option \<times> instant option"
  jv_stage :: "string option"
  jv_result :: "string + string"

record status_info =
  si_status :: job_status
  si_project_name :: "string option"
  si_result :: "string option"
  si_error :: "string option"
  si_stage :: "string option"
  si_times :: "instant option \<times> instant option"

definition get_job_status ::
  "queue_names \<Rightarrow> (string \<Rightarrow> string \<Rightarrow> 'q \<Rightarrow> job_view) \<Rightarrow> string \<Rightarrow> 'q \<Rightarrow> status_info" where
  "get_job_status n view task q =
     (let v = view (n_default n) task q
      in if jv_status v = JobNotFound
         then \<lparr>si_status = JobNotFound, si_project_name = None, si_result = None, si_error = None,
               si_stage = None, si_times = (None, None)\<rparr>
         else \<lparr>si_status = jv_status v,
               si_project_name = (case jv_kwargs v of
                   None \<Rightarrow> None
                 | Some kw \<Rightarrow> (case map_of kw ''project_name'' of Some (PyStr p) \<Rightarrow> Some p | _ \<Rightarrow> None)),
               si_result = (if jv_status v = JobComplete
                            then (case jv_result v of Inr r \<Rightarrow> Some r | Inl _ \<Rightarrow> None) else None),
               si_error = (if jv_status v = JobComplete
                           then (case jv_result v of Inl e \<Rightarrow> Some e | Inr _ \<Rightarrow> None) else None),
               si_stage = jv_stage v,
               si_times = (case jv_kwargs v of None \<Rightarrow> (None, None) | Some _ \<Rightarrow> jv_times v)\<rparr>)"

text \<open>status_guard.get_job_status_for_user: no team id is passed to assert_access.\<close>

definition get_job_status_for_user ::
  "own_ext \<Rightarrow> env \<Rightarrow> queue_names \<Rightarrow> (string \<Rightarrow> string \<Rightarrow> 'q \<Rightarrow> job_view) \<Rightarrow> string \<Rightarrow> string
   \<Rightarrow> 'q \<Rightarrow> graph \<Rightarrow> own_error + status_info" where
  "get_job_status_for_user x ev n view task user q g =
     (let info = get_job_status n view task q
      in if si_status info = JobNotFound then Inl (Http 404)
         else case or_none (si_project_name info) of
           None \<Rightarrow> Inl (Http 404)
         | Some p \<Rightarrow>
            (case fst (assert_access x ev user p None g) of
               Inl err \<Rightarrow> Inl err
             | Inr _ \<Rightarrow> Inr info))"

section \<open>Admission lemmas\<close>

definition no_faults :: "('r, 'q) qenv \<Rightarrow> bool" where
  "no_faults v \<longleftrightarrow> zset_laws (q_zset v) \<and> q_slot_fails v = (\<lambda>_. False) \<and>
     q_project_fails v = (\<lambda>_. False) \<and> \<not> q_release_fails v"

lemma kw_str_user: "kw_str kw k = e \<Longrightarrow> e \<noteq> '''' \<Longrightarrow> or_none (Some (kw_str kw k)) = Some e"
  by (cases e) simp_all

text \<open>Account keys and project keys differ unless the address itself spells a project key.\<close>

lemma keys_differ: "e \<noteq> ''project:'' @ pk \<Longrightarrow> slot_key e \<noteq> project_inflight_key pk"
  by (auto simp: slot_key_def project_inflight_key_def)

lemma slot_holders_project:
  assumes "zset_laws a" "\<And>pk. e \<noteq> ''project:'' @ pk"
  shows "slot_holders a e (snd (try_acquire_project a True (\<lambda>_. False) now pk t s)) = slot_holders a e s"
proof (cases "pk = ''''")
  case False
  then have "z_score a (slot_key e) u (snd (try_acquire_project a True (\<lambda>_. False) now pk t s)) =
      z_score a (slot_key e) u s" for u
    using acquire_on_no_fault(2)[OF assms(1)] keys_differ[OF assms(2), of pk]
    by (simp add: try_acquire_project_def)
  then show ?thesis by (simp add: slot_holders_def)
qed (simp add: try_acquire_project_def)

lemma slot_gate_cases:
  assumes "no_faults v" "e \<noteq> ''''" "slot_gate v fn (Some e) task s = (b, s1)"
    and "card (slot_holders (q_zset v) e s) \<le> default_concurrency_limit"
  shows "card (slot_holders (q_zset v) e s1) \<le> default_concurrency_limit"
    "b \<Longrightarrow> fn \<in> set heavy_jobs \<Longrightarrow> task \<in> slot_holders (q_zset v) e s1"
    "\<not> b \<Longrightarrow> fn \<in> set heavy_jobs"
proof -
  have laws: "zset_laws (q_zset v)" and f: "q_slot_fails v = (\<lambda>_. False)"
    using assms(1) by (simp_all add: no_faults_def)
  show "card (slot_holders (q_zset v) e s1) \<le> default_concurrency_limit"
  proof (cases "fn \<in> set heavy_jobs")
    case True
    then have "s1 = run_gate (q_zset v) e default_concurrency_limit [AcquireOp task (q_now v)] s"
      using assms(3) f by (auto simp: slot_gate_def)
    moreover obtain c e' where e: "e = c # e'" using assms(2) by (cases e) auto
    moreover have "zset_ok (q_zset v, s)" using laws by (simp add: zset_ok_def)
    ultimately show ?thesis
      using account_slots.capacity_acquire[of "(q_zset v, s)" c e' default_concurrency_limit task "q_now v"] assms(4)
      by (simp add: slot_holders_held slot_acquire_snd default_concurrency_limit_def)
  next
    case False
    then show ?thesis using assms(3,4) by (simp add: slot_gate_def)
  qed
  show "task \<in> slot_holders (q_zset v) e s1" if "b" "fn \<in> set heavy_jobs"
    using assms(2,3) that f acquire_on_no_fault(2)[OF laws, of "slot_key e" task
        default_concurrency_limit "q_now v" "slot_key e" task s]
    by (auto simp: slot_gate_def try_acquire_slot_def slot_holders_def)
  show "fn \<in> set heavy_jobs" if "\<not> b"
    using assms(3) that by (auto simp: slot_gate_def split: if_splits)
qed

lemma project_gate_cases:
  assumes "no_faults v" "e \<noteq> ''''" "\<And>pk. e \<noteq> ''project:'' @ pk"
    and "project_gate v fn (Some e) kw task s = (r, s1)"
  shows "slot_holders (q_zset v) e s1 =
      (if r = Some ProjectBusy then slot_holders (q_zset v) e s - {task} else slot_holders (q_zset v) e s)"
    "r = None \<or> r = Some ProjectBusy \<or> r = Some QueueImportFailure"
proof -
  have laws: "zset_laws (q_zset v)" and f: "q_project_fails v = (\<lambda>_. False)" "\<not> q_release_fails v"
    using assms(1) by (simp_all add: no_faults_def)
  have rel: "slot_holders (q_zset v) e (release_slot (q_zset v) True False e task s') =
      slot_holders (q_zset v) e s' - {task}" for s'
    using zset_lawsD(2)[OF laws] assms(2) by (auto simp: slot_holders_def release_slot_def)
  show "slot_holders (q_zset v) e s1 =
      (if r = Some ProjectBusy then slot_holders (q_zset v) e s - {task} else slot_holders (q_zset v) e s)"
    "r = None \<or> r = Some ProjectBusy \<or> r = Some QueueImportFailure"
    using assms(4) f slot_holders_project[OF laws assms(3)] rel
    by (auto simp: project_gate_def split_beta Let_def split: option.splits if_splits)
qed


definition qenv_demo :: "(((string \<times> string) \<times> int) list, (string \<times> string) list) qenv" where
  "qenv_demo = \<lparr>q_zset = ref_zset,
     q_enqueue_job = (\<lambda>fn task queue kw q. (Some (Some task), (queue, task) # q)),
     q_scoped = Some (\<lambda>p t. p), q_paid = Some [''pro''],
     q_names = \<lparr>n_default = ''jobs'', n_pro = ''jobs:pro'', n_free = ''jobs:free''\<rparr>,
     q_now = 5000, q_plus_month = (\<lambda>t. t + 2592000), q_usage_ok = True,
     q_slot_fails = (\<lambda>_. False), q_project_fails = (\<lambda>_. False), q_release_fails = False\<rparr>"

definition qstate_demo :: "(((string \<times> string) \<times> int) list, (string \<times> string) list) qstate" where
  "qstate_demo = \<lparr>qs_redis = [], qs_arq = [], qs_graph = empty_graph\<rparr>"

lemma qenv_demo_no_faults [simp]: "no_faults qenv_demo"
  by (simp add: no_faults_def qenv_demo_def ref_zset_laws)

lemma qenv_demo_zset [simp]: "q_zset qenv_demo = ref_zset"
  by (simp add: qenv_demo_def)


lemma slot_gate_accept:
  assumes "no_faults v" "e \<noteq> ''''" "fn \<in> set heavy_jobs" "fst (slot_gate v fn (Some e) task s)"
  shows "task \<in> slot_holders (q_zset v) e (snd (slot_gate v fn (Some e) task s))"
proof -
  have "zset_laws (q_zset v)" "q_slot_fails v = (\<lambda>_. False)"
    using assms(1) by (simp_all add: no_faults_def)
  then show ?thesis
    using assms(2-4) acquire_on_no_fault(2)[of "q_zset v" "slot_key e" task default_concurrency_limit "q_now v"]
    by (simp add: slot_gate_def try_acquire_slot_def slot_holders_def)
qed

lemma enqueue_accept:
  assumes "no_faults v" "kw_str kw ''user_email'' = e" "e \<noteq> ''''" "\<And>pk. e \<noteq> ''project:'' @ pk"
    and "fn \<in> set heavy_jobs" "enqueue v fn task kw st = (Inr i, st')"
  shows "task \<in> slot_holders (q_zset v) e (qs_redis st')"
proof -
  have em: "or_none (Some (kw_str kw ''user_email'')) = Some e" using assms(2,3) by (rule kw_str_user)
  obtain b s1 where g1: "slot_gate v fn (Some e) task (qs_redis st) = (b, s1)" by force
  obtain o2 s2 where g2: "project_gate v fn (Some e) kw task s1 = (o2, s2)" by force
  have "b \<and> o2 = None \<and> qs_redis st' = s2"
    using assms(6) by (auto simp: enqueue_def em g1 g2 Let_def split_beta split: option.splits if_splits)
  then show ?thesis
    using slot_gate_accept[OF assms(1,3,5), of task "qs_redis st"] g1
      project_gate_cases(1)[OF assms(1,3,4) g2] by simp
qed

section \<open>The missing scope module\<close>

lemma slot_gate_heavy:
  assumes "no_faults v" "e \<noteq> ''''" "fn \<in> set heavy_jobs"
  shows "fst (slot_gate v fn (Some e) task s) \<longleftrightarrow>
      card {u. above (q_now v - stale_age) (z_score (q_zset v) (slot_key e) u s) \<noteq> None}
        < default_concurrency_limit
      \<or> score_true (above (q_now v - stale_age) (z_score (q_zset v) (slot_key e) task s))"
    "z_score (q_zset v) (slot_key e) u (snd (slot_gate v fn (Some e) task s)) =
      (if fst (slot_gate v fn (Some e) task s) \<and> u = task then Some (q_now v)
       else above (q_now v - stale_age) (z_score (q_zset v) (slot_key e) u s))"
proof -
  have laws: "zset_laws (q_zset v)" and f: "q_slot_fails v = (\<lambda>_. False)"
    using assms(1) by (simp_all add: no_faults_def)
  show "fst (slot_gate v fn (Some e) task s) \<longleftrightarrow>
      card {u. above (q_now v - stale_age) (z_score (q_zset v) (slot_key e) u s) \<noteq> None}
        < default_concurrency_limit
      \<or> score_true (above (q_now v - stale_age) (z_score (q_zset v) (slot_key e) task s))"
    using acquire_on_no_fault(1)[OF laws] assms(2,3) f
    by (simp add: slot_gate_def try_acquire_slot_def)
  show "z_score (q_zset v) (slot_key e) u (snd (slot_gate v fn (Some e) task s)) =
      (if fst (slot_gate v fn (Some e) task s) \<and> u = task then Some (q_now v)
       else above (q_now v - stale_age) (z_score (q_zset v) (slot_key e) u s))"
    using acquire_on_no_fault(2)[OF laws] assms(2,3) f
    by (simp add: slot_gate_def try_acquire_slot_def)
qed

lemma enqueue_no_scope:
  assumes "no_faults v" "q_scoped v = None" "kw_str kw ''user_email'' = e" "e \<noteq> ''''"
    and "fn \<in> set heavy_jobs" "fn \<in> set master_write_jobs"
  shows "enqueue v fn task kw st =
    (let (b, s1) = slot_gate v fn (Some e) task (qs_redis st)
     in (Inl (if b then QueueImportFailure else ConcurrencyLimit), st\<lparr>qs_redis := s1\<rparr>))"
proof -
  have em: "or_none (Some (kw_str kw ''user_email'')) = Some e" using assms(3,4) by (rule kw_str_user)
  then show ?thesis
    using assms(2,6) by (simp add: enqueue_def Let_def split_beta project_gate_def)
qed

text \<open>Leaked slots. Without the module app.core.project_scope every job that writes the master
  documents fails after its account slot was taken, and the slot is not given back: two such failed
  requests of a user with no running job make the user's next heavy job of any kind fail with the
  concurrency limit.\<close>

theorem missing_scope_leaks_slots:
  assumes "no_faults v" "q_scoped v = None" "e \<noteq> ''''" "stale_age < q_now v"
    and "kw_str kw ''user_email'' = e" "kw_str kw' ''user_email'' = e"
    and "fn \<in> set heavy_jobs" "fn \<in> set master_write_jobs" "fn' \<in> set heavy_jobs"
    and "slot_holders (q_zset v) e (qs_redis st) = {}" "t1 \<noteq> t2" "t3 \<noteq> t1" "t3 \<noteq> t2"
  shows "let (r1, st1) = enqueue v fn t1 kw st; (r2, st2) = enqueue v fn t2 kw st1;
             (r3, st3) = enqueue v fn' t3 kw' st2
         in r1 = Inl QueueImportFailure \<and> r2 = Inl QueueImportFailure \<and> r3 = Inl ConcurrencyLimit
            \<and> qs_arq st3 = qs_arq st"
proof -
  let ?sc = "\<lambda>u s. z_score (q_zset v) (slot_key e) u s"
  let ?g = "\<lambda>f t s. slot_gate v f (Some e) t s"
  have s0: "?sc u (qs_redis st) = None" for u using assms(10) by (auto simp: slot_holders_def)
  define s1 where "s1 = snd (?g fn t1 (qs_redis st))"
  define s2 where "s2 = snd (?g fn t2 s1)"
  define s3 where "s3 = snd (?g fn' t3 s2)"
  have ab: "above (q_now v - stale_age) None = None"
    "above (q_now v - stale_age) (Some (q_now v)) = Some (q_now v)"
    using assms(4) by (simp_all add: above_def stale_age_def)
  have g1: "fst (?g fn t1 (qs_redis st))"
    by (simp add: slot_gate_heavy(1)[OF assms(1,3,7)] s0 ab default_concurrency_limit_def)
  have sc1: "?sc u s1 = (if u = t1 then Some (q_now v) else None)" for u
    using g1 by (simp add: s1_def slot_gate_heavy(2)[OF assms(1,3,7)] s0 ab)
  have "{u. above (q_now v - stale_age) (?sc u s1) \<noteq> None} = {t1}" by (auto simp: sc1 ab)
  then have g2: "fst (?g fn t2 s1)"
    by (simp only: slot_gate_heavy(1)[OF assms(1,3,7)]) (simp add: default_concurrency_limit_def)
  have sc2: "?sc u s2 = (if u = t1 \<or> u = t2 then Some (q_now v) else None)" for u
    using g2 by (simp add: s2_def slot_gate_heavy(2)[OF assms(1,3,7)] sc1 ab)
  have "{u. above (q_now v - stale_age) (?sc u s2) \<noteq> None} = {t1, t2}" by (auto simp: sc2 ab)
  then have g3: "\<not> fst (?g fn' t3 s2)"
    using assms(11-13)
    by (simp only: slot_gate_heavy(1)[OF assms(1,3,9)])
       (simp add: default_concurrency_limit_def sc2 ab score_true_def)
  have e1: "enqueue v fn t1 kw st = (Inl QueueImportFailure, st\<lparr>qs_redis := s1\<rparr>)"
    using g1 by (simp add: enqueue_no_scope[OF assms(1,2,5,3,7,8)] Let_def split_beta s1_def)
  have e2: "enqueue v fn t2 kw (st\<lparr>qs_redis := s1\<rparr>) = (Inl QueueImportFailure, st\<lparr>qs_redis := s2\<rparr>)"
    using g2 by (simp add: enqueue_no_scope[OF assms(1,2,5,3,7,8)] Let_def split_beta s2_def)
  have em: "or_none (Some (kw_str kw' ''user_email'')) = Some e" using assms(6,3) by (rule kw_str_user)
  have e3: "enqueue v fn' t3 kw' (st\<lparr>qs_redis := s2\<rparr>) = (Inl ConcurrencyLimit, st\<lparr>qs_redis := s3\<rparr>)"
    using g3 by (simp add: enqueue_def em Let_def split_beta s3_def)
  show ?thesis by (simp add: e1 e2 e3)
qed

lemma missing_scope_leaks_slots_witness:
  "\<exists>st'. enqueue (qenv_demo\<lparr>q_scoped := None\<rparr>) ''run_lint_job'' ''j3'' [(''user_email'', PyStr ''a@x'')]
     (snd (enqueue (qenv_demo\<lparr>q_scoped := None\<rparr>) ''design_pipeline_job'' ''j2'' [(''user_email'', PyStr ''a@x'')]
       (snd (enqueue (qenv_demo\<lparr>q_scoped := None\<rparr>) ''design_pipeline_job'' ''j1'' [(''user_email'', PyStr ''a@x'')]
         qstate_demo)))) = (Inl ConcurrencyLimit, st')"
proof -
  let ?v = "qenv_demo\<lparr>q_scoped := None\<rparr>" and ?kw = "[(''user_email'', PyStr ''a@x'')]"
  have "no_faults ?v" using qenv_demo_no_faults by (simp add: no_faults_def)
  moreover have "kw_str ?kw ''user_email'' = ''a@x''" by (simp add: kw_str_def)
  moreover have "slot_holders (q_zset ?v) ''a@x'' (qs_redis qstate_demo) = {}" "stale_age < q_now ?v"
    by (simp_all add: slot_holders_def qenv_demo_def qstate_demo_def ref_zset_def stale_age_def)
  ultimately show ?thesis
    using missing_scope_leaks_slots[of ?v "''a@x''" ?kw ?kw "''design_pipeline_job''" "''run_lint_job''"
        qstate_demo "''j1''" "''j2''" "''j3''"]
    by (simp add: heavy_jobs_def master_write_jobs_def split_beta Let_def)
       (metis prod.collapse)
qed

section \<open>Routing and status\<close>

text \<open>Routing. With the plan list available a known user's job goes to the paid queue exactly
  when get_usage reports a paid plan; without the module app.core.subscription, as at this commit,
  every user's job goes to the free queue.\<close>

theorem routing_by_plan:
  assumes "e \<noteq> ''''"
  shows "(q_paid v = None \<longrightarrow> select_queue_for_user v (Some e) g = (n_free (q_names v), g)) \<and>
    (\<forall>paid. q_paid v = Some paid \<and> q_usage_ok v \<longrightarrow>
      fst (select_queue_for_user v (Some e) g) =
        (if \<exists>r. fst (get_usage (q_plus_month v) (q_now v) e g) = Some r \<and> s_subscription_type r \<in> set paid
         then n_pro (q_names v) else n_free (q_names v)))"
  using assms
  by (cases e) (auto simp: select_queue_for_user_def split_beta Let_def split: option.split)

lemma routing_by_plan_witness:
  "select_queue_for_user (qenv_demo\<lparr>q_paid := None\<rparr>) (Some ''a@x'') quota_demo = (''jobs:free'', quota_demo)"
  using routing_by_plan[of "''a@x''" "qenv_demo\<lparr>q_paid := None\<rparr>" quota_demo] by (simp add: qenv_demo_def)


end
