(* ===== verification/PyText.thy ===== *)
theory PyText
  imports Prelude
begin

text \<open>
  What the components use of Python's str and re: stripping white space, splitting,
  scanning for non-overlapping matches. A str is the list of its UTF-8 bytes, so a white
  space character is a sequence of one to three bytes; UTF-8 is self-synchronising, hence a
  sequence found at the front (or, reversed, at the back) is a character of the text.
\<close>

section \<open>White space\<close>

definition bytes :: "nat list \<Rightarrow> string" where
  "bytes ns = map char_of ns"

text \<open>The characters for which str.isspace() holds: also what strip() removes and
  \<open>\s\<close> matches.\<close>

definition py_ws :: "string list" where
  "py_ws = map bytes ([[9], [10], [11], [12], [13], [28], [29], [30], [31], [32],
     [194, 133], [194, 160], [225, 154, 128],
     [226, 128, 168], [226, 128, 169], [226, 128, 175], [226, 129, 159], [227, 128, 128]]
     @ map (\<lambda>n. [226, 128, n]) [128..<139])"

function strip_front :: "string list \<Rightarrow> string \<Rightarrow> string" where
  "strip_front ws s =
     (case find (\<lambda>w. w \<noteq> [] \<and> take (length w) s = w) ws of
        None \<Rightarrow> s
      | Some w \<Rightarrow> strip_front ws (drop (length w) s))"
  by auto

termination
proof (relation "measure (\<lambda>(ws, s). length s)")
  fix ws s w
  assume "find (\<lambda>w. w \<noteq> [] \<and> take (length w) s = w) ws = Some w"
  then have "w \<noteq> [] \<and> take (length w) s = w" by (auto simp: find_Some_iff)
  then show "((ws, drop (length w) s), (ws, s)) \<in> measure (\<lambda>(ws, s). length s)"
    by (cases s) auto
qed simp

declare strip_front.simps [simp del]

definition py_lstrip :: "string \<Rightarrow> string" where
  "py_lstrip s = strip_front py_ws s"

definition py_rstrip :: "string \<Rightarrow> string" where
  "py_rstrip s = rev (strip_front (map rev py_ws) (rev s))"

definition py_strip :: "string \<Rightarrow> string" where
  "py_strip s = py_rstrip (py_lstrip s)"

lemma strip_front_None:
  "find (\<lambda>w. w \<noteq> [] \<and> take (length w) s = w) ws = None \<Longrightarrow> strip_front ws s = s"
  by (subst strip_front.simps) simp

lemma strip_front_Some:
  "find (\<lambda>w. w \<noteq> [] \<and> take (length w) s = w) ws = Some v \<Longrightarrow>
     strip_front ws s = strip_front ws (drop (length v) s)"
  by (subst strip_front.simps) simp

lemma strip_front_suffix: "\<exists>p. s = p @ strip_front ws s"
proof (induction ws s rule: strip_front.induct)
  case (1 ws s)
  show ?case
  proof (cases "find (\<lambda>w. w \<noteq> [] \<and> take (length w) s = w) ws")
    case None
    then show ?thesis using strip_front_None by auto
  next
    case (Some w)
    then obtain p where "drop (length w) s = p @ strip_front ws (drop (length w) s)"
      using 1 by blast
    then have "s = (take (length w) s @ p) @ strip_front ws (drop (length w) s)"
      by (metis append.assoc append_take_drop_id)
    then show ?thesis using strip_front_Some[OF Some] by metis
  qed
qed

lemma strip_front_done:
  assumes "w \<in> set ws" "w \<noteq> []"
  shows "take (length w) (strip_front ws s) \<noteq> w"
  using assms
proof (induction ws s rule: strip_front.induct)
  case (1 ws s)
  show ?case
  proof (cases "find (\<lambda>w. w \<noteq> [] \<and> take (length w) s = w) ws")
    case None
    then show ?thesis using 1(2,3) strip_front_None[OF None] by (auto simp: find_None_iff)
  next
    case (Some v)
    then show ?thesis using 1 strip_front_Some[OF Some] by simp
  qed
qed

lemma strip_front_id:
  "(\<And>w. w \<in> set ws \<Longrightarrow> w = [] \<or> take (length w) s \<noteq> w) \<Longrightarrow> strip_front ws s = s"
  by (subst strip_front.simps) (auto split: option.splits simp: find_Some_iff, metis nth_mem)

lemma strip_front_idem: "strip_front ws (strip_front ws s) = strip_front ws s"
  using strip_front_done by (intro strip_front_id) blast

lemma strip_front_empty [simp]: "strip_front ws [] = []"
  by (rule strip_front_id) auto

lemma py_strip_ends:
  assumes "s \<noteq> []" "list_all (\<lambda>w. hd w \<noteq> hd s \<and> last w \<noteq> last s) py_ws"
  shows "py_strip s = s"
proof -
  have ne: "w \<noteq> []" if "w \<in> set py_ws" for w using that by (auto simp: py_ws_def bytes_def)
  have f: "take (length w) s \<noteq> w" if "w \<in> set py_ws" for w
  proof
    assume "take (length w) s = w"
    then have "hd s = hd w" using ne[OF that] assms(1) by (cases w; cases s) auto
    then show False using that assms(2) by (auto simp: list_all_iff)
  qed
  have l: "take (length w) (rev s) \<noteq> w" if "w \<in> set (map rev py_ws)" for w
  proof
    assume "take (length w) (rev s) = w"
    moreover have w: "rev w \<in> set py_ws" "w \<noteq> []" using that ne by auto
    ultimately have "last s = last (rev w)" using assms(1) by (cases w; cases s rule: rev_cases) auto
    then show False using w assms(2) by (auto simp: list_all_iff)
  qed
  have "py_lstrip s = s" unfolding py_lstrip_def by (rule strip_front_id) (use f in blast)
  moreover have "py_rstrip s = s" unfolding py_rstrip_def
    by (subst strip_front_id) (use l in auto)
  ultimately show ?thesis by (simp add: py_strip_def)
qed

section \<open>Splitting and scanning\<close>

fun split_on :: "'a \<Rightarrow> 'a list \<Rightarrow> 'a list list" where
  "split_on c [] = [[]]"
| "split_on c (x # xs) =
     (if x = c then [] # split_on c xs
      else case split_on c xs of [] \<Rightarrow> [[x]] | w # ws \<Rightarrow> (x # w) # ws)"

fun join_with :: "'a list \<Rightarrow> 'a list list \<Rightarrow> 'a list" where
  "join_with sep [] = []"
| "join_with sep [w] = w"
| "join_with sep (w # ws) = w @ sep @ join_with sep ws"

lemma split_on_nonempty [simp]: "split_on c xs \<noteq> []"
  by (induction xs) (auto split: list.split)

lemma join_split_on: "join_with [c] (split_on c xs) = xs"
proof (induction xs)
  case (Cons x xs)
  then show ?case
    by (cases "split_on c xs" rule: remdups_adj.cases) (auto split: list.split)
qed simp

text \<open>re.findall with a matcher that returns the length of the match at the front.\<close>

function find_all :: "(string \<Rightarrow> nat option) \<Rightarrow> string \<Rightarrow> string list" where
  "find_all m [] = []"
| "find_all m (x # xs) =
     (case m (x # xs) of
        None \<Rightarrow> find_all m xs
      | Some n \<Rightarrow> take (Suc (n - 1)) (x # xs) # find_all m (drop (n - 1) xs))"
  by pat_completeness auto

termination by (relation "measure (\<lambda>(m, s). length s)") auto

definition starts_with :: "string \<Rightarrow> string \<Rightarrow> bool" where
  "starts_with p s = (take (length p) s = p)"

text \<open>Leading decimal digits; \<open>udigit s\<close> is the length in bytes of a non-ASCII decimal digit at
  the front of s, 0 if there is none (the Unicode table is a parameter).\<close>

definition ascii_digit :: "char \<Rightarrow> bool" where
  "ascii_digit c = (48 \<le> (of_char c :: nat) \<and> (of_char c :: nat) \<le> 57)"

fun digits_len :: "(string \<Rightarrow> nat) \<Rightarrow> nat \<Rightarrow> string \<Rightarrow> nat" where
  "digits_len udigit 0 s = 0"
| "digits_len udigit (Suc n) s =
     (case s of
        [] \<Rightarrow> 0
      | c # cs \<Rightarrow> if ascii_digit c then Suc (digits_len udigit n cs)
                  else if udigit s = 0 then 0
                  else udigit s + digits_len udigit n (drop (udigit s) s))"

section \<open>JSON values\<close>

datatype json = JNull | JBool bool | JInt int | JFloat string | JStr string
  | JList "json list" | JObj "(string \<times> json) list"

definition json_get :: "json \<Rightarrow> string \<Rightarrow> json option" where
  "json_get j k = (case j of JObj kv \<Rightarrow> map_of kv k | _ \<Rightarrow> None)"

definition is_obj :: "json option \<Rightarrow> bool" where
  "is_obj j = (case j of Some (JObj kv) \<Rightarrow> True | _ \<Rightarrow> False)"

section \<open>Decimal numbers\<close>

fun dec_nat :: "nat \<Rightarrow> string" where
  "dec_nat n = (if n < 10 then [char_of (48 + n)] else dec_nat (n div 10) @ [char_of (48 + n mod 10)])"

declare dec_nat.simps [simp del]

definition parse_dec :: "string \<Rightarrow> nat" where
  "parse_dec s = foldl (\<lambda>a c. 10 * a + (of_char c - 48)) 0 s"

lemma parse_dec_nat [simp]: "parse_dec (dec_nat n) = n"
proof (induction n rule: dec_nat.induct)
  case (1 n)
  have d: "of_char (char_of (48 + k) :: char) - 48 = (k :: nat)" if "k < 10" for k
    using that by (simp add: of_char_of)
  show ?case
  proof (cases "n < 10")
    case True
    then show ?thesis using d[of n] by (simp add: dec_nat.simps[of n] parse_dec_def)
  next
    case False
    then have "dec_nat n = dec_nat (n div 10) @ [char_of (48 + n mod 10)]" by (simp add: dec_nat.simps[of n])
    then show ?thesis using 1 False d[of "n mod 10"] by (simp add: parse_dec_def)
  qed
qed

lemma dec_nat_nonempty [simp]: "dec_nat n \<noteq> []"
  by (simp add: dec_nat.simps[of n])

text \<open>str() of an integer.\<close>

definition int_str :: "int \<Rightarrow> string" where
  "int_str i = (if i < 0 then CHR ''-'' # dec_nat (nat (- i)) else dec_nat (nat i))"

section \<open>Words and truth values\<close>

text \<open>str.split() without a separator.\<close>

fun span_word :: "string \<Rightarrow> string \<times> string" where
  "span_word [] = ([], [])"
| "span_word (c # cs) =
     (if find (\<lambda>w. w \<noteq> [] \<and> take (length w) (c # cs) = w) py_ws \<noteq> None then ([], c # cs)
      else (c # fst (span_word cs), snd (span_word cs)))"

lemma span_word_length: "length (snd (span_word s)) \<le> length s"
  by (induction s) auto

lemma py_lstrip_length: "length (py_lstrip s) \<le> length s"
proof -
  obtain p where "s = p @ strip_front py_ws s" using strip_front_suffix by blast
  then show ?thesis unfolding py_lstrip_def by (metis le_add2 length_append)
qed

lemma span_word_stripped:
  assumes "py_lstrip s \<noteq> []"
  shows "length (snd (span_word (py_lstrip s))) < length s"
proof -
  obtain c cs where c: "py_lstrip s = c # cs" using assms by (cases "py_lstrip s") auto
  have "find (\<lambda>w. w \<noteq> [] \<and> take (length w) (c # cs) = w) py_ws = None"
    using strip_front_done[of _ py_ws s] c by (auto simp: find_None_iff py_lstrip_def)
  then have "snd (span_word (py_lstrip s)) = snd (span_word cs)" using c by simp
  then show ?thesis using span_word_length[of cs] py_lstrip_length[of s] c by simp
qed

function py_words :: "string \<Rightarrow> string list" where
  "py_words s =
     (if py_lstrip s = [] then []
      else fst (span_word (py_lstrip s)) # py_words (snd (span_word (py_lstrip s))))"
  by auto
termination by (relation "measure length") (auto simp: span_word_stripped)

declare py_words.simps [simp del]

text \<open>bool() of a JSON value.\<close>

definition json_true :: "json \<Rightarrow> bool" where
  "json_true j = (case j of JNull \<Rightarrow> False | JBool b \<Rightarrow> b | JInt i \<Rightarrow> i \<noteq> 0
     | JFloat s \<Rightarrow> s \<noteq> ''0.0'' \<and> s \<noteq> ''-0.0'' | JStr s \<Rightarrow> s \<noteq> '''' | JList l \<Rightarrow> l \<noteq> [] | JObj kv \<Rightarrow> kv \<noteq> [])"

section \<open>urllib.parse.urlencode\<close>

definition url_safe :: "char \<Rightarrow> bool" where
  "url_safe c = (let n = (of_char c :: nat) in (65 \<le> n \<and> n \<le> 90) \<or> (97 \<le> n \<and> n \<le> 122) \<or> (48 \<le> n \<and> n \<le> 57) \<or>
     c \<in> {CHR ''_'', CHR ''.'', CHR ''-'', CHR ''~''})"

definition hex_digit :: "nat \<Rightarrow> char" where
  "hex_digit n = char_of (if n < 10 then 48 + n else 55 + n)"

definition hex_value :: "char \<Rightarrow> nat" where
  "hex_value c = (if of_char c < (58 :: nat) then of_char c - 48 else of_char c - 55)"

definition quote_char :: "char \<Rightarrow> string" where
  "quote_char c = (if url_safe c then [c] else if c = CHR '' '' then ''+''
     else [CHR ''%'', hex_digit (of_char c div 16), hex_digit (of_char c mod 16)])"

definition quote_plus :: "string \<Rightarrow> string" where
  "quote_plus s = concat (map quote_char s)"

definition urlencode :: "(string \<times> string) list \<Rightarrow> string" where
  "urlencode ps = join_with ''&'' (map (\<lambda>(k, v). quote_plus k @ ''='' @ quote_plus v) ps)"

text \<open>The decoding a reader of the URL performs; it shows that quoting loses nothing.\<close>

fun unquote_plus :: "string \<Rightarrow> string" where
  "unquote_plus [] = []"
| "unquote_plus (c # s) =
     (if c = CHR ''%'' then (case s of a # b # r \<Rightarrow> char_of (16 * hex_value a + hex_value b) # unquote_plus r
                             | _ \<Rightarrow> c # unquote_plus s)
      else (if c = CHR ''+'' then CHR '' '' else c) # unquote_plus s)"

lemma hex_value_digit [simp]: "n < 16 \<Longrightarrow> hex_value (hex_digit n) = n"
  by (auto simp: hex_value_def hex_digit_def of_char_of)

lemma unquote_quote_char: "unquote_plus (quote_char c @ s) = c # unquote_plus s"
proof (cases "url_safe c")
  case True
  then have "c \<noteq> CHR ''%''" "c \<noteq> CHR ''+''" by (auto simp: url_safe_def Let_def)
  then show ?thesis using True by (simp add: quote_char_def)
next
  case False
  have lt: "of_char c div 16 < (16 :: nat)" using nat_of_char_less_256[of c] by (simp only: div_less_iff_less_mult)
  have "16 * (of_char c div 16) + of_char c mod 16 = (of_char c :: nat)" by simp
  then have "char_of (16 * (of_char c div 16) + of_char c mod 16 :: nat) = c" by (simp add: char_of_char)
  then show ?thesis using False lt by (simp add: quote_char_def hex_value_digit[OF lt])
qed

lemma unquote_quote [simp]: "unquote_plus (quote_plus s) = s"
  by (induction s) (simp_all add: quote_plus_def unquote_quote_char)

lemma hex_digit_safe: "n < 16 \<Longrightarrow> url_safe (hex_digit n)"
  by (auto simp: url_safe_def hex_digit_def Let_def of_char_of)

lemma quote_plus_chars: "x \<in> set (quote_plus s) \<Longrightarrow> url_safe x \<or> x = CHR ''+'' \<or> x = CHR ''%''"
proof -
  have "of_char c div 16 < (16 :: nat)" for c :: char using nat_of_char_less_256[of c] by (simp only: div_less_iff_less_mult)
  then have "y \<in> set (quote_char c) \<Longrightarrow> url_safe y \<or> y = CHR ''+'' \<or> y = CHR ''%''" for c y
    by (auto simp: quote_char_def hex_digit_safe split: if_splits)
  then show "x \<in> set (quote_plus s) \<Longrightarrow> url_safe x \<or> x = CHR ''+'' \<or> x = CHR ''%''"
    by (auto simp: quote_plus_def)
qed

lemma hash_unsafe: "\<not> url_safe (CHR ''#'')"
  by (simp add: url_safe_def)

lemma join_with_set: "set (join_with sep ws) \<subseteq> set sep \<union> \<Union> (set ` set ws)"
  by (induction sep ws rule: join_with.induct) auto

lemma urlencode_no_hash: "CHR ''#'' \<notin> set (urlencode ps)"
proof
  assume "CHR ''#'' \<in> set (urlencode ps)"
  then obtain k v where "CHR ''#'' \<in> set ''&'' \<or> CHR ''#'' \<in> set (quote_plus k @ ''='' @ quote_plus v)"
    using join_with_set unfolding urlencode_def by fastforce
  then show False using quote_plus_chars hash_unsafe by fastforce
qed

end
