(* ===== verification/Gemini.thy ===== *)
theory Gemini
  imports PyText
begin

text \<open>
  src/app/clients/gemini_client.py: classification of HTTP answers, the two retry
  loops (LiteLLM proxy and direct), the mapping of errors to HTTP, and the wrapper
  that counts tokens and downgrades a job to the lite model when the main limit is
  reached. The HTTP exchange is an input: what happens on each attempt.
\<close>

section \<open>Errors\<close>

datatype error_kind = Quota | Auth | Transient | InvalidResponse | Unknown

definition classify_status :: "nat \<Rightarrow> string \<Rightarrow> error_kind" where
  "classify_status code body =
     (let b = lower body in
      if code = 429 then Quota
      else if code = 401 then Auth
      else if code = 403 then
        (if list_ex (\<lambda>kw. substr_in kw b) [''quota'', ''resource_exhausted'', ''rate limit'', ''exhausted'']
         then Quota else Auth)
      else if 500 \<le> code \<and> code < 600 then Transient
      else Unknown)"

text \<open>gemini_error_to_http: status and detail code; the fallback message carries at
  most 200 characters of the error text.\<close>

definition gemini_error_to_http :: "error_kind \<Rightarrow> string \<Rightarrow> nat \<times> string \<times> string option" where
  "gemini_error_to_http k msg =
     (case k of
        Quota \<Rightarrow> (429, ''gemini_quota'', None)
      | Auth \<Rightarrow> (503, ''gemini_auth'', None)
      | Transient \<Rightarrow> (502, ''gemini_transient'', None)
      | _ \<Rightarrow> (502, ''gemini_unknown'', Some (take 200 msg)))"

text \<open>The three texts of \<open>_empty_content_message\<close>.\<close>

datatype empty_message = SafetyFilter | RecitationGuard | EmptyAnswer

definition empty_content_message :: "string option \<Rightarrow> empty_message" where
  "empty_content_message fr =
     (let f = lower (coalesce fr '''') in
      if substr_in ''filter'' f \<or> substr_in ''safety'' f \<or> substr_in ''block'' f then SafetyFilter
      else if substr_in ''recitation'' f then RecitationGuard
      else EmptyAnswer)"

section \<open>Configuration\<close>

text \<open>GEMINI_SCHEMA_SKIP_MODELS: unset means flash-lite; otherwise the comma separated
  items, stripped, lower-cased, without empty ones.\<close>

definition schema_skip_substrings :: "string option \<Rightarrow> string list" where
  "schema_skip_substrings env =
     (case env of
        None \<Rightarrow> [''flash-lite'']
      | Some raw \<Rightarrow> map (lower \<circ> py_strip) (filter (\<lambda>s. py_strip s \<noteq> '''') (split_on (CHR '','') raw)))"

definition schema_unsupported :: "string option \<Rightarrow> string \<Rightarrow> bool" where
  "schema_unsupported env model = list_ex (\<lambda>sub. substr_in sub (lower model)) (schema_skip_substrings env)"

text \<open>GEMINI_THINKING_BUDGET, as int() reads it (None: not an integer).\<close>

definition thinking_budget :: "(string \<Rightarrow> int option) \<Rightarrow> string option \<Rightarrow> nat option" where
  "thinking_budget parse_int env =
     (let raw = py_strip (coalesce env '''')
      in if raw = '''' then None else map_option (\<lambda>i. nat (max 0 i)) (parse_int raw))"

section \<open>Requests\<close>

record token_usage =
  t_prompt :: int
  t_completion :: int
  t_total :: int
  t_cached :: int

definition usage_zero :: token_usage where
  "usage_zero = \<lparr>t_prompt = 0, t_completion = 0, t_total = 0, t_cached = 0\<rparr>"

definition usage_add :: "token_usage \<Rightarrow> token_usage \<Rightarrow> token_usage" where
  "usage_add a b = \<lparr>t_prompt = t_prompt a + t_prompt b, t_completion = t_completion a + t_completion b,
     t_total = t_total a + t_total b, t_cached = t_cached a + t_cached b\<rparr>"

record gemini_result =
  r_text :: string
  r_model :: string
  r_finish :: "string option"
  r_usage :: token_usage

text \<open>The text of an exception, with the parts the code formats into it. A body that is not
  JSON makes \<open>resp.json()\<close> raise, which nothing here catches. Bodies are taken as ASCII, where a character is a byte.\<close>

datatype err_text = HttpText string nat string | Exhausted string err_text | NoLastError
  | NetworkText string | EmptyChoices string | EmptyContent empty_message | MissingKey

datatype gemini_error = GeminiError error_kind err_text | JsonDecodeError

record client_config =
  k_litellm :: bool
  k_model :: string
  k_timeout :: nat
  k_max_retries :: nat
  k_skip_env :: "string option"
  k_thinking :: "nat option"

text \<open>GeminiClient.__init__: the proxy needs both variables, the direct mode a key.\<close>

definition client_init ::
  "string option \<Rightarrow> string option \<Rightarrow> string option \<Rightarrow> string option \<Rightarrow> string option
   \<Rightarrow> string \<Rightarrow> nat \<Rightarrow> nat \<Rightarrow> string option \<Rightarrow> nat option \<Rightarrow> gemini_error + client_config" where
  "client_init proxy_url master_key api_key env_gemini env_google model timeout retries skip thinking =
     (let litellm = (or_none proxy_url \<noteq> None \<and> or_none master_key \<noteq> None);
          cfg = \<lparr>k_litellm = litellm, k_model = model, k_timeout = timeout, k_max_retries = retries,
                 k_skip_env = skip, k_thinking = thinking\<rparr>
      in if litellm \<or> or_none api_key \<noteq> None \<or> or_none env_gemini \<noteq> None \<or> or_none env_google \<noteq> None
         then Inr cfg
         else Inl (GeminiError Auth MissingKey))"

record call_args =
  c_model :: "string option"
  c_schema :: "string option"
  c_timeout :: "nat option"
  c_max_retries :: "nat option"
  c_max_output :: "nat option"

record request_body =
  b_model :: string
  b_schema :: "string option"
  b_timeout :: nat
  b_max_output :: "nat option"
  b_thinking :: "nat option"

definition build_request :: "client_config \<Rightarrow> call_args \<Rightarrow> request_body" where
  "build_request k c =
     (let model = py_or (c_model c) (k_model k)
      in \<lparr>b_model = model,
          b_schema = (if c_schema c \<noteq> None \<and> schema_unsupported (k_skip_env k) model then None
                      else c_schema c),
          b_timeout = coalesce (c_timeout c) (k_timeout k),
          b_max_output = c_max_output c, b_thinking = k_thinking k\<rparr>)"

text \<open>One attempt: a network error or an HTTP answer with its status, its text and
  what the JSON document holds.\<close>

datatype reply = NotJson | NoChoices string | NoText "string option"
  | Reply string "string option" "string option" token_usage

datatype attempt_result = NetworkError string | Answer nat string reply

datatype last_error = LastGemini error_kind err_text | LastNetwork string

datatype attempt_verdict = Retry last_error | Decided "gemini_error + gemini_result"

definition read_reply :: "string \<Rightarrow> reply \<Rightarrow> gemini_error + gemini_result" where
  "read_reply model rep =
     (case rep of
        NotJson \<Rightarrow> Inl JsonDecodeError
      | NoChoices data \<Rightarrow> Inl (GeminiError InvalidResponse (EmptyChoices data))
      | NoText fr \<Rightarrow> Inl (GeminiError InvalidResponse (EmptyContent (empty_content_message fr)))
      | Reply txt mdl fr us \<Rightarrow> Inr \<lparr>r_text = txt, r_model = py_or mdl model, r_finish = fr, r_usage = us\<rparr>)"

definition judge_litellm :: "string \<Rightarrow> attempt_result \<Rightarrow> attempt_verdict" where
  "judge_litellm model a =
     (case a of
        NetworkError e \<Rightarrow> Retry (LastNetwork e)
      | Answer code body rep \<Rightarrow>
         if 500 \<le> code \<and> code < 600
         then Retry (LastGemini Transient (HttpText ''LiteLLM'' code (take 200 body)))
         else if code \<ge> 400
         then Decided (Inl (GeminiError (classify_status code body) (HttpText ''LiteLLM'' code (take 300 body))))
         else Decided (read_reply model rep))"

definition judge_direct :: "string \<Rightarrow> attempt_result \<Rightarrow> attempt_verdict" where
  "judge_direct model a =
     (case a of
        NetworkError e \<Rightarrow> Retry (LastNetwork e)
      | Answer code body rep \<Rightarrow>
         if code = 429 \<or> 500 \<le> code \<and> code < 600
         then Retry (LastGemini (classify_status code body) (HttpText ''Gemini'' code (take 200 body)))
         else if code \<ge> 400
         then Decided (Inl (GeminiError (classify_status code body) (HttpText ''Gemini'' code (take 300 body))))
         else Decided (read_reply model rep))"

text \<open>After the last attempt: the kind of the last error, transient for a network
  error and when no attempt was made.\<close>

definition exhausted :: "string \<Rightarrow> last_error option \<Rightarrow> gemini_error" where
  "exhausted who prev = (case prev of
       Some (LastGemini k m) \<Rightarrow> GeminiError k (Exhausted who m)
     | Some (LastNetwork e) \<Rightarrow> GeminiError Transient (Exhausted who (NetworkText e))
     | None \<Rightarrow> GeminiError Transient (Exhausted who NoLastError))"

text \<open>The loop \<open>for attempt in range(1, n + 1)\<close>, with the attempts left, the number of the
  current one and the last error. It returns the outcome, the attempts made and the
  sleeps in seconds; there is no sleep after the last attempt.\<close>

fun retry_loop ::
  "string \<Rightarrow> (attempt_result \<Rightarrow> attempt_verdict) \<Rightarrow> (nat \<Rightarrow> attempt_result) \<Rightarrow> nat \<Rightarrow> nat \<Rightarrow> last_error option
   \<Rightarrow> (gemini_error + gemini_result) \<times> nat \<times> nat list" where
  "retry_loop who judge http 0 i prev = (Inl (exhausted who prev), i - 1, [])"
| "retry_loop who judge http (Suc n) i prev =
     (case judge (http i) of
        Decided r \<Rightarrow> (r, i, [])
      | Retry e \<Rightarrow> (let (r, k, sl) = retry_loop who judge http n (Suc i) (Some e)
                    in (r, k, (if n > 0 then 2 ^ i # sl else sl))))"

definition generate_via_litellm ::
  "client_config \<Rightarrow> call_args \<Rightarrow> (request_body \<Rightarrow> nat \<Rightarrow> attempt_result)
   \<Rightarrow> (gemini_error + gemini_result) \<times> nat \<times> nat list" where
  "generate_via_litellm k c http =
     (let b = build_request k c
      in retry_loop ''LiteLLM'' (judge_litellm (b_model b)) (http b) (coalesce (c_max_retries c) (k_max_retries k)) 1 None)"

text \<open>The direct path reports the requested model whatever the answer says.\<close>

definition generate_direct ::
  "client_config \<Rightarrow> call_args \<Rightarrow> (request_body \<Rightarrow> nat \<Rightarrow> attempt_result)
   \<Rightarrow> (gemini_error + gemini_result) \<times> nat \<times> nat list" where
  "generate_direct k c http =
     (let b = build_request k c;
          (r, n, sl) = retry_loop ''Gemini'' (judge_direct (b_model b)) (http b)
                         (coalesce (c_max_retries c) (k_max_retries k)) 1 None
      in (map_sum id (\<lambda>g. g\<lparr>r_model := b_model b\<rparr>) r, n, sl))"

definition client_generate ::
  "client_config \<Rightarrow> call_args \<Rightarrow> (request_body \<Rightarrow> nat \<Rightarrow> attempt_result)
   \<Rightarrow> (gemini_error + gemini_result) \<times> nat \<times> nat list" where
  "client_generate k c http =
     (if k_litellm k then generate_via_litellm k c http else generate_direct k c http)"

section \<open>Streaming\<close>

text \<open>One event line of a stream after its \<open>data: \<close> prefix: the end marker, something that is
  not JSON, or a chunk with a text and a usage.\<close>

datatype sse_line = OtherLine | DoneLine | BadJsonLine | Chunk string "token_usage option"

fun stream_litellm :: "sse_line list \<Rightarrow> token_usage option \<Rightarrow> string list \<times> token_usage option" where
  "stream_litellm [] u = ([], u)"
| "stream_litellm (OtherLine # ls) u = stream_litellm ls u"
| "stream_litellm (BadJsonLine # ls) u = stream_litellm ls u"
| "stream_litellm (DoneLine # ls) u = ([], u)"
| "stream_litellm (Chunk t v # ls) u =
     (let (ts, w) = stream_litellm ls (if v = None then u else v)
      in (if t = '''' then ts else t # ts, w))"

text \<open>The direct stream knows no end marker: such a line is not JSON and skipped.\<close>

fun stream_direct :: "sse_line list \<Rightarrow> token_usage option \<Rightarrow> string list \<times> token_usage option" where
  "stream_direct [] u = ([], u)"
| "stream_direct (OtherLine # ls) u = stream_direct ls u"
| "stream_direct (BadJsonLine # ls) u = stream_direct ls u"
| "stream_direct (DoneLine # ls) u = stream_direct ls u"
| "stream_direct (Chunk t v # ls) u =
     (let (ts, w) = stream_direct ls (if v = None then u else v)
      in (if t = '''' then ts else t # ts, w))"

text \<open>A stream call: the answer's status, for an error status its text, the event lines that
  arrive and the network error that cuts them off, if any. The result is the list of chunks handed
  to the caller, \<open>_last_stream_usage\<close> and the exception that ends the stream. The model argument
  is only part of the request.\<close>

datatype stream_answer = StreamNoConnection string | StreamAnswer nat string "sse_line list" "string option"

definition stream_run ::
  "string \<Rightarrow> (sse_line list \<Rightarrow> token_usage option \<Rightarrow> string list \<times> token_usage option) \<Rightarrow> stream_answer
   \<Rightarrow> string list \<times> token_usage option \<times> gemini_error option" where
  "stream_run who rd a =
     (case a of
        StreamNoConnection e \<Rightarrow> ([], None, Some (GeminiError Transient (NetworkText e)))
      | StreamAnswer code body ls brk \<Rightarrow>
         if code \<ge> 400
         then ([], None, Some (GeminiError (classify_status code body) (HttpText who code (take 200 body))))
         else (let (ts, u) = rd ls None
               in (ts, u, map_option (\<lambda>e. GeminiError Transient (NetworkText e))
                            (if who = ''LiteLLM stream'' \<and> DoneLine \<in> set ls then None else brk))))"

definition generate_stream ::
  "client_config \<Rightarrow> string option \<Rightarrow> (string \<Rightarrow> stream_answer) \<Rightarrow> string list \<times> token_usage option \<times> gemini_error option" where
  "generate_stream k model http =
     (let m = py_or model (k_model k)
      in if k_litellm k then stream_run ''LiteLLM stream'' stream_litellm (http m)
         else stream_run ''Gemini stream'' stream_direct (http m))"

section \<open>Counting tokens\<close>

record accumulator =
  a_total :: token_usage
  a_main_bucket :: "int option"

definition new_accumulator :: accumulator where
  "new_accumulator = \<lparr>a_total = usage_zero, a_main_bucket = None\<rparr>"

definition acc_add :: "token_usage \<Rightarrow> accumulator \<Rightarrow> accumulator" where
  "acc_add u a = a\<lparr>a_total := usage_add (a_total a) u\<rparr>"

text \<open>TrackedGemini; clients are values of type 'c.\<close>

record 'c tracked =
  g_inner :: 'c
  g_acc :: accumulator
  g_lite_inner :: "'c option"
  g_base_usage :: int
  g_main_limit :: int
  g_force_model :: "string option"
  g_downgrade_model :: "string option"
  g_downgraded :: bool

definition new_tracked ::
  "'c \<Rightarrow> accumulator \<Rightarrow> 'c option \<Rightarrow> int \<Rightarrow> int \<Rightarrow> string option \<Rightarrow> string option \<Rightarrow> 'c tracked" where
  "new_tracked inner acc lite base limit force dforce =
     \<lparr>g_inner = inner, g_acc = acc, g_lite_inner = lite, g_base_usage = base, g_main_limit = limit,
      g_force_model = force, g_downgrade_model = dforce, g_downgraded = False\<rparr>"

definition maybe_downgrade :: "'c tracked \<Rightarrow> 'c tracked" where
  "maybe_downgrade g =
     (case g_lite_inner g of
        None \<Rightarrow> g
      | Some lite \<Rightarrow>
         if g_downgraded g \<or> g_main_limit g \<le> 0 then g
         else if g_base_usage g + t_total (a_total (g_acc g)) \<ge> g_main_limit g
         then g\<lparr>g_acc := (g_acc g)\<lparr>a_main_bucket := Some (t_total (a_total (g_acc g)))\<rparr>,
                g_inner := lite, g_downgraded := True,
                g_force_model := (if g_downgrade_model g = None then g_force_model g
                                  else g_downgrade_model g)\<rparr>
         else g)"

text \<open>An inner call: the value, a TypeError (an argument the client does not know) or
  another exception. The wrapper retries with fewer arguments only after a TypeError.\<close>

datatype inner_outcome = CallOk gemini_result bool | CallTypeError | CallRaised gemini_error

datatype call_form = FullCall | SchemaModelCall | SchemaCall | BareCall

definition tracked_model :: "'c tracked \<Rightarrow> string option \<Rightarrow> string option" where
  "tracked_model g model = (if g_force_model g = None then model else g_force_model g)"

text \<open>The forms are tried in order; the model argument is passed in the first two.\<close>

fun try_forms ::
  "(call_form \<Rightarrow> inner_outcome) \<Rightarrow> call_form list \<Rightarrow> inner_outcome" where
  "try_forms f [] = CallTypeError"
| "try_forms f (c # cs) = (case f c of CallTypeError \<Rightarrow> try_forms f cs | r \<Rightarrow> r)"

definition tracked_generate ::
  "('c \<Rightarrow> call_form \<Rightarrow> string option \<Rightarrow> inner_outcome) \<Rightarrow> string option \<Rightarrow> 'c tracked
   \<Rightarrow> inner_outcome \<times> 'c tracked" where
  "tracked_generate call model g =
     (let m = tracked_model g model;
          r = try_forms (\<lambda>form. call (g_inner g) form
                (if form = FullCall \<or> form = SchemaModelCall then m else None))
                [FullCall, SchemaModelCall, SchemaCall, BareCall]
      in case r of
           CallOk res has_usage \<Rightarrow>
             (r, if has_usage then maybe_downgrade (g\<lparr>g_acc := acc_add (r_usage res) (g_acc g)\<rparr>) else g)
         | _ \<Rightarrow> (r, g))"

text \<open>The wrapper's stream hands the chunks on; the usage is added once the stream is
  exhausted, not when it ends with an exception.\<close>

definition tracked_stream ::
  "('c \<Rightarrow> string option \<Rightarrow> string list \<times> token_usage option \<times> gemini_error option) \<Rightarrow> string option
   \<Rightarrow> 'c tracked \<Rightarrow> (string list \<times> gemini_error option) \<times> 'c tracked" where
  "tracked_stream stream model g =
     (case stream (g_inner g) (tracked_model g model) of
        (ts, u, Some e) \<Rightarrow> ((ts, Some e), g)
      | (ts, None, None) \<Rightarrow> ((ts, None), g)
      | (ts, Some us, None) \<Rightarrow> ((ts, None), maybe_downgrade (g\<lparr>g_acc := acc_add us (g_acc g)\<rparr>)))"

section \<open>The retry loops\<close>

lemma retry_loop_bounds:
  assumes "retry_loop who judge http n i prev = (r, k, sl)" "0 < i"
  shows "k \<le> i + n - 1 \<and> length sl \<le> n - 1"
  using assms
proof (induction n arbitrary: i prev r k sl)
  case (Suc n)
  show ?case
  proof (cases "judge (http i)")
    case (Retry e)
    obtain r' k' sl' where l: "retry_loop who judge http n (Suc i) (Some e) = (r', k', sl')" by (metis prod_cases3)
    have "sl' = []" if "n = 0" using l that by simp
    then show ?thesis using Suc.IH[OF l] Suc.prems Retry l by auto
  qed (use Suc.prems in auto)
qed auto

lemma retry_loop_decided:
  assumes "\<forall>j. i \<le> j \<and> j < m \<longrightarrow> (\<exists>e. judge (http j) = Retry e)" "judge (http m) = Decided r"
    "i \<le> m" "m < i + n"
  shows "fst (retry_loop who judge http n i prev) = r \<and> fst (snd (retry_loop who judge http n i prev)) = m"
  using assms
proof (induction n arbitrary: i prev)
  case (Suc n)
  show ?case
  proof (cases "i = m")
    case False
    then obtain e where "judge (http i) = Retry e" using Suc.prems(1,3) by auto
    then show ?thesis
      using Suc.IH[of "Suc i" "Some e"] Suc.prems False by (simp add: split_beta Let_def)
  qed (use Suc.prems in simp)
qed simp

lemma retry_loop_exhausted:
  assumes "\<forall>j. i \<le> j \<and> j < i + n \<longrightarrow> judge (http j) = Retry (es j)" "0 < n"
  shows "fst (retry_loop who judge http n i prev) = Inl (exhausted who (Some (es (i + n - 1))))"
  using assms
proof (induction n arbitrary: i prev)
  case (Suc n)
  then have "judge (http i) = Retry (es i)" by simp
  then show ?case
    using Suc.IH[of "Suc i" "Some (es i)"] Suc.prems by (cases n) (simp_all add: split_beta Let_def)
qed simp

lemma retry_loop_sleeps:
  assumes "\<forall>j. i \<le> j \<and> j < i + n \<longrightarrow> judge (http j) = Retry (es j)" "0 < n" "0 < i"
  shows "snd (retry_loop who judge http n i prev) = (i + n - 1, map (\<lambda>j. 2 ^ j) [i..<i + n - 1])"
  using assms
proof (induction n arbitrary: i prev)
  case (Suc n)
  then have r: "judge (http i) = Retry (es i)" by simp
  show ?case
  proof (cases n)
    case (Suc m)
    then have "snd (retry_loop who judge http n (Suc i) (Some (es i)))
        = (Suc i + n - 1, map (\<lambda>j. 2 ^ j) [Suc i..<Suc i + n - 1])"
      using Suc.IH[of "Suc i" "Some (es i)"] Suc.prems by simp
    moreover have "[i..<i + n] = i # [Suc i..<i + n]" using Suc by (simp add: upt_rec)
    ultimately show ?thesis using r Suc by (simp add: split_beta Let_def)
  qed (use r in simp)
qed simp

lemma judge_litellm_kinds:
  "judge_litellm m a = Retry (LastGemini k t) \<Longrightarrow> k = Transient"
  by (auto simp: judge_litellm_def split: attempt_result.splits if_splits)

text \<open>Proxy calls. With n attempts allowed: at most n requests are sent, with fewer than n
  sleeps; the first answer that is neither a network error nor a server error decides the result;
  if there is none the call fails with kind transient.\<close>

theorem litellm_call_spec:
  assumes "0 < n" "c_max_retries c = Some n" "k_litellm cfg"
    and b: "b = build_request cfg c" and J: "J = judge_litellm (b_model b)"
  shows "(\<forall>r k sl. client_generate cfg c http = (r, k, sl) \<longrightarrow> k \<le> n \<and> length sl < n) \<and>
    (\<forall>m r. (\<forall>j. 1 \<le> j \<and> j < m \<longrightarrow> (\<exists>e. J (http b j) = Retry e)) \<longrightarrow> J (http b m) = Decided r
       \<longrightarrow> 1 \<le> m \<longrightarrow> m \<le> n \<longrightarrow> fst (client_generate cfg c http) = r \<and> fst (snd (client_generate cfg c http)) = m) \<and>
    ((\<forall>j. 1 \<le> j \<and> j \<le> n \<longrightarrow> (\<exists>e. J (http b j) = Retry e)) \<longrightarrow>
       (\<exists>t. fst (client_generate cfg c http) = Inl (GeminiError Transient t)))"
proof -
  have g: "client_generate cfg c http = retry_loop ''LiteLLM'' J (http b) n 1 None"
    using assms(2,3) by (simp add: client_generate_def generate_via_litellm_def Let_def b J)
  have "\<exists>t. fst (client_generate cfg c http) = Inl (GeminiError Transient t)"
    if "\<forall>j. 1 \<le> j \<and> j \<le> n \<longrightarrow> (\<exists>e. J (http b j) = Retry e)"
  proof -
    from that obtain es where es: "\<forall>j. 1 \<le> j \<and> j < 1 + n \<longrightarrow> J (http b j) = Retry (es j)"
      by (metis less_Suc_eq_le plus_1_eq_Suc)
    have "J (http b n) = Retry (es n)" using es assms(1) by simp
    then have "\<exists>t. exhausted ''LiteLLM'' (Some (es n)) = GeminiError Transient t"
      using judge_litellm_kinds by (cases "es n") (auto simp: exhausted_def J)
    then show ?thesis using retry_loop_exhausted[OF es assms(1), of "''LiteLLM''" None] g by auto
  qed
  moreover have "fst (client_generate cfg c http) = r \<and> fst (snd (client_generate cfg c http)) = m"
    if "\<forall>j. 1 \<le> j \<and> j < m \<longrightarrow> (\<exists>e. J (http b j) = Retry e)" "J (http b m) = Decided r" "1 \<le> m" "m \<le> n" for m r
    using retry_loop_decided[OF that(1,2,3), of n "''LiteLLM''" None] that(4) g by simp
  moreover have "k \<le> n \<and> length sl < n" if "client_generate cfg c http = (r, k, sl)" for r k sl
    using retry_loop_bounds[of "''LiteLLM''" J "http b" n 1 None r k sl] that assms(1) g by auto
  ultimately show ?thesis by blast
qed

definition demo_client :: "bool \<Rightarrow> client_config" where
  "demo_client proxy = \<lparr>k_litellm = proxy, k_model = ''flash'', k_timeout = 90, k_max_retries = 3,
     k_skip_env = None, k_thinking = None\<rparr>"

definition demo_call :: call_args where
  "demo_call = \<lparr>c_model = None, c_schema = Some ''S'', c_timeout = None, c_max_retries = Some 3, c_max_output = None\<rparr>"

lemma litellm_call_spec_witness:
  "fst (client_generate (demo_client True) demo_call
      (\<lambda>b i. if i = 1 then NetworkError ''reset'' else Answer 401 ''bad key'' NotJson))
    = Inl (GeminiError Auth (HttpText ''LiteLLM'' 401 ''bad key''))"
  by (rule litellm_call_spec[of 3 demo_call "demo_client True", OF _ _ _ refl refl, THEN conjunct2, THEN conjunct1,
        THEN spec[of _ "2::nat"], THEN spec, THEN mp, THEN mp, THEN mp, THEN mp, THEN conjunct1])
     (simp_all add: demo_client_def demo_call_def judge_litellm_def classify_status_def less_Suc_eq Let_def)

text \<open>A quota answer (429) ends a proxy call at the first request, but a direct call repeats it:
  when every answer is a 429 it makes all n requests, sleeping 2, 4, ... seconds between them, and
  only then fails with kind quota.\<close>

theorem quota_answers_by_mode:
  assumes "\<forall>i. \<exists>body rep. http (build_request cfg c) i = Answer 429 body rep" "c_max_retries c = Some n" "0 < n"
  shows "(\<exists>t. client_generate (cfg\<lparr>k_litellm := True\<rparr>) c http = (Inl (GeminiError Quota t), 1, [])) \<and>
    (\<exists>t. client_generate (cfg\<lparr>k_litellm := False\<rparr>) c http
       = (Inl (GeminiError Quota t), n, map (\<lambda>j. 2 ^ j) [1..<n]))"
proof
  have b: "build_request (cfg\<lparr>k_litellm := p\<rparr>) c = build_request cfg c" for p
    by (simp add: build_request_def)
  let ?b = "build_request cfg c"
  obtain body rep where h: "\<And>i. http ?b i = Answer 429 (body i) (rep i)"
    using assms(1) by metis
  let ?e = "\<lambda>j. LastGemini Quota (HttpText ''Gemini'' 429 (take 200 (body j)))"
  have d: "\<forall>j. 1 \<le> j \<and> j < 1 + n \<longrightarrow> judge_direct (b_model ?b) (http ?b j) = Retry (?e j)"
    by (simp add: h judge_direct_def classify_status_def)
  obtain m where "n = Suc m" using assms(3) by (cases n) auto
  then show "\<exists>t. client_generate (cfg\<lparr>k_litellm := True\<rparr>) c http = (Inl (GeminiError Quota t), 1, [])"
    using assms(2)
    by (simp add: client_generate_def generate_via_litellm_def b h judge_litellm_def classify_status_def Let_def)
  show "\<exists>t. client_generate (cfg\<lparr>k_litellm := False\<rparr>) c http
       = (Inl (GeminiError Quota t), n, map (\<lambda>j. 2 ^ j) [1..<n])"
    using retry_loop_exhausted[OF d assms(3), of "''Gemini''" None]
      retry_loop_sleeps[OF d assms(3), of "''Gemini''" None] assms(2)
    by (cases "retry_loop ''Gemini'' (judge_direct (b_model ?b)) (http ?b) n 1 None")
       (simp add: client_generate_def generate_direct_def b exhausted_def Let_def)
qed

lemma quota_answers_by_mode_witness:
  "fst (snd (client_generate ((demo_client False)\<lparr>k_litellm := True\<rparr>) demo_call (\<lambda>b i. Answer 429 '''' NotJson))) = 1 \<and>
   snd (client_generate ((demo_client False)\<lparr>k_litellm := False\<rparr>) demo_call (\<lambda>b i. Answer 429 '''' NotJson)) = (3, [2, 4])"
  using quota_answers_by_mode[of "\<lambda>b i. Answer 429 '''' NotJson" "demo_client False" demo_call 3]
  by (auto simp: demo_call_def upt_rec)

section \<open>Downgrading within a job\<close>

text \<open>A job's calls in order, with the behaviour of the clients at each call. The log holds
  the client and the model of each call and its outcome.\<close>

fun tracked_run ::
  "(('c \<Rightarrow> call_form \<Rightarrow> string option \<Rightarrow> inner_outcome) \<times> string option) list \<Rightarrow> 'c tracked
   \<Rightarrow> ('c \<times> string option \<times> inner_outcome) list \<times> 'c tracked" where
  "tracked_run [] g = ([], g)"
| "tracked_run ((call, m) # cs) g =
     (let (r, g1) = tracked_generate call m g; (rs, g2) = tracked_run cs g1
      in ((g_inner g, tracked_model g m, r) # rs, g2))"

definition spent :: "'c \<times> string option \<times> inner_outcome \<Rightarrow> int option" where
  "spent e = (case snd (snd e) of CallOk res True \<Rightarrow> Some (t_total (r_usage res)) | _ \<Rightarrow> None)"

definition log_sum :: "('c \<times> string option \<times> inner_outcome) list \<Rightarrow> int" where
  "log_sum es = sum_list (map (\<lambda>e. coalesce (spent e) 0) es)"

definition log_silent :: "('c \<times> string option \<times> inner_outcome) list \<Rightarrow> bool" where
  "log_silent es = list_all (\<lambda>e. spent e = None) es"

lemma log_simps [simp]:
  "log_sum [] = 0" "log_sum (e # es) = coalesce (spent e) 0 + log_sum es"
  "log_silent []" "log_silent (e # es) = (spent e = None \<and> log_silent es)"
  by (simp_all add: log_sum_def log_silent_def)

lemma log_silent_sum: "log_silent es \<Longrightarrow> log_sum es = 0"
  by (induction es) (auto simp: coalesce_def)

lemma tracked_generate_cases:
  assumes "tracked_generate call m g = (r, g1)"
  shows "spent (c, q, r) = None \<and> g1 = g \<or>
    (\<exists>u. spent (c, q, r) = Some (t_total u) \<and> g1 = maybe_downgrade (g\<lparr>g_acc := acc_add u (g_acc g)\<rparr>))"
  using assms unfolding tracked_generate_def Let_def spent_def
  by (auto split: inner_outcome.splits bool.splits)

lemma acc_add_total [simp]:
  "t_total (a_total (acc_add u a)) = t_total (a_total a) + t_total u"
  "a_main_bucket (acc_add u a) = a_main_bucket a"
  by (simp_all add: acc_add_def usage_add_def)

lemma run_downgraded:
  assumes "tracked_run cs g = (es, g')" "g_downgraded g"
  shows "(\<forall>e\<in>set es. fst e = g_inner g \<and> (\<exists>m. fst (snd e) = tracked_model g m)) \<and>
    t_total (a_total (g_acc g')) = t_total (a_total (g_acc g)) + log_sum es \<and>
    a_main_bucket (g_acc g') = a_main_bucket (g_acc g)"
  using assms
proof (induction cs arbitrary: g es)
  case (Cons x cs)
  obtain call m where x: "x = (call, m)" by force
  obtain r g1 where r: "tracked_generate call m g = (r, g1)" by force
  obtain es1 where e: "tracked_run cs g1 = (es1, g')" "es = (g_inner g, tracked_model g m, r) # es1"
    using Cons.prems r x by (cases "tracked_run cs g1") auto
  from tracked_generate_cases[OF r, of "g_inner g" "tracked_model g m"] Cons.prems(2)
  have g1: "g_downgraded g1" "g_inner g1 = g_inner g" "tracked_model g1 = tracked_model g"
    "t_total (a_total (g_acc g1)) = t_total (a_total (g_acc g)) + coalesce (spent (g_inner g, tracked_model g m, r)) 0"
    "a_main_bucket (g_acc g1) = a_main_bucket (g_acc g)"
    by (auto simp: maybe_downgrade_def tracked_model_def fun_eq_iff coalesce_def split: option.splits)
  show ?case using Cons.IH[OF e(1) g1(1)] g1(2-5) e(2) by auto
qed simp

text \<open>How the calls of a job divide over the main bucket (\<open>pre\<close>) and the lite bucket (\<open>post\<close>): the
  main limit is not reached before the last call of the main part.\<close>

definition bucket_split ::
  "int \<Rightarrow> int \<Rightarrow> int \<Rightarrow> int option \<Rightarrow> ('c \<times> string option \<times> inner_outcome) list
   \<Rightarrow> ('c \<times> string option \<times> inner_outcome) list \<Rightarrow> bool" where
  "bucket_split lim b0 t0 bucket pre post =
     (let below = (\<lambda>p. log_silent p \<or> b0 + t0 + log_sum p < lim)
      in case bucket of
           None \<Rightarrow> post = [] \<and> below pre
         | Some k \<Rightarrow> k = t0 + log_sum pre \<and> lim \<le> b0 + k \<and> pre \<noteq> [] \<and> below (butlast pre))"

lemma bucket_split_Cons:
  assumes "bucket_split lim b0 (t0 + coalesce (spent e) 0) bucket pre post"
    "spent e = None \<or> b0 + t0 + coalesce (spent e) 0 < lim"
  shows "bucket_split lim b0 t0 bucket (e # pre) post"
  using assms log_silent_sum[of pre] log_silent_sum[of "butlast pre"]
  by (auto simp: bucket_split_def Let_def coalesce_def split: option.splits)

lemma run_armed:
  assumes "tracked_run cs g = (es, g')" "\<not> g_downgraded g" "g_lite_inner g = Some lite" "0 < g_main_limit g"
    "a_main_bucket (g_acc g) = None" "g_downgrade_model g = Some dm"
  shows "\<exists>pre post. es = pre @ post \<and> (\<forall>e\<in>set pre. fst e = g_inner g) \<and>
    (\<forall>e\<in>set post. fst e = lite \<and> fst (snd e) = Some dm) \<and>
    t_total (a_total (g_acc g')) = t_total (a_total (g_acc g)) + log_sum pre + log_sum post \<and>
    bucket_split (g_main_limit g) (g_base_usage g) (t_total (a_total (g_acc g))) (a_main_bucket (g_acc g')) pre post"
  using assms
proof (induction cs arbitrary: g es)
  case Nil
  then show ?case by (intro exI[of _ "[]"]) (auto simp: bucket_split_def Let_def)
next
  case (Cons x cs)
  obtain call m where x: "x = (call, m)" by force
  obtain r g1 where r: "tracked_generate call m g = (r, g1)" by force
  let ?e = "(g_inner g, tracked_model g m, r)"
  let ?t = "coalesce (spent ?e) 0"
  let ?T = "t_total (a_total (g_acc g))"
  obtain es1 where e: "tracked_run cs g1 = (es1, g')" "es = ?e # es1"
    using Cons.prems r x by (cases "tracked_run cs g1") auto
  note step = tracked_generate_cases[OF r, of "g_inner g" "tracked_model g m"]
  show ?case
  proof (cases "spent ?e = None \<or> g_base_usage g + ?T + ?t < g_main_limit g")
    case True
    then have g1: "\<not> g_downgraded g1" "g_lite_inner g1 = Some lite" "g_main_limit g1 = g_main_limit g"
      "a_main_bucket (g_acc g1) = None" "g_downgrade_model g1 = Some dm" "g_inner g1 = g_inner g"
      "g_base_usage g1 = g_base_usage g" "t_total (a_total (g_acc g1)) = ?T + ?t"
      using step Cons.prems by (auto simp: maybe_downgrade_def coalesce_def)
    have "0 < g_main_limit g1" using g1(3) Cons.prems(4) by simp
    from Cons.IH[OF e(1) g1(1,2) this g1(4,5)] obtain pre post where pp: "es1 = pre @ post"
      "\<forall>e\<in>set pre. fst e = g_inner g" "\<forall>e\<in>set post. fst e = lite \<and> fst (snd e) = Some dm"
      "t_total (a_total (g_acc g')) = ?T + ?t + log_sum pre + log_sum post"
      "bucket_split (g_main_limit g) (g_base_usage g) (?T + ?t) (a_main_bucket (g_acc g')) pre post"
      unfolding g1 by blast
    show ?thesis
      using pp e(2) bucket_split_Cons[OF pp(5) True] by (intro exI[of _ "?e # pre"] exI[of _ post]) auto
  next
    case False
    then have g1: "g_downgraded g1" "g_inner g1 = lite" "\<And>m. tracked_model g1 m = Some dm"
      "t_total (a_total (g_acc g1)) = ?T + ?t" "a_main_bucket (g_acc g1) = Some (?T + ?t)"
      using step Cons.prems by (auto simp: maybe_downgrade_def tracked_model_def coalesce_def)
    show ?thesis
      using run_downgraded[OF e(1) g1(1)] g1(2-5) e(2) False
      by (intro exI[of _ "[?e]"] exI[of _ es1]) (auto simp: bucket_split_def Let_def)
  qed
qed

text \<open>C11: Downgrading. In a job of a user who may overflow into the lite pool the calls split into a
  part made with the main client and a part made with the lite client and the lite model, whatever
  model the caller asks for. The total is the sum of both, the recorded main bucket is exactly the
  main part, and the main limit is not reached before the last call of the main part, so the main
  bucket exceeds the limit by less than one call. Without a downgrade the whole job stays below.\<close>

theorem downgrade_splits_job:
  assumes "0 < limit" "tracked_run cs (new_tracked main new_accumulator (Some lite) base limit None (Some dm)) = (es, g')"
  shows "\<exists>pre post. es = pre @ post \<and> list_all (\<lambda>e. fst e = main) pre \<and>
    list_all (\<lambda>e. fst e = lite \<and> fst (snd e) = Some dm) post \<and>
    t_total (a_total (g_acc g')) = log_sum pre + log_sum post \<and>
    (case a_main_bucket (g_acc g') of
       None \<Rightarrow> post = [] \<and> (log_silent pre \<or> base + log_sum pre < limit)
     | Some k \<Rightarrow> k = log_sum pre \<and> limit \<le> base + k \<and>
         (log_silent (butlast pre) \<or> base + log_sum (butlast pre) < limit))"
proof -
  from run_armed[OF assms(2), of lite dm] assms(1) obtain pre post where "es = pre @ post"
    "\<forall>e\<in>set pre. fst e = main" "\<forall>e\<in>set post. fst e = lite \<and> fst (snd e) = Some dm"
    "t_total (a_total (g_acc g')) = log_sum pre + log_sum post"
    "bucket_split limit base 0 (a_main_bucket (g_acc g')) pre post"
    by (auto simp: new_tracked_def new_accumulator_def usage_zero_def)
  then show ?thesis
    by (intro exI[of _ pre] exI[of _ post])
       (auto simp: bucket_split_def Let_def list_all_iff split: option.splits)
qed

definition demo_inner :: "bool \<Rightarrow> call_form \<Rightarrow> string option \<Rightarrow> inner_outcome" where
  "demo_inner c form m = CallOk \<lparr>r_text = ''t'', r_model = coalesce m ''flash'', r_finish = None,
     r_usage = \<lparr>t_prompt = 40, t_completion = 20, t_total = 60, t_cached = 0\<rparr>\<rparr> True"

definition demo_job :: "(bool \<times> string option \<times> inner_outcome) list \<times> bool tracked" where
  "demo_job = tracked_run (replicate 3 (demo_inner, Some ''pro'')) (new_tracked True new_accumulator (Some False) 0 100 None (Some ''lite''))"

lemma downgrade_splits_job_witness:
  "map (\<lambda>e. (fst e, fst (snd e))) (fst demo_job) = [(True, Some ''pro''), (True, Some ''pro''), (False, Some ''lite'')] \<and>
   a_main_bucket (g_acc (snd demo_job)) = Some 120 \<and>
   (\<exists>pre post. fst demo_job = pre @ post \<and> log_sum pre = 120 \<and> log_sum post = 60)"
proof -
  have run: "tracked_run (replicate 3 (demo_inner, Some ''pro''))
      (new_tracked True new_accumulator (Some False) 0 100 None (Some ''lite'')) = (fst demo_job, snd demo_job)"
    by (simp only: demo_job_def prod.collapse)
  have ev: "map (\<lambda>e. (fst e, fst (snd e))) (fst demo_job) = [(True, Some ''pro''), (True, Some ''pro''), (False, Some ''lite'')]"
    "a_main_bucket (g_acc (snd demo_job)) = Some 120" "t_total (a_total (g_acc (snd demo_job))) = 180"
    by (code_simp, code_simp, code_simp)
  from downgrade_splits_job[OF _ run] obtain pre post
    where "fst demo_job = pre @ post" "t_total (a_total (g_acc (snd demo_job))) = log_sum pre + log_sum post"
      "log_sum pre = 120"
    unfolding ev by auto
  with ev show ?thesis by (intro conjI exI[of _ pre] exI[of _ post]) auto
qed

end
