(* ===== verification/ExtractCache.thy ===== *)
theory ExtractCache
  imports PyText Redis
begin

text \<open>
  src/app/queue/extract_cache.py: the Redis cache of the extraction step, its
  single-flight lock and the wait for another worker's result. SHA-256 and the JSON
  codec are arguments (\<open>sha\<close> the hex digest, \<open>loads\<close> None for a text that is not JSON or
  is null); \<open>fails\<close> makes the Redis command raise.
\<close>

definition extract_prefix :: string where "extract_prefix = ''harness:extract:v4:''"
definition extract_ttl :: int where "extract_ttl = 7200"
definition extract_lock_ttl :: int where "extract_lock_ttl = 180"
definition extract_wait :: int where "extract_wait = 90"

definition extract_cache_key :: "(string \<Rightarrow> string) \<Rightarrow> string \<Rightarrow> string \<Rightarrow> string \<Rightarrow> string" where
  "extract_cache_key sha project version content =
     extract_prefix @ project @ '':'' @ version @ '':'' @ take 16 (sha (py_strip content))"

record 'e codec =
  x_dumps :: "'e \<Rightarrow> string"
  x_loads :: "string \<Rightarrow> 'e option"

definition get_cached_extract ::
  "'r kv_api \<Rightarrow> 'e codec \<Rightarrow> bool \<Rightarrow> bool \<Rightarrow> string \<Rightarrow> instant \<Rightarrow> 'r \<Rightarrow> 'e option" where
  "get_cached_extract a cd present fails key now s =
     (if \<not> present \<or> fails then None
      else case kv_get a key now s of
        None \<Rightarrow> None
      | Some raw \<Rightarrow> if raw = '''' then None else x_loads cd raw)"

definition set_cached_extract ::
  "'r kv_api \<Rightarrow> 'e codec \<Rightarrow> bool \<Rightarrow> bool \<Rightarrow> string \<Rightarrow> 'e \<Rightarrow> instant \<Rightarrow> 'r \<Rightarrow> 'r" where
  "set_cached_extract a cd present fails key e now s =
     (if \<not> present \<or> fails then s else kv_set a key (x_dumps cd e) extract_ttl now s)"

definition try_acquire_extract_lock ::
  "'r kv_api \<Rightarrow> bool \<Rightarrow> bool \<Rightarrow> string \<Rightarrow> instant \<Rightarrow> 'r \<Rightarrow> bool \<times> 'r" where
  "try_acquire_extract_lock a present fails key now s =
     (if \<not> present \<or> fails then (True, s)
      else kv_set_nx a (key @ '':lock'') ''1'' extract_lock_ttl now s)"

text \<open>The wait: poll k happens at \<open>clock k\<close>, the rest of the world changes the store by
  \<open>others k\<close> between two polls. The fuel bounds the polls; None is "still waiting".\<close>

fun extract_poll ::
  "nat \<Rightarrow> 'r kv_api \<Rightarrow> 'e codec \<Rightarrow> (nat \<Rightarrow> bool) \<Rightarrow> (nat \<Rightarrow> instant) \<Rightarrow> (nat \<Rightarrow> 'r \<Rightarrow> 'r)
   \<Rightarrow> string \<Rightarrow> instant \<Rightarrow> nat \<Rightarrow> 'r \<Rightarrow> ('e option \<times> 'r) option" where
  "extract_poll 0 a cd fails clock others key deadline k s = None"
| "extract_poll (Suc n) a cd fails clock others key deadline k s =
     (if clock k \<ge> deadline then Some (None, s)
      else case get_cached_extract a cd True (fails k) key (clock k) s of
        Some e \<Rightarrow> Some (Some e, s)
      | None \<Rightarrow> extract_poll n a cd fails clock others key deadline (Suc k) (others k s))"

definition wait_for_cached_extract ::
  "nat \<Rightarrow> 'r kv_api \<Rightarrow> 'e codec \<Rightarrow> bool \<Rightarrow> (nat \<Rightarrow> bool) \<Rightarrow> (nat \<Rightarrow> instant) \<Rightarrow> (nat \<Rightarrow> 'r \<Rightarrow> 'r)
   \<Rightarrow> string \<Rightarrow> 'r \<Rightarrow> ('e option \<times> 'r) option" where
  "wait_for_cached_extract fuel a cd present fails clock others key s =
     (if \<not> present then Some (None, s)
      else extract_poll fuel a cd fails clock others key (clock 0 + extract_wait) 0 s)"

section \<open>Validity of a cached extract\<close>

definition is_valid_extract :: "json option \<Rightarrow> bool" where
  "is_valid_extract d =
     (case d of
        Some (JObj kv) \<Rightarrow>
          is_obj (map_of kv ''cps_graph'') \<and> is_obj (map_of kv ''prd_graph'') \<and>
          (case map_of kv ''prd_markdown'' of Some (JStr m) \<Rightarrow> py_strip m \<noteq> '''' | _ \<Rightarrow> False)
      | _ \<Rightarrow> False)"

section \<open>Lemmas\<close>

lemma key_neq_lock: "key \<noteq> key @ '':lock''"
  by simp

lemma cache_round_trip:
  assumes "kv_laws a" "x_loads cd (x_dumps cd e) = Some e" "x_dumps cd e \<noteq> ''''"
    "now \<le> t" "t < now + extract_ttl"
  shows "get_cached_extract a cd True False key t (set_cached_extract a cd True False key e now s) = Some e"
  using assms kv_lawsD(1)[OF assms(1), of now t]
  by (simp add: get_cached_extract_def set_cached_extract_def)

lemma extract_lock_keeps_cache:
  assumes "kv_laws a" "now \<le> t"
  shows "get_cached_extract a cd p f key t (snd (try_acquire_extract_lock a p' f' key now s))
    = get_cached_extract a cd p f key t s"
  using kv_lawsD(3)[OF assms, of key]
  by (simp add: get_cached_extract_def try_acquire_extract_lock_def)

lemma extract_lock_single:
  assumes "kv_laws a" "fst (try_acquire_extract_lock a True False key t0 s)" "t0 \<le> t" "t < t0 + extract_lock_ttl"
  shows "\<not> fst (try_acquire_extract_lock a True False key t (snd (try_acquire_extract_lock a True False key t0 s)))"
proof -
  let ?s = "snd (kv_set_nx a (key @ '':lock'') ''1'' extract_lock_ttl t0 s)"
  have "kv_get a (key @ '':lock'') t0 s = None"
    using assms(2) kv_lawsD(2)[OF assms(1)] by (simp add: try_acquire_extract_lock_def)
  then have "kv_get a (key @ '':lock'') t ?s = Some ''1''"
    using kv_lawsD(3)[OF assms(1,3), of "key @ '':lock''"] assms(4) by simp
  then show ?thesis using kv_lawsD(2)[OF assms(1), of "key @ '':lock''"] by (simp add: try_acquire_extract_lock_def)
qed

lemma extract_poll_ends:
  assumes "\<And>j. clock j + 1 \<le> clock (Suc j)" "deadline \<le> clock k + int n"
  shows "extract_poll (Suc n) a cd fails clock others key deadline k s \<noteq> None"
  using assms(2)
proof (induction n arbitrary: k s)
  case (Suc n)
  then have "deadline \<le> clock (Suc k) + int n" using assms(1)[of k] by auto
  then show ?case using Suc.IH[of "Suc k"] by (auto split: option.split)
qed simp

end
