(* ===== verification/Jobs.thy ===== *)
theory Jobs
  imports QueueClient Gemini ExtractCache MasterLock
begin

text \<open>
  src/app/queue/jobs.py: the jobs a worker runs. A job is a state transformer with
  exceptions over the worker's world: the queue state (Redis sorted sets, arq, the
  graph), the Redis strings, the job's token-counting client and the rest, which
  only the pipelines touch. The pipelines, app.core.quota and query_repository are
  not in the repository and are fields of the environment. Every job here is what
  its function does around the pipeline: context, lock, result, finally clause.
\<close>

section \<open>Exceptions\<close>

text \<open>GeminiError is a subclass of RuntimeError (and JSON errors are ValueErrors);
  CancelledError alone is no Exception.\<close>

datatype exn = ValueErr string | RuntimeErr string | GeminiExn gemini_error | LockTimeoutExn
  | DesignCancelledExn string | DesignQuotaExn string | DesignPrecheckExn string
  | OtherExn string | CancelledExn

definition value_or_runtime :: "exn \<Rightarrow> bool" where
  "value_or_runtime e = (case e of ValueErr m \<Rightarrow> True | RuntimeErr m \<Rightarrow> True | GeminiExn g \<Rightarrow> True | _ \<Rightarrow> False)"

definition is_exception :: "exn \<Rightarrow> bool" where
  "is_exception e = (e \<noteq> CancelledExn)"

type_synonym ('w, 'a) act = "'w \<Rightarrow> (exn + 'a) \<times> 'w"

definition act_bind :: "('w, 'a) act \<Rightarrow> ('a \<Rightarrow> ('w, 'b) act) \<Rightarrow> ('w, 'b) act" where
  "act_bind m f w = (case m w of (Inl e, w') \<Rightarrow> (Inl e, w') | (Inr x, w') \<Rightarrow> f x w')"

definition act_ok :: "'a \<Rightarrow> ('w, 'a) act" where
  "act_ok x w = (Inr x, w)"

text \<open>An except clause for the exceptions that \<open>h\<close> maps to a handler.\<close>

definition act_catch :: "('w, 'a) act \<Rightarrow> (exn \<Rightarrow> ('w, 'a) act option) \<Rightarrow> ('w, 'a) act" where
  "act_catch m h w =
     (case m w of
        (Inr x, w') \<Rightarrow> (Inr x, w')
      | (Inl e, w') \<Rightarrow> (case h e of None \<Rightarrow> (Inl e, w') | Some f \<Rightarrow> f w'))"

definition act_finally :: "('w, 'a) act \<Rightarrow> ('w \<Rightarrow> 'w) \<Rightarrow> ('w, 'a) act" where
  "act_finally m fin w = (let (r, w') = m w in (r, fin w'))"

text \<open>\<open>except Exception\<close> around a step without a value: everything but a
  cancellation is swallowed.\<close>

definition best_effort :: "('w, unit) act \<Rightarrow> ('w, unit) act" where
  "best_effort m = act_catch m (\<lambda>e. if is_exception e then Some (act_ok ()) else None)"

section \<open>World and environment\<close>

record ('r, 'q, 'k, 'c, 'p) world =
  w_q :: "('r, 'q) qstate"
  w_kv :: 'k
  w_tracked :: "'c tracked option"
  w_rest :: 'p

record decision =
  d_mode :: string
  d_subscription :: string
  d_bucket :: string
  d_overflow_available :: bool
  d_main_current :: int
  d_main_limit :: int

record job_id_ctx =
  j_id :: string
  j_user :: "string option"
  j_team :: string

record ('r, 'q, 'k, 'c, 'p) jenv =
  e_q :: "('r, 'q) qenv"
  e_kv :: "'k kv_api"
  e_redis :: bool
  e_slot_release_fails :: bool
  e_project_release_fails :: bool
  e_stage_fails :: bool
  e_add_fails :: "nat \<Rightarrow> bool"
  e_fresh :: "exn option"
  e_decide :: "string \<Rightarrow> exn + decision"
  e_new_decision :: "string \<Rightarrow> string \<Rightarrow> string \<Rightarrow> decision"
  e_pool_for :: "decision \<Rightarrow> string"
  e_model_for :: "decision \<Rightarrow> string"
  e_lite_pool :: string
  e_clients :: "string \<Rightarrow> 'c option"
  e_scoped :: "string \<Rightarrow> string option \<Rightarrow> string"
  e_lock_fuel :: nat
  e_lock_fails :: "nat \<Rightarrow> nat \<Rightarrow> bool"
  e_clock :: "nat \<Rightarrow> instant"
  e_others :: "nat \<Rightarrow> ('r, 'q, 'k, 'c, 'p) world \<Rightarrow> ('r, 'q, 'k, 'c, 'p) world"
  e_unlock_fails :: "nat \<Rightarrow> bool"
  e_unlock_time :: instant
  e_sha :: "string \<Rightarrow> string"
  e_sha1 :: "string \<Rightarrow> string"
  e_codec :: "json codec"
  e_cache_fails :: "nat \<Rightarrow> bool"

definition now_of :: "('r, 'q, 'k, 'c, 'p) jenv \<Rightarrow> instant" where
  "now_of v = q_now (e_q v)"

text \<open>The Redis strings seen as a part of the world.\<close>

definition kv_in_world :: "'k kv_api \<Rightarrow> ('r, 'q, 'k, 'c, 'p) world kv_api" where
  "kv_in_world a = \<lparr>
     kv_get = (\<lambda>k t w. kv_get a k t (w_kv w)),
     kv_set = (\<lambda>k v ttl now w. w\<lparr>w_kv := kv_set a k v ttl now (w_kv w)\<rparr>),
     kv_set_nx = (\<lambda>k v ttl now w. let (b, s) = kv_set_nx a k v ttl now (w_kv w) in (b, w\<lparr>w_kv := s\<rparr>)),
     kv_del = (\<lambda>k now w. w\<lparr>w_kv := kv_del a k now (w_kv w)\<rparr>)\<rparr>"

lemma kv_in_world_laws: "kv_laws a \<Longrightarrow> kv_laws (kv_in_world a)"
  unfolding kv_laws_def kv_in_world_def kv_api.simps by (simp add: split_beta Let_def)

section \<open>The frame of a job\<close>

definition lite_decision :: "('r, 'q, 'k, 'c, 'p) jenv \<Rightarrow> string \<Rightarrow> decision" where
  "lite_decision v sub = e_new_decision v ''overflow'' sub ''lite''"

definition pick_client :: "('r, 'q, 'k, 'c, 'p) jenv \<Rightarrow> decision \<Rightarrow> 'c option" where
  "pick_client v d =
     (let pool = e_pool_for v d;
          first = (case e_clients v pool of
                     Some c \<Rightarrow> Some c
                   | None \<Rightarrow> if pool = e_lite_pool v
                             then (case e_clients v ''gemini_pro'' of
                                     Some c \<Rightarrow> Some c | None \<Rightarrow> e_clients v ''gemini_free'')
                             else None)
      in case first of Some c \<Rightarrow> Some c | None \<Rightarrow> e_clients v ''gemini'')"

definition resolve_decision ::
  "('r, 'q, 'k, 'c, 'p) jenv \<Rightarrow> string option \<Rightarrow> exn + decision" where
  "resolve_decision v user =
     (case or_none user of
        Some e \<Rightarrow> e_decide v e
      | None \<Rightarrow> Inr (e_new_decision v ''main'' SUBSCRIPTION_FREE ''main''))"

text \<open>_tracked_ctx: the quota decision and the counting client. It can raise.\<close>

definition tracked_ctx ::
  "('r, 'q, 'k, 'c, 'p) jenv \<Rightarrow> string option \<Rightarrow> (('r, 'q, 'k, 'c, 'p) world, decision) act" where
  "tracked_ctx v user w =
     (case e_fresh v of
        Some e \<Rightarrow> (Inl e, w)
      | None \<Rightarrow>
         (case resolve_decision v user of
            Inl e \<Rightarrow> (Inl e, w)
          | Inr d \<Rightarrow>
             (case pick_client v d of
                None \<Rightarrow> (Inl (RuntimeErr ''arq_ctx has no GeminiClient''), w)
              | Some inner \<Rightarrow>
                 (let lite_model = e_model_for v (lite_decision v (d_subscription d));
                      armed = (d_mode d = ''main'' \<and> d_overflow_available d)
                  in (Inr d, w\<lparr>w_tracked := Some (new_tracked inner new_accumulator
                        (if armed then e_clients v (e_lite_pool v) else None)
                        (d_main_current d) (d_main_limit d)
                        (if d_mode d = ''overflow'' then Some lite_model else None)
                        (if armed then Some lite_model else None))\<rparr>)))))"

definition bucket_of :: "string \<Rightarrow> bucket" where
  "bucket_of s = (if s = ''lite'' then BucketLite else BucketMain)"

text \<open>_persist_token_usage; \<open>e_add_fails n\<close> makes the n-th add_tokens call raise, which is
  swallowed and skips what follows.\<close>

definition persist_token_usage ::
  "('r, 'q, 'k, 'c, 'p) jenv \<Rightarrow> string option \<Rightarrow> accumulator \<Rightarrow> string \<Rightarrow> graph \<Rightarrow> graph" where
  "persist_token_usage v user acc b g =
     (let total = t_total (a_total acc);
          add = (\<lambda>n e delta bk h. if e_add_fails v n then h
                    else snd (add_tokens (q_plus_month (e_q v)) (now_of v) e delta bk h))
      in if total \<le> 0 then g
         else case or_none user of
           None \<Rightarrow> g
         | Some e \<Rightarrow>
            (case a_main_bucket acc of
               Some split \<Rightarrow>
                 if 0 \<le> split \<and> split < total
                 then (let g1 = (if split > 0 then add 0 e split BucketMain g else g)
                       in if split > 0 \<and> e_add_fails v 0 then g1 else add 1 e (total - split) BucketLite g1)
                 else add 0 e total (bucket_of b) g
             | None \<Rightarrow> add 0 e total (bucket_of b) g))"

text \<open>_release_concurrency_slot: the project marker only when a key is given.\<close>

definition release_concurrency_slot ::
  "('r, 'q, 'k, 'c, 'p) jenv \<Rightarrow> string option \<Rightarrow> string \<Rightarrow> string \<Rightarrow> 'r \<Rightarrow> 'r" where
  "release_concurrency_slot v user job pk s =
     (case or_none user of
        None \<Rightarrow> s
      | Some e \<Rightarrow>
         (let s1 = release_slot (q_zset (e_q v)) (e_redis v) (e_slot_release_fails v) e job s
          in if pk = '''' then s1
             else release_project (q_zset (e_q v)) (e_redis v) (e_project_release_fails v) pk job s1))"

text \<open>The finally clause of the jobs: tokens, then gates.\<close>

definition job_cleanup ::
  "('r, 'q, 'k, 'c, 'p) jenv \<Rightarrow> job_id_ctx \<Rightarrow> string \<Rightarrow> decision
   \<Rightarrow> ('r, 'q, 'k, 'c, 'p) world \<Rightarrow> ('r, 'q, 'k, 'c, 'p) world" where
  "job_cleanup v c pk d w =
     (let acc = (case w_tracked w of None \<Rightarrow> new_accumulator | Some t \<Rightarrow> g_acc t);
          q = w_q w
      in w\<lparr>w_q := q\<lparr>qs_graph := persist_token_usage v (j_user c) acc (d_bucket d) (qs_graph q),
                    qs_redis := release_concurrency_slot v (j_user c) (j_id c) pk (qs_redis q)\<rparr>\<rparr>)"

text \<open>\<open>_tracked_ctx\<close> is called before the try: when it raises, the finally clause does not run.\<close>

definition job_frame ::
  "('r, 'q, 'k, 'c, 'p) jenv \<Rightarrow> job_id_ctx \<Rightarrow> string \<Rightarrow> (('r, 'q, 'k, 'c, 'p) world, 'a) act
   \<Rightarrow> (('r, 'q, 'k, 'c, 'p) world, 'a) act" where
  "job_frame v c pk body = act_bind (tracked_ctx v (j_user c)) (\<lambda>d. act_finally body (job_cleanup v c pk d))"

definition project_key_of :: "('r, 'q, 'k, 'c, 'p) jenv \<Rightarrow> job_id_ctx \<Rightarrow> string \<Rightarrow> string" where
  "project_key_of v c project = e_scoped v project (or_none (Some (j_team c)))"

text \<open>The body under the project's master lock. Attempts are a second apart, so the fuel
  \<open>wait_timeout_default + 1\<close> is enough (MasterLock.master_lock_wait_ends).\<close>

definition with_master_lock ::
  "('r, 'q, 'k, 'c, 'p) jenv \<Rightarrow> job_id_ctx \<Rightarrow> string \<Rightarrow> (('r, 'q, 'k, 'c, 'p) world, 'a) act
   \<Rightarrow> (('r, 'q, 'k, 'c, 'p) world, 'a) act" where
  "with_master_lock v c project body w =
     (case master_write_lock (e_lock_fuel v) (kv_in_world (e_kv v)) (e_redis v) (e_lock_fails v)
             (e_clock v) (e_others v) None (project_key_of v c project) (j_id c) body
             (e_unlock_fails v) (e_unlock_time v) w of
        None \<Rightarrow> (Inl LockTimeoutExn, w)
      | Some (Inl t, w') \<Rightarrow> (Inl LockTimeoutExn, w')
      | Some (Inr r, w') \<Rightarrow> (r, w'))"

text \<open>_set_job_stage.\<close>

definition set_job_stage ::
  "('r, 'q, 'k, 'c, 'p) jenv \<Rightarrow> job_id_ctx \<Rightarrow> string \<Rightarrow> ('r, 'q, 'k, 'c, 'p) world
   \<Rightarrow> ('r, 'q, 'k, 'c, 'p) world" where
  "set_job_stage v c stage w =
     (if \<not> e_redis v \<or> j_id c = '''' \<or> e_stage_fails v then w
      else w\<lparr>w_kv := kv_set (e_kv v) (''harness:job:'' @ j_id c @ '':stage'') stage 3600 (now_of v) (w_kv w)\<rparr>)"

section \<open>Detection of a degenerate master document\<close>

definition cleanup_size_threshold :: nat where "cleanup_size_threshold = 30000"

text \<open>\<open>\[Epic-\d+\]\<close> at the front of a text.\<close>

definition epic_at :: "(string \<Rightarrow> nat) \<Rightarrow> string \<Rightarrow> nat option" where
  "epic_at ud s =
     (if starts_with ''[Epic-'' s
      then (let r = drop 6 s; n = digits_len ud (length r) r
            in if n > 0 \<and> starts_with '']'' (drop n r) then Some (7 + n) else None)
      else None)"

text \<open>\<open>\*\*\s*label\<close> at the front of a text.\<close>

definition label_at :: "string \<Rightarrow> string \<Rightarrow> nat option" where
  "label_at lab s =
     (if starts_with ''**'' s
      then (let r = py_lstrip (drop 2 s)
            in if starts_with lab r then Some (length s - length r + length lab) else None)
      else None)"

definition overview_labels :: "string list" where
  "overview_labels = [''Product Vision'',
     bytes [237, 134, 181, 237, 149, 169, 32, 235, 185, 132, 236, 160, 132], ''Success Metrics'']"

datatype cleanup_reason = TooLarge | EpicDuplicates | OverviewDuplicate string

definition should_trigger_cleanup :: "(string \<Rightarrow> nat) \<Rightarrow> string \<Rightarrow> cleanup_reason option" where
  "should_trigger_cleanup ud md =
     (if md = '''' then None
      else if length md \<ge> cleanup_size_threshold then Some TooLarge
      else if \<not> distinct (find_all (epic_at ud) md) then Some EpicDuplicates
      else map_option OverviewDuplicate
             (find (\<lambda>lab. length (find_all (label_at lab) md) \<ge> 2) overview_labels))"

definition deterministic_cleanup_task_id ::
  "('r, 'q, 'k, 'c, 'p) jenv \<Rightarrow> string \<Rightarrow> string \<Rightarrow> string" where
  "deterministic_cleanup_task_id v project md = ''auto_cleanup_'' @ project @ ''_'' @ take 12 (e_sha1 v md)"

text \<open>Enqueueing from within the worker: the queue client works on the same queue state. A
  refusal is an exception.\<close>

definition in_queue ::
  "(('r, 'q) qstate \<Rightarrow> (queue_error + string) \<times> ('r, 'q) qstate) \<Rightarrow> (('r, 'q, 'k, 'c, 'p) world, string) act" where
  "in_queue f w =
     (let (r, q) = f (w_q w)
      in (case r of Inl e \<Rightarrow> Inl (OtherExn ''enqueue'') | Inr t \<Rightarrow> Inr t, w\<lparr>w_q := q\<rparr>))"

definition maybe_lazy_trigger_cleanup ::
  "('r, 'q, 'k, 'c, 'p) jenv \<Rightarrow> (string \<Rightarrow> nat) \<Rightarrow> string \<Rightarrow> string \<Rightarrow> string option \<Rightarrow> string
   \<Rightarrow> (('r, 'q, 'k, 'c, 'p) world, string option) act" where
  "maybe_lazy_trigger_cleanup v ud project md user team w =
     (if md = '''' \<or> should_trigger_cleanup ud md = None then (Inr None, w)
      else let task = deterministic_cleanup_task_id v project md;
               (r, w') = in_queue (enqueue_cleanup_master_prd (e_q v) task project False user team) w
           in case r of Inr t \<Rightarrow> (Inr (Some task), w') | Inl e \<Rightarrow> (Inr None, w'))"

text \<open>\<open>get_master\<close> is query_repository.get_master_prd: None, or the document's text or None.\<close>

definition maybe_trigger_auto_cleanup ::
  "('r, 'q, 'k, 'c, 'p) jenv \<Rightarrow> (string \<Rightarrow> nat)
   \<Rightarrow> (string \<Rightarrow> string \<Rightarrow> (('r, 'q, 'k, 'c, 'p) world, string option option) act)
   \<Rightarrow> string \<Rightarrow> string option \<Rightarrow> string \<Rightarrow> (('r, 'q, 'k, 'c, 'p) world, unit) act" where
  "maybe_trigger_auto_cleanup v ud get_master project user team =
     best_effort (act_bind (get_master project team) (\<lambda>m.
       case m of
         None \<Rightarrow> act_ok ()
       | Some txt \<Rightarrow>
          (let md = coalesce txt ''''
           in if should_trigger_cleanup ud md = None then act_ok ()
              else act_bind (in_queue (enqueue_cleanup_master_prd (e_q v)
                     (deterministic_cleanup_task_id v project md) project False user team))
                   (\<lambda>_. act_ok ()))))"

section \<open>The extraction step\<close>

text \<open>A node of the SPACK graph that describes an API, and what the jobs pass on of the nodes with
  an id (ApiSpecInput; error cases and authorisation go along unchanged and are left out).\<close>

record api_node =
  a_id :: "string option"
  a_name :: "string option"
  a_method :: "string option"
  a_endpoint :: "string option"
  a_description :: "string option"

definition api_spec_inputs :: "api_node list \<Rightarrow> (string \<times> string \<times> string \<times> string \<times> string) list" where
  "api_spec_inputs apis =
     map (\<lambda>a. (coalesce (a_id a) '''', coalesce (a_name a) '''', coalesce (a_method a) '''',
              coalesce (a_endpoint a) '''', coalesce (a_description a) ''''))
       (filter (\<lambda>a. or_none (a_id a) \<noteq> None) apis)"

record ('w, 'd) pipes =
  p_cps_extract :: "job_id_ctx \<Rightarrow> kwargs \<Rightarrow> ('w, json) act"
  p_prd_extract :: "job_id_ctx \<Rightarrow> kwargs \<Rightarrow> json \<Rightarrow> ('w, json) act"
  p_merge :: "job_id_ctx \<Rightarrow> kwargs \<Rightarrow> kwargs \<Rightarrow> json \<Rightarrow> json
              \<Rightarrow> 'w \<Rightarrow> (exn + 'd) \<times> (exn + ('w, 'd) act) \<times> 'w"
  p_run :: "string \<Rightarrow> job_id_ctx \<Rightarrow> kwargs \<Rightarrow> ('w, 'd) act"
  p_get_master :: "string \<Rightarrow> string \<Rightarrow> ('w, string option option) act"
  p_parse_cps :: "json \<Rightarrow> json"
  p_get_spack :: "string \<Rightarrow> string \<Rightarrow> ('w, api_node list) act"
  p_autofill :: "job_id_ctx \<Rightarrow> string \<Rightarrow> (string \<times> string \<times> string \<times> string \<times> string) list \<Rightarrow> ('w, 'd) act"
  p_link_stories :: "job_id_ctx \<Rightarrow> string \<Rightarrow> api_node list \<Rightarrow> ('w, 'd \<Rightarrow> 'd) act"

definition cps_input where
  "cps_input project version date content prev team =
     [(''project_name'', PyStr project), (''version'', PyStr version), (''date'', PyStr date),
      (''meeting_content'', PyStr content), (''previous_cps_id'', opt_arg prev), (''team_id'', PyStr team)]"

definition prd_input where
  "prd_input project version prev team content =
     [(''project_name'', PyStr project), (''version'', PyStr version),
      (''previous_prd_id'', opt_arg prev), (''team_id'', PyStr team), (''meeting_content'', PyStr content)]"

record meeting =
  m_project :: string
  m_version :: string
  m_date :: string
  m_content :: string
  m_prev_cps :: "string option"
  m_prev_prd :: "string option"

text \<open>_compute_extract; a missing key of the second step's result is a KeyError.\<close>

definition compute_extract ::
  "('w, 'd) pipes \<Rightarrow> job_id_ctx \<Rightarrow> meeting \<Rightarrow> ('w, json) act" where
  "compute_extract p c m =
     act_bind (p_cps_extract p c (cps_input (m_project m) (m_version m) '''' (m_content m) (m_prev_cps m) (j_team c)))
       (\<lambda>cps. act_bind (p_prd_extract p c (prd_input (m_project m) (m_version m) (m_prev_prd m) (j_team c) (m_content m)) cps)
         (\<lambda>prd w. case (json_get prd ''prd_markdown'', json_get prd ''prd_graph'') of
             (Some md, Some g) \<Rightarrow>
               (Inr (JObj [(''cps_graph'', cps), (''prd_markdown'', md), (''prd_graph'', g)]), w)
           | _ \<Rightarrow> (Inl (OtherExn ''KeyError''), w)))"

definition extract_key_of :: "('r, 'q, 'k, 'c, 'p) jenv \<Rightarrow> meeting \<Rightarrow> string" where
  "extract_key_of v m = extract_cache_key (e_sha v) (m_project m) (m_version m) (m_content m)"

definition cached_extract ::
  "('r, 'q, 'k, 'c, 'p) jenv \<Rightarrow> nat \<Rightarrow> string \<Rightarrow> ('r, 'q, 'k, 'c, 'p) world \<Rightarrow> json option" where
  "cached_extract v n key w =
     get_cached_extract (e_kv v) (e_codec v) (e_redis v) (e_cache_fails v n) key (now_of v) (w_kv w)"

definition store_extract ::
  "('r, 'q, 'k, 'c, 'p) jenv \<Rightarrow> string \<Rightarrow> json \<Rightarrow> ('r, 'q, 'k, 'c, 'p) world \<Rightarrow> ('r, 'q, 'k, 'c, 'p) world" where
  "store_extract v key e w =
     w\<lparr>w_kv := set_cached_extract (e_kv v) (e_codec v) (e_redis v) (e_cache_fails v 2) key e (now_of v) (w_kv w)\<rparr>"

definition extract_lock ::
  "('r, 'q, 'k, 'c, 'p) jenv \<Rightarrow> string \<Rightarrow> ('r, 'q, 'k, 'c, 'p) world \<Rightarrow> bool \<times> ('r, 'q, 'k, 'c, 'p) world" where
  "extract_lock v key w =
     (let (b, s) = try_acquire_extract_lock (e_kv v) (e_redis v) (e_cache_fails v 1) key (now_of v) (w_kv w)
      in (b, w\<lparr>w_kv := s\<rparr>))"

text \<open>_is_over_token_quota: an exception of the quota module means "not over".\<close>

definition is_over_token_quota :: "('r, 'q, 'k, 'c, 'p) jenv \<Rightarrow> string option \<Rightarrow> bool" where
  "is_over_token_quota v user =
     (case or_none user of
        None \<Rightarrow> False
      | Some e \<Rightarrow> (case e_decide v e of Inl x \<Rightarrow> False | Inr d \<Rightarrow> d_mode d = ''blocked''))"

text \<open>_get_or_compute_extract. The wait for another worker runs on the lifted store, so the others
  may change the whole world.\<close>

definition get_or_compute_extract ::
  "('r, 'q, 'k, 'c, 'p) jenv \<Rightarrow> (('r, 'q, 'k, 'c, 'p) world, 'd) pipes \<Rightarrow> job_id_ctx \<Rightarrow> meeting
   \<Rightarrow> (('r, 'q, 'k, 'c, 'p) world, json) act" where
  "get_or_compute_extract v p c m w =
     (let key = extract_key_of v m;
          compute = (\<lambda>w'. case compute_extract p c m w' of
                        (Inl e, w2) \<Rightarrow> (Inl e, w2)
                      | (Inr x, w2) \<Rightarrow> (Inr x, store_extract v key x w2));
          cached = cached_extract v 0 key w
      in if is_valid_extract cached then (Inr (the cached), w)
         else let (b, w1) = extract_lock v key w
              in if b then compute w1
                 else case wait_for_cached_extract (e_lock_fuel v) (kv_in_world (e_kv v)) (e_codec v)
                             (e_redis v) (\<lambda>k. e_cache_fails v (3 + k)) (e_clock v) (e_others v) key w1 of
                   Some (waited, w2) \<Rightarrow>
                     if is_valid_extract waited then (Inr (the waited), w2) else compute w2
                 | None \<Rightarrow> compute w1)"

definition prd_extract_from_cache :: "('w, 'd) pipes \<Rightarrow> json \<Rightarrow> json" where
  "prd_extract_from_cache p e =
     (let g = (case json_get e ''cps_graph'' of Some x \<Rightarrow> x | None \<Rightarrow> JObj [])
      in JObj [(''parsed'', p_parse_cps p g),
               (''prd_markdown'', (case json_get e ''prd_markdown'' of Some x \<Rightarrow> x | None \<Rightarrow> JStr '''')),
               (''prd_graph'', (case json_get e ''prd_graph'' of Some x \<Rightarrow> x | None \<Rightarrow> JObj []))])"

datatype prefetch_result = AlreadyCached | SkippedQuota | Locked | Cached | PrefetchError exn

definition prefetch_extract_job ::
  "('r, 'q, 'k, 'c, 'p) jenv \<Rightarrow> (('r, 'q, 'k, 'c, 'p) world, 'd) pipes \<Rightarrow> job_id_ctx \<Rightarrow> meeting
   \<Rightarrow> (('r, 'q, 'k, 'c, 'p) world, prefetch_result) act" where
  "prefetch_extract_job v p c m w =
     (let key = extract_key_of v m
      in if is_valid_extract (cached_extract v 0 key w) then (Inr AlreadyCached, w)
         else if is_over_token_quota v (j_user c) then (Inr SkippedQuota, w)
         else let (b, w1) = extract_lock v key w
              in if \<not> b then (Inr Locked, w1)
                 else job_frame v c ''''
                   (act_catch
                      (act_bind (compute_extract p c m) (\<lambda>x w2. (Inr Cached, store_extract v key x w2)))
                      (\<lambda>e. if is_exception e then Some (act_ok (PrefetchError e)) else None)) w1)"

text \<open>The dictionary of the next meeting of a batch, with string values.\<close>

definition nm_get :: "(string \<times> string) list \<Rightarrow> string \<Rightarrow> string \<Rightarrow> string option" where
  "nm_get nm k1 k2 = (case or_none (map_of nm k1) of Some s \<Rightarrow> Some s | None \<Rightarrow> map_of nm k2)"

definition enqueue_next_prefetch ::
  "('r, 'q, 'k, 'c, 'p) jenv \<Rightarrow> job_id_ctx \<Rightarrow> string \<Rightarrow> (string \<times> string) list
   \<Rightarrow> (('r, 'q, 'k, 'c, 'p) world, unit) act" where
  "enqueue_next_prefetch v c project nm =
     (case (or_none (nm_get nm ''content'' ''meeting_content''), or_none (map_of nm ''version'')) of
        (Some content, Some ver) \<Rightarrow>
          best_effort (act_bind (in_queue (enqueue_prefetch_extract (e_q v)
               (''prefetch_'' @ project @ ''_'' @ ver @ ''_'' @
                  take 12 (e_sha1 v (project @ '':'' @ ver @ '':'' @ content)))
               project ver content (nm_get nm ''previous_cps_id'' ''previousCpsId'')
               (nm_get nm ''previous_prd_id'' ''previousPrdId'') (j_user c) (j_team c)))
             (\<lambda>_. act_ok ()))
      | _ \<Rightarrow> act_ok ())"

section \<open>The jobs\<close>

definition cps_pipeline_job where
  "cps_pipeline_job v p c m =
     job_frame v c (project_key_of v c (m_project m))
       (with_master_lock v c (m_project m)
          (p_run p ''run_cps_pipeline'' c
             (cps_input (m_project m) (m_version m) (m_date m) (m_content m) (m_prev_cps m) (j_team c))))"

text \<open>The merge part of post_meeting_pipeline_job under the lock. The CPS merge runs as a task
  while the PRD merge is computed; in every path the task is awaited before anything
  else happens, so \<open>p_merge\<close> is both together, in any interleaving: the outcome of the CPS
  merge, the outcome of the PRD computation (a commit function), the world after both.\<close>

definition post_meeting_merge ::
  "('r, 'q, 'k, 'c, 'p) jenv \<Rightarrow> (('r, 'q, 'k, 'c, 'p) world, 'd) pipes \<Rightarrow> job_id_ctx \<Rightarrow> meeting \<Rightarrow> json
   \<Rightarrow> (('r, 'q, 'k, 'c, 'p) world, 'd \<times> (exn + 'd)) act" where
  "post_meeting_merge v p c m ex w =
     (let cpsg = (case json_get ex ''cps_graph'' of Some g \<Rightarrow> g | None \<Rightarrow> JNull);
          (cps, comp, w1) = p_merge p c
             (cps_input (m_project m) (m_version m) (m_date m) (m_content m) (m_prev_cps m) (j_team c))
             (prd_input (m_project m) (m_version m) (m_prev_prd m) (j_team c) (m_content m))
             cpsg (prd_extract_from_cache p ex) w
      in case comp of
           Inl e \<Rightarrow>
             if value_or_runtime e
             then (case cps of
                     Inl x \<Rightarrow> (Inl x, w1)
                   | Inr d \<Rightarrow> (Inr (d, Inl e), set_job_stage v c ''prd_running'' w1))
             else (Inl e, w1)
         | Inr commit \<Rightarrow>
             (case cps of
                Inl x \<Rightarrow> (Inl x, w1)
              | Inr d \<Rightarrow>
                 (case commit (set_job_stage v c ''prd_running'' w1) of
                    (Inr prd, w2) \<Rightarrow> (Inr (d, Inr prd), w2)
                  | (Inl e, w2) \<Rightarrow> if value_or_runtime e then (Inr (d, Inl e), w2) else (Inl e, w2))))"

text \<open>The result: the CPS part and the PRD part, which carries mode "error" and the exception for Inl.\<close>

definition post_meeting_pipeline_job ::
  "('r, 'q, 'k, 'c, 'p) jenv \<Rightarrow> (('r, 'q, 'k, 'c, 'p) world, 'd) pipes \<Rightarrow> (string \<Rightarrow> nat) \<Rightarrow> job_id_ctx
   \<Rightarrow> meeting \<Rightarrow> (string \<times> string) list option
   \<Rightarrow> (('r, 'q, 'k, 'c, 'p) world, 'd \<times> (exn + 'd)) act" where
  "post_meeting_pipeline_job v p ud c m next_meeting =
     job_frame v c (project_key_of v c (m_project m))
       (act_bind (get_or_compute_extract v p c m) (\<lambda>ex.
        act_bind (case next_meeting of
                    None \<Rightarrow> act_ok ()
                  | Some nm \<Rightarrow> if nm = [] then act_ok () else enqueue_next_prefetch v c (m_project m) nm) (\<lambda>_.
        act_bind (\<lambda>w. (Inr (), set_job_stage v c ''cps_running'' w)) (\<lambda>_.
        act_bind (with_master_lock v c (m_project m) (post_meeting_merge v p c m ex)) (\<lambda>r.
        act_bind (\<lambda>w. (Inr (), set_job_stage v c ''done'' w)) (\<lambda>_.
        act_bind (maybe_trigger_auto_cleanup v ud (p_get_master p) (m_project m) (j_user c) (j_team c)) (\<lambda>_.
        act_ok r)))))))"

definition prd_pipeline_job where
  "prd_pipeline_job v p c project version cps_graph prev =
     job_frame v c (project_key_of v c project)
       (with_master_lock v c project
          (p_run p ''run_prd_pipeline'' c
             [(''project_name'', PyStr project), (''version'', PyStr version), (''cps_graph'', PyObj cps_graph),
              (''previous_prd_id'', opt_arg prev), (''team_id'', PyStr (j_team c))]))"

definition recommend_skills_job where
  "recommend_skills_job v p c project skill_catalog allowed_categories =
     job_frame v c ''''
       (p_run p ''run_skill_recommend_pipeline'' c
          [(''project_name'', PyStr project), (''skill_catalog'', PyObj skill_catalog),
           (''allowed_categories'', PyObj allowed_categories)])"

definition run_lint_job where
  "run_lint_job v p c project github_url user_token =
     job_frame v c ''''
       (p_run p ''run_lint_pipeline'' c
          [(''project_name'', PyStr project), (''github_url'', PyStr github_url),
           (''team_id'', PyStr (j_team c)), (''user_token'', opt_arg user_token)])"

text \<open>\<open>_tracked_ctx\<close> is called without a team here, and in the jobs for cleanup and create_md.\<close>

definition generate_fix_spec_job where
  "generate_fix_spec_job v p c project github_url lint_result =
     job_frame v c ''''
       (p_run p ''run_fix_spec_pipeline'' (c\<lparr>j_team := ''''\<rparr>)
          [(''project_name'', PyStr project), (''github_url'', PyStr github_url),
           (''lint_result'', PyObj lint_result)])"

text \<open>Lineage uses no language model: no context, no finally clause.\<close>

definition analyze_lineage_job where
  "analyze_lineage_job v p c project user_token =
     p_run p ''run_lineage_pipeline'' (c\<lparr>j_user := None, j_team := ''''\<rparr>)
       [(''project_name'', PyStr project), (''team_id'', PyStr (j_team c)), (''user_token'', opt_arg user_token)]"

text \<open>Read, generation and the linking that follows are under the lock; the linking gives the update
  of the result's meta data.\<close>

definition autofill_api_specs_job where
  "autofill_api_specs_job v p c project =
     job_frame v c (project_key_of v c project)
       (act_bind (with_master_lock v c project
          (act_bind (p_get_spack p project (j_team c)) (\<lambda>apis.
           act_bind (p_autofill p c project (api_spec_inputs apis)) (\<lambda>r.
           act_bind (\<lambda>w. (Inr (), set_job_stage v c ''autofill:linking'' w)) (\<lambda>_.
           act_bind (p_link_stories p c project apis) (\<lambda>upd. act_ok (upd r)))))))
          (\<lambda>r w. (Inr r, set_job_stage v c ''done'' w)))"

definition delete_meeting_job where
  "delete_meeting_job v p c project version =
     job_frame v c (project_key_of v c project)
       (with_master_lock v c project
          (p_run p ''run_delete_meeting_pipeline'' c
             [(''project_name'', PyStr project), (''version'', PyStr version), (''team_id'', PyStr (j_team c))]))"

definition github_onboard_job where
  "github_onboard_job v p c project github_url user_token =
     job_frame v c ''''
       (p_run p ''run_github_onboard_pipeline'' c
          [(''project_name'', PyStr project), (''github_url'', PyStr github_url),
           (''user_email'', PyStr (coalesce (j_user c) '''')), (''team_id'', PyStr (j_team c)),
           (''user_token'', opt_arg (or_none user_token))])"

definition cleanup_master_prd_job where
  "cleanup_master_prd_job v p c project dry_run =
     job_frame v c ''''
       (with_master_lock v c project
          (p_run p ''run_cleanup_master_prd_pipeline'' (c\<lparr>j_team := ''''\<rparr>)
             [(''project_name'', PyStr project), (''user_email'', PyStr (coalesce (j_user c) '''')),
              (''dry_run'', PyBool dry_run), (''team_id'', PyStr (j_team c))]))"

definition create_md_job where
  "create_md_job v p c project =
     job_frame v c ''''
       (p_run p ''run_create_md_pipeline'' (c\<lparr>j_team := ''''\<rparr>) [(''project_name'', PyStr project)])"

section \<open>The design job\<close>

text \<open>The hook that starts the filling of API specifications once the first stage is there:
  the APIs with an id, when the setting is on. The design pipeline gives the list it
  calls the hook with (None: not called).\<close>

definition autofill_hook ::
  "bool \<Rightarrow> api_node list option \<Rightarrow> (string \<times> string \<times> string \<times> string \<times> string) list option" where
  "autofill_hook enabled apis =
     (case apis of
        None \<Rightarrow> None
      | Some l \<Rightarrow> if \<not> enabled \<or> api_spec_inputs l = [] then None else Some (api_spec_inputs l))"

text \<open>How the background task ends within the budget. A user over the quota gets no
  generation (GenSkipped).\<close>

datatype gen_outcome = GenTimeout | GenRaised exn | GenSkipped | GenDone string

definition finish_parallel_autofill ::
  "(string \<Rightarrow> ('w, 'm) act) \<Rightarrow> gen_outcome option \<Rightarrow> ('w, 'm option) act" where
  "finish_parallel_autofill save started w =
     (case started of
        None \<Rightarrow> (Inr None, w)
      | Some GenTimeout \<Rightarrow> (Inr None, w)
      | Some (GenRaised e) \<Rightarrow> if is_exception e then (Inr None, w) else (Inl e, w)
      | Some GenSkipped \<Rightarrow> (Inr None, w)
      | Some (GenDone fills) \<Rightarrow>
         (case save fills w of
            (Inr meta, w') \<Rightarrow> (Inr (Some meta), w')
          | (Inl e, w') \<Rightarrow> if is_exception e then (Inr None, w') else (Inl e, w')))"

record ('w, 'd, 'm) design_pipes =
  dp_run :: "job_id_ctx \<Rightarrow> kwargs \<Rightarrow> bool \<Rightarrow> 'w \<Rightarrow> (exn + 'd) \<times> api_node list option \<times> 'w"
  dp_enabled :: bool
  dp_generate :: "(string \<times> string \<times> string \<times> string \<times> string) list \<Rightarrow> gen_outcome"
  dp_save :: "string \<Rightarrow> ('w, 'm) act"

datatype ('d, 'm) design_result = DesignDone 'd "'m option" | DesignQuotaExceeded | DesignCancelled
  | DesignPrecheck string | DesignQuotaError | DesignAuthError | DesignError

definition design_body ::
  "('w, 'd, 'm) design_pipes \<Rightarrow> job_id_ctx \<Rightarrow> string \<Rightarrow> bool \<Rightarrow> ('w, ('d, 'm) design_result) act" where
  "design_body dp c project over w =
     (let (r, apis, w1) = dp_run dp c [(''project_name'', PyStr project)] over w
      in case r of
           Inl e \<Rightarrow> (Inl e, w1)
         | Inr d \<Rightarrow>
            (let started = map_option (\<lambda>i. if over then GenSkipped else dp_generate dp i)
                             (autofill_hook (dp_enabled dp) apis)
             in act_bind (finish_parallel_autofill (dp_save dp) started)
                  (\<lambda>meta. act_ok (DesignDone d meta)) w1))"

definition design_handler :: "exn \<Rightarrow> ('w, ('d, 'm) design_result) act option" where
  "design_handler e =
     (case e of
        DesignCancelledExn s \<Rightarrow> Some (act_ok DesignCancelled)
      | DesignQuotaExn s \<Rightarrow> Some (act_ok DesignQuotaExceeded)
      | DesignPrecheckExn s \<Rightarrow> Some (act_ok (DesignPrecheck s))
      | LockTimeoutExn \<Rightarrow> None
      | GeminiExn (GeminiError Quota m) \<Rightarrow> Some (act_ok DesignQuotaError)
      | GeminiExn (GeminiError Auth m) \<Rightarrow> Some (act_ok DesignAuthError)
      | _ \<Rightarrow> if is_exception e then Some (act_ok DesignError) else None)"

text \<open>The quota check comes before the context and the try: the job returns and no finally
  clause runs. \<open>over_later\<close> is what the same check says during the run. Deleting the
  cancel flag in the finally clause is part of the cleanup.\<close>

definition design_pipeline_job ::
  "('r, 'q, 'k, 'c, 'p) jenv \<Rightarrow> (('r, 'q, 'k, 'c, 'p) world, 'd, 'm) design_pipes \<Rightarrow> job_id_ctx \<Rightarrow> string
   \<Rightarrow> bool \<Rightarrow> (('r, 'q, 'k, 'c, 'p) world, ('d, 'm) design_result) act" where
  "design_pipeline_job v dp c project over_later =
     (if is_over_token_quota v (j_user c) then act_ok DesignQuotaExceeded
      else act_bind (tracked_ctx v (j_user c)) (\<lambda>d.
        act_finally
          (act_catch (with_master_lock v c project (design_body dp c project over_later)) design_handler)
          (\<lambda>w. job_cleanup v c (project_key_of v c project) d
             (if e_redis v \<and> \<not> e_stage_fails v
              then w\<lparr>w_kv := kv_del (e_kv v) (''job_cancel:'' @ j_id c) (now_of v) (w_kv w)\<rparr> else w))))"

section \<open>The frame\<close>

lemma job_frame_run:
  assumes "tracked_ctx v (j_user c) w = (Inr d, w1)"
  shows "job_frame v c pk body w = (fst (body w1), job_cleanup v c pk d (snd (body w1)))"
  using assms by (simp add: job_frame_def act_bind_def act_finally_def split_beta Let_def)

lemma job_frame_no_ctx:
  assumes "tracked_ctx v (j_user c) w = (Inl e, w1)"
  shows "job_frame v c pk body w = (Inl e, w)"
  using assms
  by (auto simp: job_frame_def act_bind_def tracked_ctx_def Let_def split: option.splits sum.splits if_splits)

lemma tracked_ctx_world:
  "tracked_ctx v user w = (Inr d, w1) \<Longrightarrow> w_q w1 = w_q w \<and> w_kv w1 = w_kv w"
  by (auto simp: tracked_ctx_def Let_def split: option.splits sum.splits if_splits)

definition gates_free :: "'r zset_api \<Rightarrow> string \<Rightarrow> string \<Rightarrow> string \<Rightarrow> 'r \<Rightarrow> bool" where
  "gates_free a e pk job s \<longleftrightarrow>
     z_score a (slot_key e) job s = None \<and> z_score a (project_inflight_key pk) job s = None"

definition release_works :: "('r, 'q, 'k, 'c, 'p) jenv \<Rightarrow> bool" where
  "release_works v \<longleftrightarrow> zset_laws (q_zset (e_q v)) \<and> e_redis v \<and> \<not> e_slot_release_fails v \<and> \<not> e_project_release_fails v"

lemma cleanup_frees:
  assumes "release_works v" "j_user c = Some e" "e \<noteq> ''''" "pk \<noteq> ''''"
  shows "gates_free (q_zset (e_q v)) e pk (j_id c) (qs_redis (w_q (job_cleanup v c pk d w)))"
proof -
  have u: "or_none (Some e) = Some e" using assms(3) by (cases e) simp_all
  have laws: "zset_laws (q_zset (e_q v))" using assms(1) by (simp add: release_works_def)
  show ?thesis
    using assms by (simp add: job_cleanup_def release_concurrency_slot_def u release_works_def gates_free_def
        release_slot_def release_project_def zset_lawsD(2)[OF laws] Let_def)
qed

lemma cleanup_frees_slot:
  assumes "release_works v" "j_user c = Some e" "e \<noteq> ''''"
  shows "z_score (q_zset (e_q v)) (slot_key e) (j_id c) (qs_redis (w_q (job_cleanup v c '''' d w))) = None"
proof -
  have u: "or_none (Some e) = Some e" using assms(3) by (cases e) simp_all
  have laws: "zset_laws (q_zset (e_q v))" using assms(1) by (simp add: release_works_def)
  show ?thesis
    using assms by (simp add: job_cleanup_def release_concurrency_slot_def u release_works_def
        release_slot_def zset_lawsD(2)[OF laws] Let_def)
qed

lemma frame_frees:
  assumes "release_works v" "j_user c = Some e" "e \<noteq> ''''" "pk \<noteq> ''''"
    "tracked_ctx v (Some e) w = (Inr d, w1)"
  shows "gates_free (q_zset (e_q v)) e pk (j_id c) (qs_redis (w_q (snd (job_frame v c pk body w))))"
proof -
  have "tracked_ctx v (j_user c) w = (Inr d, w1)" using assms(2,5) by simp
  then show ?thesis by (simp only: job_frame_run snd_conv cleanup_frees[OF assms(1-4)])
qed

text \<open>C12: Gates are given back. Whenever the context of a job can be built, the user's account slot
  and the project's marker of the job are free when the job is over, however the pipeline, the lock
  or the code around it ended: for every kind of job that takes the marker.\<close>

theorem jobs_release_gates:
  assumes "release_works v" "j_user c = Some e" "e \<noteq> ''''"
    and "project_key_of v c (m_project m) = pk" "pk \<noteq> ''''"
    and "tracked_ctx v (Some e) w = (Inr d, w1)" "\<not> is_over_token_quota v (Some e)"
  shows "let free = (\<lambda>w'. gates_free (q_zset (e_q v)) e pk (j_id c) (qs_redis (w_q w')))
    in free (snd (cps_pipeline_job v p c m w)) \<and>
       free (snd (post_meeting_pipeline_job v p ud c m nxt w)) \<and>
       free (snd (prd_pipeline_job v p c (m_project m) ver g prev w)) \<and>
       free (snd (autofill_api_specs_job v p c (m_project m) w)) \<and>
       free (snd (delete_meeting_job v p c (m_project m) ver w)) \<and>
       free (snd (design_pipeline_job v dp c (m_project m) over w))"
  using assms(2,4,6,7)
  by (simp add: frame_frees[OF assms(1-3,5,6)] cleanup_frees[OF assms(1-3,5)] cps_pipeline_job_def post_meeting_pipeline_job_def prd_pipeline_job_def
      autofill_api_specs_job_def delete_meeting_job_def design_pipeline_job_def act_bind_def
      act_finally_def split_beta Let_def)

section \<open>A demonstration environment\<close>

definition demo_decision :: decision where
  "demo_decision = \<lparr>d_mode = ''main'', d_subscription = ''free'', d_bucket = ''main'',
     d_overflow_available = False, d_main_current = 0, d_main_limit = 0\<rparr>"

definition jenv_demo ::
  "(((string \<times> string) \<times> int) list, (string \<times> string) list, (string \<times> string \<times> instant) list, nat, unit) jenv" where
  "jenv_demo = \<lparr>e_q = qenv_demo, e_kv = ref_kv, e_redis = True, e_slot_release_fails = False,
     e_project_release_fails = False, e_stage_fails = False, e_add_fails = (\<lambda>_. False), e_fresh = None,
     e_decide = (\<lambda>e. Inr demo_decision), e_new_decision = (\<lambda>m s b. demo_decision\<lparr>d_mode := m\<rparr>),
     e_pool_for = (\<lambda>d. ''gemini_free''), e_model_for = (\<lambda>d. ''lite''), e_lite_pool = ''gemini_lite'',
     e_clients = (\<lambda>k. Some 0), e_scoped = (\<lambda>p t. p), e_lock_fuel = 302, e_lock_fails = (\<lambda>_ _. False),
     e_clock = (\<lambda>k. 5000 + int k), e_others = (\<lambda>_ w. w), e_unlock_fails = (\<lambda>_. False), e_unlock_time = 5100,
     e_sha = (\<lambda>s. s), e_sha1 = (\<lambda>s. s), e_codec = \<lparr>x_dumps = (\<lambda>e. ''j''), x_loads = (\<lambda>s. None)\<rparr>,
     e_cache_fails = (\<lambda>_. False)\<rparr>"

definition world_demo ::
  "(((string \<times> string) \<times> int) list, (string \<times> string) list, (string \<times> string \<times> instant) list, nat, unit) world" where
  "world_demo = \<lparr>w_q = qstate_demo, w_kv = [], w_tracked = None, w_rest = ()\<rparr>"

definition ctx_demo :: job_id_ctx where
  "ctx_demo = \<lparr>j_id = ''j1'', j_user = Some ''a@x'', j_team = ''''\<rparr>"

definition meeting_demo :: meeting where
  "meeting_demo = \<lparr>m_project = ''P'', m_version = ''v1'', m_date = '''', m_content = ''text'',
     m_prev_cps = None, m_prev_prd = None\<rparr>"

definition pipes_demo ::
  "((((string \<times> string) \<times> int) list, (string \<times> string) list, (string \<times> string \<times> instant) list, nat, unit) world, string) pipes" where
  "pipes_demo = \<lparr>p_cps_extract = (\<lambda>c kw. act_ok (JObj [])),
     p_prd_extract = (\<lambda>c kw g. act_ok (JObj [(''prd_markdown'', JStr ''text''), (''prd_graph'', JObj [])])),
     p_merge = (\<lambda>c k1 k2 g e w. (Inr ''cps'', Inr (act_ok ''prd''), w)),
     p_run = (\<lambda>n c kw. act_ok n), p_get_master = (\<lambda>p t. act_ok None), p_parse_cps = id,
     p_get_spack = (\<lambda>p t. act_ok []), p_autofill = (\<lambda>c p i. act_ok p), p_link_stories = (\<lambda>c p i. act_ok id)\<rparr>"

lemma jenv_demo_works [simp]: "release_works jenv_demo"
  by (simp add: release_works_def jenv_demo_def qenv_demo_def ref_zset_laws)

lemma jenv_demo_ctx [simp]: "\<exists>w1. tracked_ctx jenv_demo (Some ''a@x'') w = (Inr demo_decision, w1)"
  by (simp add: tracked_ctx_def jenv_demo_def resolve_decision_def pick_client_def Let_def)

lemma demo_simps [simp]:
  "j_user ctx_demo = Some ''a@x''" "j_id ctx_demo = ''j1''" "j_team ctx_demo = ''''"
  "m_project meeting_demo = ''P''" "m_version meeting_demo = ''v1''"
  "q_zset (e_q jenv_demo) = ref_zset" "project_key_of jenv_demo ctx_demo q = q"
  "is_over_token_quota jenv_demo u = False"
  by (simp_all add: ctx_demo_def meeting_demo_def project_key_of_def jenv_demo_def qenv_demo_def
      is_over_token_quota_def demo_decision_def split: option.split)

lemma jobs_release_gates_witness:
  "gates_free ref_zset ''a@x'' ''P'' ''j1''
     (qs_redis (w_q (snd (cps_pipeline_job jenv_demo pipes_demo ctx_demo meeting_demo world_demo))))"
proof -
  obtain w1 where "tracked_ctx jenv_demo (Some ''a@x'') world_demo = (Inr demo_decision, w1)"
    using jenv_demo_ctx by blast
  then have "gates_free (q_zset (e_q jenv_demo)) ''a@x'' ''P'' (j_id ctx_demo)
      (qs_redis (w_q (snd (cps_pipeline_job jenv_demo pipes_demo ctx_demo meeting_demo world_demo))))"
    by (intro jobs_release_gates[unfolded Let_def, THEN conjunct1]) simp_all
  then show ?thesis by simp
qed

text \<open>Slots of jobs that end early. A design job whose user is over the token limit when the
  worker picks it up returns before its try block, and a job whose context cannot be built (the
  quota tables cannot be read) raises before it: in both cases the world is unchanged, so the
  account slot taken when the job was enqueued stays taken although the job is over.\<close>

theorem early_exit_keeps_slot:
  assumes "no_faults (e_q v)" "e \<noteq> ''''" "\<And>pk. e \<noteq> ''project:'' @ pk"
    and "enqueue_design (e_q v) (j_id c) project (Some e) team st = (Inr i, w_q w)"
    and "j_user c = Some e"
  shows "j_id c \<in> slot_holders (q_zset (e_q v)) e (qs_redis (w_q w)) \<and>
    (is_over_token_quota v (Some e) \<longrightarrow>
       design_pipeline_job v dp c project over w = (Inr DesignQuotaExceeded, w)) \<and>
    (\<forall>x. e_fresh v = Some x \<and> \<not> is_over_token_quota v (Some e) \<longrightarrow>
       design_pipeline_job v dp c project over w = (Inl x, w))"
proof -
  have "kw_str [(''project_name'', PyStr project), (''user_email'', opt_arg (Some e)), (''team_id'', PyStr team)]
      ''user_email'' = e"
    by (simp add: kw_str_def opt_arg_def)
  from enqueue_accept[OF assms(1) this assms(2,3) _ assms(4)[unfolded enqueue_design_def]]
  have "j_id c \<in> slot_holders (q_zset (e_q v)) e (qs_redis (w_q w))" by (simp add: heavy_jobs_def)
  then show ?thesis
    using assms(5) by (simp add: design_pipeline_job_def act_ok_def act_bind_def tracked_ctx_def)
qed

definition design_demo ::
  "((((string \<times> string) \<times> int) list, (string \<times> string) list, (string \<times> string \<times> instant) list, nat, unit) world, string, unit) design_pipes" where
  "design_demo = \<lparr>dp_run = (\<lambda>c kw over w. (Inr ''design'', None, w)), dp_enabled = True,
     dp_generate = (\<lambda>i. GenTimeout), dp_save = (\<lambda>f. act_ok ())\<rparr>"

definition jenv_blocked ::
  "(((string \<times> string) \<times> int) list, (string \<times> string) list, (string \<times> string \<times> instant) list, nat, unit) jenv" where
  "jenv_blocked = jenv_demo\<lparr>e_decide := (\<lambda>e. Inr (demo_decision\<lparr>d_mode := ''blocked''\<rparr>))\<rparr>"

lemma early_exit_keeps_slot_witness:
  "\<exists>st'. enqueue_design (e_q jenv_blocked) ''j1'' ''P'' (Some ''a@x'') '''' qstate_demo = (Inr ''j1'', st') \<and>
     ''j1'' \<in> slot_holders ref_zset ''a@x''
        (qs_redis (w_q (snd (design_pipeline_job jenv_blocked design_demo ctx_demo ''P'' False (world_demo\<lparr>w_q := st'\<rparr>)))))"
proof -
  have q: "e_q jenv_blocked = qenv_demo" by (simp add: jenv_blocked_def jenv_demo_def)
  have run: "fst (enqueue_design qenv_demo ''j1'' ''P'' (Some ''a@x'') '''' qstate_demo) = Inr ''j1''"
    by code_simp
  obtain st' where en: "enqueue_design qenv_demo ''j1'' ''P'' (Some ''a@x'') '''' qstate_demo = (Inr ''j1'', st')"
    using run by (metis prod.collapse)
  have over: "is_over_token_quota jenv_blocked (Some ''a@x'')"
    by (simp add: is_over_token_quota_def jenv_blocked_def)
  have "no_faults (e_q jenv_blocked)" by (simp add: q)
  from early_exit_keeps_slot[OF this, of "''a@x''" ctx_demo "''P''" "''''" qstate_demo "''j1''" "world_demo\<lparr>w_q := st'\<rparr>" design_demo False]
  show ?thesis using en over by (simp add: q)
qed

section \<open>Charging the tokens\<close>

lemma tokens_set_effects:
  assumes "now < pm now"
  shows "eff_tokens now (add_tokens_set pm now d u) = eff_tokens now u + d"
    "eff_lite now (add_tokens_set pm now d u) = eff_lite now u"
    "eff_lite now (add_lite_tokens_set pm now d u) = eff_lite now u + d"
    "eff_tokens now (add_lite_tokens_set pm now d u) = eff_tokens now u"
  using assms main_counter.add_any[where now = now and pm = pm] lite_counter.add_any[where now = now and pm = pm]
  by (simp_all add: add_tokens_set_def add_lite_tokens_set_def monthly_reset_def weekly_reset_def
      eff_defs due_def Let_def)

lemma tokens_effect:
  assumes "now < pm now" "0 < d" "find_user e g = Some u"
  shows "\<exists>u'. find_user e (snd (add_tokens pm now e d b g)) = Some u' \<and>
    eff_tokens now u' = eff_tokens now u + (if b = BucketMain then d else 0) \<and>
    eff_lite now u' = eff_lite now u + (if b = BucketLite then d else 0)"
  using assms tokens_set_effects[where now = now and pm = pm and d = d and u = u]
  by (cases b) (simp_all add: add_tokens_def find_set_users_same Let_def)

text \<open>The two parts of a job's tokens: main and lite.\<close>

definition charge_parts :: "accumulator \<Rightarrow> string \<Rightarrow> int \<times> int" where
  "charge_parts acc b =
     (let total = t_total (a_total acc)
      in if total \<le> 0 then (0, 0)
         else case a_main_bucket acc of
           Some k \<Rightarrow> if 0 \<le> k \<and> k < total then (k, total - k)
                     else if b = ''lite'' then (0, total) else (total, 0)
         | None \<Rightarrow> if b = ''lite'' then (0, total) else (total, 0))"

lemma persist_split:
  assumes "\<And>n. \<not> e_add_fails v n" "e \<noteq> ''''" "charge_parts acc b = (m, l)"
  shows "persist_token_usage v (Some e) acc b g =
    (let pm = q_plus_month (e_q v); g1 = (if m > 0 then snd (add_tokens pm (now_of v) e m BucketMain g) else g)
     in if l > 0 then snd (add_tokens pm (now_of v) e l BucketLite g1) else g1) \<and>
    0 \<le> m \<and> 0 \<le> l \<and> m + l = max 0 (t_total (a_total acc))"
proof -
  have "or_none (Some e) = Some e" using assms(2) by (cases e) simp_all
  then show ?thesis
    using assms(1,3)
    by (auto simp: persist_token_usage_def charge_parts_def bucket_of_def Let_def split: option.splits if_splits)
qed

text \<open>C13: Charging. The finally clause charges every token of a job exactly once: with the database
  up, the user's monthly main counter grows by the main part and the lite counter by the lite part of
  the job's total, where a job that was downgraded is split at the recorded bucket, and no other
  user's node changes.\<close>

theorem job_tokens_charged_once:
  assumes "\<And>n. \<not> e_add_fails v n" "e \<noteq> ''''" "now_of v < q_plus_month (e_q v) (now_of v)"
    and "find_user e g = Some u" "charge_parts acc b = (m, l)"
  shows "\<exists>u'. find_user e (persist_token_usage v (Some e) acc b g) = Some u' \<and>
    eff_tokens (now_of v) u' = eff_tokens (now_of v) u + m \<and>
    eff_lite (now_of v) u' = eff_lite (now_of v) u + l \<and>
    0 \<le> m \<and> 0 \<le> l \<and> m + l = max 0 (t_total (a_total acc)) \<and>
    (\<forall>e'. e' \<noteq> e \<longrightarrow> find_user e' (persist_token_usage v (Some e) acc b g) = find_user e' g)"
proof -
  note split = persist_split[OF assms(1,2,5), of g]
  let ?pm = "q_plus_month (e_q v)" and ?t = "now_of v"
  let ?g1 = "if m > 0 then snd (add_tokens ?pm ?t e m BucketMain g) else g"
  have p: "0 \<le> m" "0 \<le> l" using split by auto
  obtain u1 where u1: "find_user e ?g1 = Some u1" "eff_tokens ?t u1 = eff_tokens ?t u + m"
    "eff_lite ?t u1 = eff_lite ?t u"
    using tokens_effect[where now = ?t and pm = ?pm, OF assms(3) _ assms(4), of m BucketMain] assms(4) p by (cases "m > 0") auto
  let ?g2 = "if l > 0 then snd (add_tokens ?pm ?t e l BucketLite ?g1) else ?g1"
  obtain u2 where "find_user e ?g2 = Some u2" "eff_tokens ?t u2 = eff_tokens ?t u1"
    "eff_lite ?t u2 = eff_lite ?t u1 + l"
    using tokens_effect[where now = ?t and pm = ?pm, OF assms(3) _ u1(1), of l BucketLite] u1(1) p by (cases "l > 0") auto
  moreover have "find_user e' ?g2 = find_user e' g" if "e' \<noteq> e" for e'
    using find_user_usage_other(3)[OF that] by simp
  moreover have "persist_token_usage v (Some e) acc b g = ?g2" using split by (simp add: Let_def)
  ultimately show ?thesis using u1 split by simp
qed

lemma job_tokens_charged_once_witness:
  "\<exists>u'. find_user ''a@x'' (persist_token_usage jenv_demo (Some ''a@x'')
       \<lparr>a_total = \<lparr>t_prompt = 0, t_completion = 0, t_total = 180, t_cached = 0\<rparr>, a_main_bucket = Some 120\<rparr> ''main'' quota_demo) = Some u' \<and>
     eff_tokens 5000 u' = 120 \<and> eff_lite 5000 u' = 60"
proof -
  obtain u where u: "find_user ''a@x'' quota_demo = Some u" "eff_tokens 5000 u = 0" "eff_lite 5000 u = 0"
    by (simp add: quota_demo_def empty_graph_def blank_user_def find_user_def eff_defs due_def)
  have v: "\<And>n. \<not> e_add_fails jenv_demo n" "now_of jenv_demo = 5000"
    "now_of jenv_demo < q_plus_month (e_q jenv_demo) (now_of jenv_demo)"
    by (simp_all add: jenv_demo_def now_of_def qenv_demo_def)
  show ?thesis
    using job_tokens_charged_once[OF v(1) _ v(3) u(1), of
        "\<lparr>a_total = \<lparr>t_prompt = 0, t_completion = 0, t_total = 180, t_cached = 0\<rparr>, a_main_bucket = Some 120\<rparr>" "''main''" 120 60]
    by (auto simp: charge_parts_def v(2) u(2,3))
qed

section \<open>Failures in post_meeting\<close>

lemma with_master_lock_free:
  assumes "kv_laws (e_kv v)" "e_lock_fuel v = Suc n" "\<And>i. \<not> e_lock_fails v 0 i"
    and "kv_get (e_kv v) (lock_key (project_key_of v c project)) (e_clock v 0) (w_kv w) = None"
  shows "\<exists>w0. fst (with_master_lock v c project body w) = fst (body w0)"
proof (cases "e_redis v \<and> project_key_of v c project \<noteq> ''''")
  case True
  let ?a = "kv_in_world (e_kv v)"
  have "fst (kv_set_nx ?a (lock_key (project_key_of v c project)) (j_id c) lock_ttl (e_clock v 0) w)"
    using assms(4) by (simp add: kv_in_world_def split_beta Let_def kv_lawsD(2)[OF assms(1)])
  then show ?thesis
    using True assms(2,3)
    by (auto simp: with_master_lock_def master_write_lock_def try_acquire_def split_beta Let_def)
next
  case False
  then show ?thesis by (auto simp: with_master_lock_def master_write_lock_def split_beta Let_def)
qed

lemma stage_keeps_lock:
  assumes "kv_laws (e_kv v)" "now_of v \<le> t"
  shows "kv_get (e_kv v) (lock_key pk) t (w_kv (set_job_stage v c s w)) = kv_get (e_kv v) (lock_key pk) t (w_kv w)"
  using kv_lawsD(1)[OF assms] by (simp add: set_job_stage_def lock_key_def)

lemma cached_hit:
  assumes "is_valid_extract (cached_extract v 0 (extract_key_of v m) w)"
  shows "get_or_compute_extract v p c m w = (Inr (the (cached_extract v 0 (extract_key_of v m) w)), w)"
  using assms by (simp add: get_or_compute_extract_def Let_def)

lemma act_bind_ok: "m w = (Inr x, w') \<Longrightarrow> act_bind m f w = f x w'"
  by (simp add: act_bind_def)

lemma act_bind_pure [simp]:
  "act_bind (act_ok x) f w = f x w" "act_bind (\<lambda>w. (Inr x, h w)) f w = f x (h w)"
  by (simp_all add: act_bind_def act_ok_def)


section \<open>Prefetching\<close>

text \<open>Prefetch. After a prefetch job that reports "cached", the job of that meeting finds the
  extract for two hours and calls no pipeline for it: whatever the pipelines would do, the extraction
  step returns a valid extract and leaves the world as it is.\<close>

theorem prefetch_feeds_meeting_job:
  assumes "kv_laws (e_kv v)" "e_redis v" "\<And>i. \<not> e_cache_fails v i"
    and "\<And>w x w2. compute_extract p c m w = (Inr x, w2) \<Longrightarrow> is_valid_extract (Some x) \<and>
           x_loads (e_codec v) (x_dumps (e_codec v) x) = Some x \<and> x_dumps (e_codec v) x \<noteq> ''''"
    and "prefetch_extract_job v p c m w = (Inr Cached, w')"
    and "now_of v \<le> t" "t < now_of v + extract_ttl" "v' = v\<lparr>e_q := (e_q v)\<lparr>q_now := t\<rparr>\<rparr>"
  shows "\<exists>x. get_or_compute_extract v' p' c' m w' = (Inr x, w') \<and> is_valid_extract (Some x)"
proof -
  let ?key = "extract_key_of v m"
  obtain b w1 where l: "extract_lock v ?key w = (b, w1)" by force
  let ?body = "act_catch (act_bind (compute_extract p c m) (\<lambda>x w2. (Inr Cached, store_extract v ?key x w2)))
      (\<lambda>e. if is_exception e then Some (act_ok (PrefetchError e)) else None)"
  have run: "job_frame v c '''' ?body w1 = (Inr Cached, w')"
    using assms(5) l by (auto simp: prefetch_extract_job_def Let_def split: if_splits)
  then obtain d wt where ctx: "tracked_ctx v (j_user c) w1 = (Inr d, wt)"
    by (auto simp: job_frame_def act_bind_def split: sum.splits prod.splits)
  have "fst (?body wt) = Inr Cached \<and> w' = job_cleanup v c '''' d (snd (?body wt))"
    using run unfolding job_frame_run[OF ctx] by simp
  then obtain x w2 where x: "compute_extract p c m wt = (Inr x, w2)"
    "w' = job_cleanup v c '''' d (store_extract v ?key x w2)"
    by (auto simp: act_catch_def act_bind_def act_ok_def split: sum.splits prod.splits if_splits)
  then have "w_kv w' = set_cached_extract (e_kv v) (e_codec v) True False ?key x (now_of v) (w_kv w2)"
    using assms(2,3) by (simp add: job_cleanup_def store_extract_def Let_def)
  then have "cached_extract v' 0 (extract_key_of v' m) w' = Some x"
    using cache_round_trip[where cd = "e_codec v" and e = x and key = "extract_key_of v m" and s = "w_kv w2",
        OF assms(1) _ _ assms(6,7)] assms(2,3,8) assms(4)[OF x(1)]
    by (simp add: cached_extract_def now_of_def extract_key_of_def)
  moreover have "is_valid_extract (Some x)" using assms(4) x(1) by blast
  ultimately have "get_or_compute_extract v' p' c' m w' = (Inr x, w')" "is_valid_extract (Some x)"
    using cached_hit[of v' m w' p' c'] by simp_all
  then show ?thesis by blast
qed

definition extract_demo :: json where
  "extract_demo = JObj [(''cps_graph'', JObj []), (''prd_markdown'', JStr ''text''), (''prd_graph'', JObj [])]"

definition jenv_cache ::
  "(((string \<times> string) \<times> int) list, (string \<times> string) list, (string \<times> string \<times> instant) list, nat, unit) jenv" where
  "jenv_cache = jenv_demo\<lparr>e_codec := \<lparr>x_dumps = (\<lambda>e. ''j''), x_loads = (\<lambda>s. Some extract_demo)\<rparr>\<rparr>"

lemma extract_demo_valid [simp]: "is_valid_extract (Some extract_demo)"
  by code_simp

lemma jenv_cache_simps [simp]:
  "e_kv jenv_cache = ref_kv" "e_redis jenv_cache" "e_cache_fails jenv_cache i = False"
  "x_loads (e_codec jenv_cache) s = Some extract_demo" "x_dumps (e_codec jenv_cache) y = ''j''"
  "now_of jenv_cache = 5000" "e_lock_fuel jenv_cache = Suc 301" "e_lock_fails jenv_cache 0 i = False"
  "project_key_of jenv_cache ctx_demo q = q" "e_clock jenv_cache k = 5000 + int k"
  by (simp_all add: jenv_cache_def jenv_demo_def now_of_def qenv_demo_def project_key_of_def)

lemma compute_extract_demo: "compute_extract pipes_demo c m w = (Inr extract_demo, w)"
  by (simp add: compute_extract_def pipes_demo_def act_bind_def act_ok_def json_get_def extract_demo_def)

lemma prefetch_feeds_meeting_job_witness:
  "\<exists>w' x. prefetch_extract_job jenv_cache pipes_demo ctx_demo meeting_demo world_demo = (Inr Cached, w') \<and>
     get_or_compute_extract (jenv_cache\<lparr>e_q := (e_q jenv_cache)\<lparr>q_now := 6000\<rparr>\<rparr>) (pipes_demo\<lparr>p_parse_cps := (\<lambda>g. JNull)\<rparr>)
       ctx_demo meeting_demo w' = (Inr x, w')"
proof -
  have "fst (prefetch_extract_job jenv_cache pipes_demo ctx_demo meeting_demo world_demo) = Inr Cached"
    by code_simp
  then obtain w' where w': "prefetch_extract_job jenv_cache pipes_demo ctx_demo meeting_demo world_demo = (Inr Cached, w')"
    by (metis prod.collapse)
  have "\<exists>x. get_or_compute_extract (jenv_cache\<lparr>e_q := (e_q jenv_cache)\<lparr>q_now := 6000\<rparr>\<rparr>)
      (pipes_demo\<lparr>p_parse_cps := (\<lambda>g. JNull)\<rparr>) ctx_demo meeting_demo w' = (Inr x, w') \<and> is_valid_extract (Some x)"
    by (rule prefetch_feeds_meeting_job[OF _ _ _ _ w'])
       (auto simp: compute_extract_demo ref_kv_laws extract_ttl_def)
  then show ?thesis using w' by blast
qed

definition world_cached ::
  "(((string \<times> string) \<times> int) list, (string \<times> string) list, (string \<times> string \<times> instant) list, nat, unit) world" where
  "world_cached = world_demo\<lparr>w_kv := [(extract_key_of jenv_cache meeting_demo, ''j'', 9000)]\<rparr>"


section \<open>Completeness of the duplicate detection\<close>

lemma find_all_token:
  assumes "\<And>b. m (t @ b) = Some (length t)" "t \<noteq> []"
    and "\<And>x a n. m ((x # a) @ t @ b) = Some n \<Longrightarrow> n \<le> length (x # a)"
  shows "\<exists>pre. find_all m (a @ t @ b) = pre @ t # find_all m b"
proof (induction "length a" arbitrary: a rule: less_induct)
  case less
  show ?case
  proof (cases a)
    case Nil
    obtain y ys where t: "t = y # ys" using assms(2) by (cases t) auto
    then have "m (y # ys @ b) = Some (Suc (length ys))" using assms(1)[of b] by simp
    then show ?thesis using Nil t by simp
  next
    case (Cons x a')
    show ?thesis
    proof (cases "m (x # a' @ t @ b)")
      case None
      then show ?thesis using less[of a'] Cons by auto
    next
      case (Some n)
      then have n: "n \<le> Suc (length a')" using assms(3)[of x a' n] by simp
      then have "drop (n - 1) (a' @ t @ b) = drop (n - 1) a' @ t @ b" by simp
      moreover have "length (drop (n - 1) a') < length a" using Cons by simp
      ultimately show ?thesis using less[of "drop (n - 1) a'"] Cons Some by auto
    qed
  qed
qed

text \<open>A non-ASCII digit consists of bytes above 127.\<close>

definition digit_table_ok :: "(string \<Rightarrow> nat) \<Rightarrow> bool" where
  "digit_table_ok ud \<longleftrightarrow>
     (\<forall>s. ud s \<le> length s \<and> list_all (\<lambda>c. 127 < (of_char c :: nat)) (take (ud s) s))"

definition digit_byte :: "char \<Rightarrow> bool" where
  "digit_byte c = (ascii_digit c \<or> 127 < (of_char c :: nat))"

lemma digits_len_bytes:
  assumes "digit_table_ok ud"
  shows "list_all digit_byte (take (digits_len ud n s) s)"
proof (induction n arbitrary: s)
  case (Suc n)
  show ?case
  proof (cases s)
    case (Cons c cs)
    show ?thesis
    proof (cases "ascii_digit c")
      case False
      then show ?thesis
        using Suc[of "drop (ud s) s"] assms Cons
        by (auto simp: digit_table_ok_def digit_byte_def take_add list_all_iff)
    qed (use Suc[of cs] Cons in \<open>simp add: digit_byte_def\<close>)
  qed simp
qed simp

lemma digits_len_ascii:
  assumes "digit_table_ok ud" "list_all ascii_digit ds" "\<not> digit_byte c" "length ds < n"
  shows "digits_len ud n (ds @ c # b) = length ds"
  using assms(2,4)
proof (induction ds arbitrary: n)
  case Nil
  have "ud (c # b) = 0"
  proof (rule ccontr)
    assume "ud (c # b) \<noteq> 0"
    then have "127 < (of_char c :: nat)"
      using assms(1) by (auto simp: digit_table_ok_def list_all_iff dest!: spec[of _ "c # b"] split: nat.splits)
         (metis (no_types, lifting) gr0_conv_Suc list.set_intros(1) take_Suc_Cons)
    then show False using assms(3) by (simp add: digit_byte_def)
  qed
  then show ?case using Nil assms(3) by (cases n) (simp_all add: digit_byte_def)
next
  case (Cons d ds)
  then show ?case by (cases n) simp_all
qed

definition epic :: "string \<Rightarrow> string" where
  "epic ds = ''[Epic-'' @ ds @ '']''"

lemma epic_at_own:
  assumes "digit_table_ok ud" "list_all ascii_digit ds" "ds \<noteq> []"
  shows "epic_at ud (epic ds @ b) = Some (length (epic ds))"
proof -
  have "\<not> digit_byte (CHR '']'')" by code_simp
  then have "digits_len ud (length (ds @ CHR '']'' # b)) (ds @ CHR '']'' # b) = length ds"
    by (intro digits_len_ascii[OF assms(1,2)]) simp_all
  then show ?thesis using assms(3) by (simp add: epic_at_def epic_def starts_with_def Let_def)
qed

lemma epic_at_inside:
  assumes "digit_table_ok ud" "epic_at ud s = Some n" "0 < i" "i < n" "i < length s"
  shows "s ! i \<noteq> CHR ''[''"
proof -
  let ?r = "drop 6 s"
  let ?k = "digits_len ud (length ?r) ?r"
  have g: "starts_with ''[Epic-'' s \<and> starts_with '']'' (drop ?k ?r) \<and> n = 7 + ?k"
    using assms(2) by (auto simp: epic_at_def Let_def split: if_splits)
  then have h: "take 6 s = ''[Epic-''" "n = 7 + ?k" "take 1 (drop ?k ?r) = '']''"
    by (simp_all add: starts_with_def eval_nat_numeral)
  consider "i < 6" | j where "i = 6 + j" "j < ?k" | "i = 6 + ?k"
  proof (cases "i < 6")
    case False
    then obtain j where "i = 6 + j" by (metis le_Suc_ex not_less)
    then show ?thesis using that(2,3) assms(4) h(2) by (cases "j < ?k") auto
  qed (use that(1) in blast)
  then show ?thesis
  proof cases
    case 1
    then have "s ! i = ''[Epic-'' ! i" using h(1) by (metis nth_take)
    moreover have "i = 1 \<or> i = 2 \<or> i = 3 \<or> i = 4 \<or> i = 5" using 1 assms(3) by auto
    ultimately show ?thesis by auto
  next
    case 2
    have "digit_byte (?r ! j)"
      using digits_len_bytes[OF assms(1), of "length ?r" ?r] 2 assms(5) by (auto simp: list_all_length)
    moreover have "\<not> digit_byte (CHR ''['')" by code_simp
    moreover have "?r ! j = s ! i" using 2 assms(5) by simp
    ultimately show ?thesis by metis
  next
    case 3
    then have "take 1 (drop i s) = '']''" using h(3) by (simp add: add.commute)
    then show ?thesis using assms(5) by (simp add: hd_drop_conv_nth[symmetric] take_Suc)
  qed
qed

lemma epic_distinct:
  assumes "digit_table_ok ud" "list_all ascii_digit ds" "ds \<noteq> []"
  shows "\<exists>pre. find_all (epic_at ud) (a @ epic ds @ b) = pre @ epic ds # find_all (epic_at ud) b"
proof (rule find_all_token)
  fix x a' n
  assume m: "epic_at ud ((x # a') @ epic ds @ b) = Some n"
  show "n \<le> length (x # a')"
  proof (rule ccontr)
    assume "\<not> n \<le> length (x # a')"
    then have "((x # a') @ epic ds @ b) ! length (x # a') \<noteq> CHR ''[''"
      by (intro epic_at_inside[OF assms(1) m]) (auto simp: epic_def)
    then show False by (simp add: nth_append epic_def)
  qed
next
  show "epic ds \<noteq> []" by (simp add: epic_def)
qed (rule epic_at_own[OF assms])

text \<open>Duplicate detection. A document in which the marker of an epic with any ASCII number occurs
  twice, at any places and whatever is around them, triggers the cleanup.\<close>

theorem duplicate_epic_triggers_cleanup:
  assumes "digit_table_ok ud" "list_all ascii_digit ds" "ds \<noteq> []"
  shows "should_trigger_cleanup ud (a @ epic ds @ b @ epic ds @ c) \<noteq> None"
proof -
  obtain p1 where "find_all (epic_at ud) (a @ epic ds @ b @ epic ds @ c)
      = p1 @ epic ds # find_all (epic_at ud) (b @ epic ds @ c)" using epic_distinct[OF assms] by blast
  moreover obtain p2 where "find_all (epic_at ud) (b @ epic ds @ c) = p2 @ epic ds # find_all (epic_at ud) c"
    using epic_distinct[OF assms] by blast
  ultimately have "\<not> distinct (find_all (epic_at ud) (a @ epic ds @ b @ epic ds @ c))" by simp
  moreover have "a @ epic ds @ b @ epic ds @ c \<noteq> ''''" by (simp add: epic_def)
  ultimately show ?thesis by (simp add: should_trigger_cleanup_def)
qed

lemma duplicate_epic_triggers_cleanup_witness:
  "should_trigger_cleanup (\<lambda>_. 0) (''# '' @ epic ''07'' @ ''[Epic-'' @ epic ''07'' @ '''') \<noteq> None"
  by (rule duplicate_epic_triggers_cleanup) (simp_all add: digit_table_ok_def ascii_digit_def)

end
