(* ===== verification/Sessions.thy ===== *)
theory Sessions
  imports PyText Redis
begin

text \<open>
  src/app/core/token_blacklist.py (revoked token ids in Redis, with a circuit
  breaker), session_registry.py (the list of a user's sessions) and
  service/session_helper.py (what is recorded about a session). Redis is an
  argument; \<open>fails\<close> makes the commands of a call raise. Times are in seconds, the
  registry's scores in milliseconds.
\<close>

section \<open>The blacklist and its circuit breaker\<close>

record 'k blacklist =
  bl_kv :: 'k
  bl_last_failure :: int

definition cb_cooldown :: int where "cb_cooldown = 60"

definition revoked_key :: "string \<Rightarrow> string" where
  "revoked_key jti = ''revoked_jti:'' @ jti"

text \<open>\<open>clk\<close> is time.monotonic(), which counts from the start of the machine; a process starts
  with the last failure at 0.\<close>

definition cb_open :: "int \<Rightarrow> 'k blacklist \<Rightarrow> bool" where
  "cb_open clk b = (clk - bl_last_failure b < cb_cooldown)"

definition is_revoked ::
  "'k kv_api \<Rightarrow> bool \<Rightarrow> int \<Rightarrow> instant \<Rightarrow> string \<Rightarrow> 'k blacklist \<Rightarrow> bool \<times> 'k blacklist" where
  "is_revoked a fails clk now jti b =
     (if cb_open clk b then (False, b)
      else if fails then (False, b\<lparr>bl_last_failure := clk\<rparr>)
      else (kv_get a (revoked_key jti) now (bl_kv b) \<noteq> None, b\<lparr>bl_last_failure := 0\<rparr>))"

text \<open>revoke: None when the Redis command raises, which only revoke_if_new catches.\<close>

definition revoke ::
  "'k kv_api \<Rightarrow> bool \<Rightarrow> int \<Rightarrow> instant \<Rightarrow> string \<Rightarrow> instant \<Rightarrow> 'k blacklist \<Rightarrow> unit option \<times> 'k blacklist" where
  "revoke a fails clk now jti expiry b =
     (if cb_open clk b then (Some (), b)
      else if fails then (None, b)
      else (Some (), b\<lparr>bl_kv := kv_set a (revoked_key jti) ''1'' (max 1 (expiry - now)) now (bl_kv b),
                       bl_last_failure := 0\<rparr>))"

definition revoke_if_new ::
  "'k kv_api \<Rightarrow> bool \<Rightarrow> int \<Rightarrow> instant \<Rightarrow> string option \<Rightarrow> instant option \<Rightarrow> 'k blacklist \<Rightarrow> bool \<times> 'k blacklist" where
  "revoke_if_new a fails clk now jti expiry b =
     (case (or_none jti, expiry) of
        (Some j, Some x) \<Rightarrow>
          if x = 0 then (False, b)
          else (case revoke a fails clk now j x b of
                  (Some u, b') \<Rightarrow> (True, b')
                | (None, b') \<Rightarrow> (False, b'\<lparr>bl_last_failure := clk\<rparr>))
      | _ \<Rightarrow> (False, b))"

section \<open>The Redis commands of the registry\<close>

record 'h sess_api =
  h_hset :: "string \<Rightarrow> (string \<times> string) list \<Rightarrow> instant \<Rightarrow> 'h \<Rightarrow> 'h"
  h_expireat :: "string \<Rightarrow> instant \<Rightarrow> instant \<Rightarrow> 'h \<Rightarrow> 'h"
  h_hgetall :: "string \<Rightarrow> instant \<Rightarrow> 'h \<Rightarrow> (string \<times> string) list"
  h_del :: "string \<Rightarrow> instant \<Rightarrow> 'h \<Rightarrow> 'h"
  h_zadd :: "string \<Rightarrow> string \<Rightarrow> int \<Rightarrow> 'h \<Rightarrow> 'h"
  h_zrem :: "string \<Rightarrow> string \<Rightarrow> 'h \<Rightarrow> 'h"
  h_zremrangebyscore :: "string \<Rightarrow> int \<Rightarrow> int \<Rightarrow> 'h \<Rightarrow> 'h"
  h_zscore :: "string \<Rightarrow> string \<Rightarrow> 'h \<Rightarrow> int option"
  h_zrange :: "string \<Rightarrow> 'h \<Rightarrow> string list"

text \<open>Hash commands on one key leave the other keys alone, sorted-set commands leave the hashes
  alone, and the other way round. A hash that is set on an absent key has its fields and no
  expiry; an expiry removes it.\<close>

definition hash_laws :: "'h sess_api \<Rightarrow> bool" where
  "hash_laws a \<longleftrightarrow>
     (\<forall>k m now t s. h_hgetall a k now s = [] \<longrightarrow> now \<le> t \<longrightarrow> h_hgetall a k t (h_hset a k m now s) = m) \<and>
     (\<forall>k k' m now t s. k' \<noteq> k \<longrightarrow> h_hgetall a k' t (h_hset a k m now s) = h_hgetall a k' t s) \<and>
     (\<forall>k e m now t s. (\<forall>u \<ge> now. h_hgetall a k u s = m) \<longrightarrow> now \<le> t \<longrightarrow>
        h_hgetall a k t (h_expireat a k e now s) = (if t < e then m else [])) \<and>
     (\<forall>k k' e now t s. k' \<noteq> k \<longrightarrow> h_hgetall a k' t (h_expireat a k e now s) = h_hgetall a k' t s) \<and>
     (\<forall>k k' now t s. now \<le> t \<longrightarrow> h_hgetall a k' t (h_del a k now s) = (if k' = k then [] else h_hgetall a k' t s)) \<and>
     (\<forall>k m x t k' s. h_hgetall a k' t (h_zadd a k m x s) = h_hgetall a k' t s) \<and>
     (\<forall>k m t k' s. h_hgetall a k' t (h_zrem a k m s) = h_hgetall a k' t s) \<and>
     (\<forall>k lo hi t k' s. h_hgetall a k' t (h_zremrangebyscore a k lo hi s) = h_hgetall a k' t s)"

definition index_laws :: "'h sess_api \<Rightarrow> bool" where
  "index_laws a \<longleftrightarrow>
     (\<forall>k m k' m' x s. h_zscore a k m (h_zadd a k' m' x s) = (if k = k' \<and> m = m' then Some x else h_zscore a k m s)) \<and>
     (\<forall>k m k' m' s. h_zscore a k m (h_zrem a k' m' s) = (if k = k' \<and> m = m' then None else h_zscore a k m s)) \<and>
     (\<forall>k m k' lo hi s. h_zscore a k m (h_zremrangebyscore a k' lo hi s) =
        (case h_zscore a k m s of None \<Rightarrow> None
         | Some x \<Rightarrow> if k = k' \<and> lo \<le> x \<and> x \<le> hi then None else Some x)) \<and>
     (\<forall>k s. set (h_zrange a k s) = {m. h_zscore a k m s \<noteq> None}) \<and>
     (\<forall>k s. distinct (h_zrange a k s)) \<and>
     (\<forall>k m k' m' now s. h_zscore a k m (h_hset a k' m' now s) = h_zscore a k m s) \<and>
     (\<forall>k m k' e now s. h_zscore a k m (h_expireat a k' e now s) = h_zscore a k m s) \<and>
     (\<forall>k m k' now s. h_zscore a k m (h_del a k' now s) = (if k = k' then None else h_zscore a k m s))"

lemma hash_lawsD:
  assumes "hash_laws a"
  shows "h_hgetall a k now s = [] \<Longrightarrow> now \<le> t \<Longrightarrow> h_hgetall a k t (h_hset a k m now s) = m"
    "k' \<noteq> k \<Longrightarrow> h_hgetall a k' t (h_hset a k m now s) = h_hgetall a k' t s"
    "(\<And>u. now \<le> u \<Longrightarrow> h_hgetall a k u s = m) \<Longrightarrow> now \<le> t \<Longrightarrow>
        h_hgetall a k t (h_expireat a k e now s) = (if t < e then m else [])"
    "k' \<noteq> k \<Longrightarrow> h_hgetall a k' t (h_expireat a k e now s) = h_hgetall a k' t s"
    "now \<le> t \<Longrightarrow> h_hgetall a k' t (h_del a k now s) = (if k' = k then [] else h_hgetall a k' t s)"
    "h_hgetall a k' t (h_zadd a kz mz x s) = h_hgetall a k' t s"
    "h_hgetall a k' t (h_zrem a kz mz s) = h_hgetall a k' t s"
    "h_hgetall a k' t (h_zremrangebyscore a kz lo hi s) = h_hgetall a k' t s"
  using assms unfolding hash_laws_def by (metis, metis, metis, metis, metis, metis, metis, metis)

lemma index_lawsD:
  assumes "index_laws a"
  shows "h_zscore a k m (h_zadd a k' m' x s) = (if k = k' \<and> m = m' then Some x else h_zscore a k m s)"
    "h_zscore a k m (h_zrem a k' m' s) = (if k = k' \<and> m = m' then None else h_zscore a k m s)"
    "h_zscore a k m (h_zremrangebyscore a k' lo hi s) =
        (case h_zscore a k m s of None \<Rightarrow> None
         | Some y \<Rightarrow> if k = k' \<and> lo \<le> y \<and> y \<le> hi then None else Some y)"
    "set (h_zrange a k s) = {m. h_zscore a k m s \<noteq> None}"
    "distinct (h_zrange a k s)"
    "h_zscore a k m (h_hset a k' mp now s) = h_zscore a k m s"
    "h_zscore a k m (h_expireat a k' e now s) = h_zscore a k m s"
    "h_zscore a k m (h_del a k' now s) = (if k = k' then None else h_zscore a k m s)"
  using assms unfolding index_laws_def by (simp_all del: not_None_eq)

text \<open>A reference instance: hashes with an optional expiry, scores by key and member.\<close>

record ref_sess =
  rs_hash :: "(string \<times> (string \<times> string) list \<times> instant option) list"
  rs_index :: "((string \<times> string) \<times> int) list"

definition live_hash :: "instant \<Rightarrow> ((string \<times> string) list \<times> instant option) option \<Rightarrow> (string \<times> string) list" where
  "live_hash t x = (case x of None \<Rightarrow> [] | Some (m, None) \<Rightarrow> m | Some (m, Some e) \<Rightarrow> if t < e then m else [])"

definition ref_sess_api :: "ref_sess sess_api" where
  "ref_sess_api = \<lparr>
     h_hset = (\<lambda>k m now s. s\<lparr>rs_hash := al_put k
        (if live_hash now (map_of (rs_hash s) k) = [] then (m, None)
         else (m @ live_hash now (map_of (rs_hash s) k), snd (the (map_of (rs_hash s) k)))) (rs_hash s)\<rparr>),
     h_expireat = (\<lambda>k e now s. s\<lparr>rs_hash :=
        (case map_of (rs_hash s) k of None \<Rightarrow> rs_hash s
         | Some (m, x) \<Rightarrow> if live_hash now (Some (m, x)) = [] then rs_hash s else al_put k (m, Some e) (rs_hash s))\<rparr>),
     h_hgetall = (\<lambda>k t s. live_hash t (map_of (rs_hash s) k)),
     h_del = (\<lambda>k now s. \<lparr>rs_hash = al_delete (\<lambda>k'. k' = k) (rs_hash s),
                         rs_index = al_delete (\<lambda>km. fst km = k) (rs_index s)\<rparr>),
     h_zadd = (\<lambda>k m x s. s\<lparr>rs_index := al_put (k, m) x (rs_index s)\<rparr>),
     h_zrem = (\<lambda>k m s. s\<lparr>rs_index := al_delete (\<lambda>km. km = (k, m)) (rs_index s)\<rparr>),
     h_zremrangebyscore = (\<lambda>k lo hi s. s\<lparr>rs_index := al_delete (\<lambda>km. fst km = k \<and>
        (case map_of (rs_index s) km of None \<Rightarrow> False | Some x \<Rightarrow> lo \<le> x \<and> x \<le> hi)) (rs_index s)\<rparr>),
     h_zscore = (\<lambda>k m s. map_of (rs_index s) (k, m)),
     h_zrange = (\<lambda>k s. remdups (map (snd \<circ> fst) (filter (\<lambda>kv. fst (fst kv) = k) (rs_index s))))\<rparr>"

lemma ref_hash_laws: "hash_laws ref_sess_api"
proof -
  have e: "m = []" if "\<forall>u\<ge>now. live_hash u (map_of h k) = m" "live_hash now (map_of h k) = []" for m now h k
    using that by auto
  show ?thesis
    unfolding hash_laws_def ref_sess_api_def sess_api.simps
    by (intro conjI allI impI)
       (auto simp: live_hash_def map_of_al_put map_of_al_delete split: option.splits if_splits)
qed

lemma ref_index_laws: "index_laws ref_sess_api"
proof -
  have r: "{m. map_of s (k, m) \<noteq> None} = set (remdups (map (snd \<circ> fst) (filter (\<lambda>kv. fst (fst kv) = k) s)))"
    for k :: string and s :: "((string \<times> string) \<times> int) list"
    using ref_members by simp
  show ?thesis
    unfolding index_laws_def ref_sess_api_def sess_api.simps
    by (intro conjI allI)
       (use r in \<open>auto simp: map_of_al_put map_of_al_delete split: option.splits if_splits simp del: not_None_eq\<close>)
qed

section \<open>The registry\<close>

definition session_key :: "string \<Rightarrow> string" where "session_key jti = ''session:'' @ jti"

definition user_set_key :: "string \<Rightarrow> string" where "user_set_key e = ''user_sessions:'' @ lower e"

record session_info =
  si_jti :: string
  si_email :: string
  si_user_agent :: string
  si_ip :: string
  si_created_at :: nat
  si_device_label :: string

record session_meta =
  sm_user_agent :: string
  sm_ip :: string
  sm_device_label :: string

definition session_fields :: "string \<Rightarrow> nat \<Rightarrow> session_meta \<Rightarrow> (string \<times> string) list" where
  "session_fields e now_ms m =
     [(''email'', lower e), (''ua'', sm_user_agent m), (''ip'', sm_ip m),
      (''created_at'', dec_nat now_ms), (''device_label'', sm_device_label m)]"

definition seconds :: "nat \<Rightarrow> instant" where "seconds ms = int (ms div 1000)"

text \<open>record_session; \<open>fails n\<close> makes the n-th command raise, which ends the function.\<close>

definition record_session ::
  "'h sess_api \<Rightarrow> (nat \<Rightarrow> bool) \<Rightarrow> nat \<Rightarrow> string \<Rightarrow> string \<Rightarrow> instant \<Rightarrow> session_meta \<Rightarrow> 'h \<Rightarrow> 'h" where
  "record_session a fails now_ms e jti expiry m s =
     (if e = '''' \<or> jti = '''' \<or> expiry = 0 \<or> fails 0 then s
      else let s1 = h_hset a (session_key jti) (session_fields e now_ms m) (seconds now_ms) s
           in if fails 1 then s1
              else let s2 = h_expireat a (session_key jti) expiry (seconds now_ms) s1
                   in if fails 2 then s2 else h_zadd a (user_set_key e) jti (expiry * 1000) s2)"

definition hash_field :: "'h sess_api \<Rightarrow> string \<Rightarrow> string \<Rightarrow> instant \<Rightarrow> 'h \<Rightarrow> string option" where
  "hash_field a k f t s = map_of (h_hgetall a k t s) f"

definition unregister_session ::
  "'h sess_api \<Rightarrow> (nat \<Rightarrow> bool) \<Rightarrow> nat \<Rightarrow> string \<Rightarrow> 'h \<Rightarrow> 'h" where
  "unregister_session a fails now_ms jti s =
     (if jti = '''' \<or> fails 0 \<or> fails 1 then s
      else let e = hash_field a (session_key jti) ''email'' (seconds now_ms) s;
               s1 = h_del a (session_key jti) (seconds now_ms) s
           in case or_none e of
                None \<Rightarrow> s1
              | Some em \<Rightarrow> if fails 2 then s1 else h_zrem a (user_set_key em) jti s1)"

definition session_of_hash :: "string \<Rightarrow> (string \<times> string) list \<Rightarrow> session_info" where
  "session_of_hash jti d =
     (let get = (\<lambda>f. coalesce (map_of d f) '''')
      in \<lparr>si_jti = jti, si_email = get ''email'', si_user_agent = get ''ua'', si_ip = get ''ip'',
          si_created_at = (if get ''created_at'' = '''' then 0 else parse_dec (get ''created_at'')),
          si_device_label = get ''device_label''\<rparr>)"

text \<open>The loop of list_sessions: an index entry whose hash is gone is removed.\<close>

fun collect_sessions ::
  "'h sess_api \<Rightarrow> instant \<Rightarrow> string \<Rightarrow> string list \<Rightarrow> 'h \<Rightarrow> session_info list \<times> 'h" where
  "collect_sessions a t k [] s = ([], s)"
| "collect_sessions a t k (jti # js) s =
     (let d = h_hgetall a (session_key jti) t s
      in if d = [] then collect_sessions a t k js (h_zrem a k jti s)
         else let (is, s') = collect_sessions a t k js s in (session_of_hash jti d # is, s'))"

definition list_sessions ::
  "'h sess_api \<Rightarrow> bool \<Rightarrow> nat \<Rightarrow> string \<Rightarrow> 'h \<Rightarrow> session_info list \<times> 'h" where
  "list_sessions a fails now_ms e s =
     (if e = '''' \<or> fails then ([], s)
      else let s1 = h_zremrangebyscore a (user_set_key e) 0 (int now_ms) s;
               (is, s2) = collect_sessions a (seconds now_ms) (user_set_key e) (h_zrange a (user_set_key e) s1) s1
           in (sort_key (\<lambda>i. - int (si_created_at i)) is, s2))"

definition get_session_email :: "'h sess_api \<Rightarrow> bool \<Rightarrow> nat \<Rightarrow> string \<Rightarrow> 'h \<Rightarrow> string option" where
  "get_session_email a fails now_ms jti s =
     (if jti = '''' \<or> fails then None else hash_field a (session_key jti) ''email'' (seconds now_ms) s)"

section \<open>What is recorded\<close>

record request_meta =
  q_xff :: "string option"
  q_user_agent :: "string option"
  q_client_host :: "string option"

definition client_ip :: "request_meta option \<Rightarrow> string" where
  "client_ip r =
     (case r of
        None \<Rightarrow> ''''
      | Some q \<Rightarrow> (case or_none (q_xff q) of
           Some x \<Rightarrow> py_strip (hd (split_on (CHR '','') x))
         | None \<Rightarrow> coalesce (q_client_host q) ''''))"

definition user_agent :: "request_meta option \<Rightarrow> string" where
  "user_agent r = (case r of None \<Rightarrow> '''' | Some q \<Rightarrow> coalesce (q_user_agent q) '''')"

definition first_label :: "(string \<Rightarrow> bool) \<Rightarrow> (string list \<times> string) list \<Rightarrow> string \<Rightarrow> string" where
  "first_label has rows other =
     (case find (\<lambda>r. list_ex has (fst r)) rows of Some r \<Rightarrow> snd r | None \<Rightarrow> other)"

definition device_label_from_ua :: "string \<Rightarrow> string" where
  "device_label_from_ua ua =
     (if ua = '''' then bytes [236, 149, 140, 32, 236, 136, 152, 32, 236, 151, 134, 235, 138, 148, 32,
                               235, 148, 148, 235, 176, 148, 236, 157, 180, 236, 138, 164]
      else let l = lower ua; has = (\<lambda>w. substr_in w l);
               browser = (if has ''edg/'' then ''Edge''
                          else if has ''chrome'' \<and> \<not> has ''edg'' then ''Chrome''
                          else if has ''firefox'' then ''Firefox''
                          else if has ''safari'' \<and> \<not> has ''chrome'' then ''Safari''
                          else bytes [235, 184, 140, 235, 157, 188, 236, 154, 176, 236, 160, 128]);
               device = first_label has
                 [([''iphone''], ''iPhone''), ([''ipad''], ''iPad''), ([''android''], ''Android''),
                  ([''macintosh'', ''mac os''], ''macOS''), ([''windows''], ''Windows''),
                  ([''linux''], ''Linux'')] ''PC''
           in browser @ '' on '' @ device)"

section \<open>Lemmas\<close>

lemma keys_apart: "session_key j \<noteq> user_set_key e" "session_key j = session_key j' \<longleftrightarrow> j = j'"
  by (simp_all add: session_key_def user_set_key_def)

lemma collect_member:
  assumes "hash_laws a" "jti \<in> set js" "h_hgetall a (session_key jti) t s \<noteq> []"
  shows "session_of_hash jti (h_hgetall a (session_key jti) t s) \<in> set (fst (collect_sessions a t k js s))"
  using assms(2,3)
proof (induction js arbitrary: s)
  case (Cons j js)
  show ?case
  proof (cases "j = jti")
    case False
    then show ?thesis
      using Cons.IH[of s] Cons.IH[of "h_zrem a k j s"] Cons.prems hash_lawsD(7)[OF assms(1)]
      by (simp add: Let_def split_beta)
  qed (use Cons.prems in \<open>simp add: Let_def split_beta\<close>)
qed simp

lemma collect_sound:
  assumes "hash_laws a" "i \<in> set (fst (collect_sessions a t k js s))"
  shows "si_jti i \<in> set js \<and> h_hgetall a (session_key (si_jti i)) t s \<noteq> []"
  using assms(2)
proof (induction js arbitrary: s)
  case (Cons j js)
  have j: "si_jti (session_of_hash j d) = j" for d by (simp add: session_of_hash_def Let_def)
  show ?case
    using Cons.IH[of s] Cons.IH[of "h_zrem a k j s"] Cons.prems hash_lawsD(7)[OF assms(1)] j
    by (auto simp: Let_def split_beta split: if_splits)
qed simp

lemma blacklist_kept:
  assumes "kv_laws a" "revoke a False clk now jti x b = (Some (), b')" "\<not> cb_open clk b"
    "now \<le> t" "t < x" "\<not> cb_open clk' b'"
  shows "fst (is_revoked a False clk' t jti b')"
  using assms kv_lawsD(1)[OF assms(1), of now t "revoked_key jti"]
  by (auto simp: revoke_def is_revoked_def)

text \<open>C15: The blacklist. With Redis up and the breaker closed, a revoked id is refused until its token
  expires. An open breaker answers "not revoked" and makes a revocation report success without storing
  anything; and it is open during the first minute of the machine's uptime, without any failure.\<close>

theorem blacklist_and_breaker:
  assumes "kv_laws a" "jti \<noteq> ''''" "now < x" "0 < x"
  shows "(\<not> cb_open clk b \<longrightarrow> (\<forall>t clk'. now \<le> t \<and> t < x \<and> cb_cooldown \<le> clk' \<longrightarrow>
            fst (revoke_if_new a False clk now (Some jti) (Some x) b) \<and>
            fst (is_revoked a False clk' t jti (snd (revoke_if_new a False clk now (Some jti) (Some x) b))))) \<and>
    (cb_open clk b \<longrightarrow> (\<forall>f t. revoke_if_new a f clk now (Some jti) (Some x) b = (True, b) \<and>
            is_revoked a f clk t jti b = (False, b))) \<and>
    (\<forall>s. clk < cb_cooldown \<longrightarrow> cb_open clk \<lparr>bl_kv = s, bl_last_failure = 0\<rparr>)"
proof -
  have j: "or_none (Some jti) = Some jti" using assms(2) by (cases jti) simp_all
  have "fst (is_revoked a False clk' t jti (snd (revoke_if_new a False clk now (Some jti) (Some x) b)))"
    if "\<not> cb_open clk b" "now \<le> t" "t < x" "cb_cooldown \<le> clk'" for t clk'
    using that assms(4) j kv_lawsD(1)[OF assms(1) that(2)]
    by (simp add: revoke_if_new_def revoke_def is_revoked_def cb_open_def)
  moreover have "fst (revoke_if_new a False clk now (Some jti) (Some x) b)" if "\<not> cb_open clk b"
    using that assms(4) j by (simp add: revoke_if_new_def revoke_def)
  moreover have "revoke_if_new a f clk now (Some jti) (Some x) b = (True, b)" if "cb_open clk b" for f
    using that assms(4) j by (simp add: revoke_if_new_def revoke_def)
  moreover have "is_revoked a f clk t jti b = (False, b)" if "cb_open clk b" for f t
    using that by (simp add: is_revoked_def)
  ultimately show ?thesis by (simp add: cb_open_def)
qed

lemma blacklist_and_breaker_witness:
  "fst (is_revoked ref_kv False 200 5000 ''j'' (snd (revoke_if_new ref_kv False 100 1000 (Some ''j'') (Some 9000)
      \<lparr>bl_kv = [], bl_last_failure = 0\<rparr>))) \<and>
   fst (is_revoked ref_kv False 30 5000 ''j'' \<lparr>bl_kv = [(revoked_key ''j'', ''1'', 9000)], bl_last_failure = 0\<rparr>) = False"
  using blacklist_and_breaker[OF ref_kv_laws, of "''j''" 1000 9000 100 "\<lparr>bl_kv = [], bl_last_failure = 0\<rparr>"]
    blacklist_and_breaker[OF ref_kv_laws, of "''j''" 1000 9000 30
      "\<lparr>bl_kv = [(revoked_key ''j'', ''1'', 9000)], bl_last_failure = 0\<rparr>"]
  by (simp add: cb_open_def cb_cooldown_def)

lemma seconds_mono: "a \<le> b \<Longrightarrow> seconds a \<le> seconds b"
  by (simp add: seconds_def div_le_mono)

lemma recorded_hash:
  assumes "hash_laws a" "e \<noteq> ''''" "jti \<noteq> ''''" "0 < x" "h_hgetall a (session_key jti) (seconds now) s = []"
    and "seconds now \<le> t"
  shows "h_hgetall a (session_key jti) t (record_session a (\<lambda>_. False) now e jti x m s)
    = (if t < x then session_fields e now m else [])"
proof -
  let ?s1 = "h_hset a (session_key jti) (session_fields e now m) (seconds now) s"
  have "h_hgetall a (session_key jti) u ?s1 = session_fields e now m" if "seconds now \<le> u" for u
    using hash_lawsD(1)[OF assms(1,5) that] .
  from hash_lawsD(3)[OF assms(1) this assms(6)] show ?thesis
    using assms(2-4) by (simp add: record_session_def Let_def hash_lawsD(6)[OF assms(1)])
qed

lemma recorded_score:
  assumes "index_laws a" "e \<noteq> ''''" "jti \<noteq> ''''" "0 < x"
  shows "h_zscore a (user_set_key e) jti (record_session a (\<lambda>_. False) now e jti x m s) = Some (x * 1000)"
  using assms(2-4) by (simp add: record_session_def Let_def index_lawsD(1)[OF assms(1)])

lemma unregistered_gone:
  assumes "hash_laws a" "jti \<noteq> ''''" "t \<le> u"
  shows "h_hgetall a (session_key jti) (seconds u) (unregister_session a (\<lambda>_. False) t jti s) = []"
  using assms(2) hash_lawsD(5)[OF assms(1) seconds_mono[OF assms(3)]]
  by (simp add: unregister_session_def Let_def hash_lawsD(7)[OF assms(1)] split: option.split)

text \<open>Sessions. A session recorded at a login is in its user's list, with what was recorded, until
  its token expires and belongs to that user; once unregistered it belongs to nobody and is in no
  user's list.\<close>

theorem session_lifecycle:
  assumes "hash_laws a" "index_laws a" "e \<noteq> ''''" "jti \<noteq> ''''" "0 < x"
    and "h_hgetall a (session_key jti) (seconds now) s = []" "now \<le> t" "seconds t < x"
    and "s' = record_session a (\<lambda>_. False) now e jti x m s"
  shows "(\<exists>i \<in> set (fst (list_sessions a False t e s')). si_jti i = jti \<and> si_email i = lower e \<and>
        si_created_at i = now \<and> si_device_label i = sm_device_label m) \<and>
    get_session_email a False t jti s' = Some (lower e) \<and>
    (\<forall>u e'. t \<le> u \<longrightarrow> get_session_email a False u jti (unregister_session a (\<lambda>_. False) t jti s') = None \<and>
       jti \<notin> si_jti ` set (fst (list_sessions a False u e' (unregister_session a (\<lambda>_. False) t jti s'))))"
proof (intro conjI allI impI)
  have h: "h_hgetall a (session_key jti) (seconds t) s' = session_fields e now m"
    using recorded_hash[OF assms(1,3-6) seconds_mono[OF assms(7)], of m] assms(8,9) by simp
  let ?s1 = "h_zremrangebyscore a (user_set_key e) 0 (int t) s'"
  have "int t < x * 1000" using assms(8) by (simp add: seconds_def zdiv_int)
  then have "h_zscore a (user_set_key e) jti ?s1 = Some (x * 1000)"
    using recorded_score[OF assms(2-5), of now m s] assms(9) by (simp add: index_lawsD(3)[OF assms(2)])
  then have "jti \<in> set (h_zrange a (user_set_key e) ?s1)" by (simp add: index_lawsD(4)[OF assms(2)])
  moreover have h1: "h_hgetall a (session_key jti) (seconds t) ?s1 = session_fields e now m"
    using h by (simp add: hash_lawsD(8)[OF assms(1)])
  ultimately have "session_of_hash jti (session_fields e now m) \<in> set (fst (list_sessions a False t e s'))"
    using collect_member[OF assms(1), of jti _ "seconds t" ?s1 "user_set_key e"] assms(3)
    by (simp add: list_sessions_def Let_def split_beta session_fields_def)
  then show "\<exists>i \<in> set (fst (list_sessions a False t e s')). si_jti i = jti \<and> si_email i = lower e \<and>
        si_created_at i = now \<and> si_device_label i = sm_device_label m"
    by (rule rev_bexI) (simp add: session_of_hash_def session_fields_def coalesce_def Let_def)
  show "get_session_email a False t jti s' = Some (lower e)"
    using h assms(4) by (simp add: get_session_email_def hash_field_def session_fields_def)
  fix u e' assume u: "t \<le> u"
  let ?s2 = "unregister_session a (\<lambda>_. False) t jti s'"
  have gone: "h_hgetall a (session_key jti) (seconds u) ?s2 = []"
    by (rule unregistered_gone[OF assms(1,4) u])
  then show "get_session_email a False u jti ?s2 = None"
    by (simp add: get_session_email_def hash_field_def)
  show "jti \<notin> si_jti ` set (fst (list_sessions a False u e' ?s2))"
  proof
    assume "jti \<in> si_jti ` set (fst (list_sessions a False u e' ?s2))"
    then obtain i where "i \<in> set (fst (collect_sessions a (seconds u) (user_set_key e')
        (h_zrange a (user_set_key e') (h_zremrangebyscore a (user_set_key e') 0 (int u) ?s2))
        (h_zremrangebyscore a (user_set_key e') 0 (int u) ?s2)))" "si_jti i = jti"
      by (auto simp: list_sessions_def Let_def split_beta split: if_splits)
    then have "h_hgetall a (session_key jti) (seconds u) ?s2 \<noteq> []"
      using collect_sound[OF assms(1)] hash_lawsD(8)[OF assms(1)] by metis
    with gone show False by simp
  qed
qed

lemma session_lifecycle_witness:
  "get_session_email ref_sess_api False 2000000 ''j''
     (record_session ref_sess_api (\<lambda>_. False) 1000000 ''A@x'' ''j'' 4600 \<lparr>sm_user_agent = ''u'', sm_ip = '''', sm_device_label = ''PC''\<rparr>
        \<lparr>rs_hash = [], rs_index = []\<rparr>) = Some ''a@x''"
proof -
  have f: "h_hgetall ref_sess_api k t \<lparr>rs_hash = [], rs_index = []\<rparr> = []" for k t
    by (simp add: ref_sess_api_def live_hash_def)
  have l: "lower ''A@x'' = ''a@x''" by code_simp
  show ?thesis
    using session_lifecycle[OF ref_hash_laws ref_index_laws _ _ _ f _ _ refl, of "''A@x''" "''j''" 4600 1000000 2000000]
    unfolding l by (simp add: seconds_def)
qed

end
