(* ===== verification/AuditLog.thy ===== *)
theory AuditLog
  imports PyText "HOL-Library.Multiset"
begin

text \<open>
  src/app/service/audit_repository.py: the AuditLog nodes, written with best effort
  and read in pages, newest first. \<open>db_ok\<close> is whether the query runs, \<open>uuid\<close> the value of
  randomUUID(), \<open>dumps\<close> and \<open>loads\<close> the JSON codec (None: not JSON).
\<close>

record audit_node =
  al_id :: string
  al_actor :: string
  al_action :: string
  al_target :: string
  al_payload :: string
  al_created :: instant

definition SYSTEM_ACTOR :: string where "SYSTEM_ACTOR = ''SYSTEM:ADMIN_EMAILS''"
definition ACTION_SYSTEM_ADMIN_GRANT :: string where "ACTION_SYSTEM_ADMIN_GRANT = ''system_admin_grant''"
definition ACTION_USER_SELF_DELETE :: string where "ACTION_USER_SELF_DELETE = ''user_self_delete''"

definition audit_write ::
  "bool \<Rightarrow> string \<Rightarrow> instant \<Rightarrow> string \<Rightarrow> string \<Rightarrow> string option \<Rightarrow> string \<Rightarrow> audit_node list
   \<Rightarrow> string option \<times> audit_node list" where
  "audit_write db_ok uuid now actor action target payload log =
     (if \<not> db_ok then (None, log)
      else (Some uuid, log @ [\<lparr>al_id = uuid, al_actor = actor, al_action = action,
              al_target = coalesce target '''', al_payload = payload, al_created = now\<rparr>]))"

definition audit_matches :: "string \<Rightarrow> audit_node \<Rightarrow> bool" where
  "audit_matches q a =
     (q = '''' \<or> substr_in q (lower (al_actor a)) \<or> substr_in q (lower (al_target a)) \<or>
      substr_in q (lower (al_action a)))"

record audit_row =
  ar_id :: string
  ar_actor :: string
  ar_action :: string
  ar_target :: "string option"
  ar_payload :: json
  ar_created :: instant

definition row_to_log :: "(string \<Rightarrow> json option) \<Rightarrow> audit_node \<Rightarrow> audit_row option" where
  "row_to_log loads a =
     (if al_id a = '''' then None
      else Some \<lparr>ar_id = al_id a, ar_actor = al_actor a, ar_action = al_action a,
        ar_target = or_none (Some (al_target a)),
        ar_payload = (let raw = py_or (Some (al_payload a)) ''{}''
                      in case loads raw of Some j \<Rightarrow> j | None \<Rightarrow> JObj [(''_raw'', JStr raw)]),
        ar_created = al_created a\<rparr>)"

record audit_page =
  pg_logs :: "audit_row list"
  pg_total :: nat
  pg_limit :: int
  pg_offset :: int

text \<open>The matching nodes, newest first; nodes of the same instant in scan order.\<close>

definition audit_sorted :: "string \<Rightarrow> audit_node list \<Rightarrow> audit_node list" where
  "audit_sorted q log = sort_key (\<lambda>a. - al_created a) (filter (audit_matches q) log)"

definition list_logs :: "(string \<Rightarrow> json option) \<Rightarrow> string \<Rightarrow> int \<Rightarrow> int \<Rightarrow> audit_node list \<Rightarrow> audit_page" where
  "list_logs loads q limit offset log =
     (let q' = lower (py_strip q);
          l = max 1 (min (if limit = 0 then 50 else limit) 200);
          off = max 0 offset;
          rows = take (nat l) (drop (nat off) (audit_sorted q' log))
      in \<lparr>pg_logs = List.map_filter (row_to_log loads) rows, pg_total = length (filter (audit_matches q') log),
          pg_limit = l, pg_offset = off\<rparr>)"

lemma map_filter_concat: "List.map_filter f (concat xss) = concat (map (List.map_filter f) xss)"
  by (induction xss) (simp_all add: List.map_filter_def)

text \<open>Paging. For a page size between 1 and 200 the first k pages of the audit list, one after the
  other, are the first k times that many matching entries, newest first: no entry is skipped or shown
  twice, and every page reports the number of all of them.\<close>

theorem audit_pages_cover:
  assumes "1 \<le> l" "l \<le> 200" "q' = lower (py_strip q)"
  shows "concat (map (\<lambda>i. pg_logs (list_logs loads q (int l) (int (i * l)) log)) [0..<k]) =
      List.map_filter (row_to_log loads) (take (k * l) (audit_sorted q' log)) \<and>
    pg_total (list_logs loads q (int l) off log) = length (audit_sorted q' log) \<and>
    sorted (map (\<lambda>a. - al_created a) (audit_sorted q' log)) \<and>
    mset (audit_sorted q' log) = mset (filter (audit_matches q') log)"
proof -
  have n: "nat (max 1 (min (int l) 200)) = l" "nat (max 0 (int m)) = m" for m using assms(1,2) by auto
  have "pg_logs (list_logs loads q (int l) (int (i * l)) log) =
      List.map_filter (row_to_log loads) (take l (drop (i * l) (audit_sorted q' log)))" for i
    using assms(1) n(1) n(2)[of "i * l"] by (simp add: list_logs_def Let_def assms(3) del: of_nat_mult)
  then have "concat (map (\<lambda>i. pg_logs (list_logs loads q (int l) (int (i * l)) log)) [0..<k]) =
      concat (map (List.map_filter (row_to_log loads)) (map (\<lambda>i. take l (drop (i * l) (audit_sorted q' log))) [0..<k]))"
    by (simp add: comp_def)
  also have "\<dots> = List.map_filter (row_to_log loads) (take (k * l) (audit_sorted q' log))"
    by (simp only: map_filter_concat[symmetric] concat_pages)
  finally have "concat (map (\<lambda>i. pg_logs (list_logs loads q (int l) (int (i * l)) log)) [0..<k]) =
      List.map_filter (row_to_log loads) (take (k * l) (audit_sorted q' log))" .
  moreover have "pg_total (list_logs loads q (int l) off log) = length (audit_sorted q' log)"
    by (simp add: list_logs_def Let_def audit_sorted_def assms(3))
  ultimately show ?thesis by (simp add: audit_sorted_def)
qed

lemma audit_pages_cover_witness:
  "map ar_id (concat (map (\<lambda>i. pg_logs (list_logs (\<lambda>s. None) '''' (int 1) (int (i * 1))
      [\<lparr>al_id = ''a'', al_actor = ''x'', al_action = ''b'', al_target = '''', al_payload = '''', al_created = 1\<rparr>,
       \<lparr>al_id = ''c'', al_actor = ''x'', al_action = ''b'', al_target = '''', al_payload = '''', al_created = 2\<rparr>])) [0..<2]))
   = [''c'', ''a'']"
proof -
  have e: "lower (py_strip '''') = ''''" by (simp add: py_strip_def py_lstrip_def py_rstrip_def lower_def)
  show ?thesis
    by (subst audit_pages_cover[OF _ _ refl, THEN conjunct1])
       (simp_all add: e audit_sorted_def audit_matches_def List.map_filter_def row_to_log_def Let_def)
qed

end
