(* ===== verification/Auth.thy ===== *)
theory Auth
  imports Users Sessions AuditLog
begin

text \<open>
  src/app/core/security.py (tokens and the current user) and
  src/app/service/auth_service.py (login, logout, refresh with rotation), with
  the session recording of src/app/service/session_helper.py.

  PyJWT and bcrypt are arguments: \<open>x_encode\<close> and \<open>x_decode\<close> (the latter with the
  verify_exp option and the time), \<open>x_checkpw\<close> (None: ValueError or TypeError).
  Times are whole seconds.
\<close>

section \<open>Tokens\<close>

record claims =
  c_sub :: "string option"
  c_type :: "string option"
  c_jti :: "string option"
  c_iat :: "instant option"
  c_exp :: "instant option"
  c_scope :: "string list"
  c_mode :: "string option"
  c_email :: "string option"

datatype jwt_result = Claims claims | ExpiredSignature | InvalidToken

text \<open>What the code relies on: a token decodes to what was encoded while it is not issued in
  the future, expiry is the only thing that changes later, and only with verify_exp.\<close>

definition jwt_laws :: "(claims \<Rightarrow> 't) \<Rightarrow> (bool \<Rightarrow> instant \<Rightarrow> 't \<Rightarrow> jwt_result) \<Rightarrow> bool" where
  "jwt_laws enc dec \<longleftrightarrow>
     (\<forall>c now iat. c_iat c = Some iat \<longrightarrow> iat \<le> now \<longrightarrow> dec False now (enc c) = Claims c) \<and>
     (\<forall>t now c. dec True now t = Claims c \<longrightarrow> dec False now t = Claims c) \<and>
     (\<forall>t now c. dec False now t = Claims c \<longrightarrow>
        dec True now t = (case c_exp c of None \<Rightarrow> Claims c | Some x \<Rightarrow> if x \<le> now then ExpiredSignature else Claims c)) \<and>
     (\<forall>t now now' c. dec False now t = Claims c \<longrightarrow> now \<le> now' \<longrightarrow> dec False now' t = Claims c)"

definition ref_decode :: "bool \<Rightarrow> instant \<Rightarrow> claims \<Rightarrow> jwt_result" where
  "ref_decode v now c =
     (case c_iat c of Some i \<Rightarrow> if now < i then InvalidToken
          else (case c_exp c of Some x \<Rightarrow> if v \<and> x \<le> now then ExpiredSignature else Claims c | None \<Rightarrow> Claims c)
      | None \<Rightarrow> (case c_exp c of Some x \<Rightarrow> if v \<and> x \<le> now then ExpiredSignature else Claims c | None \<Rightarrow> Claims c))"

lemma ref_jwt_laws: "jwt_laws id ref_decode"
  unfolding jwt_laws_def ref_decode_def by (auto split: option.splits if_splits)

lemma jwt_lawsD:
  assumes "jwt_laws enc dec"
  shows "c_iat c = Some iat \<Longrightarrow> iat \<le> now \<Longrightarrow> dec False now (enc c) = Claims c"
    "dec True now t = Claims c \<Longrightarrow> dec False now t = Claims c"
    "dec False now t = Claims c \<Longrightarrow>
       dec True now t = (case c_exp c of None \<Rightarrow> Claims c | Some x \<Rightarrow> if x \<le> now then ExpiredSignature else Claims c)"
    "dec False now t = Claims c \<Longrightarrow> now \<le> now' \<Longrightarrow> dec False now' t = Claims c"
  using assms unfolding jwt_laws_def by blast+

section \<open>State and environment of a request\<close>

record ('k, 'h) auth_state =
  s_graph :: graph
  s_bl :: "'k blacklist"
  s_sess :: 'h
  s_audit :: "audit_node list"

record ('t, 'k, 'h) auth_env =
  x_encode :: "claims \<Rightarrow> 't"
  x_decode :: "bool \<Rightarrow> instant \<Rightarrow> 't \<Rightarrow> jwt_result"
  x_checkpw :: "string \<Rightarrow> string \<Rightarrow> bool option"
  x_epoch :: "instant \<Rightarrow> instant option"
  x_uuid :: "nat \<Rightarrow> string"
  x_now_ms :: nat
  x_clk :: int
  x_kv :: "'k kv_api"
  x_kv_fails :: bool
  x_sess :: "'h sess_api"
  x_sess_fails :: "nat \<Rightarrow> bool"
  x_db_ok :: bool
  x_write_ok :: bool
  x_access_minutes :: int
  x_refresh_days :: int
  x_admin_emails :: "string list"

abbreviation x_now :: "('t, 'k, 'h) auth_env \<Rightarrow> instant" where
  "x_now n \<equiv> seconds (x_now_ms n)"

datatype auth_error = TokenMissing | TokenExpired | TokenInvalid | WrongTokenType | LoggedOutToken |
  NoSubject | UserNotFound | AccountSuspended | SessionEnded | NotAdmin | BadCredentials |
  SuspendedLogin string | NoRevocationData | NotRefreshToken | RefreshUsed | DatabaseDown

text \<open>Every error is an HTTPException with this status; a failing query is an unhandled
  exception.\<close>

definition http_status :: "auth_error \<Rightarrow> nat" where
  "http_status e = (case e of NotAdmin \<Rightarrow> 403 | SuspendedLogin m \<Rightarrow> 403 | NoRevocationData \<Rightarrow> 400
     | DatabaseDown \<Rightarrow> 500 | _ \<Rightarrow> 401)"

section \<open>security.py\<close>

definition verify_password :: "('t, 'k, 'h) auth_env \<Rightarrow> string \<Rightarrow> string \<Rightarrow> bool" where
  "verify_password n plain hashed = (x_checkpw n plain hashed = Some True)"

definition token_claims :: "string \<Rightarrow> string \<Rightarrow> string \<Rightarrow> instant \<Rightarrow> instant \<Rightarrow> string list \<Rightarrow> claims" where
  "token_claims e ty jti now expiry scope =
     \<lparr>c_sub = Some e, c_type = Some ty, c_jti = Some jti, c_iat = Some now, c_exp = Some expiry,
      c_scope = scope, c_mode = None, c_email = None\<rparr>"

text \<open>\<open>i\<close> counts the uuid4 calls of the request.\<close>

definition create_token :: "('t, 'k, 'h) auth_env \<Rightarrow> nat \<Rightarrow> string \<Rightarrow> int \<Rightarrow> string \<Rightarrow> 't \<times> string" where
  "create_token n i sub minutes ty =
     (x_encode n (token_claims sub ty (x_uuid n i) (x_now n) (x_now n + minutes * 60) []), x_uuid n i)"

definition create_access_token :: "('t, 'k, 'h) auth_env \<Rightarrow> nat \<Rightarrow> string \<Rightarrow> 't" where
  "create_access_token n i e = fst (create_token n i e (x_access_minutes n) ''access'')"

definition create_refresh_token :: "('t, 'k, 'h) auth_env \<Rightarrow> nat \<Rightarrow> string \<Rightarrow> 't" where
  "create_refresh_token n i e = fst (create_token n i e (x_refresh_days n * 24 * 60) ''refresh'')"

definition create_mcp_token :: "('t, 'k, 'h) auth_env \<Rightarrow> nat \<Rightarrow> string \<Rightarrow> int \<Rightarrow> 't \<times> string" where
  "create_mcp_token n i e exp_days =
     (x_encode n (token_claims e ''mcp'' (x_uuid n i) (x_now n) (x_now n + exp_days * 86400) [''mcp:read'']),
      x_uuid n i)"

definition decode_token :: "('t, 'k, 'h) auth_env \<Rightarrow> 't \<Rightarrow> auth_error + claims" where
  "decode_token n t =
     (case x_decode n True (x_now n) t of
        Claims c \<Rightarrow> Inr c
      | ExpiredSignature \<Rightarrow> Inl TokenExpired
      | InvalidToken \<Rightarrow> Inl TokenInvalid)"

definition decode_token_lenient :: "('t, 'k, 'h) auth_env \<Rightarrow> 't \<Rightarrow> claims option" where
  "decode_token_lenient n t =
     (case x_decode n False (x_now n) t of Claims c \<Rightarrow> Some c | _ \<Rightarrow> None)"

definition check_revoked ::
  "('t, 'k, 'h) auth_env \<Rightarrow> string option \<Rightarrow> ('k, 'h) auth_state \<Rightarrow> bool \<times> ('k, 'h) auth_state" where
  "check_revoked n jti s =
     (case or_none jti of
        None \<Rightarrow> (False, s)
      | Some j \<Rightarrow> (let (r, b) = is_revoked (x_kv n) (x_kv_fails n) (x_clk n) (x_now n) j (s_bl s)
                   in (r, s\<lparr>s_bl := b\<rparr>)))"

definition issued_before_suspension :: "('t, 'k, 'h) auth_env \<Rightarrow> user_in_db \<Rightarrow> instant option \<Rightarrow> bool" where
  "issued_before_suspension n d iat =
     (case (iat, Option.bind (d_suspended_at d) (x_epoch n)) of
        (Some i, Some t) \<Rightarrow> i < t
      | _ \<Rightarrow> False)"

definition get_current_user ::
  "('t, 'k, 'h) auth_env \<Rightarrow> 't option \<Rightarrow> ('k, 'h) auth_state
   \<Rightarrow> (auth_error + user_public) \<times> ('k, 'h) auth_state" where
  "get_current_user n token s =
     (case token of
        None \<Rightarrow> (Inl TokenMissing, s)
      | Some t \<Rightarrow>
     (case decode_token n t of
        Inl e \<Rightarrow> (Inl e, s)
      | Inr c \<Rightarrow>
         if c_type c \<noteq> Some ''access'' then (Inl WrongTokenType, s)
         else let (revoked, s1) = check_revoked n (c_jti c) s
              in if revoked then (Inl LoggedOutToken, s1)
                 else (case or_none (c_sub c) of
                    None \<Rightarrow> (Inl NoSubject, s1)
                  | Some e \<Rightarrow>
                      if \<not> x_db_ok n then (Inl DatabaseDown, s1)
                      else (case get_user_by_email e (s_graph s1) of
                         None \<Rightarrow> (Inl UserNotFound, s1)
                       | Some d \<Rightarrow>
                           if d_is_suspended d then (Inl AccountSuspended, s1)
                           else if issued_before_suspension n d (c_iat c) then (Inl SessionEnded, s1)
                           else (Inr (from_db d), s1)))))"

definition get_admin_user :: "user_public \<Rightarrow> auth_error + user_public" where
  "get_admin_user u = (if \<not> b_is_admin u then Inl NotAdmin else Inr u)"

section \<open>auth_service.py\<close>

definition auto_promote_if_in_admin_emails ::
  "('t, 'k, 'h) auth_env \<Rightarrow> string \<Rightarrow> string \<Rightarrow> ('k, 'h) auth_state \<Rightarrow> bool \<times> ('k, 'h) auth_state" where
  "auto_promote_if_in_admin_emails n reason e s =
     (if x_admin_emails n = [] \<or> lower e \<notin> set (x_admin_emails n) then (False, s)
      else let (promoted, g) = promote_admins_by_emails (x_db_ok n) (x_now n) [e] (s_graph s);
               s1 = s\<lparr>s_graph := g\<rparr>
           in if promoted = [] then (False, s1)
              else (True, s1\<lparr>s_audit := snd (audit_write (x_write_ok n) (x_uuid n 0) (x_now n) SYSTEM_ACTOR
                      ACTION_SYSTEM_ADMIN_GRANT (Some e) reason (s_audit s1))\<rparr>))"

definition suspended_message :: "string option \<Rightarrow> string" where
  "suspended_message reason =
     (let head = bytes [234, 179, 132, 236, 160, 149, 236, 157, 180, 32, 236, 160, 149, 236, 167, 128,
                        235, 144, 152, 236, 151, 136, 236, 138, 181, 235, 139, 136, 235, 139, 164, 46]
      in case or_none reason of
           Some r \<Rightarrow> if py_strip r \<noteq> '''' then head @ bytes [32, 236, 130, 172, 236, 156, 160, 58, 32] @ py_strip r
                     else head @ bytes [32, 234, 179, 160, 234, 176, 157, 236, 132, 188, 237, 132, 176, 235, 161, 156,
                            32, 235, 172, 184, 236, 157, 152, 237, 149, 180, 32, 236, 163, 188, 236, 132, 184, 236, 154, 148, 46]
         | None \<Rightarrow> head @ bytes [32, 234, 179, 160, 234, 176, 157, 236, 132, 188, 237, 132, 176, 235, 161, 156,
                            32, 235, 172, 184, 236, 157, 152, 237, 149, 180, 32, 236, 163, 188, 236, 132, 184, 236, 154, 148, 46])"

definition login ::
  "('t, 'k, 'h) auth_env \<Rightarrow> string \<Rightarrow> string \<Rightarrow> ('k, 'h) auth_state
   \<Rightarrow> (auth_error + user_public \<times> 't \<times> 't) \<times> ('k, 'h) auth_state" where
  "login n e password s =
     (if \<not> x_db_ok n then (Inl DatabaseDown, s)
      else (case get_user_by_email e (s_graph s) of
         None \<Rightarrow> (Inl BadCredentials, s)
       | Some d \<Rightarrow>
           if \<not> verify_password n password (d_hashed_password d) then (Inl BadCredentials, s)
           else if d_is_suspended d then (Inl (SuspendedLogin (suspended_message (d_suspended_reason d))), s)
           else (Inr (from_db d, create_access_token n 0 (d_email d), create_refresh_token n 1 (d_email d)),
                 s\<lparr>s_graph := touch_last_active (x_write_ok n) (x_now n) (d_email d) (s_graph s)\<rparr>)))"

text \<open>The inner function of logout.\<close>

definition blacklist_token ::
  "('t, 'k, 'h) auth_env \<Rightarrow> 't \<Rightarrow> bool \<Rightarrow> ('k, 'h) auth_state \<Rightarrow> auth_error option \<times> ('k, 'h) auth_state" where
  "blacklist_token n t strict s =
     (case (if strict then map_sum id Some (decode_token n t) else Inr (decode_token_lenient n t)) of
        Inl e \<Rightarrow> (Some e, s)
      | Inr None \<Rightarrow> (None, s)
      | Inr (Some c) \<Rightarrow>
          if or_none (c_jti c) = None \<or> coalesce (c_exp c) 0 = 0
          then (if strict then (Some NoRevocationData, s) else (None, s))
          else (None, s\<lparr>s_bl := snd (revoke_if_new (x_kv n) (x_kv_fails n) (x_clk n) (x_now n) (c_jti c) (c_exp c) (s_bl s))\<rparr>))"

definition logout ::
  "('t, 'k, 'h) auth_env \<Rightarrow> 't \<Rightarrow> 't option \<Rightarrow> ('k, 'h) auth_state \<Rightarrow> auth_error option \<times> ('k, 'h) auth_state" where
  "logout n access refresh s =
     (case blacklist_token n access True s of
        (Some e, s1) \<Rightarrow> (Some e, s1)
      | (None, s1) \<Rightarrow>
         (let s2 = (case refresh of None \<Rightarrow> s1 | Some r \<Rightarrow> snd (blacklist_token n r False s1))
          in (None, case Option.bind (decode_token_lenient n access) (or_none \<circ> c_jti) of
                None \<Rightarrow> s2
              | Some j \<Rightarrow> s2\<lparr>s_sess := unregister_session (x_sess n) (x_sess_fails n) (x_now_ms n) j (s_sess s2)\<rparr>)))"

definition enforce_not_suspended :: "('t, 'k, 'h) auth_env \<Rightarrow> user_in_db \<Rightarrow> instant option \<Rightarrow> auth_error option" where
  "enforce_not_suspended n d iat =
     (if d_is_suspended d then Some AccountSuspended
      else if issued_before_suspension n d iat then Some SessionEnded
      else None)"

definition refresh_access_token ::
  "('t, 'k, 'h) auth_env \<Rightarrow> 't \<Rightarrow> ('k, 'h) auth_state \<Rightarrow> (auth_error + 't \<times> 't) \<times> ('k, 'h) auth_state" where
  "refresh_access_token n t s =
     (case decode_token n t of
        Inl e \<Rightarrow> (Inl e, s)
      | Inr c \<Rightarrow>
         if c_type c \<noteq> Some ''refresh'' then (Inl NotRefreshToken, s)
         else (case or_none (c_sub c) of
            None \<Rightarrow> (Inl NoSubject, s)
          | Some e \<Rightarrow>
             (let (revoked, s1) = check_revoked n (c_jti c) s
              in if revoked then (Inl RefreshUsed, s1)
                 else if \<not> x_db_ok n then (Inl DatabaseDown, s1)
                 else (case get_user_by_email e (s_graph s1) of
                    None \<Rightarrow> (Inl UserNotFound, s1)
                  | Some d \<Rightarrow>
                     (case enforce_not_suspended n d (c_iat c) of
                        Some er \<Rightarrow> (Inl er, s1)
                      | None \<Rightarrow>
                         (let s2 = (if or_none (c_jti c) \<noteq> None \<and> coalesce (c_exp c) 0 \<noteq> 0
                                    then s1\<lparr>s_bl := snd (revoke_if_new (x_kv n) (x_kv_fails n) (x_clk n) (x_now n)
                                              (c_jti c) (c_exp c) (s_bl s1))\<rparr>
                                    else s1)
                          in (Inr (create_access_token n 0 e, create_refresh_token n 1 e),
                              s2\<lparr>s_graph := touch_last_active (x_write_ok n) (x_now n) e (s_graph s2)\<rparr>)))))))"

section \<open>session_helper.record_access_token_session\<close>

definition record_access_token_session ::
  "('t, 'k, 'h) auth_env \<Rightarrow> 't \<Rightarrow> request_meta option \<Rightarrow> ('k, 'h) auth_state \<Rightarrow> ('k, 'h) auth_state" where
  "record_access_token_session n t req s =
     (case decode_token_lenient n t of
        None \<Rightarrow> s
      | Some c \<Rightarrow>
         (case (or_none (c_sub c), or_none (c_jti c), c_exp c) of
            (Some e, Some j, Some x) \<Rightarrow>
              if x = 0 then s
              else s\<lparr>s_sess := record_session (x_sess n) (x_sess_fails n) (x_now_ms n) e j x
                      \<lparr>sm_user_agent = user_agent req, sm_ip = client_ip req,
                       sm_device_label = device_label_from_ua (user_agent req)\<rparr> (s_sess s)\<rparr>
          | _ \<Rightarrow> s))"

section \<open>Revoked tokens stay refused\<close>

definition same_services :: "('t, 'k, 'h) auth_env \<Rightarrow> ('t, 'k, 'h) auth_env \<Rightarrow> bool" where
  "same_services n m \<longleftrightarrow> x_encode m = x_encode n \<and> x_decode m = x_decode n \<and> x_kv m = x_kv n \<and> x_epoch m = x_epoch n"

definition auth_laws :: "('t, 'k, 'h) auth_env \<Rightarrow> bool" where
  "auth_laws n \<longleftrightarrow> jwt_laws (x_encode n) (x_decode n) \<and> kv_laws (x_kv n)"

definition redis_up :: "('t, 'k, 'h) auth_env \<Rightarrow> 'k blacklist \<Rightarrow> bool" where
  "redis_up n b \<longleftrightarrow> \<not> x_kv_fails n \<and> \<not> cb_open (x_clk n) b \<and> 0 \<le> bl_last_failure b"

definition later :: "('t, 'k, 'h) auth_env \<Rightarrow> ('t, 'k, 'h) auth_env \<Rightarrow> bool" where
  "later n m \<longleftrightarrow> same_services n m \<and> x_now_ms n \<le> x_now_ms m"

text \<open>A token that neither the strict decoder nor the blacklist lets through.\<close>

definition refused :: "('t, 'k, 'h) auth_env \<Rightarrow> 'k blacklist \<Rightarrow> 't \<Rightarrow> bool" where
  "refused n b t =
     (case decode_token n t of
        Inl e \<Rightarrow> True
      | Inr c \<Rightarrow> (case or_none (c_jti c) of None \<Rightarrow> False
                | Some j \<Rightarrow> fst (is_revoked (x_kv n) (x_kv_fails n) (x_clk n) (x_now n) j b)))"

lemma later_simps:
  assumes "later n m"
  shows "x_now n \<le> x_now m" "x_decode m = x_decode n" "x_kv m = x_kv n" "x_encode m = x_encode n" "x_epoch m = x_epoch n"
  using assms seconds_mono by (auto simp: later_def same_services_def)

lemma later_refl: "later n n" by (simp add: later_def same_services_def)

lemma refused_current_user: "refused n (s_bl s) t \<Longrightarrow> \<exists>e. fst (get_current_user n (Some t) s) = Inl e"
  unfolding refused_def get_current_user_def check_revoked_def
  by (auto split: sum.splits option.splits if_splits prod.splits)

lemma refused_refresh: "refused n (s_bl s) t \<Longrightarrow> \<exists>e. fst (refresh_access_token n t s) = Inl e"
  unfolding refused_def refresh_access_token_def check_revoked_def
  by (auto split: sum.splits option.splits if_splits prod.splits)

text \<open>What a successful revocation leaves in Redis.\<close>

definition marks :: "('t, 'k, 'h) auth_env \<Rightarrow> string \<Rightarrow> instant \<Rightarrow> 'k blacklist \<Rightarrow> bool" where
  "marks n j x b \<longleftrightarrow> bl_last_failure b = 0 \<and>
     (\<forall>t. x_now n \<le> t \<longrightarrow> t < x \<longrightarrow> kv_get (x_kv n) (revoked_key j) t (bl_kv b) \<noteq> None)"

lemma revoke_marks:
  assumes "kv_laws (x_kv n)" "redis_up n b" "j \<noteq> ''''" "x \<noteq> 0"
  shows "marks n j x (snd (revoke_if_new (x_kv n) (x_kv_fails n) (x_clk n) (x_now n) (Some j) (Some x) b))"
proof -
  have "or_none (Some j) = Some j" using assms(3) by (cases j) simp_all
  then show ?thesis
    using assms(2,4) by (auto simp: marks_def redis_up_def revoke_if_new_def revoke_def kv_lawsD(1)[OF assms(1)])
qed

lemma or_none_Some: "or_none x = Some j \<Longrightarrow> x = Some j"
  by (cases x; cases "the x") simp_all

lemma revoke_keeps_marks:
  assumes "kv_laws (x_kv n)" "redis_up n b" "marks n j x b" "jo \<noteq> Some j"
  shows "marks n j x (snd (revoke_if_new (x_kv n) (x_kv_fails n) (x_clk n) (x_now n) jo xo b))"
proof (cases "or_none jo")
  case (Some j')
  then have "revoked_key j \<noteq> revoked_key j'" using assms(4) or_none_Some by (auto simp: revoked_key_def)
  then show ?thesis using assms(2,3) Some
    by (simp add: marks_def redis_up_def revoke_if_new_def revoke_def kv_lawsD(1)[OF assms(1)] split: option.split)
qed (use assms(3) in \<open>simp add: revoke_if_new_def\<close>)

lemma marks_refused:
  assumes "auth_laws n" "later n m" "x_decode n False (x_now n) t = Claims c" "c_jti c = Some j" "j \<noteq> ''''"
    and "c_exp c = Some x" "x \<noteq> 0 \<Longrightarrow> marks n j x b" "redis_up m b"
  shows "refused m b t"
proof -
  note l = later_simps[OF assms(2)]
  have jl: "jwt_laws (x_encode n) (x_decode n)" using assms(1) by (simp add: auth_laws_def)
  have "x_decode n False (x_now m) t = Claims c" using jwt_lawsD(4)[OF jl assms(3) l(1)] .
  then have d: "x_decode n True (x_now m) t = (if x \<le> x_now m then ExpiredSignature else Claims c)"
    using jwt_lawsD(3)[OF jl] assms(6) by simp
  have o: "or_none (Some j) = Some j" using assms(5) by (cases j) simp_all
  have "x \<noteq> 0" if "\<not> x \<le> x_now m" using that by (auto simp: seconds_def)
  then show ?thesis
    using d o assms(4,7,8) l by (auto simp: refused_def decode_token_def is_revoked_def redis_up_def marks_def)
qed

lemma find_touch:
  "get_user_by_email e (touch_last_active ok now e' g) = get_user_by_email e g"
proof (cases "e = e'")
  case True
  have "users_with e (set_users e (\<lambda>u. u\<lparr>u_last_active_at := Some now\<rparr>) g) =
      map (\<lambda>u. u\<lparr>u_last_active_at := Some now\<rparr>) (users_with e g)"
    by (simp add: set_users_def table_simps)
  then show ?thesis using True
    by (simp add: get_user_by_email_def touch_last_active_def find_user_def to_user_in_db_def split: option.split)
next
  case False
  then have "users_with e (set_users e' (\<lambda>u. u\<lparr>u_last_active_at := Some now\<rparr>) g) = users_with e g"
    by (simp add: set_users_def table_simps)
  then show ?thesis by (simp add: get_user_by_email_def touch_last_active_def find_user_def)
qed

lemma redis_up_reset: "redis_up n b \<Longrightarrow> redis_up n (b\<lparr>bl_last_failure := 0\<rparr>)"
  by (simp add: redis_up_def cb_open_def)

lemma check_revoked_up:
  assumes "redis_up n (s_bl s)" "j \<noteq> ''''"
  shows "check_revoked n (Some j) s =
    (kv_get (x_kv n) (revoked_key j) (x_now n) (bl_kv (s_bl s)) \<noteq> None, s\<lparr>s_bl := (s_bl s)\<lparr>bl_last_failure := 0\<rparr>\<rparr>)"
proof -
  have "or_none (Some j) = Some j" using assms(2) by (cases j) simp_all
  then show ?thesis using assms(1) by (simp add: check_revoked_def is_revoked_def redis_up_def)
qed

definition access_claims :: "('t, 'k, 'h) auth_env \<Rightarrow> nat \<Rightarrow> string \<Rightarrow> claims" where
  "access_claims n i e = token_claims e ''access'' (x_uuid n i) (x_now n) (x_now n + x_access_minutes n * 60) []"

definition refresh_claims :: "('t, 'k, 'h) auth_env \<Rightarrow> nat \<Rightarrow> string \<Rightarrow> claims" where
  "refresh_claims n i e =
     token_claims e ''refresh'' (x_uuid n i) (x_now n) (x_now n + x_refresh_days n * 24 * 60 * 60) []"

lemma claims_of_tokens:
  assumes "auth_laws n" "later n m"
  shows "x_decode n False (x_now m) (create_access_token n i e) = Claims (access_claims n i e)"
    "x_decode n False (x_now m) (create_refresh_token n i e) = Claims (refresh_claims n i e)"
proof -
  have jl: "jwt_laws (x_encode n) (x_decode n)" using assms(1) by (simp add: auth_laws_def)
  show "x_decode n False (x_now m) (create_access_token n i e) = Claims (access_claims n i e)"
    "x_decode n False (x_now m) (create_refresh_token n i e) = Claims (refresh_claims n i e)"
    by (simp_all add: create_access_token_def create_refresh_token_def create_token_def access_claims_def
        refresh_claims_def jwt_lawsD(1)[OF jl _ later_simps(1)[OF assms(2)]] token_claims_def)
qed

lemma strict_of_tokens:
  assumes "auth_laws n" "later n m"
  shows "decode_token m (create_access_token n i e) =
      (if x_now n + x_access_minutes n * 60 \<le> x_now m then Inl TokenExpired else Inr (access_claims n i e))"
    "decode_token m (create_refresh_token n i e) =
      (if x_now n + x_refresh_days n * 24 * 60 * 60 \<le> x_now m then Inl TokenExpired else Inr (refresh_claims n i e))"
proof -
  have jl: "jwt_laws (x_encode n) (x_decode n)" using assms(1) by (simp add: auth_laws_def)
  show "decode_token m (create_access_token n i e) =
      (if x_now n + x_access_minutes n * 60 \<le> x_now m then Inl TokenExpired else Inr (access_claims n i e))"
    "decode_token m (create_refresh_token n i e) =
      (if x_now n + x_refresh_days n * 24 * 60 * 60 \<le> x_now m then Inl TokenExpired else Inr (refresh_claims n i e))"
    using jwt_lawsD(3)[OF jl claims_of_tokens(1)[OF assms]] jwt_lawsD(3)[OF jl claims_of_tokens(2)[OF assms]]
    by (simp_all add: decode_token_def later_simps[OF assms(2)] access_claims_def refresh_claims_def token_claims_def)
qed

lemma later_trans: "later n m \<Longrightarrow> later m k \<Longrightarrow> later n k"
  by (auto simp: later_def same_services_def)

lemma later_laws: "auth_laws n \<Longrightarrow> later n m \<Longrightarrow> auth_laws m"
  by (simp add: auth_laws_def later_def same_services_def)

text \<open>C17: Rotation. A refresh token that was exchanged for a new pair while Redis worked is refused in every
  later request that finds Redis working, whatever else happens to the accounts; but while the circuit
  breaker is open the exchange leaves no mark and the same token buys a pair again.\<close>

theorem refresh_rotation:
  assumes "auth_laws n0" "later n0 n" "t = create_refresh_token n0 i e" "x_uuid n0 i \<noteq> ''''"
    and "refresh_access_token n t s = (Inr p, s')"
  shows "(redis_up n (s_bl s) \<longrightarrow> (\<forall>m u. later n m \<and> s_bl u = s_bl s' \<and> redis_up m (s_bl u) \<longrightarrow>
            (\<exists>er. fst (refresh_access_token m t u) = Inl er))) \<and>
    (cb_open (x_clk n) (s_bl s) \<longrightarrow> fst (refresh_access_token n t s') = Inr p) \<and>
    p = (create_access_token n 0 e, create_refresh_token n 1 e)"
proof -
  let ?c = "refresh_claims n0 i e" and ?x = "x_now n0 + x_refresh_days n0 * 24 * 60 * 60"
  have c: "c_type ?c = Some ''refresh''" "c_sub ?c = Some e" "c_jti ?c = Some (x_uuid n0 i)" "c_exp ?c = Some ?x"
    "c_iat ?c = Some (x_now n0)" by (simp_all add: refresh_claims_def token_claims_def)
  have o: "or_none (Some (x_uuid n0 i)) = Some (x_uuid n0 i)" using assms(4) by (cases "x_uuid n0 i") simp_all
  have d: "decode_token n t = Inr ?c"
    using assms(3,5) strict_of_tokens(2)[OF assms(1,2), of i e]
    by (auto simp: refresh_access_token_def split: if_splits)
  note k = assms(5)[unfolded refresh_access_token_def d, simplified, unfolded c]
  have p: "p = (create_access_token n 0 e, create_refresh_token n 1 e)"
    using k by (auto simp: Let_def split: option.splits prod.splits if_splits dest: or_none_Some)
  have up: "\<exists>er. fst (refresh_access_token m t u) = Inl er"
    if "redis_up n (s_bl s)" "later n m" "s_bl u = s_bl s'" "redis_up m (s_bl u)" for m u
  proof -
    have "?x \<noteq> 0 \<Longrightarrow> marks n (x_uuid n0 i) ?x (s_bl s')"
      using k o check_revoked_up[OF that(1) assms(4)]
        revoke_marks[OF _ redis_up_reset[OF that(1)] assms(4), of ?x] later_laws[OF assms(1,2)]
      by (auto simp: Let_def auth_laws_def split: option.splits if_splits)
    then have "refused m (s_bl u) t"
      using marks_refused[OF later_laws[OF assms(1,2)] that(2) _ c(3) assms(4) c(4) _ that(4)]
        claims_of_tokens(2)[OF assms(1,2), of i e] later_simps[OF assms(2)] assms(3) that(3) by simp
    then show ?thesis by (rule refused_refresh)
  qed
  have "s_bl s' = s_bl s \<and> s_graph s' = touch_last_active (x_write_ok n) (x_now n) (the (or_none (Some e))) (s_graph s)" if "cb_open (x_clk n) (s_bl s)"
    using k o that
    by (auto simp: Let_def check_revoked_def is_revoked_def revoke_if_new_def revoke_def split: option.splits if_splits)
  then have "fst (refresh_access_token n t s') = fst (refresh_access_token n t s)" if "cb_open (x_clk n) (s_bl s)"
    using that d c o
    by (auto simp: refresh_access_token_def check_revoked_def is_revoked_def find_touch Let_def split: option.splits)
  with p assms(5) have r: "cb_open (x_clk n) (s_bl s) \<longrightarrow> fst (refresh_access_token n t s') = Inr p" by simp
  show ?thesis
    by (intro conjI allI impI r p; elim conjE; rule up)
qed

text \<open>A concrete environment for the examples.\<close>

definition example_env :: "nat \<Rightarrow> int \<Rightarrow> string \<Rightarrow> string \<Rightarrow> (claims, (string \<times> string \<times> instant) list, ref_sess) auth_env" where
  "example_env ms clk j0 j1 = \<lparr>x_encode = id, x_decode = ref_decode, x_checkpw = (\<lambda>p h. Some (p = h)),
     x_epoch = Some, x_uuid = (\<lambda>i. if i = 0 then j0 else j1), x_now_ms = ms, x_clk = clk, x_kv = ref_kv,
     x_kv_fails = False, x_sess = ref_sess_api, x_sess_fails = (\<lambda>_. False), x_db_ok = True, x_write_ok = True,
     x_access_minutes = 60, x_refresh_days = 7, x_admin_emails = [''root@x'']\<rparr>"

definition example_state :: "int \<Rightarrow> ((string \<times> string \<times> instant) list, ref_sess) auth_state" where
  "example_state lf = \<lparr>s_graph = empty_graph\<lparr>g_users := [(blank_user ''a'')\<lparr>u_hashed_password := ''pw''\<rparr>]\<rparr>,
     s_bl = \<lparr>bl_kv = [], bl_last_failure = lf\<rparr>, s_sess = \<lparr>rs_hash = [], rs_index = []\<rparr>, s_audit = []\<rparr>"

lemma example_fields [simp]:
  "x_encode (example_env ms clk j0 j1) = id" "x_decode (example_env ms clk j0 j1) = ref_decode"
  "x_checkpw (example_env ms clk j0 j1) = (\<lambda>p h. Some (p = h))" "x_epoch (example_env ms clk j0 j1) = Some"
  "x_uuid (example_env ms clk j0 j1) 0 = j0" "x_uuid (example_env ms clk j0 j1) (Suc i) = j1"
  "x_now_ms (example_env ms clk j0 j1) = ms" "x_clk (example_env ms clk j0 j1) = clk"
  "x_kv (example_env ms clk j0 j1) = ref_kv" "\<not> x_kv_fails (example_env ms clk j0 j1)"
  "x_sess (example_env ms clk j0 j1) = ref_sess_api" "x_sess_fails (example_env ms clk j0 j1) = (\<lambda>_. False)"
  "x_db_ok (example_env ms clk j0 j1)" "x_write_ok (example_env ms clk j0 j1)"
  "x_access_minutes (example_env ms clk j0 j1) = 60" "x_refresh_days (example_env ms clk j0 j1) = 7"
  "x_admin_emails (example_env ms clk j0 j1) = [''root@x'']"
  by (simp_all add: example_env_def)

lemma example_laws [simp]: "auth_laws (example_env ms clk j0 j1)"
  using ref_jwt_laws ref_kv_laws by (simp add: auth_laws_def)

lemma example_later [simp]: "a \<le> b \<Longrightarrow> later (example_env a clk j0 j1) (example_env b clk' k0 k1)"
  by (simp add: later_def same_services_def)

lemma example_user: "get_user_by_email ''a'' (s_graph (example_state lf))
    = Some (to_user_in_db ((blank_user ''a'')\<lparr>u_hashed_password := ''pw''\<rparr>))"
  by (simp add: example_state_def get_user_by_email_def find_user_def empty_graph_def blank_user_def)

lemma example_refresh:
  "fst (refresh_access_token (example_env 2000 200 ''k0'' ''k1'') (create_refresh_token (example_env 1000 100 ''j0'' ''j1'') (Suc 0) ''a'')
     (example_state lf)) = Inr (create_access_token (example_env 2000 200 ''k0'' ''k1'') 0 ''a'',
       create_refresh_token (example_env 2000 200 ''k0'' ''k1'') (Suc 0) ''a'')"
proof -
  have d: "decode_token (example_env 2000 200 ''k0'' ''k1'') (create_refresh_token (example_env 1000 100 ''j0'' ''j1'') (Suc 0) ''a'')
      = Inr (refresh_claims (example_env 1000 100 ''j0'' ''j1'') (Suc 0) ''a'')"
    using strict_of_tokens(2)[of "example_env 1000 100 ''j0'' ''j1''" "example_env 2000 200 ''k0'' ''k1''"]
    by (simp add: seconds_def)
  have c: "check_revoked (example_env 2000 200 ''k0'' ''k1'') (Some ''j1'') (example_state lf) = (False, x) \<Longrightarrow>
      s_graph x = s_graph (example_state lf)" for x
    by (auto simp: check_revoked_def Let_def split: prod.splits)
  have r: "fst (check_revoked (example_env 2000 200 ''k0'' ''k1'') (Some ''j1'') (example_state lf)) = False"
    by (simp add: check_revoked_def is_revoked_def example_state_def ref_kv_def live_value_def)
  obtain x where x: "check_revoked (example_env 2000 200 ''k0'' ''k1'') (Some ''j1'') (example_state lf) = (False, x)"
    using r by (metis prod.collapse)
  have cl: "c_type (refresh_claims (example_env 1000 100 ''j0'' ''j1'') (Suc 0) ''a'') = Some ''refresh''"
    "c_sub (refresh_claims (example_env 1000 100 ''j0'' ''j1'') (Suc 0) ''a'') = Some ''a''"
    "c_jti (refresh_claims (example_env 1000 100 ''j0'' ''j1'') (Suc 0) ''a'') = Some ''j1''"
    by (simp_all add: refresh_claims_def token_claims_def)
  have en: "enforce_not_suspended n (to_user_in_db ((blank_user ''a'')\<lparr>u_hashed_password := ''pw''\<rparr>)) i = None" for n :: "('t, 'k, 'h) auth_env" and i
    by (simp add: enforce_not_suspended_def issued_before_suspension_def to_user_in_db_def blank_user_def split: option.split)
  show ?thesis
    by (simp add: refresh_access_token_def d cl x c[OF x] example_user en Let_def)
qed

lemma refresh_rotation_witness:
  "(\<exists>er. fst (refresh_access_token (example_env 3000 300 ''m0'' ''m1'') (create_refresh_token (example_env 1000 100 ''j0'' ''j1'') (Suc 0) ''a'')
     (snd (refresh_access_token (example_env 2000 200 ''k0'' ''k1'')
        (create_refresh_token (example_env 1000 100 ''j0'' ''j1'') (Suc 0) ''a'') (example_state 0)))) = Inl er) \<and>
   (\<exists>p. fst (refresh_access_token (example_env 2000 200 ''k0'' ''k1'') (create_refresh_token (example_env 1000 100 ''j0'' ''j1'') (Suc 0) ''a'')
     (snd (refresh_access_token (example_env 2000 200 ''k0'' ''k1'')
        (create_refresh_token (example_env 1000 100 ''j0'' ''j1'') (Suc 0) ''a'') (example_state 190)))) = Inr p)"
proof -
  let ?q = "example_env 1000 100 ''j0'' ''j1''" and ?n = "example_env 2000 200 ''k0'' ''k1''"
    and ?m = "example_env 3000 300 ''m0'' ''m1''"
  let ?t = "create_refresh_token ?q (Suc 0) ''a''"
  have e: "refresh_access_token ?n ?t (example_state lf) =
      (Inr (create_access_token ?n 0 ''a'', create_refresh_token ?n (Suc 0) ''a''), snd (refresh_access_token ?n ?t (example_state lf)))" for lf
    by (rule prod_eqI) (use example_refresh in simp_all)
  have u: "x_uuid ?q (Suc 0) \<noteq> ''''" by simp
  have up: "redis_up ?n (s_bl (example_state 0))" and closed: "cb_open (x_clk ?n) (s_bl (example_state 190))"
    by (simp_all add: redis_up_def cb_open_def cb_cooldown_def example_state_def)
  have "bl_last_failure (s_bl (snd (refresh_access_token ?n ?t (example_state 0)))) = 0"
    by (auto simp: refresh_access_token_def check_revoked_def is_revoked_def revoke_if_new_def revoke_def
        example_state_def Let_def split: sum.splits option.splits if_splits)
  then have "redis_up ?m (s_bl (snd (refresh_access_token ?n ?t (example_state 0))))"
    by (simp add: redis_up_def cb_open_def cb_cooldown_def)
  with up have a: "\<exists>er. fst (refresh_access_token ?m ?t (snd (refresh_access_token ?n ?t (example_state 0)))) = Inl er"
    using refresh_rotation[OF _ _ refl u e, of 0] by simp
  have b: "fst (refresh_access_token ?n ?t (snd (refresh_access_token ?n ?t (example_state 190)))) =
      Inr (create_access_token ?n 0 ''a'', create_refresh_token ?n (Suc 0) ''a'')"
    using refresh_rotation[OF _ _ refl u e, of 190] closed by simp
  from a b show ?thesis by blast
qed

section \<open>Logout\<close>

lemma blacklist_marks:
  assumes "auth_laws n" "redis_up n (s_bl s)" "decode_token_lenient n t = Some c" "strict \<Longrightarrow> decode_token n t = Inr c"
    and "c_jti c = Some j" "j \<noteq> ''''" "c_exp c = Some x" "x \<noteq> 0"
  shows "\<exists>b. blacklist_token n t strict s = (None, s\<lparr>s_bl := b\<rparr>) \<and> marks n j x b \<and>
    b = snd (revoke_if_new (x_kv n) (x_kv_fails n) (x_clk n) (x_now n) (Some j) (Some x) (s_bl s))"
proof -
  have "or_none (Some j) = Some j" using assms(6) by (cases j) simp_all
  moreover have "kv_laws (x_kv n)" using assms(1) by (simp add: auth_laws_def)
  ultimately show ?thesis
    using assms revoke_marks[of n "s_bl s" j x] by (simp add: blacklist_token_def)
qed

lemma marks_up:
  assumes "redis_up n b" "marks n j x b'" "bl_last_failure b' = 0"
  shows "redis_up n b'"
  using assms by (simp add: redis_up_def cb_open_def)

text \<open>C18: Logout. With Redis up, a logout with a live access token and its refresh token makes both useless in
  every later request that finds Redis working, and removes the session from the registry. An access
  token that has already expired makes the logout fail before the refresh token is looked at.\<close>

theorem logout_revokes:
  assumes "auth_laws n0" "later n0 n" "redis_up n (s_bl s)"
    and "a = create_access_token n0 i e" "r = create_refresh_token n0 i' e"
    and "x_uuid n0 i \<noteq> ''''" "x_uuid n0 i' \<noteq> ''''" "x_uuid n0 i \<noteq> x_uuid n0 i'" "0 < x_refresh_days n0"
  shows "(x_now n < x_now n0 + x_access_minutes n0 * 60 \<longrightarrow> fst (logout n a (Some r) s) = None \<and>
      (\<forall>m u. later n m \<and> s_bl u = s_bl (snd (logout n a (Some r) s)) \<and> redis_up m (s_bl u) \<longrightarrow>
         (\<exists>er. fst (get_current_user m (Some a) u) = Inl er) \<and> (\<exists>er. fst (refresh_access_token m r u) = Inl er)) \<and>
      s_sess (snd (logout n a (Some r) s)) =
        unregister_session (x_sess n) (x_sess_fails n) (x_now_ms n) (x_uuid n0 i) (s_sess s)) \<and>
    (x_now n0 + x_access_minutes n0 * 60 \<le> x_now n \<longrightarrow> logout n a (Some r) s = (Some TokenExpired, s))"
proof -
  let ?ca = "access_claims n0 i e" and ?xa = "x_now n0 + x_access_minutes n0 * 60"
  let ?cr = "refresh_claims n0 i' e" and ?xr = "x_now n0 + x_refresh_days n0 * 24 * 60 * 60"
  note l = later_simps[OF assms(2)] and nl = later_laws[OF assms(1,2)]
  have c: "c_jti ?ca = Some (x_uuid n0 i)" "c_exp ?ca = Some ?xa" "c_jti ?cr = Some (x_uuid n0 i')" "c_exp ?cr = Some ?xr"
    by (simp_all add: access_claims_def refresh_claims_def token_claims_def)
  have o: "or_none (Some (x_uuid n0 i)) = Some (x_uuid n0 i)" using assms(6) by (cases "x_uuid n0 i") simp_all
  have dr: "x_decode n False (x_now n) a = Claims ?ca" "x_decode n False (x_now n) r = Claims ?cr"
    using claims_of_tokens[OF assms(1,2)] l assms(4,5) by simp_all
  then have dl: "decode_token_lenient n a = Some ?ca" "decode_token_lenient n r = Some ?cr"
    by (simp_all add: decode_token_lenient_def)
  have z: "0 \<le> x_now n0" "0 \<le> x_now n" by (simp_all add: seconds_def)
  then have xr: "?xr \<noteq> 0" using assms(9) by simp
  have main: "fst (logout n a (Some r) s) = None \<and>
      (\<forall>m u. later n m \<and> s_bl u = s_bl (snd (logout n a (Some r) s)) \<and> redis_up m (s_bl u) \<longrightarrow>
         refused m (s_bl u) a \<and> refused m (s_bl u) r) \<and>
      s_sess (snd (logout n a (Some r) s)) =
        unregister_session (x_sess n) (x_sess_fails n) (x_now_ms n) (x_uuid n0 i) (s_sess s)"
    if live: "x_now n < ?xa"
  proof -
    have xa: "?xa \<noteq> 0" using z live by simp
    have st: "decode_token n a = Inr ?ca" using strict_of_tokens(1)[OF assms(1,2)] assms(4) live by simp
    obtain b where b: "blacklist_token n a True s = (None, s\<lparr>s_bl := b\<rparr>)" "marks n (x_uuid n0 i) ?xa b"
      using blacklist_marks[OF nl assms(3) dl(1) st c(1) assms(6) c(2) xa] by blast
    have bu: "redis_up n b" using marks_up[OF assms(3) b(2)] b(2) by (simp add: marks_def)
    obtain d where d: "blacklist_token n r False (s\<lparr>s_bl := b\<rparr>) = (None, s\<lparr>s_bl := d\<rparr>)" "marks n (x_uuid n0 i') ?xr d"
      "d = snd (revoke_if_new (x_kv n) (x_kv_fails n) (x_clk n) (x_now n) (Some (x_uuid n0 i')) (Some ?xr) b)"
      using blacklist_marks[of n "s\<lparr>s_bl := b\<rparr>" r ?cr False, OF nl _ dl(2) _ c(3) assms(7) c(4) xr] bu by auto
    have ad: "marks n (x_uuid n0 i) ?xa d"
      unfolding d(3) using revoke_keeps_marks[OF _ bu b(2)] nl assms(8) by (simp add: auth_laws_def)
    have "logout n a (Some r) s = (None, s\<lparr>s_bl := d, s_sess :=
        unregister_session (x_sess n) (x_sess_fails n) (x_now_ms n) (x_uuid n0 i) (s_sess s)\<rparr>)"
      by (simp add: logout_def b(1) d(1) dl(1) c(1) o)
    then show ?thesis
      using marks_refused[OF nl _ dr(1) c(1) assms(6) c(2) ad] marks_refused[OF nl _ dr(2) c(3) assms(7) c(4) d(2)] by auto
  qed
  have "logout n a (Some r) s = (Some TokenExpired, s)" if "?xa \<le> x_now n"
    using strict_of_tokens(1)[OF assms(1,2)] that assms(4) by (simp add: logout_def blacklist_token_def)
  then show ?thesis
    using main by (intro conjI impI allI; (elim conjE)?) (blast dest: refused_current_user refused_refresh)+
qed

lemma logout_revokes_witness:
  "fst (logout (example_env 2000 200 ''k0'' ''k1'') (create_access_token (example_env 1000 100 ''j0'' ''j1'') 0 ''a'')
      (Some (create_refresh_token (example_env 1000 100 ''j0'' ''j1'') (Suc 0) ''a'')) (example_state 0)) = None \<and>
   logout (example_env 9000000 200 ''k0'' ''k1'') (create_access_token (example_env 1000 100 ''j0'' ''j1'') 0 ''a'')
      (Some (create_refresh_token (example_env 1000 100 ''j0'' ''j1'') (Suc 0) ''a'')) (example_state 0)
     = (Some TokenExpired, example_state 0)"
proof -
  let ?q = "example_env 1000 100 ''j0'' ''j1''"
  have up: "redis_up (example_env ms 200 ''k0'' ''k1'') (s_bl (example_state 0))" for ms
    by (simp add: redis_up_def cb_open_def cb_cooldown_def example_state_def)
  note w = logout_revokes[OF example_laws example_later[of 1000 _ 100 _ _ 200] up refl refl, where i = 0 and i' = "Suc 0" and e = "''a''"]
  have t: "seconds 1000 = 1" "seconds 2000 = 2" "seconds 9000000 = 9000" by (simp_all add: seconds_def)
  have a: "fst (logout (example_env 2000 200 ''k0'' ''k1'') (create_access_token ?q 0 ''a'')
      (Some (create_refresh_token ?q (Suc 0) ''a'')) (example_state 0)) = None"
    by (rule w[THEN conjunct1, rule_format, THEN conjunct1]) (simp_all add: t)
  have b: "logout (example_env 9000000 200 ''k0'' ''k1'') (create_access_token ?q 0 ''a'')
      (Some (create_refresh_token ?q (Suc 0) ''a'')) (example_state 0) = (Some TokenExpired, example_state 0)"
    by (rule w[THEN conjunct2, rule_format]) (simp_all add: t)
  from a b show ?thesis by simp
qed

section \<open>Login\<close>

text \<open>C16: Login. The access token of a login admits exactly its account, as it is at the time of the request,
  until the token expires, as long as it is not revoked, the account is not suspended and was not
  suspended after the login; the two tokens cannot stand in for each other.\<close>

theorem login_tokens_work:
  assumes "auth_laws n" "login n e pw s = (Inr (pub, a, r), s')" "later n m" "b_email pub \<noteq> ''''"
    and "get_user_by_email (b_email pub) (s_graph u) = Some d" "x_db_ok m"
    and "fst (check_revoked m (Some (x_uuid n 0)) u) = False"
  shows "fst (get_current_user m (Some a) u) =
      (if x_now n + x_access_minutes n * 60 \<le> x_now m then Inl TokenExpired
       else if d_is_suspended d then Inl AccountSuspended
       else if issued_before_suspension m d (Some (x_now n)) then Inl SessionEnded
       else Inr (from_db d)) \<and>
    (\<exists>er. fst (get_current_user m (Some r) u) = Inl er) \<and>
    (\<exists>er. fst (refresh_access_token m a u) = Inl er)"
proof -
  obtain d0 where d0: "a = create_access_token n 0 (d_email d0)" "r = create_refresh_token n 1 (d_email d0)"
      "pub = from_db d0" "x_db_ok n"
    using assms(2) by (auto simp: login_def split: option.splits if_splits)
  then have em: "b_email pub = d_email d0" by (simp add: from_db_def)
  obtain ms where ms: "check_revoked m (Some (x_uuid n 0)) u = (False, ms)" "s_graph ms = s_graph u"
    using assms(7) by (auto simp: check_revoked_def Let_def split: option.splits prod.splits)
  have o: "or_none (Some (d_email d0)) = Some (d_email d0)" using assms(4) em by (cases "d_email d0") simp_all
  note st = strict_of_tokens[OF assms(1,3), of _ "d_email d0", folded d0(1,2)]
  have c: "c_type (access_claims n 0 z) = Some ''access''" "c_sub (access_claims n 0 z) = Some z"
    "c_jti (access_claims n 0 z) = Some (x_uuid n 0)" "c_iat (access_claims n 0 z) = Some (x_now n)"
    "c_type (refresh_claims n i z) = Some ''refresh''" for z i
    by (simp_all add: access_claims_def refresh_claims_def token_claims_def)
  have "fst (get_current_user m (Some a) u) =
      (if x_now n + x_access_minutes n * 60 \<le> x_now m then Inl TokenExpired
       else if d_is_suspended d then Inl AccountSuspended
       else if issued_before_suspension m d (Some (x_now n)) then Inl SessionEnded
       else Inr (from_db d))"
    using strict_of_tokens(1)[OF assms(1,3), of 0 "d_email d0"] assms(5,6) em ms o
    by (simp add: get_current_user_def c d0(1))
  moreover have "\<exists>er. fst (get_current_user m (Some r) u) = Inl er"
    using strict_of_tokens(2)[OF assms(1,3), of 1 "d_email d0"] by (simp add: get_current_user_def c d0(2))
  moreover have "\<exists>er. fst (refresh_access_token m a u) = Inl er"
    using strict_of_tokens(1)[OF assms(1,3), of 0 "d_email d0"] by (simp add: refresh_access_token_def c d0(1))
  ultimately show ?thesis by blast
qed

lemma login_tokens_work_witness:
  "fst (get_current_user (example_env 9000000 200 ''k0'' ''k1'') (Some (create_access_token (example_env 1000 100 ''j0'' ''j1'') 0 ''a''))
     (example_state 0)) = Inl TokenExpired"
proof -
  let ?q = "example_env 1000 100 ''j0'' ''j1''" and ?d = "to_user_in_db ((blank_user ''a'')\<lparr>u_hashed_password := ''pw''\<rparr>)"
  have d: "d_email ?d = ''a''" "d_hashed_password ?d = ''pw''" "\<not> d_is_suspended ?d"
    by (simp_all add: to_user_in_db_def blank_user_def)
  have l: "login ?q ''a'' ''pw'' (example_state 0) = (Inr (from_db ?d, create_access_token ?q 0 ''a'', create_refresh_token ?q 1 ''a''),
      (example_state 0)\<lparr>s_graph := touch_last_active True (x_now ?q) ''a'' (s_graph (example_state 0))\<rparr>)"
    by (simp add: login_def example_user verify_password_def d)
  have r: "fst (check_revoked (example_env 9000000 200 ''k0'' ''k1'') (Some (x_uuid ?q 0)) (example_state 0)) = False"
    by (simp add: check_revoked_def is_revoked_def example_state_def ref_kv_def live_value_def)
  have e: "b_email (from_db ?d) = ''a''" by (simp add: from_db_def d)
  show ?thesis
    using login_tokens_work[OF example_laws l example_later _ _ _ r, unfolded e, OF _ _ example_user]
    by (simp add: seconds_def)
qed

end
