(* ===== verification/GoogleOAuth.thy ===== *)
theory GoogleOAuth
  imports Auth
begin

text \<open>
  src/app/core/google_oauth.py: the state token, the authorize URL and the two calls to
  Google, whose replies are inputs. \<open>to_str\<close> is str() of a JSON value.
\<close>

record google_cfg =
  gc_client_id :: string
  gc_secret :: string
  gc_redirect_uri :: string
  gc_frontend :: string
  gc_scopes :: string

definition google_oauth_enabled :: "google_cfg \<Rightarrow> bool" where
  "google_oauth_enabled c =
     (gc_client_id c \<noteq> '''' \<and> gc_secret c \<noteq> '''' \<and> gc_redirect_uri c \<noteq> '''' \<and> gc_frontend c \<noteq> '''')"

definition google_oauth_scopes_list :: "google_cfg \<Rightarrow> string list" where
  "google_oauth_scopes_list c =
     filter (\<lambda>s. s \<noteq> '''') (map py_strip (py_words (map (\<lambda>x. if x = CHR '','' then CHR '' '' else x) (gc_scopes c))))"

definition STATE_EXPIRE_MINUTES :: int where "STATE_EXPIRE_MINUTES = 10"
definition STATE_TYPE :: string where "STATE_TYPE = ''google_oauth_state''"

text \<open>GoogleOAuthError carries its text; GoogleOAuthDisabled and every other exception are
  not caught by the callback.\<close>

datatype google_exc = GoogleOAuthError string | GoogleOAuthDisabled | OtherException

section \<open>State tokens\<close>

definition create_state_token ::
  "('t, 'k, 'h) auth_env \<Rightarrow> string \<Rightarrow> string option \<Rightarrow> google_exc + 't" where
  "create_state_token n mode email =
     (if mode \<notin> {''login'', ''link''} then Inl OtherException
      else Inr (x_encode n \<lparr>c_sub = None, c_type = Some STATE_TYPE, c_jti = None, c_iat = Some (x_now n),
             c_exp = Some (x_now n + STATE_EXPIRE_MINUTES * 60), c_scope = [], c_mode = Some mode,
             c_email = or_none email\<rparr>))"

definition verify_state_token :: "('t, 'k, 'h) auth_env \<Rightarrow> 't \<Rightarrow> string + claims" where
  "verify_state_token n t =
     (case x_decode n True (x_now n) t of
        ExpiredSignature \<Rightarrow> Inl (bytes [115, 116, 97, 116, 101, 32, 237, 134, 160, 237, 129, 176, 236, 157, 180, 32, 235, 167, 140, 235, 163, 140,
      235, 144, 152, 236, 151, 136, 236, 138, 181, 235, 139, 136, 235, 139, 164, 46, 32, 235, 139, 164, 236, 139,
      156, 32, 236, 139, 156, 235, 143, 132, 237, 149, 180, 236, 163, 188, 236, 132, 184, 236, 154, 148, 46])
      | InvalidToken \<Rightarrow> Inl (bytes [115, 116, 97, 116, 101, 32, 237, 134, 160, 237, 129, 176, 236, 157, 180, 32, 236, 156, 160, 237, 154, 168,
      237, 149, 152, 236, 167, 128, 32, 236, 149, 138, 236, 138, 181, 235, 139, 136, 235, 139, 164, 46])
      | Claims c \<Rightarrow>
          if c_type c \<noteq> Some STATE_TYPE then Inl (bytes [115, 116, 97, 116, 101, 32, 237, 134, 160, 237, 129, 176, 32, 237, 152, 149, 236, 139, 157, 236, 157, 180,
      32, 236, 152, 172, 235, 176, 148, 235, 165, 180, 236, 167, 128, 32, 236, 149, 138, 236, 138, 181, 235, 139,
      136, 235, 139, 164, 46])
          else if c_mode c \<notin> {Some ''login'', Some ''link''} then Inl (bytes [115, 116, 97, 116, 101, 32, 237, 134, 160, 237, 129, 176, 236, 157, 152, 32, 109, 111, 100, 101, 32, 234,
      176, 128, 32, 236, 152, 172, 235, 176, 148, 235, 165, 180, 236, 167, 128, 32, 236, 149, 138, 236, 138, 181,
      235, 139, 136, 235, 139, 164, 46])
          else Inr c)"

section \<open>The calls to Google\<close>

definition authorize_url :: string where "authorize_url = ''https://accounts.google.com/o/oauth2/v2/auth''"

definition build_authorize_url :: "google_cfg \<Rightarrow> string \<Rightarrow> google_exc + string" where
  "build_authorize_url c state =
     (if \<not> google_oauth_enabled c then Inl GoogleOAuthDisabled
      else Inr (authorize_url @ ''?'' @ urlencode
        [(''client_id'', gc_client_id c), (''redirect_uri'', gc_redirect_uri c),
         (''scope'', join_with '' '' (google_oauth_scopes_list c)), (''response_type'', ''code''),
         (''state'', state), (''prompt'', ''select_account'')]))"

text \<open>A reply: httpx.HTTPError (transport or status), or a body that is empty, JSON or neither.\<close>

datatype http_reply = HttpFailed | EmptyBody | NotJson | Body json

definition first_true :: "json option \<Rightarrow> json option \<Rightarrow> json" where
  "first_true a b = (case a of
       Some j \<Rightarrow> if json_true j then j else (case b of Some k \<Rightarrow> if json_true k then k else JStr ''unknown'' | None \<Rightarrow> JStr ''unknown'')
     | None \<Rightarrow> (case b of Some k \<Rightarrow> if json_true k then k else JStr ''unknown'' | None \<Rightarrow> JStr ''unknown''))"

definition exchange_code_for_token ::
  "(json \<Rightarrow> string) \<Rightarrow> google_cfg \<Rightarrow> (string \<Rightarrow> http_reply) \<Rightarrow> string \<Rightarrow> google_exc + json" where
  "exchange_code_for_token to_str c post code =
     (if \<not> google_oauth_enabled c then Inl GoogleOAuthDisabled
      else (let read = (\<lambda>body. case json_get body ''access_token'' of
                   Some t \<Rightarrow> if json_true t then Inr t
                      else Inl (GoogleOAuthError (bytes [71, 111, 111, 103, 108, 101, 32, 237, 134, 160, 237, 129, 176, 236, 157, 132, 32, 235, 176, 155, 236, 167,
      128, 32, 235, 170, 187, 237, 150, 136, 236, 138, 181, 235, 139, 136, 235, 139, 164, 58, 32] @
                         to_str (first_true (json_get body ''error_description'') (json_get body ''error''))))
                 | None \<Rightarrow> Inl (GoogleOAuthError (bytes [71, 111, 111, 103, 108, 101, 32, 237, 134, 160, 237, 129, 176, 236, 157, 132, 32, 235, 176, 155, 236, 167,
      128, 32, 235, 170, 187, 237, 150, 136, 236, 138, 181, 235, 139, 136, 235, 139, 164, 58, 32] @
                         to_str (first_true (json_get body ''error_description'') (json_get body ''error'')))))
            in (case post code of
                  HttpFailed \<Rightarrow> Inl (GoogleOAuthError (bytes [71, 111, 111, 103, 108, 101, 32, 237, 134, 160, 237, 129, 176, 32, 234, 181, 144, 237, 153, 152, 32, 236,
      139, 164, 237, 140, 168, 46]))
                | EmptyBody \<Rightarrow> read (JObj [])
                | NotJson \<Rightarrow> Inl OtherException
                | Body j \<Rightarrow> if is_obj (Some j) then read j else Inl OtherException)))"

record google_user =
  gu_google_id :: string
  gu_email :: string
  gu_name :: string
  gu_picture :: string

definition field_true :: "json \<Rightarrow> string \<Rightarrow> bool" where
  "field_true j k = (case json_get j k of None \<Rightarrow> False | Some v \<Rightarrow> json_true v)"

text \<open>\<open>email.split\<close> needs a str; it is only called when the name is missing.\<close>

definition fetch_google_user ::
  "(json \<Rightarrow> string) \<Rightarrow> (json \<Rightarrow> http_reply) \<Rightarrow> json \<Rightarrow> google_exc + google_user" where
  "fetch_google_user to_str get token =
     (case get token of
        HttpFailed \<Rightarrow> Inl (GoogleOAuthError (bytes [71, 111, 111, 103, 108, 101, 32, 47, 117, 115, 101, 114, 105, 110, 102, 111, 32, 236, 161, 176, 237, 154,
      140, 32, 236, 139, 164, 237, 140, 168, 46]))
      | EmptyBody \<Rightarrow> Inl OtherException
      | NotJson \<Rightarrow> Inl OtherException
      | Body j \<Rightarrow>
          if \<not> is_obj (Some j) then Inl OtherException
          else if \<not> field_true j ''sub'' then Inl (GoogleOAuthError (bytes [71, 111, 111, 103, 108, 101, 32, 236, 130, 172, 236, 154, 169, 236, 158, 144, 32, 73, 68, 40, 115, 117,
      98, 41, 32, 235, 165, 188, 32, 235, 176, 155, 236, 167, 128, 32, 235, 170, 187, 237, 150, 136, 236, 138,
      181, 235, 139, 136, 235, 139, 164, 46]))
          else if \<not> field_true j ''email'' then Inl (GoogleOAuthError (bytes [71, 111, 111, 103, 108, 101, 32, 236, 151, 144, 236, 132, 156, 32, 236, 157, 180, 235, 169, 148, 236, 157,
      188, 236, 157, 132, 32, 235, 176, 155, 236, 167, 128, 32, 235, 170, 187, 237, 150, 136, 236, 138, 181, 235,
      139, 136, 235, 139, 164, 46]))
          else if \<not> field_true j ''email_verified''
          then Inl (GoogleOAuthError (bytes [71, 111, 111, 103, 108, 101, 32, 234, 179, 132, 236, 160, 149, 236, 157, 152, 32, 236, 157, 180, 235, 169,
      148, 236, 157, 188, 236, 157, 180, 32, 118, 101, 114, 105, 102, 105, 101, 100, 32, 236, 131, 129, 237, 131,
      156, 234, 176, 128, 32, 236, 149, 132, 235, 139, 153, 235, 139, 136, 235, 139, 164, 46, 32, 71, 109, 97,
      105, 108, 32, 236, 157, 184, 236, 166, 157, 32, 237, 155, 132, 32, 235, 139, 164, 236, 139, 156, 32, 236,
      139, 156, 235, 143, 132, 237, 149, 180, 236, 163, 188, 236, 132, 184, 236, 154, 148, 46]))
          else (let email = the (json_get j ''email'');
                    user = (\<lambda>nm. \<lparr>gu_google_id = to_str (the (json_get j ''sub'')), gu_email = lower (to_str email),
                       gu_name = nm, gu_picture = (if field_true j ''picture'' then to_str (the (json_get j ''picture'')) else '''')\<rparr>)
                in if field_true j ''name'' then Inr (user (to_str (the (json_get j ''name''))))
                   else (case email of JStr s \<Rightarrow> Inr (user (hd (split_on (CHR ''@'') s))) | _ \<Rightarrow> Inl OtherException)))"

text \<open>None when it raises the 503.\<close>

definition assert_oauth_configured :: "google_cfg \<Rightarrow> unit option" where
  "assert_oauth_configured c = (if \<not> google_oauth_enabled c then None else Some ())"

lemma verify_state_claims:
  "verify_state_token m u = Inr c \<Longrightarrow> decode_token m u = Inr c \<and> c_type c = Some STATE_TYPE"
  by (auto simp: verify_state_token_def decode_token_def split: jwt_result.splits if_splits)

text \<open>C19: State tokens. The state token of a link or login start is read back with its mode and address for ten
  minutes and is refused as expired afterwards; an access or refresh token never passes as a state, and a
  state never passes as an access or refresh token.\<close>

theorem state_token_roundtrip:
  assumes "auth_laws n" "later n m" "create_state_token n mode email = Inr t"
  shows "(x_now m < x_now n + 600 \<longrightarrow>
            (\<exists>c. verify_state_token m t = Inr c \<and> c_mode c = Some mode \<and> c_email c = or_none email)) \<and>
    (x_now n + 600 \<le> x_now m \<longrightarrow> (\<exists>er. verify_state_token m t = Inl er)) \<and>
    (\<exists>er. verify_state_token m (create_access_token n i e) = Inl er) \<and>
    (\<exists>er. verify_state_token m (create_refresh_token n i e) = Inl er) \<and>
    (\<exists>er. fst (get_current_user m (Some t) s) = Inl er) \<and> (\<exists>er. fst (refresh_access_token m t s) = Inl er)"
proof -
  let ?c = "\<lparr>c_sub = None, c_type = Some STATE_TYPE, c_jti = None, c_iat = Some (x_now n),
     c_exp = Some (x_now n + STATE_EXPIRE_MINUTES * 60), c_scope = [], c_mode = Some mode, c_email = or_none email\<rparr>"
  have t: "t = x_encode n ?c" and md: "mode \<in> {''login'', ''link''}"
    using assms(3) by (auto simp: create_state_token_def split: if_splits)
  have jl: "jwt_laws (x_encode n) (x_decode n)" using assms(1) by (simp add: auth_laws_def)
  note l = later_simps[OF assms(2)]
  have "x_decode n False (x_now m) t = Claims ?c" unfolding t by (rule jwt_lawsD(1)[OF jl _ l(1)]) simp
  from jwt_lawsD(3)[OF jl this] have d: "x_decode m True (x_now m) t =
      (if x_now n + 600 \<le> x_now m then ExpiredSignature else Claims ?c)"
    by (simp add: l STATE_EXPIRE_MINUTES_def)
  have ty: "c_type (access_claims n i e) = Some ''access''" "c_type (refresh_claims n i e) = Some ''refresh''"
    by (simp_all add: access_claims_def refresh_claims_def token_claims_def)
  have no: "\<exists>er. verify_state_token m u = Inl er" if "\<And>c. decode_token m u = Inr c \<Longrightarrow> c_type c \<noteq> Some STATE_TYPE" for u
    using that verify_state_claims[of m u] by (cases "verify_state_token m u") auto
  have "\<exists>er. verify_state_token m (create_access_token n i e) = Inl er"
    "\<exists>er. verify_state_token m (create_refresh_token n i e) = Inl er"
    by (rule no, use ty in \<open>auto simp: strict_of_tokens[OF assms(1,2)] STATE_TYPE_def split: if_splits\<close>)+
  moreover have "\<exists>er. fst (get_current_user m (Some t) s) = Inl er" "\<exists>er. fst (refresh_access_token m t s) = Inl er"
    using d by (simp_all add: get_current_user_def refresh_access_token_def decode_token_def STATE_TYPE_def)
  ultimately show ?thesis
    using d md by (auto simp: verify_state_token_def)
qed

lemma state_token_roundtrip_witness:
  "\<exists>t c. create_state_token (example_env 1000 100 ''j0'' ''j1'') ''link'' (Some ''a'') = Inr t \<and>
     verify_state_token (example_env 500000 100 ''k0'' ''k1'') t = Inr c \<and> c_email c = Some ''a''"
proof -
  obtain t where t: "create_state_token (example_env 1000 100 ''j0'' ''j1'') ''link'' (Some ''a'') = Inr t"
    by (simp add: create_state_token_def)
  show ?thesis
    using state_token_roundtrip[OF example_laws example_later t, of 500000] t by (simp add: seconds_def) blast
qed

end
