(* ===== verification/AuthRoutes.thy ===== *)
theory AuthRoutes
  imports GoogleOAuth Usage Ownership
begin

text \<open>
  src/app/api/auth_routes.py: the handlers, after their dependencies (\<open>authed\<close> is
  Depends(get_current_user)). The modules github_oauth, quota, team_repository,
  notion_client, notion_oauth and delete_pipeline are not in the repository and are
  arguments. \<open>tok\<close> is the text of a token.
\<close>

datatype route_error = AuthFailed auth_error | Status nat | Raised

definition authed ::
  "('t, 'k, 'h) auth_env \<Rightarrow> 't option \<Rightarrow> (user_public \<Rightarrow> ('k, 'h) auth_state \<Rightarrow> (route_error + 'r) \<times> ('k, 'h) auth_state)
   \<Rightarrow> ('k, 'h) auth_state \<Rightarrow> (route_error + 'r) \<times> ('k, 'h) auth_state" where
  "authed n t f s =
     (case get_current_user n t s of
        (Inl e, s1) \<Rightarrow> (Inl (AuthFailed e), s1)
      | (Inr u, s1) \<Rightarrow> f u s1)"

section \<open>Login, logout, refresh, me\<close>

definition login_route ::
  "('t, 'k, 'h) auth_env \<Rightarrow> request_meta option \<Rightarrow> string \<Rightarrow> string \<Rightarrow> ('k, 'h) auth_state
   \<Rightarrow> (route_error + user_public \<times> 't \<times> 't) \<times> ('k, 'h) auth_state" where
  "login_route n req e pw s =
     (case login n e pw s of
        (Inl er, s1) \<Rightarrow> (Inl (AuthFailed er), s1)
      | (Inr (u, a, r), s1) \<Rightarrow> (Inr (u, a, r), record_access_token_session n a req s1))"

definition logout_route ::
  "('t, 'k, 'h) auth_env \<Rightarrow> 't \<Rightarrow> 't option \<Rightarrow> ('k, 'h) auth_state \<Rightarrow> (route_error + unit) \<times> ('k, 'h) auth_state" where
  "logout_route n t body s =
     (case logout n t body s of
        (Some er, s1) \<Rightarrow> (Inl (AuthFailed er), s1)
      | (None, s1) \<Rightarrow> (Inr (), s1))"

definition refresh_route ::
  "('t, 'k, 'h) auth_env \<Rightarrow> request_meta option \<Rightarrow> 't \<Rightarrow> ('k, 'h) auth_state
   \<Rightarrow> (route_error + 't \<times> 't) \<times> ('k, 'h) auth_state" where
  "refresh_route n req t s =
     (case refresh_access_token n t s of
        (Inl er, s1) \<Rightarrow> (Inl (AuthFailed er), s1)
      | (Inr (a, r), s1) \<Rightarrow> (Inr (a, r), record_access_token_session n a req s1))"

definition me_route ::
  "('t, 'k, 'h) auth_env \<Rightarrow> 't option \<Rightarrow> ('k, 'h) auth_state \<Rightarrow> (route_error + user_public) \<times> ('k, 'h) auth_state" where
  "me_route n t s = authed n t (\<lambda>u s1. (Inr u, s1)) s"

section \<open>Active sessions\<close>

record session_view =
  v_info :: session_info
  v_is_current :: bool

definition list_sessions_route ::
  "('t, 'k, 'h) auth_env \<Rightarrow> bool \<Rightarrow> 't \<Rightarrow> user_public \<Rightarrow> ('k, 'h) auth_state
   \<Rightarrow> (route_error + session_view list \<times> string option) \<times> ('k, 'h) auth_state" where
  "list_sessions_route n sess_fails t u s =
     (let (is, h) = list_sessions (x_sess n) sess_fails (x_now_ms n) (b_email u) (s_sess s);
          current = Option.bind (decode_token_lenient n t) c_jti
      in (Inr (map (\<lambda>i. \<lparr>v_info = i, v_is_current = (Some (si_jti i) = current)\<rparr>) is, current), s\<lparr>s_sess := h\<rparr>))"

datatype revoke_answer = AlreadyEnded | Ended

definition revoke_session_route ::
  "('t, 'k, 'h) auth_env \<Rightarrow> bool \<Rightarrow> string \<Rightarrow> user_public \<Rightarrow> ('k, 'h) auth_state
   \<Rightarrow> (route_error + revoke_answer) \<times> ('k, 'h) auth_state" where
  "revoke_session_route n sess_fails jti u s =
     (case get_session_email (x_sess n) sess_fails (x_now_ms n) jti (s_sess s) of
        None \<Rightarrow> (Inr AlreadyEnded, s)
      | Some owner \<Rightarrow>
          if lower owner \<noteq> lower (b_email u) then (Inl (Status 404), s)
          else (case revoke (x_kv n) (x_kv_fails n) (x_clk n) (x_now n) jti (x_now n + 3600) (s_bl s) of
              (None, b) \<Rightarrow> (Inl Raised, s\<lparr>s_bl := b\<rparr>)
            | (Some x, b) \<Rightarrow> (Inr Ended, s\<lparr>s_bl := b,
                s_sess := unregister_session (x_sess n) (x_sess_fails n) (x_now_ms n) jti (s_sess s)\<rparr>)))"

section \<open>Usage\<close>

record usage_limits =
  l_meeting_logs :: int
  l_summary_chars :: int
  l_total_tokens :: int

record my_usage =
  y_subscription_type :: string
  y_limits :: usage_limits
  y_meeting_logs :: int
  y_total_tokens :: int
  y_total_chars :: int
  y_lite_used :: int
  y_lite_cap :: int
  y_lite_monthly :: int
  y_overflow_active :: bool
  y_lite_reset_at :: "instant option"
  y_reset_at :: "instant option"
  y_ends_at :: "instant option"

definition my_usage_view :: "(string \<Rightarrow> usage_limits) \<Rightarrow> (string \<Rightarrow> int) \<Rightarrow> usage_row option \<Rightarrow> my_usage" where
  "my_usage_view limits cap usage =
     (let (ty, mc, tt, tc, ra, ld, lm, lr, se) =
            (case usage of
               None \<Rightarrow> (SUBSCRIPTION_FREE, 0, 0, 0, None, 0, 0, None, None)
             | Some w \<Rightarrow> (s_subscription_type w, s_meeting_count w, s_total_tokens w, s_total_chars w, s_reset_at w,
                 s_lite_daily_tokens w, s_lite_tokens w, s_lite_daily_reset_at w, s_subscription_ends_at w))
      in \<lparr>y_subscription_type = ty, y_limits = limits ty, y_meeting_logs = mc, y_total_tokens = tt, y_total_chars = tc,
          y_lite_used = ld, y_lite_cap = cap ty, y_lite_monthly = lm,
          y_overflow_active = (tt \<ge> l_total_tokens (limits ty) \<and> cap ty > 0),
          y_lite_reset_at = lr, y_reset_at = ra, y_ends_at = se\<rparr>)"

definition my_usage_route ::
  "('t, 'k, 'h) auth_env \<Rightarrow> (instant \<Rightarrow> instant) \<Rightarrow> (string \<Rightarrow> usage_limits) \<Rightarrow> (string \<Rightarrow> int) \<Rightarrow> user_public
   \<Rightarrow> ('k, 'h) auth_state \<Rightarrow> (route_error + my_usage) \<times> ('k, 'h) auth_state" where
  "my_usage_route n plus_month limits cap u s =
     (if \<not> x_db_ok n then (Inl Raised, s)
      else let (w, g) = get_usage plus_month (x_now n) (b_email u) (s_graph s)
           in (Inr (my_usage_view limits cap w), s\<lparr>s_graph := g\<rparr>))"

section \<open>The account\<close>

definition update_me_route ::
  "('t, 'k, 'h) auth_env \<Rightarrow> string option \<Rightarrow> string option \<Rightarrow> bool option \<Rightarrow> string option \<Rightarrow> user_public
   \<Rightarrow> ('k, 'h) auth_state \<Rightarrow> (route_error + user_public) \<times> ('k, 'h) auth_state" where
  "update_me_route n nm gh ap loc u s =
     (if \<not> x_db_ok n then (Inl Raised, s)
      else let (r, g) = update_user (x_now n) (b_email u) nm gh ap loc (s_graph s)
           in (case r of None \<Rightarrow> Inl (Status 404) | Some p \<Rightarrow> Inr p, s\<lparr>s_graph := g\<rparr>))"

text \<open>\<open>purge\<close> is delete_pipeline.delete_project: whether it succeeded, and its effect.\<close>

fun purge_owned_projects ::
  "(string \<Rightarrow> graph \<Rightarrow> bool \<times> graph) \<Rightarrow> string list \<Rightarrow> graph \<Rightarrow> (nat \<times> nat) \<times> graph" where
  "purge_owned_projects purge [] g = ((0, 0), g)"
| "purge_owned_projects purge (nm # nms) g =
     (let (ok, g1) = purge nm g; ((d, f), g2) = purge_owned_projects purge nms g1
      in (if ok then (Suc d, f) else (d, Suc f), g2))"

definition delete_me_route ::
  "('t, 'k, 'h) auth_env \<Rightarrow> (string \<Rightarrow> graph \<Rightarrow> bool \<times> graph) \<Rightarrow> string \<Rightarrow> 't \<Rightarrow> user_public
   \<Rightarrow> ('k, 'h) auth_state \<Rightarrow> (route_error + unit) \<times> ('k, 'h) auth_state" where
  "delete_me_route n purge payload t u s =
     (let e = b_email u;
          s1 = s\<lparr>s_audit := snd (audit_write (x_write_ok n) (x_uuid n 0) (x_now n) e ACTION_USER_SELF_DELETE (Some e)
                  payload (s_audit s))\<rparr>
      in if \<not> x_db_ok n then (Inl Raised, s1)
         else let owned = list_owned_project_names e (s_graph s1);
                  (st, g) = delete_user e (s_graph s1);
                  s2 = s1\<lparr>s_graph := g\<rparr>
              in if st = LastAdmin then (Inl (Status 400), s2)
                 else if st \<noteq> Deleted then (Inl (Status 500), s2)
                 else (case logout n t None (s2\<lparr>s_graph := snd (purge_owned_projects purge owned g)\<rparr>) of
                     (Some er, s3) \<Rightarrow> (Inl (AuthFailed er), s3)
                   | (None, s3) \<Rightarrow> (Inr (), s3)))"

definition list_my_projects_route ::
  "(string \<Rightarrow> (string \<times> string \<times> string option) list) \<Rightarrow> user_public \<Rightarrow> graph
   \<Rightarrow> (string option \<times> string \<times> instant option) list \<times>
      (string \<times> string \<times> string option \<times> (string option \<times> string \<times> string option \<times> instant option) list) list" where
  "list_my_projects_route teams u g =
     (list_owned_projects (b_email u) g,
      map (\<lambda>(i, nm, role). (i, nm, role, list_team_projects (b_email u) i g)) (teams (b_email u)))"

definition and_then :: "'e + 'a \<Rightarrow> ('a \<Rightarrow> 'e + 'b) \<Rightarrow> 'e + 'b" where
  "and_then r f = (case r of Inl e \<Rightarrow> Inl e | Inr x \<Rightarrow> f x)"

section \<open>The redirect to the front end\<close>

record 't redirect =
  rd_mode :: string
  rd_provider :: string
  rd_access :: "'t option"
  rd_refresh :: "'t option"
  rd_error :: "string option"
  rd_new :: bool

definition redirect_error :: "string \<Rightarrow> string \<Rightarrow> string \<Rightarrow> 't redirect" where
  "redirect_error provider mode er = \<lparr>rd_mode = mode, rd_provider = provider, rd_access = None, rd_refresh = None,
     rd_error = Some er, rd_new = False\<rparr>"

definition redirect_query :: "'t redirect \<Rightarrow> (string \<times> string) list" where
  "redirect_query r = [(''mode'', rd_mode r), (''provider'', rd_provider r)]
     @ (case or_none (rd_error r) of None \<Rightarrow> [] | Some e \<Rightarrow> [(''error'', e)])
     @ (if rd_new r then [(''new'', ''1'')] else [])"

definition redirect_fragment :: "('t \<Rightarrow> string) \<Rightarrow> 't redirect \<Rightarrow> (string \<times> string) list" where
  "redirect_fragment tok r =
     (case or_none (map_option tok (rd_access r)) of None \<Rightarrow> [] | Some t \<Rightarrow> [(''access_token'', t)])
     @ (case or_none (map_option tok (rd_refresh r)) of None \<Rightarrow> [] | Some t \<Rightarrow> [(''refresh_token'', t)])"

definition redirect_to_frontend :: "('t \<Rightarrow> string) \<Rightarrow> string \<Rightarrow> 't redirect \<Rightarrow> string" where
  "redirect_to_frontend tok base r =
     (let sep = (if CHR ''?'' \<in> set base then ''&'' else ''?'');
          url = (if base \<noteq> '''' then base @ sep @ urlencode (redirect_query r) else ''/?'' @ urlencode (redirect_query r))
      in if redirect_fragment tok r \<noteq> [] then url @ ''#'' @ urlencode (redirect_fragment tok r) else url)"

section \<open>The OAuth callbacks\<close>

record gh_user =
  gh_id :: int
  gh_login :: string
  gh_email :: string
  gh_name :: string

record 't oauth_ext =
  e_gh_enabled :: bool
  e_gh_scopes :: "string list"
  e_gh_verify :: "instant \<Rightarrow> 't \<Rightarrow> string + claims"
  e_gh_exchange :: "string \<Rightarrow> string + string"
  e_gh_fetch :: "string \<Rightarrow> string + gh_user"
  e_google :: google_cfg
  e_to_str :: "json \<Rightarrow> string"
  e_g_post :: "string \<Rightarrow> http_reply"
  e_g_get :: "json \<Rightarrow> http_reply"
  e_enforced :: bool
  e_plus_month :: "instant \<Rightarrow> instant"
  e_encrypt :: "string \<Rightarrow> string"
  e_user_uuid :: string

text \<open>The end both callbacks share: suspended accounts get no tokens.\<close>

definition issue_tokens ::
  "('t, 'k, 'h) auth_env \<Rightarrow> string \<Rightarrow> string \<Rightarrow> bool \<Rightarrow> user_public \<Rightarrow> ('k, 'h) auth_state \<Rightarrow> 't redirect \<times> ('k, 'h) auth_state" where
  "issue_tokens n provider mode is_new u s =
     (let e = b_email u;
          ok = (\<lparr>rd_mode = mode, rd_provider = provider, rd_access = Some (create_access_token n 0 e),
                 rd_refresh = Some (create_refresh_token n 1 e), rd_error = None, rd_new = is_new\<rparr>,
                s\<lparr>s_graph := touch_last_active (x_write_ok n) (x_now n) e (s_graph s)\<rparr>)
      in (case get_user_by_email e (s_graph s) of
            None \<Rightarrow> ok
          | Some d \<Rightarrow> if d_is_suspended d
                      then (redirect_error provider mode (''suspended:'' @ coalesce (d_suspended_reason d) ''''), s)
                      else ok))"

text \<open>The account of a callback, or the redirect that ends it early.\<close>

definition promote_new ::
  "('t, 'k, 'h) auth_env \<Rightarrow> user_public \<Rightarrow> graph \<Rightarrow> graph" where
  "promote_new n u g =
     (if lower (b_email u) \<in> set (x_admin_emails n)
      then snd (promote_admins_by_emails (x_write_ok n) (x_now n) [b_email u] g) else g)"

definition after_create ::
  "('t, 'k, 'h) auth_env \<Rightarrow> string \<Rightarrow> (user_public option \<times> bool) \<times> graph
   \<Rightarrow> (route_error + 't redirect + user_public \<times> bool) \<times> graph" where
  "after_create n provider p =
     (case p of
        ((None, new), g) \<Rightarrow> (Inr (Inl (redirect_error provider ''login'' ''user_create_failed'')), g)
      | ((Some u, new), g) \<Rightarrow>
          if \<not> new then (Inr (Inl (redirect_error provider ''login'' (''email_exists_use_link:'' @ b_email u))), g)
          else (Inr (Inr (u, True)), promote_new n u g))"

definition after_link ::
  "string \<Rightarrow> (unique_violation + user_public option) \<times> graph
   \<Rightarrow> (route_error + 't redirect + user_public \<times> bool) \<times> graph" where
  "after_link provider p =
     (case p of
        (Inl v, g) \<Rightarrow> (Inl Raised, g)
      | (Inr None, g) \<Rightarrow> (Inr (Inl (redirect_error provider ''link'' ''user_not_found'')), g)
      | (Inr (Some u), g) \<Rightarrow> (Inr (Inr (u, False)), g))"

definition github_account ::
  "('t, 'k, 'h) auth_env \<Rightarrow> 't oauth_ext \<Rightarrow> string \<Rightarrow> string option \<Rightarrow> string \<Rightarrow> gh_user \<Rightarrow> graph
   \<Rightarrow> (route_error + 't redirect + user_public \<times> bool) \<times> graph" where
  "github_account n x mode state_email gh_token h g =
     (let scopes = join_with '','' (e_gh_scopes x)
      in if mode = ''link'' then
           (case or_none state_email of
              None \<Rightarrow> (Inr (Inl (redirect_error ''github'' ''link'' ''link_email_missing'')), g)
            | Some e \<Rightarrow>
                if \<not> x_db_ok n then (Inl Raised, g)
                else (case find_by_github_id (gh_id h) g of
                   Some other \<Rightarrow>
                     if b_email other \<noteq> e
                     then (Inr (Inl (redirect_error ''github'' ''link'' (''github_already_linked_to:'' @ b_email other))), g)
                     else after_link ''github'' (link_github (e_enforced x) (e_encrypt x) (x_now n) e (gh_id h) (gh_login h) gh_token scopes g)
                 | None \<Rightarrow>
                     after_link ''github'' (link_github (e_enforced x) (e_encrypt x) (x_now n) e (gh_id h) (gh_login h) gh_token scopes g)))
         else if \<not> x_db_ok n then (Inl Raised, g)
         else (case find_by_github_id (gh_id h) g of
            Some u \<Rightarrow> (Inr (Inr (u, False)), g)
          | None \<Rightarrow> after_create n ''github'' (create_user_from_github (e_encrypt x) (e_plus_month x) (x_now n)
                (e_user_uuid x) (gh_email h) (gh_name h) (gh_id h) (gh_login h) gh_token scopes g)))"

definition google_account ::
  "('t, 'k, 'h) auth_env \<Rightarrow> 't oauth_ext \<Rightarrow> string \<Rightarrow> string option \<Rightarrow> google_user \<Rightarrow> graph
   \<Rightarrow> (route_error + 't redirect + user_public \<times> bool) \<times> graph" where
  "google_account n x mode state_email h g =
     (if mode = ''link'' then
        (case or_none state_email of
           None \<Rightarrow> (Inr (Inl (redirect_error ''google'' ''link'' ''link_email_missing'')), g)
         | Some e \<Rightarrow>
             if \<not> x_db_ok n then (Inl Raised, g)
             else (case get_user_by_google_id (gu_google_id h) g of
                Some other \<Rightarrow>
                  if b_email other \<noteq> e
                  then (Inr (Inl (redirect_error ''google'' ''link'' (''google_already_linked_to:'' @ b_email other))), g)
                  else after_link ''google'' (link_google (e_enforced x) (x_now n) e (gu_google_id h) (gu_email h) g)
              | None \<Rightarrow> after_link ''google'' (link_google (e_enforced x) (x_now n) e (gu_google_id h) (gu_email h) g)))
      else if \<not> x_db_ok n then (Inl Raised, g)
      else (case get_user_by_google_id (gu_google_id h) g of
         Some u \<Rightarrow> (Inr (Inr (u, False)), g)
       | None \<Rightarrow> after_create n ''google'' (create_user_from_google (x_now n) (e_user_uuid x) (gu_email h) (gu_name h) (gu_google_id h) g)))"

definition finish_callback ::
  "('t, 'k, 'h) auth_env \<Rightarrow> string \<Rightarrow> string \<Rightarrow> (route_error + 't redirect + user_public \<times> bool) \<times> graph
   \<Rightarrow> ('k, 'h) auth_state \<Rightarrow> (route_error + 't redirect) \<times> ('k, 'h) auth_state" where
  "finish_callback n provider mode p s =
     (case p of
        (Inl er, g) \<Rightarrow> (Inl er, s\<lparr>s_graph := g\<rparr>)
      | (Inr (Inl rd), g) \<Rightarrow> (Inr rd, s\<lparr>s_graph := g\<rparr>)
      | (Inr (Inr (u, new)), g) \<Rightarrow> (case issue_tokens n provider mode new u (s\<lparr>s_graph := g\<rparr>) of (rd, s1) \<Rightarrow> (Inr rd, s1)))"

definition github_callback_route ::
  "('t, 'k, 'h) auth_env \<Rightarrow> 't oauth_ext \<Rightarrow> string option \<Rightarrow> 't option \<Rightarrow> string option \<Rightarrow> ('k, 'h) auth_state
   \<Rightarrow> (route_error + 't redirect) \<times> ('k, 'h) auth_state" where
  "github_callback_route n x code state err s =
     (if \<not> e_gh_enabled x then (Inr (redirect_error ''github'' ''error'' ''oauth_disabled''), s)
      else (case (or_none err, or_none code, state) of
         (Some e, _, _) \<Rightarrow> (Inr (redirect_error ''github'' ''error'' e), s)
       | (None, Some c, Some t) \<Rightarrow>
          (case e_gh_verify x (x_now n) t of
             Inl e \<Rightarrow> (Inr (redirect_error ''github'' ''error'' (''invalid_state:'' @ e)), s)
           | Inr p \<Rightarrow>
              (let mode = coalesce (c_mode p) ''login''
               in (case and_then (e_gh_exchange x c) (\<lambda>gt. map_sum id (\<lambda>h. (gt, h)) (e_gh_fetch x gt)) of
                     Inl e \<Rightarrow> (Inr (redirect_error ''github'' mode e), s)
                   | Inr (gt, h) \<Rightarrow> finish_callback n ''github'' mode (github_account n x mode (c_email p) gt h (s_graph s)) s)))
       | _ \<Rightarrow> (Inr (redirect_error ''github'' ''error'' ''missing_code_or_state''), s)))"

definition google_callback_route ::
  "('t, 'k, 'h) auth_env \<Rightarrow> 't oauth_ext \<Rightarrow> string option \<Rightarrow> 't option \<Rightarrow> string option \<Rightarrow> ('k, 'h) auth_state
   \<Rightarrow> (route_error + 't redirect) \<times> ('k, 'h) auth_state" where
  "google_callback_route n x code state err s =
     (if \<not> google_oauth_enabled (e_google x) then (Inr (redirect_error ''google'' ''error'' ''oauth_disabled''), s)
      else (case (or_none err, or_none code, state) of
         (Some e, _, _) \<Rightarrow> (Inr (redirect_error ''google'' ''error'' e), s)
       | (None, Some c, Some t) \<Rightarrow>
          (case verify_state_token n t of
             Inl e \<Rightarrow> (Inr (redirect_error ''google'' ''error'' (''invalid_state:'' @ e)), s)
           | Inr p \<Rightarrow>
              (let mode = coalesce (c_mode p) ''login''
               in (case and_then (exchange_code_for_token (e_to_str x) (e_google x) (e_g_post x) c)
                          (fetch_google_user (e_to_str x) (e_g_get x)) of
                     Inl (GoogleOAuthError e) \<Rightarrow> (Inr (redirect_error ''google'' mode e), s)
                   | Inl _ \<Rightarrow> (Inl Raised, s)
                   | Inr h \<Rightarrow> finish_callback n ''google'' mode (google_account n x mode (c_email p) h (s_graph s)) s)))
       | _ \<Rightarrow> (Inr (redirect_error ''google'' ''error'' ''missing_code_or_state''), s)))"

section \<open>Starting the OAuth flows\<close>

text \<open>google_login_route (mode login) and google_link_start_route (mode link, with the caller's address).\<close>

definition start_google :: "('t, 'k, 'h) auth_env \<Rightarrow> google_cfg \<Rightarrow> ('t \<Rightarrow> string) \<Rightarrow> string \<Rightarrow> string option \<Rightarrow> route_error + string" where
  "start_google n c tok mode email =
     (if assert_oauth_configured c = None then Inl (Status 503)
      else (case create_state_token n mode email of
         Inl er \<Rightarrow> Inl Raised
       | Inr t \<Rightarrow> (case build_authorize_url c (tok t) of Inl er \<Rightarrow> Inl (Status 503) | Inr url \<Rightarrow> Inr url)))"

definition google_login_route :: "('t, 'k, 'h) auth_env \<Rightarrow> google_cfg \<Rightarrow> ('t \<Rightarrow> string) \<Rightarrow> route_error + string" where
  "google_login_route n c tok = start_google n c tok ''login'' None"

definition google_link_start_route ::
  "('t, 'k, 'h) auth_env \<Rightarrow> google_cfg \<Rightarrow> ('t \<Rightarrow> string) \<Rightarrow> user_public \<Rightarrow> route_error + string" where
  "google_link_start_route n c tok u = start_google n c tok ''link'' (Some (b_email u))"

section \<open>Linked accounts\<close>

definition google_email_of :: "string \<Rightarrow> graph \<Rightarrow> string" where
  "google_email_of e g = (case find_user e g of None \<Rightarrow> '''' | Some w \<Rightarrow> coalesce (u_google_email w) '''')"

definition github_status_route :: "bool \<Rightarrow> user_public \<Rightarrow> bool \<times> string option \<times> bool" where
  "github_status_route enabled u = (or_none (b_github_username u) \<noteq> None, b_github_username u, enabled)"

definition google_status_route :: "google_cfg \<Rightarrow> user_public \<Rightarrow> graph \<Rightarrow> bool \<times> string option \<times> bool" where
  "google_status_route c u g =
     (let ge = (case get_user_by_email (b_email u) g of None \<Rightarrow> None | Some d \<Rightarrow> or_none (Some (google_email_of (b_email u) g)))
      in (ge \<noteq> None, ge, google_oauth_enabled c))"

definition github_disconnect_route ::
  "('t, 'k, 'h) auth_env \<Rightarrow> user_public \<Rightarrow> graph \<Rightarrow> (route_error + unit) \<times> graph" where
  "github_disconnect_route n u g =
     (if or_none (b_github_username u) = None then (Inl (Status 400), g)
      else if \<not> x_db_ok n then (Inl Raised, g)
      else let has_password = (case get_user_by_email (b_email u) g of None \<Rightarrow> False | Some d \<Rightarrow> d_hashed_password d \<noteq> '''');
               has_google = (google_email_of (b_email u) g \<noteq> '''')
           in if \<not> has_password \<and> \<not> has_google then (Inl (Status 409), g)
              else let (ok, g1) = unlink_github (x_now n) (b_email u) g
                   in (if \<not> ok then Inl (Status 500) else Inr (), g1))"

definition google_disconnect_route ::
  "('t, 'k, 'h) auth_env \<Rightarrow> user_public \<Rightarrow> graph \<Rightarrow> (route_error + unit) \<times> graph" where
  "google_disconnect_route n u g =
     (if \<not> x_db_ok n then (Inl Raised, g)
      else if google_email_of (b_email u) g = '''' then (Inl (Status 400), g)
      else let full = get_user_by_email (b_email u) g;
               has_password = (case full of None \<Rightarrow> False | Some d \<Rightarrow> d_hashed_password d \<noteq> '''');
               has_github = (case full of None \<Rightarrow> False | Some d \<Rightarrow> or_none (d_github_username d) \<noteq> None)
           in if \<not> has_password \<and> \<not> has_github then (Inl (Status 409), g)
              else let (ok, g1) = unlink_google (x_now n) (b_email u) g
                   in (if \<not> ok then Inl (Status 500) else Inr (), g1))"

section \<open>Notion\<close>

text \<open>What notion_client.get_me with extract_workspace_info, and notion_oauth.exchange_code_for_token,
  make of the call: workspace id, name and bot id.\<close>

datatype notion_reply = NotionTokenInvalid | NotionAPIError
  | NotionInfo "string option" "string option" "string option"

definition notion_name :: string where "notion_name = bytes [235, 133, 184, 236, 133, 152]"

definition notion_status_route ::
  "(string \<Rightarrow> string option) \<Rightarrow> bool \<Rightarrow> user_public \<Rightarrow> graph \<Rightarrow> bool \<times> string option \<times> bool" where
  "notion_status_route try_decrypt enabled u g =
     (let info = get_notion_info try_decrypt (b_email u) g
      in (info \<noteq> None, map_option ni_workspace_name info, enabled))"

definition notion_submit_token_route ::
  "('t, 'k, 'h) auth_env \<Rightarrow> (string \<Rightarrow> string) \<Rightarrow> (string \<Rightarrow> notion_reply) \<Rightarrow> string \<Rightarrow> user_public \<Rightarrow> graph
   \<Rightarrow> (route_error + bool \<times> string \<times> bool) \<times> graph" where
  "notion_submit_token_route n encrypt get_me token u g =
     (case get_me token of
        NotionTokenInvalid \<Rightarrow> (Inl (Status 400), g)
      | NotionAPIError \<Rightarrow> (Inl (Status 502), g)
      | NotionInfo wid wname botid \<Rightarrow>
          if \<not> x_db_ok n then (Inl Raised, g)
          else let (saved, g1) = link_notion encrypt (x_now n) (b_email u) token (Some (py_or wid ''''))
                     (Some (py_or wname notion_name)) (Some (py_or botid '''')) g
               in (if saved = None then Inl (Status 500) else Inr (True, py_or wname notion_name, True), g1))"

definition notion_disconnect_route ::
  "('t, 'k, 'h) auth_env \<Rightarrow> (string \<Rightarrow> string option) \<Rightarrow> user_public \<Rightarrow> graph \<Rightarrow> (route_error + unit) \<times> graph" where
  "notion_disconnect_route n try_decrypt u g =
     (if \<not> x_db_ok n then (Inl Raised, g)
      else if get_notion_info try_decrypt (b_email u) g = None then (Inl (Status 400), g)
      else let (ok, g1) = unlink_notion (x_now n) (b_email u) g
           in (if \<not> ok then Inl (Status 500) else Inr (), g1))"

text \<open>\<open>verify\<close> and \<open>exchange\<close> are notion_oauth's; the token data carry the access token too.\<close>

definition notion_callback_route ::
  "('t, 'k, 'h) auth_env \<Rightarrow> bool \<Rightarrow> ('t \<Rightarrow> string + claims) \<Rightarrow>
     (string \<Rightarrow> string + string option \<times> string option \<times> string option \<times> string option) \<Rightarrow> (string \<Rightarrow> string)
   \<Rightarrow> string option \<Rightarrow> 't option \<Rightarrow> string option \<Rightarrow> graph \<Rightarrow> (route_error + 't redirect) \<times> graph" where
  "notion_callback_route n enabled verify exchange encrypt code state err g =
     (if \<not> enabled then (Inr (redirect_error ''notion'' ''error'' ''oauth_disabled''), g)
      else (case (or_none err, or_none code, state) of
         (Some e, _, _) \<Rightarrow> (Inr (redirect_error ''notion'' ''error'' e), g)
       | (None, Some c, Some t) \<Rightarrow>
          (case verify t of
             Inl e \<Rightarrow> (Inr (redirect_error ''notion'' ''error'' (''invalid_state:'' @ e)), g)
           | Inr p \<Rightarrow>
              (case or_none (c_email p) of
                 None \<Rightarrow> (Inr (redirect_error ''notion'' ''error'' ''state_email_missing''), g)
               | Some e \<Rightarrow>
                  (case exchange c of
                     Inl er \<Rightarrow> (Inr (redirect_error ''notion'' ''notion_link'' er), g)
                   | Inr (at, wid, wname, botid) \<Rightarrow>
                       if \<not> x_db_ok n then (Inl Raised, g)
                       else (let (saved, g1) = link_notion encrypt (x_now n) e (py_or at '''') (Some (py_or wid ''''))
                                    (Some (py_or wname '''')) (Some (py_or botid '''')) g
                             in (Inr (if saved = None then redirect_error ''notion'' ''notion_link'' ''user_not_found''
                                      else \<lparr>rd_mode = ''notion_link'', rd_provider = ''notion'', rd_access = None,
                                             rd_refresh = None, rd_error = None, rd_new = False\<rparr>), g1)))))
       | _ \<Rightarrow> (Inr (redirect_error ''notion'' ''error'' ''missing_code_or_state''), g)))"

section \<open>The tokens in the redirect\<close>

text \<open>Redirects. Whatever the tokens are, they appear in the fragment only: up to the first hash sign the URL of
  a successful sign-in is the URL without tokens, so nothing of them reaches a server log or a Referer.\<close>

theorem redirect_hides_tokens:
  assumes "CHR ''#'' \<notin> set base"
  shows "takeWhile (\<lambda>c. c \<noteq> CHR ''#'') (redirect_to_frontend tok base r) =
    redirect_to_frontend tok base (r\<lparr>rd_access := None, rd_refresh := None\<rparr>)"
proof -
  have q: "redirect_query (r\<lparr>rd_access := None, rd_refresh := None\<rparr>) = redirect_query r"
    by (simp add: redirect_query_def)
  have f: "redirect_fragment tok (r\<lparr>rd_access := None, rd_refresh := None\<rparr>) = []"
    by (simp add: redirect_fragment_def)
  define url where "url = (let sep = (if CHR ''?'' \<in> set base then ''&'' else ''?'')
    in if base \<noteq> '''' then base @ sep @ urlencode (redirect_query r) else ''/?'' @ urlencode (redirect_query r))"
  have h: "CHR ''#'' \<notin> set url"
    using assms urlencode_no_hash[of "redirect_query r"] by (simp add: url_def Let_def)
  have u: "redirect_to_frontend tok base r =
      (if redirect_fragment tok r \<noteq> [] then url @ ''#'' @ urlencode (redirect_fragment tok r) else url)"
    "redirect_to_frontend tok base (r\<lparr>rd_access := None, rd_refresh := None\<rparr>) = url"
    unfolding redirect_to_frontend_def q f url_def Let_def by (simp_all only: simp_thms if_False)
  have e: "takeWhile (\<lambda>c. c \<noteq> CHR ''#'') (url @ v) = url @ takeWhile (\<lambda>c. c \<noteq> CHR ''#'') v" for v
    by (rule takeWhile_append2) (use h in blast)
  have t: "takeWhile (\<lambda>c. c \<noteq> CHR ''#'') (url @ ''#'' @ v) = url" for v
    unfolding e by simp
  have t': "takeWhile (\<lambda>c. c \<noteq> CHR ''#'') url = url"
    using e[of "[]"] by simp
  show ?thesis unfolding u by (simp only: t t' if_cancel if_distrib[of "takeWhile _"])
qed

lemma redirect_hides_tokens_witness:
  "takeWhile (\<lambda>c. c \<noteq> CHR ''#'') (redirect_to_frontend id ''https://x/cb''
     \<lparr>rd_mode = ''login'', rd_provider = ''google'', rd_access = Some ''secret'', rd_refresh = None, rd_error = None, rd_new = False\<rparr>)
   = ''https://x/cb?mode=login&provider=google''"
  by (subst redirect_hides_tokens) (simp, code_simp)

section \<open>Forced logout\<close>

lemma check_revoked_get:
  assumes "redis_up m (s_bl s)" "j \<noteq> ''''"
  shows "fst (check_revoked m (Some j) s) = (kv_get (x_kv m) (revoked_key j) (x_now m) (bl_kv (s_bl s)) \<noteq> None)"
    "s_graph (snd (check_revoked m (Some j) s)) = s_graph s"
  using check_revoked_up[OF assms] by simp_all

lemma refresh_depends:
  assumes "decode_token m t = Inr c" "c_type c = Some ''refresh''" "c_jti c = Some j"
    and "fst (check_revoked m (Some j) s) = fst (check_revoked m (Some j) s')"
    and "s_graph (snd (check_revoked m (Some j) s)) = s_graph (snd (check_revoked m (Some j) s'))"
  shows "fst (refresh_access_token m t s) = fst (refresh_access_token m t s')"
  using assms by (simp add: refresh_access_token_def Let_def split_beta split: option.split)

text \<open>C21: Forced logout. Only the owner of a session can end it: another user's attempt answers 404 and changes nothing.
  For an hour the ended session's access token is refused and the session belongs to nobody; but the refresh
  token issued with it is not touched, so the device it was stolen with gets a new pair as before.\<close>

theorem forced_logout:
  assumes "auth_laws n0" "later n0 n" "redis_up n (s_bl s)" "hash_laws (x_sess n)" "x_sess_fails n = (\<lambda>_. False)"
    and "x_uuid n0 i \<noteq> ''''" "x_uuid n0 i' \<noteq> ''''" "x_uuid n0 i \<noteq> x_uuid n0 i'"
    and "get_session_email (x_sess n) False (x_now_ms n) (x_uuid n0 i) (s_sess s) = Some owner"
    and "revoke_session_route n False (x_uuid n0 i) u s = (r, s')"
  shows "(lower owner \<noteq> lower (b_email u) \<longrightarrow> r = Inl (Status 404) \<and> s' = s) \<and>
    (lower owner = lower (b_email u) \<longrightarrow> r = Inr Ended \<and> s_graph s' = s_graph s \<and>
       (\<forall>ms. x_now_ms n \<le> ms \<longrightarrow> get_session_email (x_sess n) False ms (x_uuid n0 i) (s_sess s') = None) \<and>
       (\<forall>m v. later n m \<and> redis_up m (s_bl v) \<and> s_bl v = s_bl s' \<and> x_now m < x_now n + 3600 \<longrightarrow>
          (\<exists>er. fst (get_current_user m (Some (create_access_token n0 i e)) v) = Inl er)) \<and>
       (\<forall>m. later n m \<and> redis_up m (s_bl s) \<and> redis_up m (s_bl s') \<longrightarrow>
          fst (refresh_access_token m (create_refresh_token n0 i' e) s') =
          fst (refresh_access_token m (create_refresh_token n0 i' e) s)))"
proof (cases "lower owner = lower (b_email u)")
  case False
  then show ?thesis using assms(9,10) by (simp add: revoke_session_route_def)
next
  case True
  let ?b = "\<lparr>bl_kv = kv_set (x_kv n) (revoked_key (x_uuid n0 i)) ''1'' 3600 (x_now n) (bl_kv (s_bl s)), bl_last_failure = 0\<rparr>"
  have kl: "kv_laws (x_kv n)" using later_laws[OF assms(1,2)] by (simp add: auth_laws_def)
  have rv: "revoke (x_kv n) (x_kv_fails n) (x_clk n) (x_now n) (x_uuid n0 i) (x_now n + 3600) (s_bl s) = (Some (), ?b)"
    using assms(3) by (simp add: revoke_def redis_up_def)
  have r: "r = Inr Ended" "s_graph s' = s_graph s" "s_bl s' = ?b"
    "s_sess s' = unregister_session (x_sess n) (\<lambda>_. False) (x_now_ms n) (x_uuid n0 i) (s_sess s)"
    using assms(5,9,10) True rv by (auto simp: revoke_session_route_def)
  have acc: "\<exists>er. fst (get_current_user m (Some (create_access_token n0 i e)) v) = Inl er"
    if "later n m" "redis_up m (s_bl v)" "s_bl v = ?b" "x_now m < x_now n + 3600" for m v
  proof -
    note l = later_simps[OF that(1)]
    have c: "c_jti (access_claims n0 i e) = Some (x_uuid n0 i)" by (simp add: access_claims_def token_claims_def)
    have o: "or_none (Some (x_uuid n0 i)) = Some (x_uuid n0 i)" using assms(6) by (cases "x_uuid n0 i") simp_all
    have "fst (is_revoked (x_kv m) (x_kv_fails m) (x_clk m) (x_now m) (x_uuid n0 i) (s_bl v))"
      using that l kv_lawsD(1)[OF kl l(1)] by (simp add: is_revoked_def redis_up_def)
    then have "refused m (s_bl v) (create_access_token n0 i e)"
      using strict_of_tokens(1)[OF assms(1) later_trans[OF assms(2) that(1)], of i e] c o by (simp add: refused_def)
    then show ?thesis by (rule refused_current_user)
  qed
  have ref: "fst (refresh_access_token m (create_refresh_token n0 i' e) s') =
      fst (refresh_access_token m (create_refresh_token n0 i' e) s)"
    if "later n m" "redis_up m (s_bl s)" "redis_up m (s_bl s')" for m
  proof (cases "decode_token m (create_refresh_token n0 i' e)")
    case (Inr c)
    then have c: "c = refresh_claims n0 i' e"
      using strict_of_tokens(2)[OF assms(1) later_trans[OF assms(2) that(1)], of i' e] by (auto split: if_splits)
    have ne: "revoked_key (x_uuid n0 i') \<noteq> revoked_key (x_uuid n0 i)" using assms(8) by (simp add: revoked_key_def)
    show ?thesis
      by (rule refresh_depends[OF Inr, of "x_uuid n0 i'"])
        (simp_all add: c refresh_claims_def token_claims_def check_revoked_get[OF that(2) assms(7)]
          check_revoked_get[OF that(3) assms(7)] r later_simps[OF that(1)] kv_lawsD(1)[OF kl later_simps(1)[OF that(1)]] ne)
  qed (simp add: refresh_access_token_def)
  have gone: "get_session_email (x_sess n) False ms (x_uuid n0 i) (s_sess s') = None" if "x_now_ms n \<le> ms" for ms
    using unregistered_gone[OF assms(4,6) that] by (simp add: r get_session_email_def hash_field_def)
  show ?thesis using True r acc ref gone by auto
qed

definition example_session :: "((string \<times> string \<times> instant) list, ref_sess) auth_state" where
  "example_session = (example_state 0)\<lparr>s_sess := record_session ref_sess_api (\<lambda>_. False) 1000 ''a'' ''j0'' 4000
     \<lparr>sm_user_agent = '''', sm_ip = '''', sm_device_label = ''PC''\<rparr> \<lparr>rs_hash = [], rs_index = []\<rparr>\<rparr>"

definition example_public :: "string \<Rightarrow> user_public" where
  "example_public e = \<lparr>b_id = '''', b_email = e, b_name = '''', b_github_username = None, b_created_at = None,
     b_subscription_type = ''free'', b_is_admin = False, b_auto_progress = True, b_locale = ''ko''\<rparr>"

lemma example_owner: "get_session_email ref_sess_api False 2000 ''j0'' (s_sess example_session) = Some ''a''"
proof -
  have f: "h_hgetall ref_sess_api k t \<lparr>rs_hash = [], rs_index = []\<rparr> = []" for k t
    by (simp add: ref_sess_api_def live_hash_def)
  have "h_hgetall ref_sess_api (session_key ''j0'') (seconds 2000) (s_sess example_session) =
      session_fields ''a'' 1000 \<lparr>sm_user_agent = '''', sm_ip = '''', sm_device_label = ''PC''\<rparr>"
    using recorded_hash[OF ref_hash_laws _ _ _ f, of "''a''" "''j0''" 4000 1000 "seconds 2000"]
    by (simp add: example_session_def seconds_def)
  moreover have "lower ''a'' = ''a''" by (simp add: lower_def ascii_lower_char_def)
  ultimately show ?thesis by (simp add: get_session_email_def hash_field_def session_fields_def)
qed

lemma forced_logout_witness:
  "fst (revoke_session_route (example_env 2000 200 ''k0'' ''k1'') False ''j0'' (example_public ''b'') example_session)
     = Inl (Status 404) \<and>
   fst (revoke_session_route (example_env 2000 200 ''k0'' ''k1'') False ''j0'' (example_public ''a'') example_session) = Inr Ended"
proof -
  let ?q = "example_env 1000 100 ''j0'' ''j1''" and ?n = "example_env 2000 200 ''k0'' ''k1''"
  have up: "redis_up ?n (s_bl example_session)"
    by (simp add: redis_up_def cb_open_def cb_cooldown_def example_state_def example_session_def)
  have o: "get_session_email (x_sess ?n) False (x_now_ms ?n) (x_uuid ?q 0) (s_sess example_session) = Some ''a''"
    using example_owner by simp
  note w = forced_logout[where i' = "Suc 0", OF example_laws example_later[of 1000 2000 100 _ _ 200] up _ _ _ _ _ o prod.collapse[symmetric]]
  have l: "lower ''a'' = ''a''" "lower ''b'' = ''b''" by (simp_all add: lower_def ascii_lower_char_def)
  have a: "fst (revoke_session_route ?n False (x_uuid ?q 0) (example_public ''b'') example_session) = Inl (Status 404)"
    by (rule w[THEN conjunct1, rule_format, THEN conjunct1]) (simp_all add: ref_hash_laws example_public_def l)
  have b: "fst (revoke_session_route ?n False (x_uuid ?q 0) (example_public ''a'') example_session) = Inr Ended"
    by (rule w[THEN conjunct2, rule_format, THEN conjunct1]) (simp_all add: ref_hash_laws example_public_def l)
  from a b show ?thesis by simp
qed

section \<open>Disconnecting an account\<close>

lemma find_set_users:
  assumes "users_with e g = [w]" "\<And>v. u_email (f v) = u_email v"
  shows "users_with e (set_users e f g) = [f w]"
  using assms by (simp add: set_users_def table_simps)

text \<open>Disconnecting. GitHub can only be disconnected from an account that keeps another way to log in. The guard of the
  Google side looks at the GitHub name, which the profile form sets freely: an account whose only way in is
  Google can give itself a name there, disconnect Google and is locked out for good.\<close>

theorem disconnect_guards:
  assumes "users_with e g = [w]" "u_email w = e" "e \<noteq> ''''" "b_email u = e" "s_graph s = g" "x_db_ok n"
  shows "(fst (github_disconnect_route n u g) = Inr () \<longrightarrow> u_hashed_password w \<noteq> '''' \<or> coalesce (u_google_email w) '''' \<noteq> '''') \<and>
    (u_hashed_password w = '''' \<longrightarrow> u_github_id w = None \<longrightarrow> coalesce (u_google_email w) '''' \<noteq> '''' \<longrightarrow>
       (let s1 = snd (update_me_route n None (Some ''x'') None None u s);
            d = google_disconnect_route n u (s_graph s1)
        in fst d = Inr () \<and> (\<exists>w'. users_with e (snd d) = [w'] \<and> u_hashed_password w' = '''' \<and>
             u_github_id w' = None \<and> u_google_id w' = None)))"
proof (intro conjI impI)
  have f: "find_user e g = Some w" by (simp add: find_user_def assms(1))
  have d: "get_user_by_email e g = Some (to_user_in_db w)" using assms(2,3) by (simp add: get_user_by_email_def f)
  show "u_hashed_password w \<noteq> '''' \<or> coalesce (u_google_email w) '''' \<noteq> ''''"
    if "fst (github_disconnect_route n u g) = Inr ()"
    using that d f by (auto simp: github_disconnect_route_def assms(4) google_email_of_def to_user_in_db_def Let_def split: if_splits)
next
  assume h: "u_hashed_password w = ''''" "u_github_id w = None" "coalesce (u_google_email w) '''' \<noteq> ''''"
  let ?w1 = "update_user_set (x_now n) None (Some ''x'') None None w"
  define g1 where "g1 = set_users e (update_user_set (x_now n) None (Some ''x'') None None) g"
  have s1: "s_graph (snd (update_me_route n None (Some ''x'') None None u s)) = g1"
    by (simp add: update_me_route_def update_user_def assms(4-6) g1_def Let_def)
  have w1: "users_with e g1 = [?w1]"
    unfolding g1_def by (rule find_set_users[OF assms(1)]) (simp add: update_user_set_def)
  have em: "u_email ?w1 = e" "u_hashed_password ?w1 = ''''" "u_google_email ?w1 = u_google_email w"
    "u_github_username ?w1 = Some ''x''" "u_github_id ?w1 = None"
    using assms(2) h by (simp_all add: update_user_set_def)
  have f1: "find_user e g1 = Some ?w1" by (simp add: find_user_def w1)
  have d1: "get_user_by_email e g1 = Some (to_user_in_db ?w1)" using em assms(3) by (simp add: get_user_by_email_def f1)
  let ?unl = "\<lambda>v. v\<lparr>u_google_id := None, u_google_email := None, u_google_linked_at := None, u_updated_at := Some (x_now n)\<rparr>"
  have w2: "users_with e (set_users e ?unl g1) = [?unl ?w1]" by (rule find_set_users[OF w1]) simp
  have f2: "find_user e (set_users e ?unl g1) = Some (?unl ?w1)" by (simp only: find_user_def w2 row1_simps)
  have ul: "unlink_google (x_now n) e g1 = (True, set_users e ?unl g1)"
    using em assms(3) by (simp add: unlink_google_def Let_def row_email_true_def f2)
  have "google_disconnect_route n u g1 = (Inr (), set_users e ?unl g1)"
    using h em d1 f1 by (simp add: google_disconnect_route_def assms(4,6) google_email_of_def to_user_in_db_def ul)
  then show "let s1 = snd (update_me_route n None (Some ''x'') None None u s);
            d = google_disconnect_route n u (s_graph s1)
        in fst d = Inr () \<and> (\<exists>w'. users_with e (snd d) = [w'] \<and> u_hashed_password w' = '''' \<and>
             u_github_id w' = None \<and> u_google_id w' = None)"
    using w2 em by (simp add: s1)
qed

definition example_google_only :: "((string \<times> string \<times> instant) list, ref_sess) auth_state" where
  "example_google_only = (example_state 0)\<lparr>s_graph := empty_graph\<lparr>g_users :=
     [(blank_user ''a'')\<lparr>u_google_id := Some ''7'', u_google_email := Some ''a''\<rparr>]\<rparr>\<rparr>"

lemma disconnect_guards_witness:
  "fst (google_disconnect_route (example_env 2000 200 ''k0'' ''k1'') (example_public ''a'')
     (s_graph (snd (update_me_route (example_env 2000 200 ''k0'' ''k1'') None (Some ''x'') None None (example_public ''a'') example_google_only))))
   = Inr ()"
  using disconnect_guards[of "''a''" "s_graph example_google_only"
      "(blank_user ''a'')\<lparr>u_google_id := Some ''7'', u_google_email := Some ''a''\<rparr>" "example_public ''a''" example_google_only
      "example_env 2000 200 ''k0'' ''k1''"]
  by (simp add: example_google_only_def example_public_def blank_user_def empty_graph_def Let_def)

section \<open>Deleting the account\<close>

lemma delete_me_rows:
  "x \<in> set (fst (delete_user_cypher e g)) \<Longrightarrow> x = Deleted"
  "fst (delete_user_cypher e g) = [] \<Longrightarrow> snd (delete_user_cypher e g) = g"
  by (auto simp: delete_user_cypher_def call_subquery_def Let_def split: if_splits)

lemma delete_outcome:
  assumes "delete_user e g = (st, g')"
  shows "st \<noteq> LastAdmin" "st \<noteq> Deleted \<Longrightarrow> g' = g"
  using assms delete_me_rows(1)[of _ e g] delete_me_rows(2)[of e g]
  by (cases "fst (delete_user_cypher e g)"; auto simp: delete_user_def split_beta Let_def)+

text \<open>Withdrawal. Asking for deletion is always recorded first. Only a deletion that went through purges data, and then
  exactly the projects the account owned before; otherwise the graph is left as it was. The last
  administrator is answered 500, not the 400 the code has for this case.\<close>

theorem delete_me_spec:
  assumes "x_db_ok n" "x_write_ok n" "delete_me_route n purge payload t u s = (r, s')"
  shows "(\<exists>a. s_audit s' = s_audit s @ [a] \<and> al_actor a = b_email u \<and> al_action a = ACTION_USER_SELF_DELETE) \<and>
    (fst (delete_user (b_email u) (s_graph s)) = Deleted \<longrightarrow>
       s_graph s' = snd (purge_owned_projects purge (list_owned_project_names (b_email u) (s_graph s))
          (snd (delete_user (b_email u) (s_graph s))))) \<and>
    (fst (delete_user (b_email u) (s_graph s)) \<noteq> Deleted \<longrightarrow> r = Inl (Status 500) \<and> s_graph s' = s_graph s)"
proof -
  obtain st g where d: "delete_user (b_email u) (s_graph s) = (st, g)" by fastforce
  have bl: "s_graph (snd (blacklist_token n t v q)) = s_graph q" "s_audit (snd (blacklist_token n t v q)) = s_audit q" for v q
    by (auto simp: blacklist_token_def split: sum.splits option.splits)
  have lo: "logout n t None q = (x, y) \<Longrightarrow> s_graph y = s_graph q \<and> s_audit y = s_audit q" for q x y
    using bl[of True q] by (auto simp: logout_def Let_def split: prod.splits option.splits)
  note na = delete_outcome(1)[OF d] and gr = delete_outcome(2)[OF d]
  show ?thesis
    using assms d na gr
    by (auto simp: delete_me_route_def Let_def audit_write_def dest!: lo split: option.splits prod.splits if_splits)
qed

lemma delete_me_spec_witness:
  "fst (delete_me_route (example_env 2000 200 ''k0'' ''k1'') (\<lambda>p g. (True, g)) ''{}'' (claims.make None None None None None [] None None)
     (example_public ''zz'') (example_state 0)) = Inl (Status 500)"
proof -
  let ?r = "delete_me_route (example_env 2000 200 ''k0'' ''k1'') (\<lambda>p g. (True, g)) ''{}'' (claims.make None None None None None [] None None)
     (example_public ''zz'') (example_state 0)"
  have "fst (delete_user ''zz'' (s_graph (example_state 0))) \<noteq> Deleted"
    by (simp add: delete_user_def delete_user_cypher_def example_state_def empty_graph_def blank_user_def Let_def)
  then show ?thesis
    using delete_me_spec[OF _ _ prod.collapse[symmetric], of "example_env 2000 200 ''k0'' ''k1''" "\<lambda>p g. (True, g)" "''{}''"
        "claims.make None None None None None [] None None" "example_public ''zz''" "example_state 0"]
    by (simp add: example_public_def)
qed

section \<open>Who a Google sign-in logs in\<close>

definition has_google :: "string \<Rightarrow> string \<Rightarrow> graph \<Rightarrow> bool" where
  "has_google gid e g \<longleftrightarrow> (\<exists>w \<in> set (g_users g). u_email w = e \<and> u_google_id w = Some gid)"

lemma has_google_set:
  assumes "has_google gid e g" "\<And>w. u_email (f w) = u_email w" "\<And>w. u_google_id (f w) = u_google_id w"
  shows "has_google gid e (set_users e' f g)"
proof -
  obtain w where w: "w \<in> set (g_users g)" "u_email w = e" "u_google_id w = Some gid"
    using assms(1) by (auto simp: has_google_def)
  let ?v = "if u_email w = e' then f w else w"
  have "?v \<in> set (g_users (set_users e' f g))" using w(1) by (simp add: set_users_def set_on_def)
  moreover have "u_email ?v = e" "u_google_id ?v = Some gid" using w assms(2,3) by simp_all
  ultimately show ?thesis unfolding has_google_def by blast
qed

lemma has_google_touch: "has_google gid e g \<Longrightarrow> has_google gid e (touch_last_active ok now e' g)"
  by (auto simp: touch_last_active_def intro: has_google_set)

lemma has_google_promote: "has_google gid e g \<Longrightarrow> has_google gid e (promote_new n u g)"
proof -
  have "has_google gid e g \<Longrightarrow> has_google gid e (snd (promote_unwind now es g))" for now es
  proof (induction now es g rule: promote_unwind.induct)
    case (2 now a es g)
    have "has_google gid e (set_users a (\<lambda>u. u\<lparr>u_is_admin := Some True, u_updated_at := Some now\<rparr>) g)"
      by (rule has_google_set[OF 2(2)]) simp_all
    with 2(1) show ?case by (simp add: Let_def split_beta)
  qed simp
  then show "has_google gid e g \<Longrightarrow> has_google gid e (promote_new n u g)"
    by (simp add: promote_new_def promote_admins_by_emails_def del: promote_unwind.simps)
qed

lemma row_to_public_email: "row_to_public w = Some u \<Longrightarrow> b_email u = u_email w"
  by (auto simp: row_to_public_def split: if_splits)

lemma google_found:
  assumes "get_user_by_google_id gid g = Some u"
  shows "has_google gid (b_email u) g"
  using assms row_to_public_email
  by (auto simp: get_user_by_google_id_def has_google_def row1_def bind_eq_Some_conv split: list.splits)
     (metis (mono_tags, lifting) filter_eq_Cons_iff in_set_conv_decomp)

lemma google_created:
  assumes "create_user_from_google now uuid e nm gid g = ((Some u, True), g')"
  shows "has_google gid (b_email u) g'"
proof -
  let ?new = "create_user_from_google_new now uuid e nm gid"
  let ?g = "g\<lparr>g_users := merge_on u_email e ?new (\<lambda>u. u\<lparr>u_created := Some False\<rparr>) (g_users g)\<rparr>"
  have g': "g' = ?g" using assms by (simp add: create_user_from_google_def oauth_create_result_def create_user_from_google_cypher_def Let_def)
  obtain w where w: "row1 (create_rows e ?g) = Some (Created, w)" "row_to_public w = Some u"
    using assms by (auto simp: create_user_from_google_def oauth_create_result_def create_user_from_google_cypher_def Let_def
        split: option.splits)
  have en: "u_email ?new = e" "u_google_id ?new = Some gid"
    by (simp_all add: create_user_from_google_new_def blank_user_def)
  have "users_with e ?g = (if users_with e g = [] then [?new] else map (\<lambda>u. u\<lparr>u_created := Some False\<rparr>) (users_with e g))"
    by (simp add: match_on_merge_same[where key = u_email and k = e and new = ?new] en(1))
  then have "users_with e g = []" "w = ?new"
    using w(1) by (auto simp: create_rows_def row1_def split: if_splits list.splits)
  then show ?thesis
    using w(2) row_to_public_email[OF w(2)] en by (auto simp: g' has_google_def merge_on_def)
qed

lemma google_linked:
  assumes "link_google enforced now e gid gmail g = (Inr (Some u), g')"
  shows "has_google gid (b_email u) g'"
proof -
  let ?f = "\<lambda>u. u\<lparr>u_google_id := Some gid, u_google_email := Some gmail, u_google_linked_at := Some now, u_updated_at := Some now\<rparr>"
  have g': "g' = set_users e ?f g" and r: "Option.bind (find_user e g') row_to_public = Some u"
    using assms by (auto simp: link_google_def Let_def split: if_splits)
  have m: "users_with e (set_users e ?f g) = map ?f (users_with e g)" by (simp add: set_users_def table_simps)
  obtain w where w: "find_user e g' = Some w" "row_to_public w = Some u" using r by (auto simp: bind_eq_Some_conv)
  then have "w \<in> set (users_with e g')" by (auto simp: find_user_def row1_def split: list.splits)
  then have w': "w \<in> set (map ?f (users_with e g))" and "w \<in> set (g_users g')"
    unfolding g' m by (simp_all add: match_on_def set_users_def set_on_def) (auto simp: match_on_def set_on_def set_users_def)
  moreover have "u_google_id w = Some gid" using w' by auto
  ultimately show ?thesis using row_to_public_email[OF w(2)] by (auto simp: has_google_def)
qed

lemma google_account_has:
  assumes "google_account n x mode se h g = (Inr (Inr (u, new)), g')"
  shows "has_google (gu_google_id h) (b_email u) g' \<and> (mode = ''link'' \<longrightarrow> new = False)"
proof -
  have al: "after_link p q = (Inr (Inr (u, new)), g') \<Longrightarrow> q = (Inr (Some u), g') \<and> \<not> new" for p q
    by (auto simp: after_link_def split: prod.splits sum.splits option.splits)
  have ac: "after_create n p q = (Inr (Inr (u, new)), g') \<Longrightarrow>
      \<exists>g1. q = ((Some u, True), g1) \<and> g' = promote_new n u g1" for p q
    by (auto simp: after_create_def split: prod.splits option.splits if_splits)
  have cr: "create_user_from_google now uuid e nm gid g = ((Some u, True), g1) \<Longrightarrow> has_google gid (b_email u) (promote_new n u g1)"
    for now uuid e nm gid g g1
    using google_created has_google_promote by blast
  show ?thesis
    using assms google_linked google_found cr
    unfolding google_account_def
    by (auto split: if_splits option.splits dest!: al ac)
qed

text \<open>C20: Google sign-in. Tokens only leave the callback when the state token was valid and Google's answers verified;
  they are the tokens of an account that carries exactly the Google id that was verified, and that account is
  not suspended. Neither an audit entry nor a session is recorded, unlike for the other logins.\<close>

theorem google_callback_logs_in:
  assumes "google_callback_route n x code state err s = (Inr rd, s')" "rd_access rd = Some a"
  shows "\<exists>t c p h gt u. state = Some t \<and> code = Some c \<and> verify_state_token n t = Inr p \<and>
      exchange_code_for_token (e_to_str x) (e_google x) (e_g_post x) c = Inr gt \<and>
      fetch_google_user (e_to_str x) (e_g_get x) gt = Inr h \<and>
      a = create_access_token n 0 u \<and> has_google (gu_google_id h) u (s_graph s') \<and>
      (\<forall>d. get_user_by_email u (s_graph s') = Some d \<longrightarrow> \<not> d_is_suspended d) \<and>
      s_sess s' = s_sess s \<and> s_audit s' = s_audit s"
proof -
  have ne: "rd \<noteq> redirect_error pr mo er" for pr mo er
    using assms(2) by (auto simp: redirect_error_def)
  obtain t c p h gt where c: "state = Some t" "code = Some c" "verify_state_token n t = Inr p"
      "exchange_code_for_token (e_to_str x) (e_google x) (e_g_post x) c = Inr gt"
      "fetch_google_user (e_to_str x) (e_g_get x) gt = Inr h"
      "finish_callback n ''google'' (coalesce (c_mode p) ''login'')
         (google_account n x (coalesce (c_mode p) ''login'') (c_email p) h (s_graph s)) s = (Inr rd, s')"
    using assms(1) ne
    by (auto simp: google_callback_route_def and_then_def Let_def dest: or_none_Some
        split: if_splits option.splits sum.splits google_exc.splits)
  have noaccess: "google_account n x m se h g \<noteq> (Inr (Inl rd), g')" for m se g g'
    using ne unfolding google_account_def after_link_def after_create_def
    by (auto split: if_splits option.splits sum.splits prod.splits)
  obtain u new g where g: "google_account n x (coalesce (c_mode p) ''login'') (c_email p) h (s_graph s) = (Inr (Inr (u, new)), g)"
      "issue_tokens n ''google'' (coalesce (c_mode p) ''login'') new u (s\<lparr>s_graph := g\<rparr>) = (rd, s')"
    using c(6) noaccess by (auto simp: finish_callback_def split: sum.splits prod.splits)
  have i: "a = create_access_token n 0 (b_email u)" "s_sess s' = s_sess s" "s_audit s' = s_audit s"
    "s_graph s' = touch_last_active (x_write_ok n) (x_now n) (b_email u) g"
    "\<forall>d. get_user_by_email (b_email u) g = Some d \<longrightarrow> \<not> d_is_suspended d"
    using g(2) assms(2) ne by (auto simp: issue_tokens_def Let_def split: option.splits if_splits)
  have "has_google (gu_google_id h) (b_email u) (s_graph s')"
    using google_account_has[OF g(1)] has_google_touch by (simp add: i(4))
  then show ?thesis using c(1-5) i find_touch by (metis (no_types, lifting))
qed

definition example_ext :: "claims oauth_ext" where
  "example_ext = \<lparr>e_gh_enabled = True, e_gh_scopes = [], e_gh_verify = (\<lambda>t c. Inr c), e_gh_exchange = (\<lambda>c. Inl ''down''),
     e_gh_fetch = (\<lambda>t. Inl ''down''),
     e_google = \<lparr>gc_client_id = ''i'', gc_secret = ''s'', gc_redirect_uri = ''u'', gc_frontend = ''f'', gc_scopes = ''openid''\<rparr>,
     e_to_str = (\<lambda>j. case j of JStr s \<Rightarrow> s | _ \<Rightarrow> ''?''), e_g_post = (\<lambda>c. Body (JObj [(''access_token'', JStr ''t'')])),
     e_g_get = (\<lambda>t. Body (JObj [(''sub'', JStr ''7''), (''email'', JStr ''a''), (''email_verified'', JBool True), (''name'', JStr ''n'')])),
     e_enforced = True, e_plus_month = (\<lambda>t. t), e_encrypt = (\<lambda>s. s), e_user_uuid = ''u1''\<rparr>"

lemma google_callback_logs_in_witness:
  "\<exists>t a. create_state_token (example_env 1000 100 ''j0'' ''j1'') ''login'' None = Inr t \<and>
     rd_access (projr (fst (google_callback_route (example_env 2000 200 ''k0'' ''k1'') example_ext (Some ''c'') (Some t) None example_google_only))) = Some a \<and>
     has_google ''7'' ''a'' (s_graph (snd (google_callback_route (example_env 2000 200 ''k0'' ''k1'') example_ext (Some ''c'') (Some t) None example_google_only)))"
proof -
  let ?n = "example_env 2000 200 ''k0'' ''k1''"
  let ?p = "\<lparr>c_sub = None, c_type = Some STATE_TYPE, c_jti = None, c_iat = Some 1,
     c_exp = Some 601, c_scope = [], c_mode = Some ''login'', c_email = None\<rparr>"
  have t: "create_state_token (example_env 1000 100 ''j0'' ''j1'') ''login'' None = Inr ?p"
    by (simp add: create_state_token_def STATE_EXPIRE_MINUTES_def seconds_def)
  have v: "verify_state_token ?n ?p = Inr ?p"
    by (simp add: verify_state_token_def ref_decode_def seconds_def)
  let ?h = "\<lparr>gu_google_id = ''7'', gu_email = lower ''a'', gu_name = ''n'', gu_picture = ''''\<rparr>"
  have x: "exchange_code_for_token (e_to_str example_ext) (e_google example_ext) (e_g_post example_ext) ''c'' = Inr (JStr ''t'')"
    by (simp add: exchange_code_for_token_def example_ext_def google_oauth_enabled_def is_obj_def json_get_def json_true_def)
  have f: "fetch_google_user (e_to_str example_ext) (e_g_get example_ext) (JStr ''t'') = Inr ?h"
    by (simp add: fetch_google_user_def example_ext_def is_obj_def json_get_def json_true_def field_true_def Let_def)
  have w: "get_user_by_google_id ''7'' (s_graph example_google_only) = row_to_public ((blank_user ''a'')\<lparr>u_google_id := Some ''7'', u_google_email := Some ''a''\<rparr>)"
    by (simp add: get_user_by_google_id_def example_google_only_def empty_graph_def)
  obtain u where u: "row_to_public ((blank_user ''a'')\<lparr>u_google_id := Some ''7'', u_google_email := Some ''a''\<rparr>) = Some u" "b_email u = ''a''"
    by (simp add: row_to_public_def blank_user_def)
  have ga: "google_account ?n example_ext ''login'' None ?h (s_graph example_google_only) = (Inr (Inr (u, False)), s_graph example_google_only)"
    by (simp add: google_account_def w u)
  have en: "google_oauth_enabled (e_google example_ext)" by (simp add: example_ext_def google_oauth_enabled_def)
  have gu: "\<exists>d. get_user_by_email ''a'' (s_graph example_google_only) = Some d \<and> \<not> d_is_suspended d"
    by (simp add: get_user_by_email_def find_user_def example_google_only_def empty_graph_def blank_user_def to_user_in_db_def)
  obtain s' where r: "google_callback_route ?n example_ext (Some ''c'') (Some ?p) None example_google_only =
      (Inr \<lparr>rd_mode = ''login'', rd_provider = ''google'', rd_access = Some (create_access_token ?n 0 ''a''),
        rd_refresh = Some (create_refresh_token ?n 1 ''a''), rd_error = None, rd_new = False\<rparr>, s')"
    using gu by (auto simp: google_callback_route_def en v and_then_def x f ga finish_callback_def issue_tokens_def u(2) Let_def)
  have e: "exchange_code_for_token (e_to_str example_ext) (e_google example_ext) (e_g_post example_ext) ''c'' = Inr gt \<Longrightarrow> gt = JStr ''t''" for gt
    using x by simp
  from google_callback_logs_in[OF r, simplified] obtain e where "create_access_token ?n 0 ''a'' = create_access_token ?n 0 e"
    "has_google ''7'' e (s_graph s')"
    by (auto simp: x f)
  moreover have "e = ''a''" using calculation(1)
    by (simp add: create_access_token_def create_token_def token_claims_def)
  ultimately show ?thesis using t r by auto
qed

section \<open>Routes over modules outside the repository\<close>

text \<open>github_oauth, notion_oauth, vibe_repo_repository and meeting_upload_repository are arguments. A repository
  call answers Inl for its ValueError, None for what is not there.\<close>

definition github_start ::
  "('o \<Rightarrow> bool) \<Rightarrow> ('o \<Rightarrow> string \<Rightarrow> string option \<Rightarrow> 't) \<Rightarrow> ('o \<Rightarrow> 't \<Rightarrow> string option) \<Rightarrow> 'o \<Rightarrow> string \<Rightarrow> string option
   \<Rightarrow> route_error + string" where
  "github_start configured create build lib mode email =
     (if \<not> configured lib then Inl (Status 503)
      else (case build lib (create lib mode email) of None \<Rightarrow> Inl (Status 503) | Some url \<Rightarrow> Inr url))"

definition github_login_route where
  "github_login_route configured create build lib = github_start configured create build lib ''login'' None"

definition github_link_start_route where
  "github_link_start_route configured create build lib u = github_start configured create build lib ''link'' (Some (b_email u))"

definition notion_link_start_route ::
  "(string \<Rightarrow> 't option) \<Rightarrow> ('t \<Rightarrow> string option) \<Rightarrow> user_public \<Rightarrow> route_error + string" where
  "notion_link_start_route create build u =
     (case Option.bind (create (b_email u)) build of None \<Rightarrow> Inl (Status 503) | Some url \<Rightarrow> Inr url)"

definition list_my_library_route :: "(string \<Rightarrow> 'v list) \<Rightarrow> user_public \<Rightarrow> 'v list \<times> nat" where
  "list_my_library_route get u = (get (b_email u), length (get (b_email u)))"

definition add_library_repo_route :: "(string \<Rightarrow> 'p \<Rightarrow> string + 'v) \<Rightarrow> user_public \<Rightarrow> 'p \<Rightarrow> route_error + 'v" where
  "add_library_repo_route add u p = (case add (b_email u) p of Inl er \<Rightarrow> Inl (Status 422) | Inr v \<Rightarrow> Inr v)"

definition delete_library_repo_route :: "(string \<Rightarrow> string \<Rightarrow> bool) \<Rightarrow> user_public \<Rightarrow> string \<Rightarrow> route_error + string" where
  "delete_library_repo_route del u url = (if \<not> del (b_email u) url then Inl (Status 404) else Inr url)"

definition list_my_uploads_route :: "(string \<Rightarrow> 'v list) \<Rightarrow> user_public \<Rightarrow> 'v list \<times> nat" where
  "list_my_uploads_route items u = (items (b_email u), length (items (b_email u)))"

definition add_my_upload_route :: "(string \<Rightarrow> 'p \<Rightarrow> string + 'v) \<Rightarrow> user_public \<Rightarrow> 'p \<Rightarrow> route_error + 'v" where
  "add_my_upload_route add u p = (case add (b_email u) p of Inl er \<Rightarrow> Inl (Status 422) | Inr v \<Rightarrow> Inr v)"

definition get_my_upload_route :: "(string \<Rightarrow> string \<Rightarrow> 'v option) \<Rightarrow> user_public \<Rightarrow> string \<Rightarrow> route_error + 'v" where
  "get_my_upload_route get u i = (case get (b_email u) i of None \<Rightarrow> Inl (Status 404) | Some v \<Rightarrow> Inr v)"

definition delete_my_upload_route :: "(string \<Rightarrow> string \<Rightarrow> bool) \<Rightarrow> user_public \<Rightarrow> string \<Rightarrow> route_error + string" where
  "delete_my_upload_route del u i = (if \<not> del (b_email u) i then Inl (Status 404) else Inr i)"

end
