(* ===== verification/PipelineText.thy ===== *)
theory PipelineText
  imports PyText "HOL-Library.List_Lexorder" "HOL-Library.Char_ord" "HOL-Library.Product_Lexorder" "HOL-Library.Multiset"
begin

text \<open>
  src/app/pipelines/base.py, the text helpers around the language model: quoting for
  Cypher, fences and placeholders in answers, and the canonical forms of meeting texts
  and graphs. \<open>nfc\<close> is Unicode normalisation, \<open>loads\<close> and \<open>dumps\<close> the JSON codec,
  \<open>to_str\<close> str() of a JSON value.
\<close>

abbreviation nl :: char where "nl \<equiv> CHR 0x0A"
abbreviation cr :: char where "cr \<equiv> CHR 0x0D"
abbreviation bslash :: char where "bslash \<equiv> CHR 0x5C"
abbreviation quote :: char where "quote \<equiv> CHR 0x27"

section \<open>str.replace\<close>

function replace_all :: "string \<Rightarrow> string \<Rightarrow> string \<Rightarrow> string" where
  "replace_all old new s =
     (if old = [] then s
      else case s of [] \<Rightarrow> []
        | c # cs \<Rightarrow> if starts_with old s then new @ replace_all old new (drop (length old) s)
                    else c # replace_all old new cs)"
  by auto
termination by (relation "measure (\<lambda>(old, new, s). length s)") auto

declare replace_all.simps [simp del]

section \<open>Cypher\<close>

definition ident_start :: "char \<Rightarrow> bool" where
  "ident_start c = (let n = (of_char c :: nat) in (65 \<le> n \<and> n \<le> 90) \<or> (97 \<le> n \<and> n \<le> 122) \<or> c = CHR ''_'')"

definition ident_char :: "char \<Rightarrow> bool" where
  "ident_char c = (ident_start c \<or> ascii_digit c)"

text \<open>The pattern ends in \<open>$\<close>, which also matches before a newline at the end of the text.\<close>

definition cypher_ident_match :: "string \<Rightarrow> bool" where
  "cypher_ident_match s =
     (case s of [] \<Rightarrow> False
      | c # cs \<Rightarrow> ident_start c \<and> list_all ident_char (if cs \<noteq> [] \<and> last cs = nl then butlast cs else cs))"

text \<open>The argument is a str or some other value (None). Only texts of ASCII characters match, for
  which bytes are characters.\<close>

definition is_safe_cypher_identifier :: "string option \<Rightarrow> bool" where
  "is_safe_cypher_identifier name =
     (case name of None \<Rightarrow> False
      | Some s \<Rightarrow> 1 \<le> length s \<and> length s \<le> 64 \<and> cypher_ident_match s)"

definition escape_cypher_string :: "string \<Rightarrow> string" where
  "escape_cypher_string s =
     replace_all [cr] [bslash, CHR ''r''] (replace_all [nl] [bslash, CHR ''n'']
       (replace_all [quote] [bslash, quote] (replace_all [bslash] [bslash, bslash] s)))"

definition quoted :: "string \<Rightarrow> string" where
  "quoted s = [quote] @ escape_cypher_string s @ [quote]"

text \<open>\<open>num\<close> is the text Python gives an int or a float.\<close>

definition format_item :: "(json \<Rightarrow> string) \<Rightarrow> json \<Rightarrow> string" where
  "format_item dumps it =
     (case it of JStr s \<Rightarrow> quoted s | JBool b \<Rightarrow> if b then ''true'' else ''false''
      | JInt i \<Rightarrow> dumps it | JFloat f \<Rightarrow> f | _ \<Rightarrow> quoted (dumps it))"

definition format_value :: "(json \<Rightarrow> string) \<Rightarrow> json \<Rightarrow> string" where
  "format_value dumps v =
     (case v of JNull \<Rightarrow> [quote, quote] | JBool b \<Rightarrow> if b then ''true'' else ''false''
      | JInt i \<Rightarrow> dumps v | JFloat f \<Rightarrow> f | JStr s \<Rightarrow> quoted s
      | JList l \<Rightarrow> ''['' @ join_with '', '' (map (format_item dumps) l) @ '']''
      | JObj kv \<Rightarrow> quoted (dumps v))"

definition format_props :: "(json \<Rightarrow> string) \<Rightarrow> (string \<times> json) list \<Rightarrow> string" where
  "format_props dumps props =
     (if props = [] then ''{}''
      else ''{ '' @ join_with '', '' (map (\<lambda>(k, v). k @ '': '' @ format_value dumps v)
             (filter (\<lambda>(k, v). is_safe_cypher_identifier (Some k)) props)) @ '' }'')"

section \<open>Fences and embedded JSON\<close>

text \<open>re.IGNORECASE on str: besides the other case, the long s matches s and the Kelvin sign k.\<close>

definition ci_alternatives :: "char \<Rightarrow> string list" where
  "ci_alternatives c = [[c], [char_of (of_char c - 32 :: nat)]]
     @ (if c = CHR ''s'' then [bytes [197, 191]] else if c = CHR ''k'' then [bytes [226, 132, 170]] else [])"

fun ci_match :: "string \<Rightarrow> string \<Rightarrow> string option" where
  "ci_match [] s = Some s"
| "ci_match (c # cs) s =
     (case find (\<lambda>w. starts_with w s) (ci_alternatives c) of
        None \<Rightarrow> None
      | Some w \<Rightarrow> ci_match cs (drop (length w) s))"

definition fence :: string where "fence = [CHR 0x60, CHR 0x60, CHR 0x60]"

definition strip_lead_fence :: "string \<Rightarrow> string" where
  "strip_lead_fence s =
     (let t = py_lstrip s
      in if starts_with fence t
         then (let u = drop 3 t
               in py_lstrip (case ci_match ''json'' u of Some r \<Rightarrow> r
                             | None \<Rightarrow> (case ci_match ''markdown'' u of Some r \<Rightarrow> r | None \<Rightarrow> u)))
         else s)"

definition ends_with :: "string \<Rightarrow> string \<Rightarrow> bool" where
  "ends_with p s = (length p \<le> length s \<and> drop (length s - length p) s = p)"

definition strip_code_blocks :: "string \<Rightarrow> string" where
  "strip_code_blocks s =
     (if s = '''' then ''''
      else let out = strip_lead_fence s;
               tail = py_rstrip out
           in py_strip (if ends_with fence tail then take (length tail - 3) tail else out))"

definition first_index :: "char \<Rightarrow> string \<Rightarrow> nat option" where
  "first_index c s = (if c \<in> set s then Some (length (takeWhile (\<lambda>x. x \<noteq> c) s)) else None)"

definition last_index :: "char \<Rightarrow> string \<Rightarrow> nat option" where
  "last_index c s = (if c \<in> set s then Some (length s - 1 - length (takeWhile (\<lambda>x. x \<noteq> c) (rev s))) else None)"

definition extract_json_object :: "(string \<Rightarrow> json option) \<Rightarrow> string \<Rightarrow> json" where
  "extract_json_object loads s =
     (if s = '''' then JObj []
      else let body = strip_code_blocks s
           in (case (first_index (CHR ''{'') body, last_index (CHR ''}'') body) of
                 (Some a, Some b) \<Rightarrow>
                   if b \<le> a then JObj []
                   else (case loads (take (b + 1 - a) (drop a body)) of Some j \<Rightarrow> j | None \<Rightarrow> JObj [])
               | _ \<Rightarrow> JObj []))"

section \<open>Placeholders\<close>

definition placeholder_text :: string where "placeholder_text = bytes [235, 175, 184, 236, 160, 149]"

definition example_word :: string where "example_word = bytes [236, 152, 136]"

text \<open>The word, white space, a colon: somewhere in the text.\<close>

fun has_example :: "string \<Rightarrow> bool" where
  "has_example [] = False"
| "has_example (c # cs) =
     ((starts_with example_word (c # cs) \<and> starts_with '':'' (py_lstrip (drop (length example_word) (c # cs))))
      \<or> has_example cs)"

definition no_bracket :: "char \<Rightarrow> bool" where
  "no_bracket c = (c \<noteq> CHR ''['' \<and> c \<noteq> CHR '']'')"

text \<open>The length of the match at the front, if there is one.\<close>

definition square_match :: "string \<Rightarrow> nat option" where
  "square_match s =
     (case s of [] \<Rightarrow> None
      | c # cs \<Rightarrow>
          (let w = takeWhile no_bracket cs
           in if c = CHR ''['' \<and> starts_with '']'' (drop (length w) cs) \<and> has_example w then Some (length w + 2) else None))"

text \<open>The characters of a Hangul syllable (U+AC00 to U+D7A3) or white space at the front.\<close>

definition hangul_at :: "string \<Rightarrow> nat" where
  "hangul_at s =
     (case map (of_char :: char \<Rightarrow> nat) (take 3 s) of
        [a, b, c] \<Rightarrow> (let v = a * 65536 + b * 256 + c
                      in if 128 \<le> b \<and> b < 192 \<and> 128 \<le> c \<and> c < 192 \<and> 15380608 \<le> v \<and> v \<le> 15572643 then 3 else 0)
      | _ \<Rightarrow> 0)"

definition space_at :: "string \<Rightarrow> nat" where
  "space_at s = (case find (\<lambda>w. starts_with w s) py_ws of None \<Rightarrow> 0 | Some w \<Rightarrow> length w)"

fun hangul_run :: "nat \<Rightarrow> string \<Rightarrow> nat \<times> nat" where
  "hangul_run 0 s = (0, 0)"
| "hangul_run (Suc fuel) s =
     (let k = (if hangul_at s \<noteq> 0 then hangul_at s else space_at s)
      in if k = 0 then (0, 0)
         else let (chars, len) = hangul_run fuel (drop k s) in (Suc chars, k + len))"

definition curly_match :: "string \<Rightarrow> nat option" where
  "curly_match s =
     (case s of [] \<Rightarrow> None
      | c # cs \<Rightarrow>
          (let (chars, len) = hangul_run (length cs) cs
           in if c = CHR ''{'' \<and> 1 \<le> chars \<and> chars \<le> 40 \<and> starts_with ''}'' (drop len cs) then Some (len + 2) else None))"

function sub_all :: "(string \<Rightarrow> nat option) \<Rightarrow> string \<Rightarrow> string \<Rightarrow> string" where
  "sub_all m r [] = []"
| "sub_all m r (c # cs) =
     (case m (c # cs) of
        None \<Rightarrow> c # sub_all m r cs
      | Some k \<Rightarrow> r @ sub_all m r (drop (k - 1) cs))"
  by pat_completeness auto
termination by (relation "measure (\<lambda>(m, r, s). length s)") auto

definition strip_template_placeholders :: "string \<Rightarrow> string" where
  "strip_template_placeholders s =
     sub_all curly_match placeholder_text (sub_all square_match placeholder_text s)"

section \<open>The canonical meeting text\<close>

text \<open>re.sub of three or more newlines by two; the argument counts the newlines kept of the run.\<close>

fun collapse :: "nat \<Rightarrow> string \<Rightarrow> string" where
  "collapse k [] = []"
| "collapse k (c # cs) =
     (if c = nl then (if 2 \<le> k then collapse k cs else c # collapse (Suc k) cs)
      else c # collapse 0 cs)"

definition trim_nl :: "string \<Rightarrow> string" where
  "trim_nl s = rev (dropWhile (\<lambda>c. c = nl) (rev (dropWhile (\<lambda>c. c = nl) s)))"

definition fix_newlines :: "string \<Rightarrow> string" where
  "fix_newlines s = replace_all [cr] [nl] (replace_all [cr, nl] [nl] s)"

definition trim_lines :: "string \<Rightarrow> string" where
  "trim_lines s = join_with [nl] (map py_rstrip (split_on nl s))"

definition tidy :: "string \<Rightarrow> string" where
  "tidy s = trim_nl (collapse 0 (trim_lines (fix_newlines s)))"

definition canonicalize_meeting_content :: "(string \<Rightarrow> string) \<Rightarrow> string \<Rightarrow> string" where
  "canonicalize_meeting_content nfc s = (if s = '''' then '''' else tidy (nfc s))"

section \<open>Quoting is safe\<close>

lemma replace_all_char: "replace_all [c] r s = concat (map (\<lambda>x. if x = c then r else [x]) s)"
  by (induction s) (subst replace_all.simps; simp add: starts_with_def)+

definition esc_char :: "char \<Rightarrow> string" where
  "esc_char x = (if x = bslash then [bslash, bslash] else if x = quote then [bslash, quote]
     else if x = nl then [bslash, CHR ''n''] else if x = cr then [bslash, CHR ''r''] else [x])"

lemma escape_chars: "escape_cypher_string s = concat (map esc_char s)"
proof -
  have one: "escape_cypher_string [x] = esc_char x" for x
    by (simp add: escape_cypher_string_def replace_all_char esc_char_def)
  have step: "escape_cypher_string (x # s) = esc_char x @ escape_cypher_string s" for x s
    unfolding one[symmetric]
    by (simp add: escape_cypher_string_def replace_all_char)
  have base: "escape_cypher_string [] = []" by (simp add: escape_cypher_string_def replace_all_char)
  show ?thesis by (induction s) (simp_all only: base step list.map concat.simps)
qed

text \<open>How Cypher reads a literal, after the opening quote: the value and what follows it.\<close>

definition unescape :: "char \<Rightarrow> char" where
  "unescape d = (if d = CHR ''n'' then nl else if d = CHR ''r'' then cr else if d = CHR ''t'' then CHR 0x09
     else if d = CHR ''b'' then CHR 0x08 else if d = CHR ''f'' then CHR 0x0C else d)"

fun read_literal :: "string \<Rightarrow> (string \<times> string) option" where
  "read_literal [] = None"
| "read_literal (c # cs) =
     (if c = quote then Some ([], cs)
      else if c = bslash then (case cs of [] \<Rightarrow> None
         | d # ds \<Rightarrow> map_option (\<lambda>(v, r). (unescape d # v, r)) (read_literal ds))
      else map_option (\<lambda>(v, r). (c # v, r)) (read_literal cs))"

lemma read_escaped: "read_literal (escape_cypher_string s @ quote # rest) = Some (s, rest)"
proof -
  have e: "read_literal (esc_char x @ t) = map_option (\<lambda>(v, r). (x # v, r)) (read_literal t)" for x t
    by (simp add: esc_char_def unescape_def)
  have "read_literal (concat (map esc_char s) @ quote # rest) = Some (s, rest)"
    by (induction s) (simp_all add: e)
  then show ?thesis by (simp add: escape_chars)
qed

text \<open>A map of literals, after its opening brace and blank.\<close>

fun read_entries :: "nat \<Rightarrow> string \<Rightarrow> (string \<times> string) list option" where
  "read_entries 0 s = None"
| "read_entries (Suc fuel) s =
     (let k = takeWhile (\<lambda>c. c \<noteq> CHR '':'') s; r = drop (length k) s
      in if starts_with ('': '' @ [quote]) r
         then (case read_literal (drop 3 r) of
             None \<Rightarrow> None
           | Some (v, rest) \<Rightarrow>
               if rest = '' }'' then Some [(k, v)]
               else if starts_with '', '' rest then map_option (Cons (k, v)) (read_entries fuel (drop 2 rest))
               else None)
         else None)"

definition read_map :: "string \<Rightarrow> (string \<times> string) list option" where
  "read_map s = (if s = ''{}'' \<or> s = ''{  }'' then Some []
     else if starts_with ''{ '' s then read_entries (length s) (drop 2 s) else None)"

lemma safe_no_colon: "is_safe_cypher_identifier (Some k) \<Longrightarrow> CHR '':'' \<notin> set k \<and> CHR '' '' \<notin> set k \<and> k \<noteq> []"
proof -
  assume a: "is_safe_cypher_identifier (Some k)"
  then obtain c cs where k: "k = c # cs" "ident_start c" "list_all ident_char (if cs \<noteq> [] \<and> last cs = nl then butlast cs else cs)"
    by (auto simp: is_safe_cypher_identifier_def cypher_ident_match_def split: list.splits)
  have n: "\<not> ident_char (CHR '':'')" "\<not> ident_char (CHR '' '')" "\<not> ident_start (CHR '':'')" "\<not> ident_start (CHR '' '')"
    by (simp_all add: ident_char_def ident_start_def ascii_digit_def)
  have "set cs \<subseteq> set (if cs \<noteq> [] \<and> last cs = nl then butlast cs else cs) \<union> {nl}"
    by (cases cs rule: rev_cases) auto
  then have "x \<in> set cs \<Longrightarrow> ident_char x \<or> x = nl" for x using k(3) by (auto simp: list_all_iff split: if_splits)
  then show ?thesis using k n by auto
qed

lemma read_entries_format:
  assumes "kvs \<noteq> []" "\<forall>(k, v) \<in> set kvs. is_safe_cypher_identifier (Some k)" "length kvs \<le> fuel"
  shows "read_entries fuel (join_with '', '' (map (\<lambda>(k, v). k @ '': '' @ quoted v) kvs) @ '' }'') = Some kvs"
  using assms
proof (induction kvs arbitrary: fuel)
  case (Cons kv kvs)
  obtain k v where kv: "kv = (k, v)" by fastforce
  obtain f where f: "fuel = Suc f" using Cons.prems(3) by (cases fuel) auto
  have nc: "CHR '':'' \<notin> set k" using Cons.prems(2) kv safe_no_colon by auto
  have tw: "takeWhile (\<lambda>c. c \<noteq> CHR '':'') (k @ CHR '':'' # r) = k" for r
    by (subst takeWhile_append2) (use nc in auto)
  show ?case
  proof (cases kvs)
    case Nil
    then show ?thesis
      by (simp add: f kv tw quoted_def starts_with_def read_escaped Let_def)
  next
    case (Cons kv' kvs')
    then have "join_with '', '' (map (\<lambda>(k, v). k @ '': '' @ quoted v) (kv # kvs)) =
        (k @ '': '' @ quoted v) @ '', '' @ join_with '', '' (map (\<lambda>(k, v). k @ '': '' @ quoted v) kvs)"
      by (simp add: kv)
    moreover have "read_entries f (join_with '', '' (map (\<lambda>(k, v). k @ '': '' @ quoted v) kvs) @ '' }'') = Some kvs"
      using Cons.IH Cons.prems f \<open>kvs = _\<close> by auto
    ultimately show ?thesis
      by (simp add: f kv tw quoted_def starts_with_def read_escaped Let_def)
  qed
qed simp

lemma join_length: "[] \<notin> set ws \<Longrightarrow> length ws \<le> length (join_with sep ws)"
proof (induction sep ws rule: join_with.induct)
  case (3 sep w v vs)
  then show ?case by (cases w) auto
qed (auto simp: Suc_le_eq)

text \<open>C22: Quoting for Cypher. A property map of texts written into a statement is read back by Cypher as exactly the entries whose
  keys are identifiers, whatever quotes, backslashes or newlines keys and values contain: no value can end its
  literal. A key is accepted if and only if it is an identifier of at most 64 characters, or such an identifier
  with a newline behind it.\<close>

theorem format_props_read_back:
  "read_map (format_props dumps (map (\<lambda>(k, v). (k, JStr v)) kvs)) =
      Some (filter (\<lambda>(k, v). is_safe_cypher_identifier (Some k)) kvs) \<and>
    (is_safe_cypher_identifier (Some k) \<longleftrightarrow> length k \<le> 64 \<and>
       (\<exists>c cs. ident_start c \<and> list_all ident_char cs \<and> (k = c # cs \<or> k = c # cs @ [nl])))"
proof
  let ?safe = "\<lambda>(k, v). is_safe_cypher_identifier (Some k)"
  have f: "filter (\<lambda>(k, v). is_safe_cypher_identifier (Some k)) (map (\<lambda>(k, v). (k, JStr v)) kvs) =
      map (\<lambda>(k, v). (k, JStr v)) (filter ?safe kvs)"
    by (induction kvs) auto
  have m: "map (\<lambda>(k, v). k @ '': '' @ format_value dumps v) (map (\<lambda>(k, v). (k, JStr v)) xs) =
      map (\<lambda>(k, v). k @ '': '' @ quoted v) xs" for xs
    by (induction xs) (auto simp: format_value_def)
  show "read_map (format_props dumps (map (\<lambda>(k, v). (k, JStr v)) kvs)) = Some (filter ?safe kvs)"
  proof (cases "filter ?safe kvs = []")
    case True
    have "format_props dumps (map (\<lambda>(k, v). (k, JStr v)) kvs) = (if kvs = [] then ''{}'' else ''{  }'')"
      unfolding format_props_def f True by simp
    then show ?thesis unfolding True by (simp add: read_map_def)
  next
    case False
    let ?body = "join_with '', '' (map (\<lambda>(k, v). k @ '': '' @ quoted v) (filter ?safe kvs)) @ '' }''"
    have e: "format_props dumps (map (\<lambda>(k, v). (k, JStr v)) kvs) = ''{ '' @ ?body"
      unfolding format_props_def f m using False by auto
    have len: "length kvs' \<le> length (join_with '', '' (map (\<lambda>(k, v). k @ '': '' @ quoted v) kvs'))" for kvs'
    proof -
      have "[] \<notin> set (map (\<lambda>(k, v). k @ '': '' @ quoted v) kvs')" by force
      then show ?thesis using join_length[of "map (\<lambda>(k, v). k @ '': '' @ quoted v) kvs'" "'', ''"] by simp
    qed
    have ne: "?body \<noteq> ''}''" "?body \<noteq> '' }''"
    proof -
      obtain k v rest where kv: "filter ?safe kvs = (k, v) # rest" using False by (cases "filter ?safe kvs") auto
      then have "is_safe_cypher_identifier (Some k)" by (metis (mono_tags, lifting) case_prodD filter_eq_ConsD)
      then have "k \<noteq> []" "CHR '' '' \<notin> set k" using safe_no_colon by auto
      then show "?body \<noteq> ''}''" "?body \<noteq> '' }''"
        unfolding kv by (cases k; cases rest; auto split: prod.splits)+
    qed
    have "read_entries (length (''{ '' @ ?body)) ?body = Some (filter ?safe kvs)"
      by (rule read_entries_format[OF False]) (use len[of "filter ?safe kvs"] in auto)
    then show ?thesis unfolding e read_map_def using ne by (simp add: starts_with_def)
  qed
next
  have nlc: "\<not> ident_char nl" by (simp add: ident_char_def ident_start_def ascii_digit_def)
  have r: "(if cs \<noteq> [] \<and> last cs = nl then butlast cs else cs) = ds \<longleftrightarrow> cs = ds \<and> (ds = [] \<or> last ds \<noteq> nl) \<or> cs = ds @ [nl]" for cs ds
    by (cases cs rule: rev_cases) auto
  have "list_all ident_char (if cs \<noteq> [] \<and> last cs = nl then butlast cs else cs) \<longleftrightarrow>
      (\<exists>ds. list_all ident_char ds \<and> (cs = ds \<or> cs = ds @ [nl]))" for cs
  proof -
    have last: "list_all ident_char ds \<Longrightarrow> ds = [] \<or> last ds \<noteq> nl" for ds
      by (metis list_all_iff last_in_set nlc)
    define w where "w = (if cs \<noteq> [] \<and> last cs = nl then butlast cs else cs)"
    have rw: "w = ds \<longleftrightarrow> cs = ds \<and> (ds = [] \<or> last ds \<noteq> nl) \<or> cs = ds @ [nl]" for ds
      using r unfolding w_def .
    have "list_all ident_char w \<longleftrightarrow> (\<exists>ds. list_all ident_char ds \<and> (cs = ds \<or> cs = ds @ [nl]))"
      using rw[of w] rw last by blast
    then show ?thesis unfolding w_def .
  qed
  then show "is_safe_cypher_identifier (Some k) \<longleftrightarrow> length k \<le> 64 \<and>
       (\<exists>c cs. ident_start c \<and> list_all ident_char cs \<and> (k = c # cs \<or> k = c # cs @ [nl]))"
    by (cases k) (auto simp: is_safe_cypher_identifier_def cypher_ident_match_def)
qed

section \<open>Embedded JSON\<close>

lemma starts_with_append [simp]: "starts_with p (p @ s)"
  by (simp add: starts_with_def)

definition braceless :: "string \<Rightarrow> bool" where
  "braceless s \<longleftrightarrow> CHR ''{'' \<notin> set s \<and> CHR ''}'' \<notin> set s"

lemma braceless_append [simp]: "braceless (a @ b) \<longleftrightarrow> braceless a \<and> braceless b" "braceless []"
  by (auto simp: braceless_def)

lemma strip_front_braceless:
  assumes "\<And>w. w \<in> set ws \<Longrightarrow> braceless w"
  shows "\<exists>a. s = a @ strip_front ws s \<and> braceless a"
  using assms
proof (induction ws s rule: strip_front.induct)
  case (1 ws s)
  show ?case
  proof (cases "find (\<lambda>w. w \<noteq> [] \<and> take (length w) s = w) ws")
    case None
    then show ?thesis by (intro exI[of _ "[]"]) (simp add: strip_front_None)
  next
    case (Some w)
    then have w: "w \<in> set ws" "take (length w) s = w" by (auto simp: find_Some_iff)
    obtain a where a: "drop (length w) s = a @ strip_front ws (drop (length w) s)" "braceless a"
      using 1(1)[OF Some 1(2)] by blast
    have "s = (w @ a) @ strip_front ws s"
      using a(1) w(2) append_take_drop_id[of "length w" s] by (simp add: strip_front_Some[OF Some])
    then show ?thesis using a(2) 1(2)[OF w(1)] by (intro exI[of _ "w @ a"]) simp
  qed
qed

lemma py_ws_braceless: "w \<in> set py_ws \<Longrightarrow> braceless w"
proof -
  have "list_all (\<lambda>w. CHR ''{'' \<notin> set w \<and> CHR ''}'' \<notin> set w) py_ws" by code_simp
  then show "w \<in> set py_ws \<Longrightarrow> braceless w" by (simp add: braceless_def list_all_iff)
qed

lemma lstrip_braceless: "\<exists>a. s = a @ py_lstrip s \<and> braceless a"
  unfolding py_lstrip_def by (rule strip_front_braceless) (rule py_ws_braceless)

lemma rstrip_braceless: "\<exists>b. s = py_rstrip s @ b \<and> braceless b"
proof -
  have "\<exists>a. rev s = a @ strip_front (map rev py_ws) (rev s) \<and> braceless a"
    by (rule strip_front_braceless) (use py_ws_braceless in \<open>auto simp: braceless_def\<close>)
  then obtain a where a: "rev s = a @ strip_front (map rev py_ws) (rev s)" "braceless a" by blast
  then have "s = rev (strip_front (map rev py_ws) (rev s)) @ rev a" by (metis rev_append rev_rev_ident)
  then show ?thesis using a(2) by (intro exI[of _ "rev a"]) (simp add: py_rstrip_def braceless_def)
qed

lemma ci_match_braceless:
  assumes "ci_match w s = Some r" "list_all (\<lambda>c. list_all (\<lambda>v. CHR ''{'' \<notin> set v \<and> CHR ''}'' \<notin> set v) (ci_alternatives c)) w"
  shows "\<exists>a. s = a @ r \<and> braceless a"
  using assms
proof (induction w s rule: ci_match.induct)
  case (2 c cs s)
  then obtain v where v: "find (\<lambda>w. starts_with w s) (ci_alternatives c) = Some v" "ci_match cs (drop (length v) s) = Some r"
    by (auto split: option.splits)
  then obtain a where a: "drop (length v) s = a @ r" "braceless a" using 2 by auto
  have "v \<in> set (ci_alternatives c)" "starts_with v s" using v(1) by (auto simp: find_Some_iff)
  then have "braceless v" "s = v @ drop (length v) s"
    using 2(3) by (auto simp: list_all_iff braceless_def starts_with_def) (metis append_take_drop_id)
  then show ?case using a by (intro exI[of _ "v @ a"]) simp
qed simp

lemma lead_fence_braceless: "\<exists>a. s = a @ strip_lead_fence s \<and> braceless a"
proof (cases "starts_with fence (py_lstrip s)")
  case True
  let ?u = "drop 3 (py_lstrip s)"
  obtain a where a: "s = a @ py_lstrip s" "braceless a" using lstrip_braceless by blast
  have f: "py_lstrip s = fence @ ?u" "braceless fence"
    using True by (auto simp: starts_with_def fence_def braceless_def) (metis append_take_drop_id append_Cons append_Nil numeral_3_eq_3)
  have j: "list_all (\<lambda>c. list_all (\<lambda>v. CHR ''{'' \<notin> set v \<and> CHR ''}'' \<notin> set v) (ci_alternatives c)) ''json''"
    "list_all (\<lambda>c. list_all (\<lambda>v. CHR ''{'' \<notin> set v \<and> CHR ''}'' \<notin> set v) (ci_alternatives c)) ''markdown''"
    by code_simp+
  let ?v = "case ci_match ''json'' ?u of Some r \<Rightarrow> r | None \<Rightarrow> (case ci_match ''markdown'' ?u of Some r \<Rightarrow> r | None \<Rightarrow> ?u)"
  have "\<exists>b. ?u = b @ ?v \<and> braceless b"
    using ci_match_braceless[OF _ j(1), of ?u] ci_match_braceless[OF _ j(2), of ?u]
    by (auto split: option.splits)
  then obtain b where b: "?u = b @ ?v" "braceless b" by blast
  obtain c where c: "?v = c @ py_lstrip ?v" "braceless c" using lstrip_braceless by blast
  have "strip_lead_fence s = py_lstrip ?v" using True by (simp add: strip_lead_fence_def Let_def)
  moreover have "s = (a @ fence @ b @ c) @ py_lstrip ?v" using a(1) f(1) b(1) c(1) by (metis append.assoc)
  ultimately show ?thesis using a(2) f(2) b(2) c(2) by (intro exI[of _ "a @ fence @ b @ c"]) simp
next
  case False
  then show ?thesis by (intro exI[of _ "[]"]) (simp add: strip_lead_fence_def Let_def)
qed

lemma ends_with_split: "ends_with p s \<Longrightarrow> s = take (length s - length p) s @ p"
  unfolding ends_with_def by (metis append_take_drop_id)

lemma length_fence: "length fence = 3"
  by (simp add: fence_def)

lemma rstrip_fence_braceless:
  assumes "t = py_rstrip u"
  shows "\<exists>b. u = (if ends_with fence t then take (length t - 3) t else u) @ b \<and> braceless b"
proof (cases "ends_with fence t")
  case True
  obtain b where b: "u = t @ b" "braceless b" using rstrip_braceless assms by blast
  have t: "t = take (length t - 3) t @ fence"
    using ends_with_split[OF True] by (simp only: length_fence)
  have "u = take (length t - 3) t @ (fence @ b)" using b(1) t by (metis append.assoc)
  then show ?thesis using True b(2) by (intro exI[of _ "fence @ b"]) (simp add: fence_def braceless_def)
qed simp

lemma strip_braceless: "\<exists>a b. s = a @ py_strip s @ b \<and> braceless a \<and> braceless b"
  unfolding py_strip_def by (metis lstrip_braceless rstrip_braceless)

lemma nested_parts: "s = a @ u \<Longrightarrow> u = m @ b \<Longrightarrow> m = c @ r @ d \<Longrightarrow> s = (a @ c) @ r @ (d @ b)"
  by simp

lemma code_blocks_braceless: "\<exists>a b. s = a @ strip_code_blocks s @ b \<and> braceless a \<and> braceless b"
proof (cases "s = ''''")
  case False
  define u where "u = strip_lead_fence s"
  define t where "t = py_rstrip u"
  define m where "m = (if ends_with fence t then take (length t - 3) t else u)"
  obtain a where a: "s = a @ u" "braceless a" using lead_fence_braceless unfolding u_def by blast
  obtain b where b: "u = m @ b" "braceless b" using rstrip_fence_braceless[OF t_def] unfolding m_def by blast
  obtain c d where c: "m = c @ py_strip m @ d" "braceless c" "braceless d" using strip_braceless by blast
  have e: "strip_code_blocks s = py_strip m"
    using False by (simp add: strip_code_blocks_def Let_def m_def t_def u_def)
  have "s = (a @ c) @ py_strip m @ (d @ b)" by (rule nested_parts[OF a(1) b(1) c(1)])
  then show ?thesis unfolding e
    using a(2) b(2) c(2,3) braceless_append(1) by blast
qed (auto simp: strip_code_blocks_def)

lemma front_part:
  assumes "a @ r = p @ x # t" "x \<notin> set a"
  shows "\<exists>p'. p = a @ p' \<and> r = p' @ x # t"
proof -
  consider us where "a = p @ us" "us @ r = x # t" | us where "a @ us = p" "r = us @ x # t"
    using assms(1) by (auto simp: append_eq_append_conv2)
  then show ?thesis
  proof cases
    case 1
    then have "us = []" using assms(2) by (cases us) auto
    then show ?thesis using 1 by auto
  qed auto
qed

lemma back_part:
  assumes "r @ b = t @ x # q" "x \<notin> set b"
  shows "\<exists>q'. q = q' @ b \<and> r = t @ x # q'"
proof -
  have "rev b @ rev r = rev q @ x # rev t" using assms(1) by (metis rev_append rev.simps(2) append.assoc append_Cons append_Nil)
  from front_part[OF this] assms(2) obtain z where "rev q = rev b @ z" "rev r = z @ x # rev t" by auto
  then have "q = rev z @ b" "r = t @ x # rev z" by (metis rev_append rev_rev_ident, metis rev_append rev_rev_ident rev.simps(2) append.assoc append_Cons append_Nil)
  then show ?thesis by blast
qed

lemma first_index_at: "c \<notin> set p \<Longrightarrow> first_index c (p @ c # t) = Some (length p)"
proof -
  assume "c \<notin> set p"
  then have "takeWhile (\<lambda>x. x \<noteq> c) (p @ c # t) = p" by (subst takeWhile_append2) auto
  then show "first_index c (p @ c # t) = Some (length p)" by (simp add: first_index_def)
qed

lemma takeWhile_tail: "c \<notin> set q \<Longrightarrow> takeWhile (\<lambda>x. x \<noteq> c) (q @ c # t) = q"
  by (induction q) auto

lemma last_index_at: "c \<notin> set q \<Longrightarrow> last_index c (t @ c # q) = Some (length t)"
proof -
  assume "c \<notin> set q"
  then have "takeWhile (\<lambda>x. x \<noteq> c) (rev (t @ c # q)) = rev q" by (simp add: takeWhile_tail)
  then show "last_index c (t @ c # q) = Some (length t)" unfolding last_index_def by simp
qed




section \<open>The canonical meeting text is canonical\<close>

definition tidy_text :: "string \<Rightarrow> bool" where
  "tidy_text t \<longleftrightarrow> cr \<notin> set t \<and> (\<forall>l \<in> set (split_on nl t). py_rstrip l = l)
     \<and> \<not> substr_in [nl, nl, nl] t \<and> (t = [] \<or> hd t \<noteq> nl \<and> last t \<noteq> nl)"

lemma split_on_append: "split_on c (s @ c # t) = split_on c s @ split_on c t"
  by (induction s) (auto split: list.split)

lemma split_on_id: "c \<notin> set w \<Longrightarrow> split_on c w = [w]"
  by (induction w) auto

lemma split_on_join: "ws \<noteq> [] \<Longrightarrow> (\<And>w. w \<in> set ws \<Longrightarrow> c \<notin> set w) \<Longrightarrow> split_on c (join_with [c] ws) = ws"
proof (induction ws rule: induct_list012)
  case (3 w v ws)
  have "split_on c (w @ c # join_with [c] (v # ws)) = split_on c w @ split_on c (join_with [c] (v # ws))"
    by (rule split_on_append)
  then show ?case using 3 by (simp add: split_on_id)
qed (simp_all add: split_on_id)

lemma split_on_parts: "l \<in> set (split_on c s) \<Longrightarrow> c \<notin> set l \<and> set l \<subseteq> set s"
proof (induction s arbitrary: l)
  case (Cons x s)
  obtain w ws where w: "split_on c s = w # ws" by (cases "split_on c s") auto
  have "\<And>l. l \<in> set (w # ws) \<Longrightarrow> c \<notin> set l \<and> set l \<subseteq> set s" using Cons.IH w by simp
  then show ?case using Cons.prems w by (cases "x = c") (fastforce)+
qed simp

lemma rstrip_prefix: "\<exists>b. s = py_rstrip s @ b"
  using rstrip_braceless by blast

lemma rstrip_set: "set (py_rstrip s) \<subseteq> set s"
  by (metis rstrip_prefix set_append Un_upper1)

lemma rstrip_idem [simp]: "py_rstrip (py_rstrip s) = py_rstrip s"
  by (simp add: py_rstrip_def strip_front_idem)

lemma join_set: "set (join_with sep ws) \<subseteq> set sep \<union> (\<Union> (set ` set ws))"
  by (induction sep ws rule: join_with.induct) auto

lemma trim_lines_lines: "split_on nl (trim_lines s) = map py_rstrip (split_on nl s)"
  unfolding trim_lines_def
  by (rule split_on_join) (use split_on_parts rstrip_set in \<open>fastforce+\<close>)

lemma trim_lines_set: "set (trim_lines s) \<subseteq> insert nl (set s)"
proof -
  have "\<Union> (set ` set (map py_rstrip (split_on nl s))) \<subseteq> set s"
    using split_on_parts rstrip_set by fastforce
  then show ?thesis unfolding trim_lines_def using join_set[of "[nl]"] by fastforce
qed

lemma collapse_lines:
  "(k < 2 \<longrightarrow> hd (split_on nl (collapse k s)) = hd (split_on nl s)
      \<and> set (tl (split_on nl (collapse k s))) \<subseteq> set (tl (split_on nl s)))
   \<and> set (split_on nl (collapse k s)) \<subseteq> set (split_on nl s)"
proof (induction k s rule: collapse.induct)
  case (2 k c cs)
  obtain w ws where w: "split_on nl cs = w # ws" by (cases "split_on nl cs") auto
  obtain v vs where v: "split_on nl (collapse 0 cs) = v # vs" by (cases "split_on nl (collapse 0 cs)") auto
  show ?case
  proof (cases "c = nl")
    case True
    then show ?thesis using 2(1,2) by (cases "2 \<le> k") auto
  next
    case False
    then show ?thesis using 2(3)[OF False] w v by auto
  qed
qed simp

lemma collapse_set: "set (collapse k s) \<subseteq> set s"
  by (induction k s rule: collapse.induct) auto

lemma trim_nl_parts: "\<exists>i j. s = replicate i nl @ trim_nl s @ replicate j nl"
proof -
  have d: "\<exists>i. s = replicate i nl @ dropWhile (\<lambda>c. c = nl) s" for s :: string
  proof (induction s)
    case (Cons a s)
    then obtain i where "s = replicate i nl @ dropWhile (\<lambda>c. c = nl) s" by blast
    then have "a = nl \<Longrightarrow> a # s = replicate (Suc i) nl @ dropWhile (\<lambda>c. c = nl) (a # s)" by simp
    moreover have "a \<noteq> nl \<Longrightarrow> a # s = replicate 0 nl @ dropWhile (\<lambda>c. c = nl) (a # s)" by simp
    ultimately show ?case by blast
  qed simp
  let ?m = "dropWhile (\<lambda>c. c = nl) s"
  obtain i where i: "s = replicate i nl @ ?m" using d by blast
  obtain j where "rev ?m = replicate j nl @ dropWhile (\<lambda>c. c = nl) (rev ?m)" using d by blast
  from arg_cong[OF this, of rev] have "?m = trim_nl s @ replicate j nl"
    by (simp add: trim_nl_def)
  then have "s = replicate i nl @ trim_nl s @ replicate j nl" using i by simp
  then show ?thesis by blast
qed

lemma front_nl_lines: "set (split_on nl t) \<subseteq> set (split_on nl (replicate i nl @ t))"
  by (induction i) auto

lemma back_nl_lines: "set (split_on nl t) \<subseteq> set (split_on nl (t @ replicate j nl))"
  by (cases j) (auto simp: split_on_append)

lemma trim_nl_lines: "set (split_on nl (trim_nl s)) \<subseteq> set (split_on nl s)"
proof -
  obtain i j where e: "s = replicate i nl @ trim_nl s @ replicate j nl" using trim_nl_parts by blast
  have "set (split_on nl (trim_nl s)) \<subseteq> set (split_on nl (replicate i nl @ trim_nl s @ replicate j nl))"
    by (rule subset_trans[OF back_nl_lines front_nl_lines])
  then show ?thesis unfolding e[symmetric] .
qed

lemma trim_nl_ends: "trim_nl s = [] \<or> hd (trim_nl s) \<noteq> nl \<and> last (trim_nl s) \<noteq> nl"
proof (cases "trim_nl s = []")
  case False
  let ?m = "dropWhile (\<lambda>c. c = nl) s"
  have "last (trim_nl s) \<noteq> nl"
    using False hd_dropWhile[of "\<lambda>c. c = nl" "rev ?m"] by (simp add: trim_nl_def last_rev)
  moreover have "hd (trim_nl s) \<noteq> nl"
  proof -
    obtain j where "?m = trim_nl s @ j"
      unfolding trim_nl_def by (metis rev_append rev_rev_ident takeWhile_dropWhile_id)
    moreover from this have "?m \<noteq> []" using False by auto
    then have "hd ?m \<noteq> nl" by (rule hd_dropWhile)
    ultimately show ?thesis using False by simp
  qed
  ultimately show ?thesis by simp
qed simp

lemma collapse_runs:
  "k \<le> 2 \<Longrightarrow> \<not> substr_in [nl, nl, nl] (collapse k s) \<and> \<not> starts_with (replicate (3 - k) nl) (collapse k s)"
proof (induction k s rule: collapse.induct)
  case (1 k)
  then show ?case by (simp add: starts_with_def)
next
  case (2 k c cs)
  have r: "replicate (3 - k) nl = nl # replicate (2 - k) nl" using 2(4)
    by (metis Suc_diff_le eval_nat_numeral(3) replicate_Suc)
  consider "c = nl" "k = 2" | "c = nl" "k < 2" | "c \<noteq> nl" using 2(4) by linarith
  then show ?case
  proof cases
    case 1
    then show ?thesis using 2(1) by simp
  next
    case b: 2
    then have i: "\<not> substr_in [nl, nl, nl] (collapse (Suc k) cs)" "\<not> starts_with (replicate (2 - k) nl) (collapse (Suc k) cs)"
      using 2(2) by (auto simp: numeral_3_eq_3 numeral_2_eq_2)
    have "starts_with [nl, nl] t \<Longrightarrow> starts_with (replicate (2 - k) nl) t" for t
      using b by (cases t; cases "tl t"; cases k) (auto simp: starts_with_def numeral_2_eq_2 less_Suc_eq)
    then show ?thesis using b i by (auto simp: r starts_with_def)
  next
    case 3
    then show ?thesis using 2(3) by (auto simp: r starts_with_def)
  qed
qed

lemma trim_nl_substr: "\<not> substr_in w s \<Longrightarrow> \<not> substr_in w (trim_nl s)"
proof -
  obtain i j where e: "s = replicate i nl @ trim_nl s @ replicate j nl" using trim_nl_parts by blast
  have "substr_in w m \<Longrightarrow> substr_in w (a @ m @ b)" for a m b unfolding substr_in_iff by (metis append.assoc)
  then have "substr_in w (trim_nl s) \<Longrightarrow> substr_in w (replicate i nl @ trim_nl s @ replicate j nl)" .
  then show "\<not> substr_in w s \<Longrightarrow> \<not> substr_in w (trim_nl s)" unfolding e[symmetric] by blast
qed

lemma fix_newlines_cr: "cr \<notin> set (fix_newlines s)"
  by (auto simp: fix_newlines_def replace_all_char)

lemma trim_nl_set: "set (trim_nl s) \<subseteq> set s"
proof
  fix x
  assume "x \<in> set (trim_nl s)"
  then have "x \<in> set (rev (dropWhile (\<lambda>c. c = nl) s))"
    unfolding trim_nl_def set_rev[of "dropWhile _ (rev _)"] by (rule set_dropWhileD)
  then show "x \<in> set s" unfolding set_rev by (rule set_dropWhileD)
qed

lemma tidy_is_tidy: "tidy_text (tidy s)"
proof -
  let ?u = "trim_lines (fix_newlines s)"
  have lines: "set (split_on nl (tidy s)) \<subseteq> set (map py_rstrip (split_on nl (fix_newlines s)))"
    unfolding tidy_def trim_lines_lines[symmetric]
    by (rule subset_trans[OF trim_nl_lines conjunct2[OF collapse_lines]])
  have "set (tidy s) \<subseteq> set (collapse 0 ?u)"
    unfolding tidy_def by (rule trim_nl_set)
  then have "cr \<notin> set (tidy s)"
    using collapse_set[of 0 ?u] trim_lines_set[of "fix_newlines s"] fix_newlines_cr[of s] by auto
  moreover have "\<forall>l \<in> set (split_on nl (tidy s)). py_rstrip l = l" using lines by auto
  moreover have "\<not> substr_in [nl, nl, nl] (tidy s)"
    unfolding tidy_def by (rule trim_nl_substr) (simp add: collapse_runs)
  moreover have "tidy s = [] \<or> hd (tidy s) \<noteq> nl \<and> last (tidy s) \<noteq> nl"
    unfolding tidy_def by (rule trim_nl_ends)
  ultimately show ?thesis unfolding tidy_text_def by (intro conjI)
qed

lemma replace_all_absent: "c \<notin> set s \<Longrightarrow> replace_all (c # cs) r s = s"
proof (induction s)
  case Nil
  show ?case by (subst replace_all.simps) simp
next
  case (Cons a s)
  then have "\<not> starts_with (c # cs) (a # s)" "replace_all (c # cs) r s = s" by (auto simp: starts_with_def)
  then show ?case by (subst replace_all.simps) simp
qed

lemma collapse_id:
  "k \<le> 2 \<Longrightarrow> \<not> substr_in [nl, nl, nl] s \<Longrightarrow> \<not> starts_with (replicate (3 - k) nl) s \<Longrightarrow> collapse k s = s"
proof (induction k s rule: collapse.induct)
  case (2 k c cs)
  have r: "replicate (3 - k) nl = nl # replicate (2 - k) nl" using 2(4)
    by (metis Suc_diff_le eval_nat_numeral(3) replicate_Suc)
  consider "c = nl" "k = 2" | "c = nl" "k < 2" | "c \<noteq> nl" using 2(4) by linarith
  then show ?case
  proof cases
    case 1
    then show ?thesis using 2(6) by (simp add: starts_with_def)
  next
    case b: 2
    then have "\<not> starts_with (replicate (3 - Suc k) nl) cs" using 2(6) by (simp add: r starts_with_def)
    then show ?thesis using b 2(2) 2(5) by simp
  next
    case 3
    then have "\<not> starts_with [nl, nl, nl] cs" using 2(5) by (cases cs) (auto simp: starts_with_def)
    then show ?thesis using 3 2(3,5) by (simp add: numeral_3_eq_3)
  qed
qed simp

lemma trim_nl_id: "s = [] \<or> hd s \<noteq> nl \<and> last s \<noteq> nl \<Longrightarrow> trim_nl s = s"
proof (cases "s = []")
  case False
  assume "s = [] \<or> hd s \<noteq> nl \<and> last s \<noteq> nl"
  then have "dropWhile (\<lambda>c. c = nl) s = s" "dropWhile (\<lambda>c. c = nl) (rev s) = rev s"
    using False by (simp_all add: dropWhile_eq_self_iff hd_rev)
  then show ?thesis by (simp add: trim_nl_def)
qed (simp add: trim_nl_def)

lemma tidy_id:
  assumes "tidy_text t"
  shows "tidy t = t"
proof -
  have "fix_newlines t = t" using assms by (simp add: fix_newlines_def replace_all_absent tidy_text_def)
  moreover have "trim_lines t = t"
    using assms by (simp add: trim_lines_def tidy_text_def map_idI join_split_on)
  moreover have "collapse 0 t = t"
  proof (rule collapse_id)
    show "\<not> starts_with (replicate (3 - 0) nl) t"
      using assms by (cases t) (auto simp: tidy_text_def starts_with_def numeral_3_eq_3)
  qed (use assms in \<open>simp_all add: tidy_text_def\<close>)
  ultimately show ?thesis using assms by (simp add: tidy_def tidy_text_def trim_nl_id)
qed

text \<open>C24: the canonical form of a meeting text has no carriage return, no line with white space at
  its end, no three newlines in a row and no newline at either end; a text is left as it is by
  the last four steps exactly when it has this form, and a canonical text that is also in
  Unicode normal form is a fixed point of the function, so that cache keys computed from it are
  stable.\<close>

theorem canonical_text:
  "tidy_text (canonicalize_meeting_content nfc s)
   \<and> (tidy t = t \<longleftrightarrow> tidy_text t)
   \<and> (tidy_text t \<and> nfc t = t \<longrightarrow> canonicalize_meeting_content nfc t = t)"
proof (intro conjI impI)
  show "tidy_text (canonicalize_meeting_content nfc s)"
    using tidy_is_tidy by (auto simp: canonicalize_meeting_content_def tidy_text_def py_rstrip_def)
  show "tidy t = t \<longleftrightarrow> tidy_text t" using tidy_is_tidy tidy_id by metis
  assume "tidy_text t \<and> nfc t = t"
  then show "canonicalize_meeting_content nfc t = t"
    by (simp add: canonicalize_meeting_content_def tidy_id)
qed

lemma canonical_text_witness:
  "canonicalize_meeting_content (\<lambda>t. t) ''a'' = ''a''"
proof -
  have "py_rstrip ''a'' = ''a''" by code_simp
  then have "tidy_text ''a'' \<and> (\<lambda>t. t) ''a'' = ''a''" by (simp add: tidy_text_def)
  then show ?thesis by (rule canonical_text[THEN conjunct2, THEN conjunct2, rule_format])
qed

section \<open>The canonical graph\<close>

text \<open>A value that may be missing: \<open>x or d\<close>.\<close>

definition or_else :: "json option \<Rightarrow> json \<Rightarrow> json" where
  "or_else v d = (case v of Some j \<Rightarrow> if json_true j then j else d | None \<Rightarrow> d)"

text \<open>What \<open>for\<close> yields on the value; None is its TypeError. The characters of a str are str, which
  both loops skip.\<close>

definition iter_json :: "json \<Rightarrow> json list option" where
  "iter_json j =
     (case j of JList l \<Rightarrow> Some l | JObj kv \<Rightarrow> Some (map (JStr \<circ> fst) kv) | JStr s \<Rightarrow> Some [] | _ \<Rightarrow> None)"

text \<open>Equality of hashable values compares numbers across types; \<open>num\<close> gives the JInt a float
  equals, or the float's canonical text. Lists and dicts are not hashable.\<close>

definition hash_key :: "(string \<Rightarrow> json) \<Rightarrow> json \<Rightarrow> json option" where
  "hash_key num j =
     (case j of JBool b \<Rightarrow> Some (JInt (if b then 1 else 0)) | JFloat f \<Rightarrow> Some (num f)
      | JList _ \<Rightarrow> None | JObj _ \<Rightarrow> None | _ \<Rightarrow> Some j)"

definition strip_value :: "json \<Rightarrow> json" where
  "strip_value v = (case v of JStr s \<Rightarrow> JStr (py_strip s) | _ \<Rightarrow> v)"

definition canonical_props :: "json option \<Rightarrow> json" where
  "canonical_props p =
     (case or_else p (JObj []) of
        JObj kv \<Rightarrow> JObj (map (\<lambda>(k, v). (k, strip_value v)) (sort_key fst kv))
      | j \<Rightarrow> j)"

definition canonical_node :: "json \<Rightarrow> json" where
  "canonical_node n = JObj
     [(''id'', case json_get n ''id'' of Some i \<Rightarrow> i | None \<Rightarrow> JNull),
      (''label'', case json_get n ''label'' of Some l \<Rightarrow> l | None \<Rightarrow> JStr ''''),
      (''properties'', canonical_props (json_get n ''properties''))]"

fun canonical_nodes :: "(string \<Rightarrow> json) \<Rightarrow> json list \<Rightarrow> json list \<Rightarrow> json list option" where
  "canonical_nodes num seen [] = Some []"
| "canonical_nodes num seen (n # ns) =
     (if \<not> is_obj (Some n) then canonical_nodes num seen ns
      else case json_get n ''id'' of
        None \<Rightarrow> canonical_nodes num seen ns
      | Some nid \<Rightarrow>
          if \<not> json_true nid then canonical_nodes num seen ns
          else case hash_key num nid of
            None \<Rightarrow> None
          | Some k \<Rightarrow>
              if k \<in> set seen then canonical_nodes num seen ns
              else map_option ((#) (canonical_node n)) (canonical_nodes num (k # seen) ns))"

definition sort_text :: "(json \<Rightarrow> string) \<Rightarrow> json \<Rightarrow> string \<Rightarrow> string" where
  "sort_text to_str j k = (case or_else (json_get j k) (JStr '''') of JStr s \<Rightarrow> s | v \<Rightarrow> to_str v)"

definition has_true :: "json \<Rightarrow> string \<Rightarrow> bool" where
  "has_true j k = (case json_get j k of Some v \<Rightarrow> json_true v | None \<Rightarrow> False)"

definition canonical_rel :: "json \<Rightarrow> json" where
  "canonical_rel r = JObj
     [(''source'', the (json_get r ''source'')), (''target'', the (json_get r ''target'')),
      (''type'', the (json_get r ''type'')), (''properties'', canonical_props (json_get r ''properties''))]"

definition canonical_rels :: "json list \<Rightarrow> json list" where
  "canonical_rels rs =
     map canonical_rel (filter (\<lambda>r. is_obj (Some r) \<and> has_true r ''source'' \<and> has_true r ''target'' \<and> has_true r ''type'') rs)"

fun put_key :: "string \<Rightarrow> 'v \<Rightarrow> (string \<times> 'v) list \<Rightarrow> (string \<times> 'v) list" where
  "put_key k v [] = [(k, v)]"
| "put_key k v ((k', w) # kv) = (if k = k' then (k, v) # kv else (k', w) # put_key k v kv)"

definition canonicalize_graph :: "(json \<Rightarrow> string) \<Rightarrow> (string \<Rightarrow> json) \<Rightarrow> json option \<Rightarrow> json option" where
  "canonicalize_graph to_str num graph =
     (case or_else graph (JObj []) of
        JObj kv \<Rightarrow>
          if kv = [] then Some (JObj [])
          else (case iter_json (or_else (map_of kv ''nodes'') (JList [])) of
            None \<Rightarrow> None
          | Some nodes_in \<Rightarrow> (case canonical_nodes num [] nodes_in of
              None \<Rightarrow> None
            | Some nodes \<Rightarrow> (case iter_json (or_else (map_of kv ''relationships'') (JList [])) of
                None \<Rightarrow> None
              | Some rels_in \<Rightarrow>
                  Some (JObj (put_key ''relationships''
                    (JList (sort_key (\<lambda>r. (sort_text to_str r ''type'', sort_text to_str r ''source'', sort_text to_str r ''target''))
                      (canonical_rels rels_in)))
                    (put_key ''nodes''
                      (JList (sort_key (\<lambda>n. (sort_text to_str n ''label'', sort_text to_str n ''id'')) nodes)) kv))))))
      | j \<Rightarrow> Some j)"

lemma lstrip_of_rstrip:
  assumes "py_lstrip t = t"
  shows "py_lstrip (py_rstrip t) = py_rstrip t"
  unfolding py_lstrip_def
proof (rule strip_front_id, rule ccontr)
  fix w
  assume w: "w \<in> set py_ws" "\<not> (w = [] \<or> take (length w) (py_rstrip t) \<noteq> w)"
  obtain b where b: "t = py_rstrip t @ b" using rstrip_prefix by blast
  have "py_rstrip t = w @ drop (length w) (py_rstrip t)" using w(2) append_take_drop_id by metis
  then have "t = w @ drop (length w) (py_rstrip t) @ b" using b append.assoc by metis
  then have "take (length w) t = w" by (metis append_eq_conv_conj)
  then show False using strip_front_done[of w py_ws t] w assms by (simp add: py_lstrip_def)
qed

lemma strip_idem [simp]: "py_strip (py_strip s) = py_strip s"
  using lstrip_of_rstrip[of "py_lstrip s"] by (simp add: py_strip_def py_lstrip_def strip_front_idem)

lemma strip_value_idem [simp]: "strip_value (strip_value v) = strip_value v"
  by (cases v) (simp_all add: strip_value_def)

lemma or_else_true: "json_true j \<Longrightarrow> or_else (Some j) d = j"
  by (simp add: or_else_def)

lemma sort_fst_map: "sort_key fst (map (\<lambda>(k, v). (k, f v)) kv) = map (\<lambda>(k, v). (k, f v)) (sort_key fst kv)"
proof -
  have i: "insort_key fst (k, f v) (map (\<lambda>(k, v). (k, f v)) ys) = map (\<lambda>(k, v). (k, f v)) (insort_key fst (k, v) ys)"
    for k v ys by (induction ys) auto
  show ?thesis by (induction kv) (auto simp: i)
qed

lemma canonical_props_idem [simp]: "canonical_props (Some (canonical_props p)) = canonical_props p"
proof (cases "or_else p (JObj [])")
  case (JObj kv)
  let ?kv = "map (\<lambda>(k, v). (k, strip_value v)) (sort_key fst kv)"
  have "or_else (Some (JObj ?kv)) (JObj []) = JObj ?kv"
    by (auto simp: or_else_def json_true_def)
  moreover have "sort_key fst ?kv = ?kv" by (simp add: sort_fst_map sort_key_id_if_sorted)
  moreover have "map (\<lambda>(k, v). (k, strip_value v)) ?kv = ?kv" by (auto simp: case_prod_beta)
  moreover have "canonical_props p = JObj ?kv" by (simp add: canonical_props_def JObj)
  ultimately show ?thesis by (simp only: canonical_props_def json.case)
qed (auto simp: canonical_props_def or_else_def json_true_def split: option.splits if_splits)

lemma canonical_node_idem [simp]: "canonical_node (canonical_node n) = canonical_node n"
  by (simp add: canonical_node_def[of "canonical_node n"]) (simp add: canonical_node_def json_get_def)

lemma canonical_rel_idem [simp]: "canonical_rel (canonical_rel n) = canonical_rel n"
  by (simp add: canonical_rel_def[of "canonical_rel n"]) (simp add: canonical_rel_def json_get_def)

definition node_key :: "(string \<Rightarrow> json) \<Rightarrow> json \<Rightarrow> json option" where
  "node_key num n = (case json_get n ''id'' of Some i \<Rightarrow> hash_key num i | None \<Rightarrow> None)"

definition node_ok :: "(string \<Rightarrow> json) \<Rightarrow> json \<Rightarrow> bool" where
  "node_ok num n = (is_obj (Some n) \<and> has_true n ''id'' \<and> node_key num n \<noteq> None)"

lemma node_ok_canonical: "node_ok num n \<Longrightarrow> node_ok num (canonical_node n) \<and> node_key num (canonical_node n) = node_key num n"
  by (auto simp: node_ok_def node_key_def canonical_node_def has_true_def json_get_def is_obj_def split: option.splits)

lemma canonical_nodes_Cons:
  "canonical_nodes num seen (n # ns) =
     (if \<not> (is_obj (Some n) \<and> has_true n ''id'') then canonical_nodes num seen ns
      else case node_key num n of
        None \<Rightarrow> None
      | Some k \<Rightarrow> if k \<in> set seen then canonical_nodes num seen ns
                  else map_option ((#) (canonical_node n)) (canonical_nodes num (k # seen) ns))"
  by (simp add: has_true_def node_key_def split: option.splits)

lemma node_ok_key: "node_ok num n \<longleftrightarrow> is_obj (Some n) \<and> has_true n ''id'' \<and> (\<exists>k. node_key num n = Some k)"
  by (auto simp: node_ok_def)

lemma canonical_nodes_good:
  "canonical_nodes num seen ns = Some ms \<Longrightarrow>
     (\<forall>m \<in> set ms. node_ok num m \<and> canonical_node m = m \<and> node_key num m \<notin> Some ` set seen)
     \<and> distinct (map (node_key num) ms)"
proof (induction ns arbitrary: seen ms)
  case (Cons n ns)
  show ?case
  proof (cases "\<exists>k. node_ok num n \<and> node_key num n = Some k \<and> k \<notin> set seen")
    case True
    then obtain k where k: "node_ok num n" "node_key num n = Some k" "k \<notin> set seen" by blast
    then obtain ks where ks: "canonical_nodes num (k # seen) ns = Some ks" "ms = canonical_node n # ks"
      using Cons.prems by (auto simp: canonical_nodes_Cons node_ok_key simp del: canonical_nodes.simps split: if_splits)
    then show ?thesis using Cons.IH[OF ks(1)] k node_ok_canonical[OF k(1)] by (auto simp: image_iff)
  next
    case False
    then have "canonical_nodes num seen ns = Some ms"
      using Cons.prems
      by (auto simp: canonical_nodes_Cons node_ok_key simp del: canonical_nodes.simps split: if_splits option.splits)
    then show ?thesis by (rule Cons.IH)
  qed
qed simp

lemma canonical_nodes_id:
  "\<forall>m \<in> set ms. node_ok num m \<and> canonical_node m = m \<and> node_key num m \<notin> Some ` set seen
     \<Longrightarrow> distinct (map (node_key num) ms) \<Longrightarrow> canonical_nodes num seen ms = Some ms"
proof (induction ms arbitrary: seen)
  case (Cons n ns)
  then obtain k where k: "is_obj (Some n)" "has_true n ''id''" "k \<notin> set seen" "node_key num n = Some k" "canonical_node n = n"
    by (auto simp: node_ok_key)
  have "canonical_nodes num (k # seen) ns = Some ns"
    by (rule Cons.IH) (use Cons.prems k in \<open>auto simp: image_iff\<close>)
  then show ?case using k by (simp add: canonical_nodes_Cons del: canonical_nodes.simps)
qed simp

lemma map_of_put_key: "map_of (put_key k v kv) = (map_of kv)(k \<mapsto> v)"
  by (induction k v kv rule: put_key.induct) (auto simp: fun_eq_iff)

lemma put_key_same: "map_of kv k = Some v \<Longrightarrow> put_key k v kv = kv"
  by (induction k v kv rule: put_key.induct) (auto split: if_splits)

lemma put_key_Nil [simp]: "put_key k v kv \<noteq> []"
  by (cases "(k, v, kv)" rule: put_key.cases) auto

lemma canonical_nodes_sorted:
  assumes "canonical_nodes num [] ns = Some ms"
  shows "canonical_nodes num [] (sort_key f ms) = Some (sort_key f ms)"
proof (rule canonical_nodes_id)
  have "mset (map (node_key num) (sort_key f ms)) = mset (map (node_key num) ms)" by simp
  then show "distinct (map (node_key num) (sort_key f ms))"
    using canonical_nodes_good[OF assms] mset_eq_imp_distinct_iff by blast
qed (use canonical_nodes_good[OF assms] in auto)

lemma canonical_rel_good:
  assumes "r \<in> set (canonical_rels rs)"
  shows "is_obj (Some r) \<and> has_true r ''source'' \<and> has_true r ''target'' \<and> has_true r ''type'' \<and> canonical_rel r = r"
  using assms by (auto simp: canonical_rels_def canonical_rel_def[of "_ :: json"] has_true_def json_get_def is_obj_def split: option.splits)

lemma canonical_rels_sorted: "canonical_rels (sort_key f (canonical_rels rs)) = sort_key f (canonical_rels rs)"
proof -
  have "\<forall>r \<in> set (sort_key f (canonical_rels rs)). is_obj (Some r) \<and> has_true r ''source'' \<and> has_true r ''target'' \<and> has_true r ''type'' \<and> canonical_rel r = r"
    using canonical_rel_good by auto
  note good = this
  have "map canonical_rel (sort_key f (canonical_rels rs)) = sort_key f (canonical_rels rs)"
    by (intro map_idI) (use good in blast)
  moreover have "filter (\<lambda>r. is_obj (Some r) \<and> has_true r ''source'' \<and> has_true r ''target'' \<and> has_true r ''type'')
       (sort_key f (canonical_rels rs)) = sort_key f (canonical_rels rs)"
    using good by (intro filter_True) blast
  ultimately show ?thesis by (subst canonical_rels_def) (simp only:)
qed

lemma iter_again: "iter_json (or_else (Some (JList l)) (JList [])) = Some l"
  by (auto simp: or_else_def json_true_def iter_json_def)


lemma to_rels: "(k = ''relationships'') = False \<Longrightarrow> map_of (put_key ''relationships'' v kv) k = map_of kv k"
  by (simp add: map_of_put_key)

text \<open>canonicalising a graph is idempotent: whatever the model produced (a missing or null part,
  entries that are no objects, duplicate or missing ids, numbers or booleans as ids, properties
  in any order and with white space around them), when the first pass returns a value, a
  second pass returns the same value.\<close>

theorem canonical_graph_stable:
  assumes "canonicalize_graph to_str num g = Some h"
  shows "canonicalize_graph to_str num (Some h) = Some h"
proof (cases "or_else g (JObj [])")
  case (JObj kv)
  show ?thesis
  proof (cases "kv = []")
    case True
    then have "h = JObj []" using assms by (simp add: canonicalize_graph_def JObj)
    then show ?thesis by (simp add: canonicalize_graph_def or_else_def json_true_def)
  next
    case False
    define fn where "fn = (\<lambda>n. (sort_text to_str n ''label'', sort_text to_str n ''id''))"
    define fr where "fr = (\<lambda>r. (sort_text to_str r ''type'', sort_text to_str r ''source'', sort_text to_str r ''target''))"
    obtain nodes_in ns rels_in where n: "canonical_nodes num [] nodes_in = Some ns"
      and h: "h = JObj (put_key ''relationships'' (JList (sort_key fr (canonical_rels rels_in)))
            (put_key ''nodes'' (JList (sort_key fn ns)) kv))"
      using assms False by (auto simp: canonicalize_graph_def JObj fn_def fr_def split: option.splits)
    define out where "out = put_key ''relationships'' (JList (sort_key fr (canonical_rels rels_in))) (put_key ''nodes'' (JList (sort_key fn ns)) kv)"
    have o: "h = JObj out" "out \<noteq> []" "or_else (Some (JObj out)) (JObj []) = JObj out"
      using h by (auto simp: out_def or_else_def json_true_def)
    have m: "map_of out ''nodes'' = Some (JList (sort_key fn ns))"
      "map_of out ''relationships'' = Some (JList (sort_key fr (canonical_rels rels_in)))"
      by (simp_all add: out_def map_of_put_key)
    show ?thesis
      unfolding o(1) canonicalize_graph_def o(3) fn_def[symmetric] fr_def[symmetric]
      using o(2) canonical_nodes_sorted[OF n, of fn]
      by (simp add: m iter_again canonical_rels_sorted put_key_same sort_key_id_if_sorted)
  qed
qed (use assms in \<open>auto simp: canonicalize_graph_def or_else_def json_true_def split: option.splits if_splits\<close>)

lemma canonical_graph_stable_witness:
  "canonicalize_graph (\<lambda>_. '''') JFloat
     (Some (JObj [(''nodes'', JList [JObj [(''id'', JStr ''a''), (''label'', JStr ''P''), (''properties'', JObj [])]]),
                  (''relationships'', JList [])]))
   = Some (JObj [(''nodes'', JList [JObj [(''id'', JStr ''a''), (''label'', JStr ''P''), (''properties'', JObj [])]]),
                  (''relationships'', JList [])])"
proof (rule canonical_graph_stable)
  show "canonicalize_graph (\<lambda>_. '''') JFloat
     (Some (JObj [(''nodes'', JList [JObj [(''id'', JStr ''a''), (''label'', JStr ''P'')], JNull, JObj [(''id'', JStr ''a'')]])]))
   = Some (JObj [(''nodes'', JList [JObj [(''id'', JStr ''a''), (''label'', JStr ''P''), (''properties'', JObj [])]]),
                  (''relationships'', JList [])])"
    by (simp add: canonicalize_graph_def or_else_def json_true_def iter_json_def is_obj_def json_get_def
        hash_key_def canonical_node_def canonical_props_def canonical_rels_def)
qed

end
