(* ===== verification/JsonRetry.thy ===== *)
theory JsonRetry
  imports Complex_Main Gemini PipelineText
begin

text \<open>
  src/app/pipelines/base.py, the call a pipeline stage makes to the language model:
  _gemini_call (dropping arguments the client does not know, then a bare call) and
  generate_json_with_retry (one strict retry when the answer holds no JSON object). The model
  is a function of its own state and the request.
\<close>

record gen_request =
  q_prompt :: string
  q_temp :: rat
  q_schema :: "string option"
  q_model :: "string option"
  q_timeout :: "nat option"
  q_retries :: "nat option"

text \<open>What \<open>generate\<close> raises: a TypeError, an exception of the client, another one.\<close>

datatype gen_failure = TypeErr | Failed gemini_error | OtherErr string

type_synonym 's gen = "'s \<Rightarrow> gen_request \<Rightarrow> (gen_failure + gemini_result) \<times> 's"

section \<open>PipelineContext.emit_stage\<close>

text \<open>The callback answers whether it raised, which is swallowed.\<close>

definition emit_stage :: "(string \<Rightarrow> 's \<Rightarrow> bool \<times> 's) option \<Rightarrow> string \<Rightarrow> 's \<Rightarrow> 's" where
  "emit_stage cb stage s = (case cb of None \<Rightarrow> s | Some f \<Rightarrow> snd (f stage s))"

section \<open>_gemini_call\<close>

definition drop_limits :: "gen_request \<Rightarrow> gen_request" where
  "drop_limits r = r\<lparr>q_timeout := None, q_retries := None\<rparr>"

definition drop_model :: "gen_request \<Rightarrow> gen_request" where
  "drop_model r = r\<lparr>q_model := None\<rparr>"

definition drop_schema :: "gen_request \<Rightarrow> gen_request" where
  "drop_schema r = r\<lparr>q_schema := None\<rparr>"

text \<open>A step of the degradation: try, and go on only after another TypeError.\<close>

definition try_step :: "'s gen \<Rightarrow> bool \<Rightarrow> gen_request \<Rightarrow> ('s \<Rightarrow> (gen_failure + gemini_result) \<times> 's) \<Rightarrow> 's
    \<Rightarrow> (gen_failure + gemini_result) \<times> 's" where
  "try_step gen go r rest s =
     (if go then (case gen s r of (Inl TypeErr, s') \<Rightarrow> rest s' | a \<Rightarrow> a) else rest s)"

definition degrade :: "'s gen \<Rightarrow> gen_request \<Rightarrow> 's \<Rightarrow> (gen_failure + gemini_result) \<times> 's" where
  "degrade gen r s =
     (let r1 = drop_limits r; r2 = drop_model r1; r3 = drop_schema r2
      in try_step gen (q_timeout r \<noteq> None \<or> q_retries r \<noteq> None) r1
           (try_step gen (q_model r1 \<noteq> None) r2 (\<lambda>s. gen s r3)) s)"

definition fatal :: "gen_failure \<Rightarrow> bool" where
  "fatal e = (case e of Failed (GeminiError k _) \<Rightarrow> k \<in> {Quota, Auth, Transient} | _ \<Rightarrow> False)"

definition gemini_call :: "'s gen \<Rightarrow> gen_request \<Rightarrow> 's \<Rightarrow> (gen_failure + gemini_result) \<times> 's" where
  "gemini_call gen r s =
     (case gen s r of
        (Inr res, s') \<Rightarrow> (Inr res, s')
      | (Inl TypeErr, s') \<Rightarrow> degrade gen r s'
      | (Inl e, s') \<Rightarrow>
          if fatal e then (Inl e, s')
          else if q_schema r = None \<and> q_model r = None then (Inl e, s')
          else gen s' \<lparr>q_prompt = q_prompt r, q_temp = q_temp r, q_schema = None, q_model = None,
                       q_timeout = None, q_retries = None\<rparr>)"

section \<open>generate_json_with_retry\<close>

definition retry_strict_prefix :: string where
  "retry_strict_prefix = bytes
    [91, 83, 89, 83, 84, 69, 77, 58, 32, 236, 167, 129, 236, 160, 132, 32, 236, 157, 145, 235, 139,
     181, 236, 157, 180, 32, 74, 83, 79, 78, 32, 236, 156, 188, 235, 161, 156, 32, 237, 140, 140,
     236, 139, 177, 235, 144, 152, 236, 167, 128, 32, 236, 149, 138, 236, 149, 152, 236, 138, 181,
     235, 139, 136, 235, 139, 164, 46, 32, 236, 157, 180, 235, 178, 136, 236, 151, 148, 32, 42, 42,
     235, 176, 152, 235, 147, 156, 236, 139, 156, 42, 42, 32, 235, 139, 168, 236, 157, 188, 32, 74,
     83, 79, 78, 32, 234, 176, 157, 236, 178, 180, 32, 96, 123, 46, 46, 46, 125, 96, 32, 235, 167,
     140, 32, 236, 182, 156, 235, 160, 165, 237, 149, 152, 236, 132, 184, 236, 154, 148, 46, 32,
     235, 167, 136, 237, 129, 172, 235, 139, 164, 236, 154, 180, 32, 102, 101, 110, 99, 101, 32,
     234, 184, 136, 236, 167, 128, 44, 32, 235, 168, 184, 235, 166, 191, 235, 167, 144, 47, 234,
     188, 172, 235, 166, 191, 235, 167, 144, 32, 234, 184, 136, 236, 167, 128, 44, 32, 234, 176,
     157, 236, 178, 180, 32, 49, 234, 176, 156, 235, 167, 140, 46, 93, 10, 10]"

definition generate_json_with_retry ::
  "(string \<Rightarrow> json option) \<Rightarrow> 's gen \<Rightarrow> string \<Rightarrow> gen_request \<Rightarrow> 's
     \<Rightarrow> (gen_failure + json \<times> gemini_result) \<times> 's" where
  "generate_json_with_retry loads gen strict r s =
     (case gemini_call gen r s of
        (Inl e, s1) \<Rightarrow> (Inl e, s1)
      | (Inr a, s1) \<Rightarrow>
          let parsed = extract_json_object loads (r_text a)
          in if json_true parsed then (Inr (parsed, a), s1)
             else (case gemini_call gen (r\<lparr>q_prompt := strict @ q_prompt r, q_temp := q_temp r / 2, q_schema := None\<rparr>) s1 of
                     (Inl e, s2) \<Rightarrow> (Inl e, s2)
                   | (Inr b, s2) \<Rightarrow>
                       let parsed2 = extract_json_object loads (r_text b)
                       in (Inr (if json_true parsed2 then parsed2 else JObj [], b), s2)))"

section \<open>The requests made\<close>

text \<open>The model with a log of the requests it gets.\<close>

definition logged :: "'s gen \<Rightarrow> ('s \<times> gen_request list) gen" where
  "logged gen = (\<lambda>(s, past) r. case gen s r of (a, s') \<Rightarrow> (a, (s', past @ [r])))"

definition weaker :: "gen_request \<Rightarrow> gen_request \<Rightarrow> bool" where
  "weaker q r \<longleftrightarrow> q_prompt q = q_prompt r \<and> q_temp q = q_temp r \<and> q_schema q \<in> {None, q_schema r}
     \<and> q_model q \<in> {None, q_model r} \<and> q_timeout q \<in> {None, q_timeout r} \<and> q_retries q \<in> {None, q_retries r}"

text \<open>A computation that makes at most n requests, each a weaker form of r.\<close>

definition requests :: "nat \<Rightarrow> gen_request \<Rightarrow> ('s \<times> gen_request list \<Rightarrow> 'a \<times> 's \<times> gen_request list) \<Rightarrow> bool" where
  "requests n r f \<longleftrightarrow> (\<forall>s past. \<exists>a s' qs. f (s, past) = (a, (s', past @ qs)) \<and> length qs \<le> n \<and> (\<forall>q \<in> set qs. weaker q r))"

lemma requestsD: "requests n r f \<Longrightarrow>
    \<exists>a s' qs. f (s, past) = (a, (s', past @ qs)) \<and> length qs \<le> n \<and> (\<forall>q \<in> set qs. weaker q r)"
  unfolding requests_def by blast

lemma requests_gen: "weaker q r \<Longrightarrow> requests (Suc 0) r (\<lambda>s. logged gen s q)"
  unfolding requests_def logged_def by (auto split: prod.splits)

lemma requests_ret: "requests 0 r (\<lambda>s. (a, s))"
  unfolding requests_def by auto

lemma requests_bind:
  assumes "requests m r f" "\<And>a. requests n r (g a)"
  shows "requests (m + n) r (\<lambda>s. case f s of (a, s') \<Rightarrow> g a s')"
  unfolding requests_def
proof (intro allI)
  fix s past
  obtain a s1 q1 where f: "f (s, past) = (a, (s1, past @ q1))" "length q1 \<le> m" "\<forall>q \<in> set q1. weaker q r"
    using assms(1) unfolding requests_def by blast
  obtain b s2 q2 where g: "g a (s1, past @ q1) = (b, (s2, (past @ q1) @ q2))" "length q2 \<le> n" "\<forall>q \<in> set q2. weaker q r"
    using assms(2) unfolding requests_def by blast
  show "\<exists>a s' qs. (case f (s, past) of (a, s') \<Rightarrow> g a s') = (a, (s', past @ qs)) \<and> length qs \<le> m + n \<and> (\<forall>q \<in> set qs. weaker q r)"
    using f g by (intro exI[of _ b] exI[of _ s2] exI[of _ "q1 @ q2"]) auto
qed

lemma requests_mono: "requests m r f \<Longrightarrow> m \<le> n \<Longrightarrow> requests n r f"
  unfolding requests_def by (meson order_trans)

lemma try_step_bind:
  "try_step gen go q rest =
     (if go then (\<lambda>s. case gen s q of (a, s') \<Rightarrow> (if a = Inl TypeErr then rest else (\<lambda>s. (a, s))) s') else rest)"
  by (rule ext) (auto simp: try_step_def split: prod.splits sum.splits gen_failure.splits)

lemma requests_try_step:
  assumes "weaker q r" "requests n r rest"
  shows "requests (Suc n) r (try_step (logged gen) go q rest)"
proof -
  have "requests (Suc 0 + n) r (\<lambda>s. case logged gen s q of (a, s') \<Rightarrow> (if a = Inl TypeErr then rest else (\<lambda>s. (a, s))) s')"
    by (rule requests_bind[OF requests_gen[OF assms(1)]]) (auto intro: assms(2) requests_mono[OF requests_ret])
  then show ?thesis using assms(2) by (auto simp: try_step_bind intro: requests_mono)
qed

lemma requests_degrade: "requests 3 r (degrade (logged gen) r)"
proof -
  have w: "weaker (drop_limits r) r" "weaker (drop_model (drop_limits r)) r"
    "weaker (drop_schema (drop_model (drop_limits r))) r"
    by (simp_all add: weaker_def drop_limits_def drop_model_def drop_schema_def)
  show ?thesis
    unfolding degrade_def Let_def numeral_3_eq_3
    by (intro requests_try_step requests_gen w)
qed

lemma gemini_call_bind:
  "gemini_call gen r =
     (\<lambda>s. case gen s r of (a, s') \<Rightarrow>
        (if a = Inl TypeErr then degrade gen r
         else if (\<exists>x. a = Inr x) \<or> (\<exists>e. a = Inl e \<and> fatal e) \<or> q_schema r = None \<and> q_model r = None
         then (\<lambda>s. (a, s))
         else (\<lambda>s. gen s \<lparr>q_prompt = q_prompt r, q_temp = q_temp r, q_schema = None, q_model = None,
                       q_timeout = None, q_retries = None\<rparr>)) s')"
  by (rule ext) (auto simp: gemini_call_def split: prod.splits sum.splits gen_failure.splits)

lemma requests_call: "requests 4 r (gemini_call (logged gen) r)"
proof -
  have w: "weaker r r" "weaker \<lparr>q_prompt = q_prompt r, q_temp = q_temp r, q_schema = None, q_model = None,
                       q_timeout = None, q_retries = None\<rparr> r"
    by (simp_all add: weaker_def)
  have "requests (Suc 0 + 3) r (gemini_call (logged gen) r)"
    unfolding gemini_call_bind
    by (rule requests_bind[OF requests_gen[OF w(1)]])
      (auto intro: requests_degrade requests_mono[OF requests_ret] requests_mono[OF requests_gen[OF w(2)]])
  then show ?thesis by simp
qed

text \<open>whatever the model and its client do, a stage's JSON call ends after at most eight
  requests, each call's requests being weaker forms (dropping a schema, a model or a limit, never
  changing prompt or temperature) of the caller's request or of the one strict retry; the retry
  has the strict prefix before the prompt, half the temperature and no schema, and no request
  follows a first answer from which a non-empty object was read.\<close>

theorem json_retry_requests:
  "\<exists>a s' first second. generate_json_with_retry loads (logged gen) strict r (s, []) = (a, (s', first @ second))
     \<and> length first \<le> 4 \<and> length second \<le> 4
     \<and> (\<forall>q \<in> set first. weaker q r)
     \<and> (\<forall>q \<in> set second. q_prompt q = strict @ q_prompt r \<and> q_temp q = q_temp r / 2 \<and> q_schema q = None
          \<and> q_model q \<in> {None, q_model r})
     \<and> (second = [] \<or> (\<exists>res. fst (gemini_call (logged gen) r (s, [])) = Inr res
          \<and> \<not> json_true (extract_json_object loads (r_text res))))"
proof -
  let ?r2 = "r\<lparr>q_prompt := strict @ q_prompt r, q_temp := q_temp r / 2, q_schema := None\<rparr>"
  obtain a s1 q1 where f: "gemini_call (logged gen) r (s, []) = (a, (s1, q1))" "length q1 \<le> 4" "\<forall>q \<in> set q1. weaker q r"
    using requestsD[OF requests_call[of r gen], of s "[]"] by auto
  obtain b s2 q2 where g: "gemini_call (logged gen) ?r2 (s1, q1) = (b, (s2, q1 @ q2))" "length q2 \<le> 4" "\<forall>q \<in> set q2. weaker q ?r2"
    using requestsD[OF requests_call[of ?r2 gen], of s1 q1] by blast
  show ?thesis
  proof (cases "\<exists>res. a = Inr res \<and> \<not> json_true (extract_json_object loads (r_text res))")
    case True
    then obtain res where res: "a = Inr res" "\<not> json_true (extract_json_object loads (r_text res))" by blast
    have "\<exists>x. generate_json_with_retry loads (logged gen) strict r (s, []) = (x, (s2, q1 @ q2))"
      using f(1) g(1) res by (cases b) (auto simp: generate_json_with_retry_def Let_def)
    moreover have "\<forall>q \<in> set q2. q_prompt q = strict @ q_prompt r \<and> q_temp q = q_temp r / 2 \<and> q_schema q = None
          \<and> q_model q \<in> {None, q_model r}" using g(3) by (auto simp: weaker_def)
    moreover have "fst (gemini_call (logged gen) r (s, [])) = Inr res" using f(1) res(1) by simp
    ultimately show ?thesis using f(2,3) g(2) res(2) by blast
  next
    case False
    then have "\<exists>x. generate_json_with_retry loads (logged gen) strict r (s, []) = (x, (s1, q1 @ []))"
      using f(1) by (cases a) (auto simp: generate_json_with_retry_def Let_def)
    then obtain x where "generate_json_with_retry loads (logged gen) strict r (s, []) = (x, (s1, q1 @ []))" by blast
    then show ?thesis using f(2,3) by (intro exI[of _ x] exI[of _ s1] exI[of _ q1] exI[of _ "[]"]) simp
  qed
qed

lemma json_retry_requests_witness:
  "\<exists>a s' first second. generate_json_with_retry (\<lambda>_. None) (logged (\<lambda>(n::nat) r. (Inl TypeErr, n + 1))) ''!''
       \<lparr>q_prompt = ''p'', q_temp = 1, q_schema = Some ''s'', q_model = Some ''m'', q_timeout = Some 5, q_retries = None\<rparr> (0, [])
     = (a, (s', first @ second)) \<and> length first \<le> 4 \<and> length second \<le> 4"
  using json_retry_requests[of "\<lambda>_. None" "\<lambda>(n::nat) r. (Inl TypeErr, n + 1)" "''!''"
      "\<lparr>q_prompt = ''p'', q_temp = 1, q_schema = Some ''s'', q_model = Some ''m'', q_timeout = Some 5, q_retries = None\<rparr>" 0]
  by blast

text \<open>error behaviour of the JSON call: a quota, authentication or transient failure of the
  client is raised after that single request, without a degraded or a strict one; and a client
  that answers every request never makes the call raise - two answers without an object give
  the empty object and the second answer's result.\<close>

theorem json_retry_errors:
  "(gen s r = (Inl (Failed (GeminiError k t)), s') \<and> k \<in> {Quota, Auth, Transient} \<longrightarrow>
      generate_json_with_retry loads gen strict r s = (Inl (Failed (GeminiError k t)), s'))
   \<and> ((\<forall>s r. \<exists>a s'. gen s r = (Inr a, s')) \<longrightarrow>
      (\<exists>j a s'. generate_json_with_retry loads gen strict r s = (Inr (j, a), s')
          \<and> (json_true j \<longrightarrow> j = extract_json_object loads (r_text a)) \<and> (\<not> json_true j \<longrightarrow> j = JObj [])))"
proof (intro conjI impI)
  assume "gen s r = (Inl (Failed (GeminiError k t)), s') \<and> k \<in> {Quota, Auth, Transient}"
  then show "generate_json_with_retry loads gen strict r s = (Inl (Failed (GeminiError k t)), s')"
    by (auto simp: generate_json_with_retry_def gemini_call_def fatal_def)
next
  assume all: "\<forall>s r. \<exists>a s'. gen s r = (Inr a, s')"
  have c: "\<exists>a s'. gemini_call gen q u = (Inr a, s')" for q u
  proof -
    obtain a s' where "gen u q = (Inr a, s')" using all by blast
    then show ?thesis by (simp add: gemini_call_def)
  qed
  obtain a s1 where a: "gemini_call gen r s = (Inr a, s1)" using c by blast
  obtain b s2 where b: "gemini_call gen (r\<lparr>q_prompt := strict @ q_prompt r, q_temp := q_temp r / 2, q_schema := None\<rparr>) s1 = (Inr b, s2)"
    using c by blast
  show "\<exists>j a s'. generate_json_with_retry loads gen strict r s = (Inr (j, a), s')
          \<and> (json_true j \<longrightarrow> j = extract_json_object loads (r_text a)) \<and> (\<not> json_true j \<longrightarrow> j = JObj [])"
    using a b json_true_def[of "JObj []"] by (auto simp: generate_json_with_retry_def Let_def)
qed

lemma json_retry_errors_witness:
  "generate_json_with_retry (\<lambda>_. None) (\<lambda>(n::nat) r. (Inl (Failed (GeminiError Quota NoLastError)), n + 1)) ''!''
     \<lparr>q_prompt = ''p'', q_temp = 1, q_schema = Some ''s'', q_model = None, q_timeout = None, q_retries = None\<rparr> 0
   = (Inl (Failed (GeminiError Quota NoLastError)), Suc 0)"
  by (rule json_retry_errors[THEN conjunct1, rule_format]) simp

end
