(* ===== verification/Ingestion.thy ===== *)
theory Ingestion
  imports Complex_Main PipelineText
begin

text \<open>
  The collection of song contests from public sources: the adapter framework and its three
  adapters (src/app/api/v1/ingestion/adapters/), the registry and the idempotent store
  (service.py) over the table of festivals (src/app/api/v1/festivals/models.py). A record is
  a JSON object; \<open>to_str\<close> is str() of its values that are no str, \<open>sha1\<close> and \<open>digest\<close> (sha256 of the
  canonical JSON) the hashes.
\<close>

section \<open>Selection by title\<close>

definition despace :: "string \<Rightarrow> string" where
  "despace t = filter (\<lambda>c. c \<noteq> CHR '' '') t"

text \<open>str.lower() as far as the keywords can tell: ASCII letters and the Kelvin sign become ASCII.\<close>

definition kelvin :: string where "kelvin = bytes [226, 132, 170]"

definition low :: "string \<Rightarrow> string" where
  "low t = lower (replace_all kelvin ''k'' t)"

definition strong_gayoje :: "string list" where
  "strong_gayoje = [bytes [234, 176, 128, 236, 154, 148, 236, 160, 156], bytes [234, 176, 128, 236, 154, 148, 235, 140, 128, 237, 154, 140], bytes [235, 133, 184, 235, 158, 152, 235, 140, 128, 237, 154, 140], bytes [235, 133, 184, 235, 158, 152, 236, 158, 144, 235, 158, 145], bytes [235, 143, 153, 236, 154, 148, 236, 160, 156],
     bytes [237, 138, 184, 235, 161, 156, 237, 138, 184, 234, 176, 128, 236, 154, 148, 236, 160, 156], bytes [237, 138, 184, 235, 161, 175, 234, 176, 128, 236, 154, 148, 236, 160, 156]]"

definition singing_words :: "string list" where
  "singing_words = [bytes [234, 176, 128, 236, 154, 148], bytes [235, 133, 184, 235, 158, 152], bytes [237, 138, 184, 235, 161, 156, 237, 138, 184], bytes [237, 138, 184, 235, 161, 175], bytes [235, 179, 180, 236, 187, 172], bytes [234, 176, 128, 236, 176, 189],
     bytes [107, 237, 140, 157], bytes [236, 188, 128, 236, 157, 180, 237, 140, 157]]"

definition contest_words :: "string list" where
  "contest_words = [bytes [235, 140, 128, 237, 154, 140], bytes [234, 178, 189, 236, 151, 176], bytes [236, 189, 152, 237, 133, 140, 236, 138, 164, 237, 138, 184], bytes [236, 152, 164, 235, 148, 148, 236, 133, 152], bytes [236, 132, 160, 235, 176, 156], bytes [236, 177, 148, 237, 148, 188, 236, 150, 184], bytes [236, 158, 144, 235, 158, 145]]"

definition is_gayoje :: "string option \<Rightarrow> bool" where
  "is_gayoje title =
     (case or_none title of
        None \<Rightarrow> False
      | Some x \<Rightarrow>
          let t = despace x
          in list_ex (\<lambda>k. substr_in k t) strong_gayoje
             \<or> list_ex (\<lambda>s. substr_in s (low t)) singing_words \<and> list_ex (\<lambda>c. substr_in c t) contest_words)"

section \<open>Dates\<close>

text \<open>Year, month, day. The numbers of strptime are taken as ASCII digits.\<close>

type_synonym date = "nat \<times> nat \<times> nat"

definition leap :: "nat \<Rightarrow> bool" where
  "leap y = (y mod 4 = 0 \<and> (y mod 100 \<noteq> 0 \<or> y mod 400 = 0))"

definition days_in :: "nat \<Rightarrow> nat \<Rightarrow> nat" where
  "days_in y m = (if m = 2 then (if leap y then 29 else 28) else if m \<in> {4, 6, 9, 11} then 30 else 31)"

definition valid_date :: "date \<Rightarrow> bool" where
  "valid_date d = (case d of (y, m, k) \<Rightarrow> 1 \<le> y \<and> y \<le> 9999 \<and> 1 \<le> m \<and> m \<le> 12 \<and> 1 \<le> k \<and> k \<le> days_in y m)"

definition digit_of :: "char \<Rightarrow> nat" where
  "digit_of c = of_char c - 48"

definition digit_in :: "nat \<Rightarrow> nat \<Rightarrow> char \<Rightarrow> bool" where
  "digit_in a b c = (ascii_digit c \<and> a \<le> digit_of c \<and> digit_of c \<le> b)"

text \<open>%Y, and the alternatives of %m and %d of strptime in their order.\<close>

definition year_at :: "string \<Rightarrow> (nat \<times> string) option" where
  "year_at s = (if 4 \<le> length s \<and> list_all ascii_digit (take 4 s) then Some (parse_dec (take 4 s), drop 4 s) else None)"

definition two_digits :: "(char \<Rightarrow> char \<Rightarrow> bool) \<Rightarrow> string \<Rightarrow> (nat \<times> string) list" where
  "two_digits ok s = (case s of a # b # r \<Rightarrow> if ok a b then [(10 * digit_of a + digit_of b, r)] else [] | _ \<Rightarrow> [])"

definition one_digit :: "string \<Rightarrow> (nat \<times> string) list" where
  "one_digit s = (case s of a # r \<Rightarrow> if digit_in 1 9 a then [(digit_of a, r)] else [] | _ \<Rightarrow> [])"

definition month_alts :: "string \<Rightarrow> (nat \<times> string) list" where
  "month_alts s = two_digits (\<lambda>a b. a = CHR ''1'' \<and> digit_in 0 2 b) s
     @ two_digits (\<lambda>a b. a = CHR ''0'' \<and> digit_in 1 9 b) s @ one_digit s"

definition day_alts :: "string \<Rightarrow> (nat \<times> string) list" where
  "day_alts s = two_digits (\<lambda>a b. a = CHR ''3'' \<and> digit_in 0 1 b) s
     @ two_digits (\<lambda>a b. digit_in 1 2 a \<and> ascii_digit b) s
     @ two_digits (\<lambda>a b. a = CHR ''0'' \<and> digit_in 1 9 b) s @ one_digit s
     @ (if starts_with '' '' s then one_digit (drop 1 s) else [])"

definition skip_dash :: "string \<Rightarrow> string option" where
  "skip_dash s = (case s of CHR ''-'' # r \<Rightarrow> Some r | _ \<Rightarrow> None)"

text \<open>The first match of the pattern as a prefix; strptime then wants nothing left and a real date.\<close>

definition strptime_match :: "bool \<Rightarrow> string \<Rightarrow> (date \<times> string) list" where
  "strptime_match dashes s =
     (case year_at s of
        None \<Rightarrow> []
      | Some (y, r) \<Rightarrow>
          (case (if dashes then skip_dash r else Some r) of
             None \<Rightarrow> []
           | Some r \<Rightarrow> concat (map (\<lambda>(m, r).
               case (if dashes then skip_dash r else Some r) of
                 None \<Rightarrow> []
               | Some r \<Rightarrow> map (\<lambda>(d, r). ((y, m, d), r)) (day_alts r)) (month_alts r))))"

definition strptime :: "bool \<Rightarrow> string \<Rightarrow> date option" where
  "strptime dashes s =
     (case strptime_match dashes s of
        (d, []) # _ \<Rightarrow> if valid_date d then Some d else None
      | _ \<Rightarrow> None)"

definition parse_date :: "string option \<Rightarrow> date option" where
  "parse_date s =
     (case or_none s of
        None \<Rightarrow> None
      | Some x \<Rightarrow>
          let t = map (\<lambda>c. if c = CHR ''.'' \<or> c = CHR ''/'' then CHR ''-'' else c) (py_strip x)
          in (case strptime True t of Some d \<Rightarrow> Some d | None \<Rightarrow> strptime False t))"

section \<open>Records\<close>

type_synonym raw = "(string \<times> json) list"

definition str_json :: "(json \<Rightarrow> string) \<Rightarrow> json \<Rightarrow> string" where
  "str_json to_str v = (case v of JStr s \<Rightarrow> s | _ \<Rightarrow> to_str v)"

fun first_value :: "(json \<Rightarrow> string) \<Rightarrow> raw \<Rightarrow> string list \<Rightarrow> string option" where
  "first_value to_str raw [] = None"
| "first_value to_str raw (k # ks) =
     (case map_of raw k of
        None \<Rightarrow> first_value to_str raw ks
      | Some v \<Rightarrow> if v = JNull \<or> v = JStr '''' then first_value to_str raw ks
                  else Some (py_strip (str_json to_str v)))"

text \<open>None: an attribute error, when a part expected to be a dict is a truthy other value.\<close>

definition dict_get :: "json \<Rightarrow> string \<Rightarrow> json option option" where
  "dict_get j k = (case j of JObj kv \<Rightarrow> Some (map_of kv k) | _ \<Rightarrow> None)"

definition only_dicts :: "json list \<Rightarrow> raw list" where
  "only_dicts l = List.map_filter (\<lambda>r. case r of JObj kv \<Rightarrow> Some kv | _ \<Rightarrow> None) l"

definition not_null :: "json option \<Rightarrow> json option" where
  "not_null v = (if v = Some JNull then None else v)"

definition extract_records :: "json \<Rightarrow> raw list option" where
  "extract_records data =
     (case data of
        JList l \<Rightarrow> Some (only_dicts l)
      | JObj kv \<Rightarrow>
          (case dict_get (or_else (map_of kv ''response'') (JObj [])) ''body'' of
             None \<Rightarrow> None
           | Some b \<Rightarrow>
               let body = or_else b (or_else (map_of kv ''body'') (JObj []));
                   items = (case not_null (json_get body ''items'') of None \<Rightarrow> not_null (map_of kv ''items'') | i \<Rightarrow> i);
                   items = (case items of Some (JObj x) \<Rightarrow> map_of x ''item'' | i \<Rightarrow> i)
               in Some (case items of Some (JList l) \<Rightarrow> only_dicts l | Some (JObj x) \<Rightarrow> [x] | _ \<Rightarrow> []))
      | _ \<Rightarrow> Some [])"

section \<open>HTTP with retries\<close>

text \<open>One GET: a time-out or transport error, another exception, or an answer.\<close>

datatype http_out = NetFail string | HttpRaise string | HttpAnswer nat string

datatype fetch_error = NetError string | Raised string | HttpStatus nat | AttributeErr | AssertFailed

definition transient :: "nat \<Rightarrow> bool" where
  "transient code = (500 \<le> code \<or> code = 429)"

text \<open>raise_for_status lets only 2xx answers pass.\<close>

definition judge_answer :: "(string \<Rightarrow> fetch_error + 'a) \<Rightarrow> http_out \<Rightarrow> fetch_error + (fetch_error + 'a)" where
  "judge_answer use h =
     (case h of
        NetFail e \<Rightarrow> Inl (NetError e)
      | HttpRaise e \<Rightarrow> Inr (Inl (Raised e))
      | HttpAnswer code text \<Rightarrow>
          if transient code then Inl (HttpStatus code)
          else if 200 \<le> code \<and> code < 300 then Inr (use text)
          else Inr (Inl (HttpStatus code)))"

text \<open>The loop from attempt i with n attempts left: the result, the requests made, the waits.
  Inl of the verdict is a failure to retry.\<close>

fun fetch_loop ::
  "(string \<Rightarrow> fetch_error + 'a) \<Rightarrow> (nat \<Rightarrow> http_out) \<Rightarrow> (nat \<Rightarrow> rat) \<Rightarrow> rat \<Rightarrow> nat \<Rightarrow> nat \<Rightarrow> fetch_error option
     \<Rightarrow> (fetch_error + 'a) \<times> nat \<times> rat list" where
  "fetch_loop use http jitter base 0 i prev = (Inl (case prev of Some e \<Rightarrow> e | None \<Rightarrow> AssertFailed), i, [])"
| "fetch_loop use http jitter base (Suc n) i prev =
     (case judge_answer use (http i) of
        Inr r \<Rightarrow> (r, Suc i, [])
      | Inl e \<Rightarrow>
          if n = 0 then (Inl e, Suc i, [])
          else (case fetch_loop use http jitter base n (Suc i) (Some e) of
                  (r, k, waits) \<Rightarrow> (r, k, (base * 2 ^ i + jitter i) # waits)))"

definition use_records :: "(string \<Rightarrow> json option) \<Rightarrow> string \<Rightarrow> fetch_error + raw list" where
  "use_records loads text =
     (case loads text of
        None \<Rightarrow> Inr []
      | Some j \<Rightarrow> (case extract_records j of Some rs \<Rightarrow> Inr rs | None \<Rightarrow> Inl AttributeErr))"

definition http_fetch_records ::
  "(string \<Rightarrow> json option) \<Rightarrow> (nat \<Rightarrow> http_out) \<Rightarrow> (nat \<Rightarrow> rat) \<Rightarrow> rat \<Rightarrow> nat \<Rightarrow> (fetch_error + raw list) \<times> nat \<times> rat list" where
  "http_fetch_records loads http jitter base max_retries =
     fetch_loop (use_records loads) http jitter base (max_retries + 1) 0 None"

definition http_get_text ::
  "(nat \<Rightarrow> http_out) \<Rightarrow> (nat \<Rightarrow> rat) \<Rightarrow> rat \<Rightarrow> nat \<Rightarrow> (fetch_error + string) \<times> nat \<times> rat list" where
  "http_get_text http jitter base max_retries = fetch_loop Inr http jitter base (max_retries + 1) 0 None"

definition fetch_params :: "string \<Rightarrow> int \<Rightarrow> int \<Rightarrow> (string \<times> string) list \<Rightarrow> (string \<times> string) list" where
  "fetch_params service_key rows page extra =
     foldl (\<lambda>ps (k, v). put_key k v ps)
       [(''serviceKey'', service_key), (''numOfRows'', int_str rows), (''pageNo'', int_str page)] extra"

section \<open>Adapters\<close>

record adapter =
  a_key :: string
  a_system :: string
  a_base_url :: string
  a_fields :: "(string \<times> string list) list"
  a_extra :: "string \<Rightarrow> string option \<Rightarrow> (string \<times> string) list"

definition type_json :: "string \<Rightarrow> string option \<Rightarrow> (string \<times> string) list" where
  "type_json start area = [(''type'', ''json'')]"

definition standard_performance :: adapter where
  "standard_performance = \<lparr>a_key = ''standard_performance'',
     a_system = ''data_go_kr:nationwide_performance_event_std'',
     a_base_url = ''https://api.data.go.kr/openapi/tn_pubr_public_pblprfr_event_info_api'',
     a_fields = [(''title'', [''eventNm'']), (''host'', [''mnnstNm'', ''auspcInsttNm'', ''insttNm'']),
       (''address'', [''rdnmadr'', ''lnmadr'']), (''venue'', [''opar'']), (''start'', [''eventStartDate'']),
       (''end'', [''eventEndDate'']), (''url'', [''homepageUrl''])],
     a_extra = type_json\<rparr>"

definition cultural_festival :: adapter where
  "cultural_festival = \<lparr>a_key = ''cultural_festival'',
     a_system = ''data_go_kr:nationwide_cultural_festival_std'',
     a_base_url = ''https://api.data.go.kr/openapi/tn_pubr_public_cltur_fstvl_api'',
     a_fields = [(''title'', [''fstvlNm'']), (''host'', [''mnnstNm'', ''auspcInsttNm'', ''insttNm'']),
       (''address'', [''rdnmadr'', ''lnmadr'']), (''venue'', [''opar'']), (''start'', [''fstvlStartDate'']),
       (''end'', [''fstvlEndDate'']), (''url'', [''homepageUrl''])],
     a_extra = type_json\<rparr>"

definition tour_extra :: "string \<Rightarrow> string option \<Rightarrow> (string \<times> string) list" where
  "tour_extra start area =
     [(''MobileOS'', ''ETC''), (''MobileApp'', ''gayoje''), (''_type'', ''json''), (''eventStartDate'', start)]
     @ (case or_none area of None \<Rightarrow> [] | Some a \<Rightarrow> [(''areaCode'', a)])"

definition tour_api :: adapter where
  "tour_api = \<lparr>a_key = ''tour_api'',
     a_system = ''korea_tourism_org:tour_api_festival'',
     a_base_url = ''https://apis.data.go.kr/B551011/KorService2/searchFestival2'',
     a_fields = [(''title'', [''title'']), (''host'', [''sponsor1'', ''organizer'']),
       (''address'', [''addr1'', ''addr2'']), (''venue'', [''eventplace'', ''addr1'']), (''start'', [''eventstartdate'']),
       (''end'', [''eventenddate'']), (''url'', [''homepage'', ''url'']), (''id'', [''contentid''])],
     a_extra = tour_extra\<rparr>"

definition all_adapters :: "adapter list" where
  "all_adapters = [standard_performance, cultural_festival, tour_api]"

definition get_adapter :: "string \<Rightarrow> adapter option" where
  "get_adapter k = map_of (map (\<lambda>a. (a_key a, a)) all_adapters) k"

definition list_adapter_keys :: "string list" where
  "list_adapter_keys = sort (map a_key all_adapters)"

text \<open>The request an adapter makes: the address and the parameters. The start date has the default
  of the TourAPI adapter, which the others do not take.\<close>

definition fetch_request :: "adapter \<Rightarrow> string option \<Rightarrow> string \<Rightarrow> int \<Rightarrow> int \<Rightarrow> string \<times> (string \<times> string) list" where
  "fetch_request a base_url service_key rows page =
     (py_or base_url (a_base_url a), fetch_params service_key rows page (a_extra a ''20240101'' None))"

definition adapter_field :: "(json \<Rightarrow> string) \<Rightarrow> adapter \<Rightarrow> raw \<Rightarrow> string \<Rightarrow> string option" where
  "adapter_field to_str a raw name =
     first_value to_str raw (case map_of (a_fields a) name of Some ks \<Rightarrow> ks | None \<Rightarrow> [])"

definition record_id :: "(json \<Rightarrow> string) \<Rightarrow> (string \<Rightarrow> string) \<Rightarrow> adapter \<Rightarrow> raw \<Rightarrow> string \<Rightarrow> string" where
  "record_id to_str sha1 a raw title =
     (case or_none (adapter_field to_str a raw ''id'') of
        Some i \<Rightarrow> i
      | None \<Rightarrow> take 24 (sha1 (title @ ''|'' @ py_or (adapter_field to_str a raw ''start'') ''''
                            @ ''|'' @ py_or (adapter_field to_str a raw ''venue'') '''')))"

record event =
  e_system :: string
  e_id :: string
  e_url :: "string option"
  e_hash :: string
  e_raw :: raw
  e_title :: string
  e_host :: "string option"
  e_region :: "string option"
  e_venue :: "string option"
  e_start :: "date option"
  e_end :: "date option"

definition normalize_record ::
  "(json \<Rightarrow> string) \<Rightarrow> (string \<Rightarrow> string) \<Rightarrow> (raw \<Rightarrow> string) \<Rightarrow> adapter \<Rightarrow> raw \<Rightarrow> event option" where
  "normalize_record to_str sha1 digest a raw =
     (case or_none (adapter_field to_str a raw ''title'') of
        None \<Rightarrow> None
      | Some title \<Rightarrow>
          if \<not> is_gayoje (Some title) then None
          else Some \<lparr>e_system = a_system a, e_id = record_id to_str sha1 a raw title,
                     e_url = adapter_field to_str a raw ''url'', e_hash = digest raw, e_raw = raw, e_title = title,
                     e_host = adapter_field to_str a raw ''host'', e_region = adapter_field to_str a raw ''address'',
                     e_venue = adapter_field to_str a raw ''venue'',
                     e_start = parse_date (adapter_field to_str a raw ''start''),
                     e_end = parse_date (adapter_field to_str a raw ''end'')\<rparr>)"

section \<open>The store\<close>

text \<open>A row of festival_event: the generated id and the event. created_at and updated_at, which the
  database sets, are left out.\<close>

record row =
  w_id :: nat
  w_event :: event

record store =
  t_rows :: "row list"
  t_next :: nat

datatype upsert = Inserted | Updated | Unchanged

definition same_source :: "event \<Rightarrow> row \<Rightarrow> bool" where
  "same_source ev w = (e_system (w_event w) = e_system ev \<and> e_id (w_event w) = e_id ev)"

definition upsert_event :: "event \<Rightarrow> store \<Rightarrow> upsert \<times> store" where
  "upsert_event ev t =
     (case find (same_source ev) (t_rows t) of
        None \<Rightarrow> (Inserted, t\<lparr>t_rows := t_rows t @ [\<lparr>w_id = t_next t, w_event = ev\<rparr>], t_next := t_next t + 1\<rparr>)
      | Some old \<Rightarrow>
          if e_hash (w_event old) = e_hash ev then (Unchanged, t)
          else (Updated, t\<lparr>t_rows := map (\<lambda>w. if same_source ev w then w\<lparr>w_event := ev\<rparr> else w) (t_rows t)\<rparr>))"

record counts =
  n_inserted :: nat
  n_updated :: nat
  n_unchanged :: nat
  n_skipped :: nat

definition empty_counts :: counts where
  "empty_counts = \<lparr>n_inserted = 0, n_updated = 0, n_unchanged = 0, n_skipped = 0\<rparr>"

definition count_outcome :: "upsert \<Rightarrow> counts \<Rightarrow> counts" where
  "count_outcome u c =
     (case u of Inserted \<Rightarrow> c\<lparr>n_inserted := n_inserted c + 1\<rparr>
      | Updated \<Rightarrow> c\<lparr>n_updated := n_updated c + 1\<rparr> | Unchanged \<Rightarrow> c\<lparr>n_unchanged := n_unchanged c + 1\<rparr>)"

fun ingest_loop :: "('r \<Rightarrow> event option) \<Rightarrow> 'r list \<Rightarrow> counts \<Rightarrow> store \<Rightarrow> counts \<times> store" where
  "ingest_loop nrm [] c t = (c, t)"
| "ingest_loop nrm (r # rs) c t =
     (case nrm r of
        None \<Rightarrow> ingest_loop nrm rs (c\<lparr>n_skipped := n_skipped c + 1\<rparr>) t
      | Some ev \<Rightarrow> (case upsert_event ev t of (u, t') \<Rightarrow> ingest_loop nrm rs (count_outcome u c) t'))"

definition ingest_records :: "(raw \<Rightarrow> event option) \<Rightarrow> raw list \<Rightarrow> store \<Rightarrow> counts \<times> store" where
  "ingest_records nrm rs t = ingest_loop nrm rs empty_counts t"

section \<open>Posts of boards\<close>

text \<open>re.IGNORECASE for a lower-case name: besides ci_alternatives, the dotted capital and the dotless
  small i match i; a character that is no letter matches itself.\<close>

definition ci_letter :: "char \<Rightarrow> string list" where
  "ci_letter c =
     (if 97 \<le> (of_char c :: nat) \<and> (of_char c :: nat) \<le> 122
      then ci_alternatives c @ (if c = CHR ''i'' then [bytes [196, 176], bytes [196, 177]] else [])
      else [[c]])"

fun ci_prefix :: "string \<Rightarrow> string \<Rightarrow> string option" where
  "ci_prefix [] s = Some s"
| "ci_prefix (c # cs) s =
     (case find (\<lambda>w. starts_with w s) (ci_letter c) of None \<Rightarrow> None | Some w \<Rightarrow> ci_prefix cs (drop (length w) s))"

text \<open>re.search: the leftmost position at which m matches, given what precedes it.\<close>

fun search_from :: "(string \<Rightarrow> string \<Rightarrow> 'a option) \<Rightarrow> string \<Rightarrow> string \<Rightarrow> 'a option" where
  "search_from m before [] = m before []"
| "search_from m before (c # cs) =
     (case m before (c # cs) of Some r \<Rightarrow> Some r | None \<Rightarrow> search_from m (before @ [c]) cs)"

definition digits_at :: "(string \<Rightarrow> nat) \<Rightarrow> string \<Rightarrow> string option" where
  "digits_at udigit s = (let n = digits_len udigit (length s) s in if n = 0 then None else Some (take n s))"

definition board_path_id :: "(string \<Rightarrow> nat) \<Rightarrow> string \<Rightarrow> string \<Rightarrow> string option" where
  "board_path_id udigit before s =
     (case find (\<lambda>p. starts_with p s) [''/view/'', ''/read/'', ''/article/''] of
        None \<Rightarrow> None
      | Some p \<Rightarrow> digits_at udigit (drop (length p) s))"

definition letter_before :: "string \<Rightarrow> bool" where
  "letter_before before =
     (before \<noteq> [] \<and> (ident_start (last before))
      \<or> list_ex (\<lambda>w. ends_with w before) [bytes [226, 132, 170], bytes [197, 191], bytes [196, 176], bytes [196, 177]])"

definition board_query_names :: "string list" where
  "board_query_names = [''nttid'', ''nttno'', ''pblprfrno'', ''articleno'', ''bltnno'', ''seq'', ''action-value'', ''idx'']"

definition board_query_id :: "(string \<Rightarrow> nat) \<Rightarrow> string \<Rightarrow> string \<Rightarrow> string option" where
  "board_query_id udigit before s =
     (let after = (\<lambda>n. if n = ''idx'' \<and> letter_before before then None
                       else (case ci_prefix n s of Some (CHR ''='' # r) \<Rightarrow> digits_at udigit r | _ \<Rightarrow> None))
      in (case find (\<lambda>n. after n \<noteq> None) board_query_names of None \<Rightarrow> None | Some n \<Rightarrow> after n))"

definition board_record_id :: "(string \<Rightarrow> nat) \<Rightarrow> (string \<Rightarrow> string) \<Rightarrow> string \<Rightarrow> string" where
  "board_record_id udigit sha1 url =
     (case search_from (board_path_id udigit) [] url of
        Some i \<Rightarrow> i
      | None \<Rightarrow> (case search_from (board_query_id udigit) [] url of
                  Some i \<Rightarrow> i
                | None \<Rightarrow> take 24 (sha1 url)))"

text \<open>A post as the crawler hands it on.\<close>

record post =
  p_title :: string
  p_url :: string
  p_start :: "string option"
  p_end :: "string option"
  p_venue :: "string option"
  p_host :: "string option"

definition json_opt :: "string option \<Rightarrow> json" where
  "json_opt x = (case x of None \<Rightarrow> JNull | Some s \<Rightarrow> JStr s)"

definition post_raw :: "string \<Rightarrow> post \<Rightarrow> raw" where
  "post_raw system p =
     [(''title'', JStr (p_title p)), (''detail_url'', JStr (p_url p)), (''source_system'', JStr system),
      (''start_date'', json_opt (p_start p)), (''end_date'', json_opt (p_end p)),
      (''venue'', json_opt (p_venue p)), (''host_org'', json_opt (p_host p))]"

definition post_event :: "(string \<Rightarrow> nat) \<Rightarrow> (string \<Rightarrow> string) \<Rightarrow> (raw \<Rightarrow> string) \<Rightarrow> string \<Rightarrow> post \<Rightarrow> event" where
  "post_event udigit sha1 digest system p =
     \<lparr>e_system = system, e_id = board_record_id udigit sha1 (p_url p), e_url = Some (p_url p),
      e_hash = digest (post_raw system p), e_raw = post_raw system p, e_title = p_title p, e_host = p_host p,
      e_region = None, e_venue = p_venue p, e_start = parse_date (p_start p), e_end = parse_date (p_end p)\<rparr>"

definition ingest_board_posts ::
  "(string \<Rightarrow> nat) \<Rightarrow> (string \<Rightarrow> string) \<Rightarrow> (raw \<Rightarrow> string) \<Rightarrow> string \<Rightarrow> post list \<Rightarrow> store \<Rightarrow> counts \<times> store" where
  "ingest_board_posts udigit sha1 digest system posts t =
     ingest_loop (\<lambda>p. Some (post_event udigit sha1 digest system p)) posts empty_counts t"

section \<open>The store is a map\<close>

definition event_key :: "event \<Rightarrow> string \<times> string" where
  "event_key ev = (e_system ev, e_id ev)"

definition row_key :: "row \<Rightarrow> string \<times> string" where
  "row_key w = event_key (w_event w)"

lemma same_source_key: "same_source ev w \<longleftrightarrow> row_key w = event_key ev"
  by (simp add: same_source_def row_key_def event_key_def)

text \<open>The abstract store: the event last written for a source and record id.\<close>

definition stored :: "store \<Rightarrow> string \<times> string \<Rightarrow> event option" where
  "stored t = map_of (map (\<lambda>w. (row_key w, w_event w)) (t_rows t))"

definition store_ok :: "store \<Rightarrow> bool" where
  "store_ok t \<longleftrightarrow> distinct (map row_key (t_rows t)) \<and> distinct (map w_id (t_rows t)) \<and> (\<forall>w \<in> set (t_rows t). w_id w < t_next t)"

text \<open>The hash tells apart the events of one key.\<close>

definition faithful :: "event set \<Rightarrow> bool" where
  "faithful S \<longleftrightarrow> (\<forall>a \<in> S. \<forall>b \<in> S. event_key a = event_key b \<and> e_hash a = e_hash b \<longrightarrow> a = b)"

definition kept_events :: "('r \<Rightarrow> event option) \<Rightarrow> 'r list \<Rightarrow> event list" where
  "kept_events nrm rs = List.map_filter nrm rs"

definition write_event :: "(string \<times> string \<Rightarrow> event option) \<Rightarrow> event \<Rightarrow> string \<times> string \<Rightarrow> event option" where
  "write_event m ev = m(event_key ev \<mapsto> ev)"

definition store_events :: "store \<Rightarrow> event set" where
  "store_events t = w_event ` set (t_rows t)"

lemma find_row_None: "find (same_source ev) (t_rows t) = None \<longleftrightarrow> event_key ev \<notin> row_key ` set (t_rows t)"
  by (auto simp: find_None_iff same_source_key image_iff)

lemma map_of_update_rows:
  "distinct (map row_key ws) \<Longrightarrow> event_key ev \<in> row_key ` set ws \<Longrightarrow>
     map_of (map (\<lambda>w. (row_key w, w_event w)) (map (\<lambda>w. if same_source ev w then w\<lparr>w_event := ev\<rparr> else w) ws))
     = (map_of (map (\<lambda>w. (row_key w, w_event w)) ws))(event_key ev \<mapsto> ev)"
proof (induction ws)
  case (Cons w ws)
  have k: "row_key (w\<lparr>w_event := ev\<rparr>) = event_key ev" by (simp add: row_key_def)
  show ?case
  proof (cases "same_source ev w")
    case True
    then have "event_key ev \<notin> row_key ` set ws" using Cons.prems by (auto simp: same_source_key)
    then have "map (\<lambda>w. if same_source ev w then w\<lparr>w_event := ev\<rparr> else w) ws = ws"
      by (intro map_idI) (auto simp: same_source_key image_iff)
    then show ?thesis using True k by (simp add: same_source_key fun_upd_def cong: if_cong)
  next
    case False
    then show ?thesis using Cons by (auto simp: same_source_key fun_upd_twist)
  qed
qed simp

lemma updated_row_keys: "map row_key (map (\<lambda>w. if same_source ev w then w\<lparr>w_event := ev\<rparr> else w) ws) = map row_key ws"
  by (simp add: same_source_key row_key_def)

lemma updated_row_ids: "map w_id (map (\<lambda>w. if same_source ev w then w\<lparr>w_event := ev\<rparr> else w) ws) = map w_id ws"
  by simp

lemma stored_none: "stored t k = None \<longleftrightarrow> k \<notin> row_key ` set (t_rows t)"
  by (force simp: stored_def map_of_eq_None_iff image_iff)

lemma stored_find: "stored t (event_key ev) = map_option w_event (find (same_source ev) (t_rows t))"
proof -
  have "map_of (map (\<lambda>w. (row_key w, w_event w)) ws) (event_key ev) = map_option w_event (find (same_source ev) ws)" for ws
    by (induction ws) (auto simp: same_source_key)
  then show ?thesis by (simp add: stored_def)
qed

lemma stored_event: "stored t k = Some ev \<Longrightarrow> ev \<in> store_events t \<and> event_key ev = k"
  by (auto simp: stored_def store_events_def row_key_def dest!: map_of_SomeD)

text \<open>One upsert: the map is written, and the outcome is read off the map.\<close>

lemma upsert_refines:
  assumes "upsert_event ev t = (u, t')" "store_ok t" "faithful (insert ev (store_events t))"
  shows "stored t' = write_event (stored t) ev" "store_ok t'"
    "map w_id (t_rows t) = take (length (t_rows t)) (map w_id (t_rows t'))"
    "map row_key (t_rows t) = take (length (t_rows t)) (map row_key (t_rows t'))"
    "store_events t' \<subseteq> insert ev (store_events t)"
    "u = (case stored t (event_key ev) of None \<Rightarrow> Inserted | Some old \<Rightarrow> if old = ev then Unchanged else Updated)"
    "u = Unchanged \<longleftrightarrow> t' = t"
proof -
  consider (ins) "find (same_source ev) (t_rows t) = None" "u = Inserted"
      "t' = t\<lparr>t_rows := t_rows t @ [\<lparr>w_id = t_next t, w_event = ev\<rparr>], t_next := t_next t + 1\<rparr>"
    | (same) old where "find (same_source ev) (t_rows t) = Some old" "e_hash (w_event old) = e_hash ev" "u = Unchanged" "t' = t"
    | (upd) old where "find (same_source ev) (t_rows t) = Some old" "e_hash (w_event old) \<noteq> e_hash ev" "u = Updated"
      "t' = t\<lparr>t_rows := map (\<lambda>w. if same_source ev w then w\<lparr>w_event := ev\<rparr> else w) (t_rows t)\<rparr>"
    using assms(1) by (auto simp: upsert_event_def split: option.splits if_splits)
  then have "stored t' = write_event (stored t) ev \<and> store_ok t' \<and> map w_id (t_rows t) = take (length (t_rows t)) (map w_id (t_rows t'))
    \<and> map row_key (t_rows t) = take (length (t_rows t)) (map row_key (t_rows t')) \<and> store_events t' \<subseteq> insert ev (store_events t)
    \<and> u = (case stored t (event_key ev) of None \<Rightarrow> Inserted | Some old \<Rightarrow> if old = ev then Unchanged else Updated)
    \<and> (u = Unchanged \<longleftrightarrow> t' = t)"
  proof cases
    case ins
    then have n: "event_key ev \<notin> row_key ` set (t_rows t)" by (simp add: find_row_None)
    have k: "row_key \<lparr>w_id = t_next t, w_event = ev\<rparr> = event_key ev" by (simp add: row_key_def)
    have none: "map_of (map (\<lambda>w. (row_key w, w_event w)) (t_rows t)) (event_key ev) = None"
      using n stored_none[of t "event_key ev"] by (simp add: stored_def)
    have snoc: "map_of (xs @ [(k, v)]) = (map_of xs)(k \<mapsto> v)" if "map_of xs k = None"
      for xs :: "((string \<times> string) \<times> event) list" and k v
      using that by (auto simp: fun_eq_iff map_add_def split: option.splits)
    have "stored t' = write_event (stored t) ev"
      unfolding ins(3) stored_def write_event_def using snoc[OF none, of ev] by (simp add: k)
    moreover have "store_ok t'" using n assms(2) unfolding ins(3) by (force simp: store_ok_def k)
    moreover have "stored t (event_key ev) = None" using n by (simp add: stored_none)
    moreover have "t' \<noteq> t" unfolding ins(3) by (cases t) simp
    ultimately show ?thesis using ins(2) unfolding ins(3) by (auto simp: store_events_def)
  next
    case same
    have s: "stored t (event_key ev) = Some (w_event old)" using same(1) by (simp add: stored_find)
    then have "w_event old \<in> store_events t" "event_key (w_event old) = event_key ev" using stored_event by blast+
    then have "w_event old = ev" using assms(3) same(2) by (auto simp: faithful_def)
    then have "stored t' = write_event (stored t) ev" using s same(4) by (auto simp: write_event_def fun_eq_iff)
    then show ?thesis using same s assms(2) \<open>w_event old = ev\<close> by auto
  next
    case upd
    then have n: "event_key ev \<in> row_key ` set (t_rows t)" using find_row_None[of ev t] by auto
    have d: "distinct (map row_key (t_rows t))" using assms(2) by (simp add: store_ok_def)
    have rows: "t_rows t' = map (\<lambda>w. if same_source ev w then w\<lparr>w_event := ev\<rparr> else w) (t_rows t)" "t_next t' = t_next t"
      using upd(4) by simp_all
    have keys: "map row_key (t_rows t') = map row_key (t_rows t)" "map w_id (t_rows t') = map w_id (t_rows t)"
      unfolding rows by (rule updated_row_keys, rule updated_row_ids)
    have "stored t' = write_event (stored t) ev"
      unfolding stored_def write_event_def rows using map_of_update_rows[OF d n] .
    moreover have "store_ok t'"
    proof -
      have ids: "w_id ` set (t_rows t') = w_id ` set (t_rows t)" using arg_cong[OF keys(2), of set] by simp
      have "\<forall>i \<in> w_id ` set (t_rows t). i < t_next t" using assms(2) by (simp add: store_ok_def)
      then have "\<forall>i \<in> w_id ` set (t_rows t'). i < t_next t'" unfolding ids rows(2) .
      then show ?thesis using assms(2) unfolding store_ok_def keys by simp
    qed
    moreover have s: "stored t (event_key ev) = Some (w_event old)" using upd(1) by (simp add: stored_find)
    moreover have "t' \<noteq> t"
    proof
      assume "t' = t"
      then have "stored t (event_key ev) = write_event (stored t) ev (event_key ev)" using calculation(1) by simp
      then have "stored t (event_key ev) = Some ev" by (simp add: write_event_def)
      then show False using s upd(2) by simp
    qed
    moreover have "store_events t' \<subseteq> insert ev (store_events t)" unfolding store_events_def rows by auto
    moreover have "w_event old \<noteq> ev" using upd(2) by auto
    moreover have "map w_id (t_rows t) = take (length (t_rows t)) (map w_id (t_rows t'))"
      "map row_key (t_rows t) = take (length (t_rows t)) (map row_key (t_rows t'))"
      unfolding keys by simp_all
    ultimately show ?thesis using upd(3) by simp
  qed
  then show "stored t' = write_event (stored t) ev" "store_ok t'"
    "map w_id (t_rows t) = take (length (t_rows t)) (map w_id (t_rows t'))"
    "map row_key (t_rows t) = take (length (t_rows t)) (map row_key (t_rows t'))"
    "store_events t' \<subseteq> insert ev (store_events t)"
    "u = (case stored t (event_key ev) of None \<Rightarrow> Inserted | Some old \<Rightarrow> if old = ev then Unchanged else Updated)"
    "u = Unchanged \<longleftrightarrow> t' = t" by blast+
qed

lemma kept_Cons: "kept_events nrm (r # rs) = (case nrm r of None \<Rightarrow> kept_events nrm rs | Some ev \<Rightarrow> ev # kept_events nrm rs)"
  by (simp add: kept_events_def List.map_filter_simps split: option.splits)

lemma kept_Nil [simp]: "kept_events nrm [] = []"
  by (simp add: kept_events_def List.map_filter_simps)

lemma faithful_mono: "faithful S \<Longrightarrow> T \<subseteq> S \<Longrightarrow> faithful T"
  unfolding faithful_def by blast

definition n_total :: "counts \<Rightarrow> nat" where
  "n_total c = n_inserted c + n_updated c + n_unchanged c + n_skipped c"

lemma ingest_loop_refines:
  assumes "ingest_loop nrm rs c t = (c', t')" "store_ok t" "faithful (set (kept_events nrm rs) \<union> store_events t)"
  shows "stored t' = foldl write_event (stored t) (kept_events nrm rs) \<and> store_ok t'
    \<and> (\<forall>n < length (t_rows t). w_id (t_rows t' ! n) = w_id (t_rows t ! n) \<and> row_key (t_rows t' ! n) = row_key (t_rows t ! n))
    \<and> length (t_rows t) \<le> length (t_rows t')
    \<and> n_total c' = n_total c + length rs \<and> n_skipped c' + length (kept_events nrm rs) = n_skipped c + length rs"
  using assms
proof (induction rs arbitrary: c t)
  case (Cons r rs)
  show ?case
  proof (cases "nrm r")
    case None
    then show ?thesis using Cons.IH[of "c\<lparr>n_skipped := n_skipped c + 1\<rparr>" t] Cons.prems
      by (auto simp: kept_Cons n_total_def)
  next
    case (Some ev)
    obtain u t1 where u: "upsert_event ev t = (u, t1)" by (cases "upsert_event ev t")
    have f: "faithful (insert ev (store_events t))" "faithful (insert ev (set (kept_events nrm rs) \<union> store_events t))"
      using Cons.prems(3) by (auto simp: kept_Cons Some elim: faithful_mono)
    note one = upsert_refines[OF u Cons.prems(2) f(1)]
    have l: "ingest_loop nrm rs (count_outcome u c) t1 = (c', t')" using Cons.prems(1) Some u by simp
    have f1: "faithful (set (kept_events nrm rs) \<union> store_events t1)" using f(2) one(5) by (auto elim: faithful_mono)
    note ih = Cons.IH[OF l one(2) f1]
    have len: "length (t_rows t) \<le> length (t_rows t1)" using arg_cong[OF one(3), of length] by simp
    have keep: "w_id (t_rows t1 ! n) = w_id (t_rows t ! n) \<and> row_key (t_rows t1 ! n) = row_key (t_rows t ! n)"
      if "n < length (t_rows t)" for n
    proof -
      have "map w_id (t_rows t) ! n = map w_id (t_rows t1) ! n" "map row_key (t_rows t) ! n = map row_key (t_rows t1) ! n"
        unfolding one(3) one(4) using that by simp_all
      then show ?thesis using that len by simp
    qed
    have c: "n_total (count_outcome u c) = Suc (n_total c)" "n_skipped (count_outcome u c) = n_skipped c"
      by (cases u; simp add: count_outcome_def n_total_def)+
    show ?thesis using ih keep len c one(1) by (auto simp: kept_Cons Some)
  qed
qed simp

lemma upsert_same: "stored t (event_key ev) = Some ev \<Longrightarrow> upsert_event ev t = (Unchanged, t)"
  by (auto simp: stored_find upsert_event_def)

lemma ingest_loop_same:
  "\<forall>ev \<in> set (kept_events nrm rs). stored t (event_key ev) = Some ev \<Longrightarrow>
     ingest_loop nrm rs c t = (c\<lparr>n_unchanged := n_unchanged c + length (kept_events nrm rs),
        n_skipped := n_skipped c + (length rs - length (kept_events nrm rs))\<rparr>, t)"
proof (induction rs arbitrary: c)
  case (Cons r rs)
  have le: "length (kept_events nrm rs) \<le> length rs" by (induction rs) (auto simp: kept_Cons split: option.splits)
  show ?case using Cons le by (cases "nrm r") (auto simp: kept_Cons upsert_same count_outcome_def Suc_diff_le)
qed simp

lemma foldl_write:
  "distinct (map event_key evs) \<Longrightarrow> ev \<in> set evs \<Longrightarrow> foldl write_event m evs (event_key ev) = Some ev"
proof (induction evs arbitrary: m)
  case (Cons e es)
  have other: "k \<notin> event_key ` set es \<Longrightarrow> foldl write_event m es k = m k" for m k
    by (induction es arbitrary: m) (auto simp: write_event_def)
  show ?case
  proof (cases "ev = e")
    case True
    have "write_event m e (event_key e) = Some e" by (simp add: write_event_def)
    then show ?thesis using True Cons.prems(1) other[of "event_key e" "write_event m e"] by simp
  next
    case False
    then show ?thesis using Cons by simp
  qed
qed simp

section \<open>Properties of the collection\<close>

text \<open>C25: an ingest run refines the plain map of events: starting from a store with one row per source
  and record id, in which no two different events of one id share a hash, the run leaves the map in
  which the last accepted record of each id was written over the former one; existing rows keep
  their place, id and source, the uniqueness is preserved, every record is counted exactly once and
  exactly the rejected ones are counted as skipped.\<close>

theorem ingest_refines:
  assumes "ingest_records (normalize_record to_str sha1 digest a) rs t = (c, t')" "store_ok t"
    "faithful (set (kept_events (normalize_record to_str sha1 digest a) rs) \<union> store_events t)"
  shows "stored t' = foldl write_event (stored t) (kept_events (normalize_record to_str sha1 digest a) rs)
    \<and> store_ok t'
    \<and> (\<forall>n < length (t_rows t). w_id (t_rows t' ! n) = w_id (t_rows t ! n) \<and> row_key (t_rows t' ! n) = row_key (t_rows t ! n))
    \<and> n_total c = length rs
    \<and> n_skipped c = length (filter (\<lambda>r. normalize_record to_str sha1 digest a r = None) rs)"
proof -
  let ?nrm = "normalize_record to_str sha1 digest a"
  have "length (kept_events ?nrm rs) + length (filter (\<lambda>r. ?nrm r = None) rs) = length rs"
    by (induction rs) (auto simp: kept_Cons split: option.splits)
  then show ?thesis
    using ingest_loop_refines[OF assms(1)[unfolded ingest_records_def] assms(2,3)]
    by (simp add: n_total_def empty_counts_def)
qed

definition sample_records :: "raw list" where
  "sample_records = [[(''title'', JStr (bytes [234, 176, 128, 236, 154, 148, 236, 160, 156])), (''contentid'', JStr ''7'')], [(''contentid'', JStr ''8'')]]"

definition sample_norm :: "raw \<Rightarrow> event option" where
  "sample_norm = normalize_record (\<lambda>_. '''') (\<lambda>s. s) (\<lambda>_. ''h'') tour_api"

definition sample_event :: event where
  "sample_event = \<lparr>e_system = ''korea_tourism_org:tour_api_festival'', e_id = ''7'', e_url = None, e_hash = ''h'',
     e_raw = [(''title'', JStr (bytes [234, 176, 128, 236, 154, 148, 236, 160, 156])), (''contentid'', JStr ''7'')],
     e_title = bytes [234, 176, 128, 236, 154, 148, 236, 160, 156], e_host = None, e_region = None, e_venue = None, e_start = None, e_end = None\<rparr>"

lemma contest_title: "bytes [234, 176, 128, 236, 154, 148, 236, 160, 156] = [CHR 0xEA, CHR 0xB0, CHR 0x80, CHR 0xEC, CHR 0x9A, CHR 0x94, CHR 0xEC, CHR 0xA0, CHR 0x9C]"
  by code_simp

lemma no_space_ends: "list_all (\<lambda>w. hd w \<noteq> CHR 0xEA \<and> last w \<noteq> CHR 0x9C) py_ws"
  by code_simp

lemma no_space_7: "list_all (\<lambda>w. hd w \<noteq> CHR ''7'' \<and> last w \<noteq> CHR ''7'') py_ws"
  by code_simp

lemma bytes_Nil [simp]: "bytes ns = [] \<longleftrightarrow> ns = []"
  by (simp add: bytes_def)

lemma sample_strips: "py_strip (bytes [234, 176, 128, 236, 154, 148, 236, 160, 156]) = bytes [234, 176, 128, 236, 154, 148, 236, 160, 156]" "py_strip ''7'' = ''7''"
proof -
  show "py_strip (bytes [234, 176, 128, 236, 154, 148, 236, 160, 156]) = bytes [234, 176, 128, 236, 154, 148, 236, 160, 156]"
    unfolding contest_title by (rule py_strip_ends) (use no_space_ends in simp_all)
  show "py_strip ''7'' = ''7''" by (rule py_strip_ends) (use no_space_7 in simp_all)
qed

lemma substr_in_refl [simp]: "substr_in s s"
  unfolding substr_in_iff by (rule exI[of _ "[]"], rule exI[of _ "[]"]) simp

lemma sample_titles: "is_gayoje (Some (bytes [234, 176, 128, 236, 154, 148, 236, 160, 156]))" "or_none (Some (bytes [234, 176, 128, 236, 154, 148, 236, 160, 156])) = Some (bytes [234, 176, 128, 236, 154, 148, 236, 160, 156])"
proof -
  have "despace (bytes [234, 176, 128, 236, 154, 148, 236, 160, 156]) = bytes [234, 176, 128, 236, 154, 148, 236, 160, 156]" unfolding contest_title by (simp add: despace_def)
  then show "is_gayoje (Some (bytes [234, 176, 128, 236, 154, 148, 236, 160, 156]))" by (simp add: is_gayoje_def or_none_def Let_def strong_gayoje_def)
qed (simp add: or_none_def)

lemma sample_kept: "kept_events sample_norm sample_records = [sample_event]"
  by (simp add: kept_Cons sample_records_def sample_norm_def normalize_record_def adapter_field_def tour_api_def str_json_def
      sample_strips sample_titles sample_event_def record_id_def parse_date_def)

definition empty_store :: store where
  "empty_store = \<lparr>t_rows = [], t_next = 1\<rparr>"

lemma empty_store_ok [simp]: "store_ok empty_store" "store_events empty_store = {}" "stored empty_store = Map.empty"
  by (simp_all add: store_ok_def store_events_def empty_store_def stored_def)

lemma ingest_refines_witness:
  "\<exists>c t'. ingest_records sample_norm sample_records empty_store = (c, t')
     \<and> stored t' (''korea_tourism_org:tour_api_festival'', ''7'') = Some sample_event \<and> n_total c = 2"
proof -
  obtain c t' where r: "ingest_records sample_norm sample_records empty_store = (c, t')" by fastforce
  have "stored t' = foldl write_event (stored empty_store) (kept_events sample_norm sample_records) \<and> n_total c = length sample_records"
    using ingest_refines[OF r[unfolded sample_norm_def] empty_store_ok(1)] sample_kept
    by (simp add: faithful_def sample_norm_def)
  then show ?thesis using r sample_kept
    by (simp add: write_event_def event_key_def sample_event_def sample_records_def)
qed



text \<open>Two records of one id in a batch with different contents overwrite each other in every run.\<close>

lemma upsert_alternates:
  assumes "store_ok t" "faithful (insert a (insert b (store_events t)))" "event_key a = event_key b" "a \<noteq> b"
    "stored t (event_key a) = Some b"
  shows "fst (upsert_event a t) = Updated \<and> fst (upsert_event b (snd (upsert_event a t))) = Updated"
proof -
  obtain u t1 where u: "upsert_event a t = (u, t1)" by fastforce
  obtain v t2 where v: "upsert_event b t1 = (v, t2)" by fastforce
  have fa: "faithful (insert a (store_events t))" using assms(2) by (rule faithful_mono) auto
  note one = upsert_refines[OF u assms(1) fa]
  have fb: "faithful (insert b (store_events t1))" using assms(2) by (rule faithful_mono) (use one(5) in auto)
  note two = upsert_refines[OF v one(2) fb]
  have "stored t1 (event_key b) = Some a" using one(1) assms(3) by (simp add: write_event_def)
  then show ?thesis using one(6) two(6) assms(4,5) u v by simp
qed

text \<open>what enters the store: only records whose title, after trimming, is that of a song contest
  - it contains one of the fixed words, or a singing word together with a contest word - and
  with the adapter's source, the hash and the untouched record as provenance; the dates
  are real calendar dates or absent.\<close>

theorem accepted_records:
  assumes "normalize_record to_str sha1 digest a raw = Some ev"
  shows "e_system ev = a_system a \<and> e_hash ev = digest raw \<and> e_raw ev = raw \<and> e_title ev \<noteq> ''''
    \<and> adapter_field to_str a raw ''title'' = Some (e_title ev)
    \<and> ((\<exists>k \<in> set strong_gayoje. substr_in k (despace (e_title ev)))
       \<or> (\<exists>s \<in> set singing_words. substr_in s (low (despace (e_title ev))))
          \<and> (\<exists>c \<in> set contest_words. substr_in c (despace (e_title ev))))
    \<and> (\<forall>d. e_start ev = Some d \<or> e_end ev = Some d \<longrightarrow> valid_date d)"
proof -
  have "strptime b s = Some d \<Longrightarrow> valid_date d" for b s d
    by (auto simp: strptime_def split: list.splits prod.splits if_splits)
  then have "parse_date x = Some d \<Longrightarrow> valid_date d" for x d
    by (auto simp: parse_date_def Let_def split: option.splits)
  moreover obtain title where t: "or_none (adapter_field to_str a raw ''title'') = Some title" "is_gayoje (Some title)"
    using assms by (auto simp: normalize_record_def split: option.splits if_splits)
  then have "title \<noteq> ''''" "adapter_field to_str a raw ''title'' = Some title"
    by (auto simp: or_none_def split: option.splits if_splits)
  moreover have "ev = \<lparr>e_system = a_system a, e_id = record_id to_str sha1 a raw title,
                     e_url = adapter_field to_str a raw ''url'', e_hash = digest raw, e_raw = raw, e_title = title,
                     e_host = adapter_field to_str a raw ''host'', e_region = adapter_field to_str a raw ''address'',
                     e_venue = adapter_field to_str a raw ''venue'',
                     e_start = parse_date (adapter_field to_str a raw ''start''),
                     e_end = parse_date (adapter_field to_str a raw ''end'')\<rparr>"
    using assms t by (simp add: normalize_record_def)
  ultimately show ?thesis using t(2)
    by (auto simp: is_gayoje_def or_none_def Let_def list_ex_iff)
qed

lemma accepted_records_witness: "e_title sample_event \<noteq> ''''"
proof -
  have "normalize_record (\<lambda>_. '''') (\<lambda>s. s) (\<lambda>_. ''h'') tour_api (hd sample_records) = Some sample_event"
    unfolding sample_norm_def[symmetric] using sample_kept
    by (simp add: sample_records_def sample_norm_def normalize_record_def adapter_field_def tour_api_def str_json_def
      sample_strips sample_titles sample_event_def record_id_def parse_date_def)
  from accepted_records[OF this] show ?thesis by blast
qed

section \<open>Properties of the retries\<close>

lemma fetch_loop_bounds:
  "fetch_loop use http jitter base n i prev = (r, k, waits) \<Longrightarrow> 0 < n \<Longrightarrow>
     i < k \<and> k \<le> i + n \<and> length waits = k - i - 1"
proof (induction n arbitrary: i prev r k waits)
  case (Suc n)
  show ?case
  proof (cases "judge_answer use (http i)")
    case (Inl e)
    show ?thesis
    proof (cases "n = 0")
      case False
      obtain r' k' ws where l: "fetch_loop use http jitter base n (Suc i) (Some e) = (r', k', ws)" by (metis prod_cases3)
      then show ?thesis using Suc.IH[OF l] Suc.prems Inl False by auto
    qed (use Suc.prems Inl in auto)
  qed (use Suc.prems in auto)
qed simp

lemma fetch_loop_last:
  "fetch_loop use http jitter base n i prev = (r, k, waits) \<Longrightarrow> 0 < n \<Longrightarrow>
     (\<forall>j. i \<le> j \<and> j < k - 1 \<longrightarrow> (\<exists>e. judge_answer use (http j) = Inl e))
     \<and> (case judge_answer use (http (k - 1)) of Inr x \<Rightarrow> r = x | Inl e \<Rightarrow> r = Inl e \<and> k = i + n)"
proof (induction n arbitrary: i prev r k waits)
  case (Suc n)
  show ?case
  proof (cases "judge_answer use (http i)")
    case (Inl e)
    show ?thesis
    proof (cases "n = 0")
      case True
      then show ?thesis using Suc.prems Inl by auto
    next
      case False
      obtain r' k' ws where l: "fetch_loop use http jitter base n (Suc i) (Some e) = (r', k', ws)" by (metis prod_cases3)
      then have r: "r' = r" "k' = k" using Suc.prems Inl False by auto
      have ih: "(\<forall>j. Suc i \<le> j \<and> j < k - 1 \<longrightarrow> (\<exists>e. judge_answer use (http j) = Inl e))
          \<and> (case judge_answer use (http (k - 1)) of Inr x \<Rightarrow> r = x | Inl e \<Rightarrow> r = Inl e \<and> k = Suc i + n)"
        using Suc.IH[OF l, unfolded r] False by simp
      have "\<exists>e. judge_answer use (http j) = Inl e" if "i \<le> j" "j < k - 1" for j
        using ih Inl that by (cases "j = i") auto
      then show ?thesis using ih by (cases "judge_answer use (http (k - 1))") auto
    qed
  qed (use Suc.prems in auto)
qed simp

text \<open>fetching records from a public API makes at most max_retries + 1 requests and one wait
  between two of them; it goes on only after a time-out, a transport error, a 429 or a 5xx, the
  last answer decides, a 2xx answer that is no JSON gives no records, another status
  is an error at once, and after the last attempt the last transient failure is raised.\<close>

theorem fetch_records_policy:
  assumes "http_fetch_records loads http jitter base m = (r, k, waits)"
  shows "1 \<le> k \<and> k \<le> m + 1 \<and> length waits = k - 1
    \<and> (\<forall>j < k - 1. case http j of NetFail _ \<Rightarrow> True | HttpRaise _ \<Rightarrow> False | HttpAnswer code _ \<Rightarrow> transient code)
    \<and> (case http (k - 1) of
         NetFail e \<Rightarrow> r = Inl (NetError e) \<and> k = m + 1
       | HttpRaise e \<Rightarrow> r = Inl (Raised e)
       | HttpAnswer code text \<Rightarrow>
           (transient code \<longrightarrow> r = Inl (HttpStatus code) \<and> k = m + 1)
           \<and> (\<not> transient code \<and> (code < 200 \<or> 300 \<le> code) \<longrightarrow> r = Inl (HttpStatus code))
           \<and> (200 \<le> code \<and> code < 300 \<longrightarrow> r = use_records loads text)
           \<and> (200 \<le> code \<and> code < 300 \<and> loads text = None \<longrightarrow> r = Inr []))"
proof -
  note l = assms[unfolded http_fetch_records_def]
  have b: "0 < k \<and> k \<le> m + 1 \<and> length waits = k - 1" using fetch_loop_bounds[OF l] by simp
  have c: "(\<forall>j < k - 1. \<exists>e. judge_answer (use_records loads) (http j) = Inl e)"
    "case judge_answer (use_records loads) (http (k - 1)) of Inr x \<Rightarrow> r = x | Inl e \<Rightarrow> r = Inl e \<and> k = m + 1"
    using fetch_loop_last[OF l] by (cases "judge_answer (use_records loads) (http (k - 1))"; auto)+
  have "\<forall>j < k - 1. case http j of NetFail _ \<Rightarrow> True | HttpRaise _ \<Rightarrow> False | HttpAnswer code _ \<Rightarrow> transient code"
    using c(1) by (fastforce simp: judge_answer_def split: http_out.splits if_splits)
  moreover have "case http (k - 1) of
         NetFail e \<Rightarrow> r = Inl (NetError e) \<and> k = m + 1
       | HttpRaise e \<Rightarrow> r = Inl (Raised e)
       | HttpAnswer code text \<Rightarrow>
           (transient code \<longrightarrow> r = Inl (HttpStatus code) \<and> k = m + 1)
           \<and> (\<not> transient code \<and> (code < 200 \<or> 300 \<le> code) \<longrightarrow> r = Inl (HttpStatus code))
           \<and> (200 \<le> code \<and> code < 300 \<longrightarrow> r = use_records loads text)
           \<and> (200 \<le> code \<and> code < 300 \<and> loads text = None \<longrightarrow> r = Inr [])"
    using c(2) by (cases "http (k - 1)") (auto simp: judge_answer_def use_records_def transient_def split: if_splits)
  ultimately show ?thesis using b by (intro conjI) auto
qed

lemma fetch_records_policy_witness:
  "\<exists>r k waits. http_fetch_records (\<lambda>_. None) (\<lambda>n. if n = 0 then HttpAnswer 503 '''' else HttpAnswer 200 ''<xml>'') (\<lambda>_. 0) 1 3 = (r, k, waits)
     \<and> k \<le> 3 + 1"
proof -
  obtain r k waits where l: "http_fetch_records (\<lambda>_. None) (\<lambda>n. if n = 0 then HttpAnswer 503 '''' else HttpAnswer 200 ''<xml>'')
      (\<lambda>_. 0) 1 3 = (r, k, waits)" by (metis prod_cases3)
  from fetch_records_policy[OF this] l show ?thesis by blast
qed

end
