(* ===== verification/Taxonomy.thy ===== *)
theory Taxonomy
  imports Ingestion
begin

text \<open>
  src/app/api/v1/ingestion/taxonomy.py: the wide classification of titles, rounds and years,
  normalised names, provinces and the key under which the editions of a contest are one.
  \<open>udigit\<close> is the length of a decimal digit outside ASCII at the front of a text, \<open>udec\<close> int() of
  digits.
\<close>

section \<open>Provinces\<close>

definition sido_prefix :: "(string \<times> string) list" where
  "sido_prefix =
    [(bytes [236, 132, 156, 236, 154, 184], bytes [236, 132, 156, 236, 154, 184]), (bytes [235, 182, 128, 236, 130, 176], bytes [235, 182, 128, 236, 130, 176]), (bytes [235, 140, 128, 234, 181, 172], bytes [235, 140, 128, 234, 181, 172]), (bytes [236, 157, 184, 236, 178, 156], bytes [236, 157, 184, 236, 178, 156]),
     (bytes [234, 180, 145, 236, 163, 188], bytes [234, 180, 145, 236, 163, 188]), (bytes [235, 140, 128, 236, 160, 132], bytes [235, 140, 128, 236, 160, 132]), (bytes [236, 154, 184, 236, 130, 176], bytes [236, 154, 184, 236, 130, 176]), (bytes [236, 132, 184, 236, 162, 133], bytes [236, 132, 184, 236, 162, 133]),
     (bytes [234, 178, 189, 234, 184, 176], bytes [234, 178, 189, 234, 184, 176]), (bytes [234, 176, 149, 236, 155, 144], bytes [234, 176, 149, 236, 155, 144]),
     (bytes [236, 182, 169, 236, 178, 173, 235, 182, 129, 235, 143, 132], bytes [236, 182, 169, 235, 182, 129]), (bytes [236, 182, 169, 235, 182, 129], bytes [236, 182, 169, 235, 182, 129]),
     (bytes [236, 182, 169, 236, 178, 173, 235, 130, 168, 235, 143, 132], bytes [236, 182, 169, 235, 130, 168]), (bytes [236, 182, 169, 235, 130, 168], bytes [236, 182, 169, 235, 130, 168]),
     (bytes [236, 160, 132, 235, 157, 188, 235, 182, 129, 235, 143, 132], bytes [236, 160, 132, 235, 182, 129]), (bytes [236, 160, 132, 235, 182, 129], bytes [236, 160, 132, 235, 182, 129]),
     (bytes [236, 160, 132, 235, 157, 188, 235, 130, 168, 235, 143, 132], bytes [236, 160, 132, 235, 130, 168]), (bytes [236, 160, 132, 235, 130, 168], bytes [236, 160, 132, 235, 130, 168]),
     (bytes [234, 178, 189, 236, 131, 129, 235, 182, 129, 235, 143, 132], bytes [234, 178, 189, 235, 182, 129]), (bytes [234, 178, 189, 235, 182, 129], bytes [234, 178, 189, 235, 182, 129]),
     (bytes [234, 178, 189, 236, 131, 129, 235, 130, 168, 235, 143, 132], bytes [234, 178, 189, 235, 130, 168]), (bytes [234, 178, 189, 235, 130, 168], bytes [234, 178, 189, 235, 130, 168]),
     (bytes [236, 160, 156, 236, 163, 188], bytes [236, 160, 156, 236, 163, 188])]"

definition extract_sido :: "string option \<Rightarrow> string option" where
  "extract_sido address =
     (case or_none address of
        None \<Rightarrow> None
      | Some a \<Rightarrow> map_option snd (find (\<lambda>(p, s). starts_with p (py_strip a)) sido_prefix))"

section \<open>Classification\<close>

definition strong_buckets :: "(string \<times> string list) list" where
  "strong_buckets =
    [(bytes [234, 176, 128, 236, 154, 148, 236, 160, 156], [bytes [234, 176, 128, 236, 154, 148, 236, 160, 156], bytes [234, 176, 128, 236, 154, 148, 235, 140, 128, 237, 154, 140], bytes [234, 176, 128, 236, 154, 148, 237, 129, 176, 236, 158, 148, 236, 185, 152], bytes [234, 176, 128, 236, 154, 148, 237, 149, 156, 235, 167, 136, 235, 139, 185]]),
     (bytes [235, 133, 184, 235, 158, 152, 236, 158, 144, 235, 158, 145], [bytes [235, 133, 184, 235, 158, 152, 236, 158, 144, 235, 158, 145]]),
     (bytes [235, 133, 184, 235, 158, 152, 235, 140, 128, 237, 154, 140], [bytes [235, 133, 184, 235, 158, 152, 235, 140, 128, 237, 154, 140], bytes [235, 133, 184, 235, 158, 152, 234, 178, 189, 236, 151, 176], bytes [235, 133, 184, 235, 158, 152, 236, 189, 152, 237, 133, 140, 236, 138, 164, 237, 138, 184]]),
     (bytes [235, 143, 153, 236, 154, 148, 236, 160, 156], [bytes [235, 143, 153, 236, 154, 148, 236, 160, 156], bytes [235, 143, 153, 236, 154, 148, 235, 140, 128, 237, 154, 140], bytes [236, 176, 189, 236, 158, 145, 235, 143, 153, 236, 154, 148]]),
     (bytes [234, 176, 128, 236, 154, 148, 236, 189, 152, 237, 133, 140, 236, 138, 164, 237, 138, 184], [bytes [234, 176, 128, 236, 154, 148, 236, 189, 152, 237, 133, 140, 236, 138, 164, 237, 138, 184], bytes [234, 176, 128, 236, 154, 148, 236, 189, 152, 236, 141, 168, 237, 138, 184], bytes [234, 176, 128, 236, 154, 148, 236, 132, 160, 235, 176, 156]]),
     (bytes [236, 134, 161, 237, 142, 152, 236, 138, 164, 237, 139, 176, 235, 178, 140], [bytes [236, 134, 161, 237, 142, 152, 236, 138, 164, 237, 139, 176, 235, 178, 140], bytes [236, 134, 161, 237, 142, 152, 236, 138, 164, 237, 139, 176, 235, 176, 156], bytes [234, 176, 128, 236, 154, 148, 237, 142, 152, 236, 138, 164, 237, 139, 176, 235, 178, 140], bytes [234, 176, 128, 236, 154, 148, 237, 142, 152, 236, 138, 164, 237, 139, 176, 235, 176, 156], bytes [236, 134, 161, 237, 142, 152, 236, 138, 164, 237, 131, 128]]),
     (bytes [235, 179, 180, 236, 187, 172, 234, 178, 189, 236, 151, 176], [bytes [235, 179, 180, 236, 187, 172, 234, 178, 189, 236, 151, 176], bytes [235, 179, 180, 236, 187, 172, 235, 140, 128, 237, 154, 140], bytes [235, 179, 180, 236, 187, 172, 236, 189, 152, 237, 133, 140, 236, 138, 164, 237, 138, 184], bytes [235, 179, 180, 236, 187, 172, 236, 152, 164, 235, 148, 148, 236, 133, 152]]),
     (bytes [237, 138, 184, 235, 161, 156, 237, 138, 184, 234, 178, 189, 236, 151, 176], [bytes [237, 138, 184, 235, 161, 156, 237, 138, 184, 234, 176, 128, 236, 154, 148, 236, 160, 156], bytes [237, 138, 184, 235, 161, 175, 234, 176, 128, 236, 154, 148, 236, 160, 156], bytes [237, 138, 184, 235, 161, 156, 237, 138, 184, 235, 140, 128, 237, 154, 140], bytes [237, 138, 184, 235, 161, 175, 235, 140, 128, 237, 154, 140],
        bytes [237, 138, 184, 235, 161, 156, 237, 138, 184, 234, 178, 189, 236, 151, 176], bytes [237, 138, 184, 235, 161, 175, 234, 178, 189, 236, 151, 176], bytes [237, 138, 184, 235, 161, 156, 237, 138, 184, 236, 152, 164, 235, 148, 148, 236, 133, 152], bytes [237, 138, 184, 235, 161, 175, 236, 152, 164, 235, 148, 148, 236, 133, 152],
        bytes [237, 138, 184, 235, 161, 156, 237, 138, 184, 236, 189, 152, 237, 133, 140, 236, 138, 164, 237, 138, 184], bytes [237, 138, 184, 235, 161, 175, 236, 189, 152, 237, 133, 140, 236, 138, 164, 237, 138, 184]]),
     (bytes [237, 149, 169, 236, 176, 189, 194, 183, 236, 164, 145, 236, 176, 189, 235, 140, 128, 237, 154, 140], [bytes [237, 149, 169, 236, 176, 189, 235, 140, 128, 237, 154, 140], bytes [237, 149, 169, 236, 176, 189, 234, 178, 189, 236, 151, 176], bytes [237, 149, 169, 236, 176, 189, 236, 160, 156], bytes [237, 149, 169, 236, 176, 189, 236, 182, 149, 236, 160, 156], bytes [236, 164, 145, 236, 176, 189, 235, 140, 128, 237, 154, 140], bytes [236, 164, 145, 236, 176, 189, 234, 178, 189, 236, 151, 176]]),
     (bytes [234, 176, 128, 236, 176, 189, 236, 152, 164, 235, 148, 148, 236, 133, 152], [bytes [234, 176, 128, 236, 176, 189, 236, 152, 164, 235, 148, 148, 236, 133, 152], bytes [234, 176, 128, 236, 176, 189, 234, 178, 189, 236, 151, 176], bytes [234, 176, 128, 236, 176, 189, 235, 140, 128, 237, 154, 140]])]"

definition music_words :: "string list" where
  "music_words = [bytes [234, 176, 128, 236, 154, 148], bytes [235, 133, 184, 235, 158, 152], bytes [235, 179, 180, 236, 187, 172], bytes [237, 138, 184, 235, 161, 156, 237, 138, 184], bytes [237, 138, 184, 235, 161, 175], bytes [234, 176, 128, 236, 176, 189], bytes [236, 132, 177, 236, 149, 133], bytes [237, 149, 169, 236, 176, 189],
     bytes [236, 164, 145, 236, 176, 189], bytes [235, 143, 153, 236, 154, 148], bytes [107, 237, 140, 157], bytes [236, 188, 128, 236, 157, 180, 237, 140, 157], bytes [237, 140, 144, 236, 134, 140, 235, 166, 172], bytes [234, 176, 128, 234, 179, 161], bytes [236, 139, 177, 236, 150, 180], bytes [236, 185, 160, 234, 179, 161, 234, 176, 128, 234, 179, 161]]"

definition wide_contest_words :: "string list" where
  "wide_contest_words = [bytes [234, 178, 189, 236, 151, 176], bytes [236, 152, 164, 235, 148, 148, 236, 133, 152], bytes [236, 189, 152, 237, 133, 140, 236, 138, 164, 237, 138, 184], bytes [236, 189, 169, 236, 191, 160, 235, 165, 180], bytes [236, 189, 169, 236, 191, 168], bytes [236, 132, 160, 235, 176, 156, 235, 140, 128, 237, 154, 140], bytes [236, 177, 148, 237, 148, 188, 236, 150, 184],
     bytes [234, 183, 184, 235, 158, 145, 237, 148, 132, 235, 166, 172], bytes [237, 142, 152, 236, 138, 164, 237, 139, 176, 235, 178, 140], bytes [236, 151, 180, 236, 176, 189], bytes [235, 140, 128, 237, 154, 140], bytes [236, 158, 144, 235, 158, 145], bytes [236, 160, 156, 236, 160, 132], bytes [234, 178, 189, 236, 176, 189]]"

definition classify :: "string option \<Rightarrow> string option" where
  "classify title =
     (case or_none title of
        None \<Rightarrow> None
      | Some x \<Rightarrow>
          let t = despace x
          in (case find (\<lambda>(l, ks). list_ex (\<lambda>k. substr_in k t) ks) strong_buckets of
                Some (l, ks) \<Rightarrow> Some l
              | None \<Rightarrow>
                  (case (find (\<lambda>m. substr_in m t) music_words, find (\<lambda>c. substr_in c t) wide_contest_words) of
                     (Some m, Some c) \<Rightarrow> Some (bytes [234, 176, 128, 236, 176, 189, 43, 234, 178, 189, 236, 151, 176, 40, 234, 180, 145, 236, 157, 152, 58] @ m @ '')'')
                   | _ \<Rightarrow> None)))"

section \<open>Rounds, years, names\<close>

definition round_word :: string where "round_word = bytes [237, 154, 140]"
definition ordinal_word :: string where "ordinal_word = bytes [236, 160, 156]"

text \<open>The pattern after its optional first character: white space, up to three digits, white space
  and the round character. Fewer digits never help, for a digit is neither of the latter.\<close>

definition round_tail :: "(string \<Rightarrow> nat) \<Rightarrow> string \<Rightarrow> (string \<times> nat) option" where
  "round_tail udigit s =
     (let a = py_lstrip s; n = digits_len udigit 3 a; b = py_lstrip (drop n a)
      in if n \<noteq> 0 \<and> starts_with round_word b then Some (take n a, length s - length b + length round_word) else None)"

definition round_match :: "(string \<Rightarrow> nat) \<Rightarrow> string \<Rightarrow> (string \<times> nat) option" where
  "round_match udigit s =
     (case (if starts_with ordinal_word s then round_tail udigit (drop (length ordinal_word) s) else None) of
        Some (d, k) \<Rightarrow> Some (d, length ordinal_word + k)
      | None \<Rightarrow> round_tail udigit s)"

definition year_match :: "(string \<Rightarrow> nat) \<Rightarrow> string \<Rightarrow> nat option" where
  "year_match udigit s =
     (let r = drop 2 s; n = digits_len udigit 1 r
      in if (starts_with ''19'' s \<or> starts_with ''20'' s) \<and> n \<noteq> 0 \<and> digits_len udigit 1 (drop n r) \<noteq> 0
         then Some (2 + n + digits_len udigit 1 (drop n r)) else None)"

definition openers :: "string list" where
  "openers = [''<'', ''('', ''['', bytes [227, 128, 140], bytes [227, 128, 142], bytes [227, 128, 144]]"

definition closers :: "string list" where
  "closers = [''>'', '')'', '']'', bytes [227, 128, 141], bytes [227, 128, 143], bytes [227, 128, 145]]"

fun close_at :: "string \<Rightarrow> nat option" where
  "close_at [] = None"
| "close_at (c # cs) =
     (case find (\<lambda>w. starts_with w (c # cs)) closers of
        Some w \<Rightarrow> Some (length w)
      | None \<Rightarrow> map_option Suc (close_at cs))"

definition bracket_match :: "string \<Rightarrow> nat option" where
  "bracket_match s =
     (case find (\<lambda>w. starts_with w s) openers of
        None \<Rightarrow> None
      | Some w \<Rightarrow> map_option (\<lambda>k. length w + k) (close_at (drop (length w) s)))"

definition word_byte :: "char \<Rightarrow> bool" where
  "word_byte c = (ascii_digit c \<or> 97 \<le> (of_char c :: nat) \<and> (of_char c :: nat) \<le> 122)"

text \<open>Removal of all but Hangul syllables, small letters and ASCII digits.\<close>

function keep_words :: "string \<Rightarrow> string" where
  "keep_words [] = []"
| "keep_words (c # cs) =
     (if hangul_at (c # cs) \<noteq> 0 then take 3 (c # cs) @ keep_words (drop 2 cs)
      else if word_byte c then c # keep_words cs
      else keep_words cs)"
  by pat_completeness auto
termination by (relation "measure length") auto

text \<open>str.lower() as far as keep_words can tell: the dotted capital I becomes i and a combining dot.\<close>

definition name_lower :: "string \<Rightarrow> string" where
  "name_lower s = low (replace_all (bytes [196, 176]) (''i'' @ bytes [204, 135]) s)"

definition extract_round :: "(string \<Rightarrow> nat) \<Rightarrow> (string \<Rightarrow> nat) \<Rightarrow> string option \<Rightarrow> nat option" where
  "extract_round udigit udec title =
     (case or_none title of
        None \<Rightarrow> None
      | Some t \<Rightarrow> map_option (\<lambda>(d, k). udec d) (search_from (\<lambda>before s. round_match udigit s) [] t))"

definition extract_years :: "(string \<Rightarrow> nat) \<Rightarrow> (string \<Rightarrow> nat) \<Rightarrow> string option \<Rightarrow> nat list" where
  "extract_years udigit udec title =
     (case or_none title of
        None \<Rightarrow> []
      | Some t \<Rightarrow> sorted_list_of_set (set (map udec (find_all (year_match udigit) t))))"

definition normalize_name :: "(string \<Rightarrow> nat) \<Rightarrow> string option \<Rightarrow> string" where
  "normalize_name udigit title =
     (case or_none title of
        None \<Rightarrow> ''''
      | Some t \<Rightarrow>
          keep_words (name_lower (sub_all bracket_match '' '' (sub_all (year_match udigit) '' ''
            (sub_all (\<lambda>s. map_option snd (round_match udigit s)) '' '' t)))))"

text \<open>The first n characters of a text of Hangul syllables and ASCII.\<close>

fun take_chars :: "nat \<Rightarrow> string \<Rightarrow> string" where
  "take_chars 0 s = []"
| "take_chars (Suc n) s =
     (if hangul_at s \<noteq> 0 then take 3 s @ take_chars n (drop 3 s)
      else case s of [] \<Rightarrow> [] | c # cs \<Rightarrow> c # take_chars n cs)"

definition dedup_key :: "(string \<Rightarrow> nat) \<Rightarrow> string option \<Rightarrow> string option \<Rightarrow> string option \<Rightarrow> string \<times> string \<times> string" where
  "dedup_key udigit title address host =
     (normalize_name udigit title, py_or (extract_sido address) ''?'',
      take_chars 10 (keep_words (name_lower (py_or host ''''))))"

section \<open>Editions\<close>

lemma lstrip_cons:
  assumes "list_all (\<lambda>w. hd w \<noteq> c) py_ws"
  shows "py_lstrip (c # s) = c # s"
proof -
  have "take (length w) (c # s) \<noteq> w" if "w \<in> set py_ws" for w
  proof -
    have "w \<noteq> []" using that by (auto simp: py_ws_def bytes_def)
    then obtain x xs where w: "w = x # xs" by (cases w) auto
    then have "x \<noteq> c" using that assms by (auto simp: list_all_iff)
    then show ?thesis using w by simp
  qed
  then show ?thesis unfolding py_lstrip_def by (intro strip_front_id) blast
qed

lemma ascii_digit_no_space: "ascii_digit c \<Longrightarrow> list_all (\<lambda>w. hd w \<noteq> c) py_ws"
proof -
  have "list_all (\<lambda>w. \<not> ascii_digit (hd w)) py_ws" by code_simp
  then show "ascii_digit c \<Longrightarrow> list_all (\<lambda>w. hd w \<noteq> c) py_ws" by (auto simp: list_all_iff)
qed

lemma round_word_chars: "round_word = [CHR 0xED, CHR 0x9A, CHR 0x8C]"
  unfolding round_word_def by code_simp

lemma round_word_no_space: "list_all (\<lambda>w. hd w \<noteq> CHR 0xED) py_ws"
  by code_simp

lemma digits_len_round:
  assumes "list_all ascii_digit d" "length d \<le> n" "udigit (round_word @ u) = 0"
  shows "digits_len udigit n (d @ round_word @ u) = length d"
  using assms
proof (induction d arbitrary: n)
  case Nil
  have "\<not> ascii_digit (CHR 0xED)" by code_simp
  then show ?case using Nil by (cases n) (simp_all add: round_word_chars)
next
  case (Cons c d)
  then obtain m where "n = Suc m" by (cases n) auto
  then show ?case using Cons by simp
qed

lemma round_tail_at:
  assumes "list_all ascii_digit d" "d \<noteq> []" "length d \<le> 3" "udigit (round_word @ u) = 0"
  shows "round_tail udigit (d @ round_word @ u) = Some (d, length d + 3)"
proof -
  obtain c ds where d: "d = c # ds" using assms(2) by (cases d) auto
  have "py_lstrip (d @ round_word @ u) = d @ round_word @ u"
    using lstrip_cons[OF ascii_digit_no_space, of c] assms(1) d by simp
  moreover have "py_lstrip (round_word @ u) = round_word @ u"
    using lstrip_cons[OF round_word_no_space] by (simp add: round_word_chars)
  ultimately show ?thesis
    using digits_len_round[where udigit = udigit, OF assms(1,3,4)] assms(2)
    by (simp add: round_tail_def Let_def round_word_chars starts_with_def)
qed

lemma round_match_at:
  assumes "list_all ascii_digit d" "d \<noteq> []" "length d \<le> 3" "udigit (round_word @ u) = 0"
  shows "round_match udigit (ordinal_word @ d @ round_word @ u) = Some (d, length (ordinal_word @ d @ round_word))"
  using round_tail_at[of d udigit u] assms
  by (simp add: round_match_def round_word_chars)

lemma sub_all_front:
  "p \<noteq> [] \<Longrightarrow> m (p @ u) = Some (length p) \<Longrightarrow> sub_all m r (p @ u) = r @ sub_all m r u"
  by (cases p) simp_all

lemma hangul_at_space: "hangul_at (CHR '' '' # s) = 0"
  by (auto simp: hangul_at_def Let_def split: list.splits)

lemma year_match_space: "year_match udigit (CHR '' '' # s) = None"
  by (simp add: year_match_def starts_with_def)

lemma bracket_match_space: "bracket_match (CHR '' '' # s) = None"
proof -
  have "find (\<lambda>w. starts_with w (CHR '' '' # s)) openers = None"
  proof -
    have "list_all (\<lambda>w. w \<noteq> [] \<and> hd w \<noteq> CHR '' '') openers" by code_simp
    then show ?thesis by (auto simp: find_None_iff list_all_iff starts_with_def) (metis list.sel(1) take_Cons' length_0_conv)
  qed
  then show ?thesis by (simp add: bracket_match_def)
qed

lemma replace_all_other:
  "old \<noteq> [] \<Longrightarrow> hd old \<noteq> c \<Longrightarrow> replace_all old r (c # s) = c # replace_all old r s"
  by (subst replace_all.simps) (auto simp: starts_with_def take_Cons' neq_Nil_conv)

lemma name_lower_space: "name_lower (CHR '' '' # s) = CHR '' '' # name_lower s"
proof -
  have k: "kelvin \<noteq> []" "hd kelvin \<noteq> CHR '' ''" "bytes [196, 176] \<noteq> []" "hd (bytes [196, 176]) \<noteq> CHR '' ''"
    "lower '' '' = '' ''" by code_simp+
  then show ?thesis by (simp add: name_lower_def low_def replace_all_other) (simp add: lower_def)
qed

lemma normalize_after_round:
  assumes "list_all ascii_digit d" "d \<noteq> []" "length d \<le> 3" "udigit (round_word @ u) = 0"
  shows "normalize_name udigit (Some (ordinal_word @ d @ round_word @ u)) = normalize_name udigit (Some u)"
proof -
  let ?p = "ordinal_word @ d @ round_word"
  let ?m = "\<lambda>s. map_option snd (round_match udigit s)"
  have m: "?m (?p @ u) = Some (length ?p)" using round_match_at[of d udigit u] assms by simp
  have "?p \<noteq> []" using assms(2) by simp
  then have e: "sub_all ?m '' '' (?p @ u) = '' '' @ sub_all ?m '' '' u" using sub_all_front[of ?p ?m u "'' ''"] m by simp
  have w: "\<not> word_byte (CHR '' '')" by code_simp
  have "or_none (Some (?p @ u)) = Some (?p @ u)" using assms(2) by (cases "?p @ u") auto
  then have "normalize_name udigit (Some (?p @ u)) = keep_words (name_lower (sub_all bracket_match '' '' (sub_all (year_match udigit) '' ''
            (sub_all ?m '' '' u))))"
    by (simp only: normalize_name_def option.case e)
      (simp add: year_match_space bracket_match_space name_lower_space hangul_at_space w)
  moreover have "normalize_name udigit (Some u) = keep_words (name_lower (sub_all bracket_match '' '' (sub_all (year_match udigit) '' ''
            (sub_all ?m '' '' u))))"
    by (cases u) (simp_all add: normalize_name_def name_lower_def low_def lower_def replace_all.simps)
  ultimately show ?thesis by simp
qed

text \<open>the editions of a contest share their key: a title that begins with a round (the ordinal
  sign, one to three digits, the round sign) has the normalised name, and with any address and
  host the deduplication key, of the rest of the title, whatever the number; and the number is
  what extract_round reads.\<close>

theorem editions_share_key:
  assumes "list_all ascii_digit d" "d \<noteq> []" "length d \<le> 3" "udigit (round_word @ u) = 0"
  shows "normalize_name udigit (Some (ordinal_word @ d @ round_word @ u)) = normalize_name udigit (Some u)
    \<and> dedup_key udigit (Some (ordinal_word @ d @ round_word @ u)) address host = dedup_key udigit (Some u) address host
    \<and> extract_round udigit udec (Some (ordinal_word @ d @ round_word @ u)) = Some (udec d)"
proof -
  have n: "normalize_name udigit (Some (ordinal_word @ d @ round_word @ u)) = normalize_name udigit (Some u)"
    using normalize_after_round[where udigit = udigit and u = u] assms by blast
  obtain c cs where c: "ordinal_word @ d @ round_word @ u = c # cs" using assms(2) by (cases "ordinal_word @ d @ round_word @ u") auto
  have "round_match udigit (c # cs) = Some (d, length (ordinal_word @ d @ round_word))"
    unfolding c[symmetric] using round_match_at[where udigit = udigit and u = u] assms by blast
  then show ?thesis using n by (simp add: dedup_key_def extract_round_def c)
qed

lemma editions_share_key_witness:
  "dedup_key (\<lambda>_. 0) (Some (ordinal_word @ ''12'' @ round_word @ '' cup'')) None None = dedup_key (\<lambda>_. 0) (Some '' cup'') None None"
proof -
  have "list_all ascii_digit ''12''" by code_simp
  from editions_share_key[where d = "''12''" and udigit = "\<lambda>_. 0" and u = "'' cup''", OF this] show ?thesis by simp
qed

section \<open>How wide the classification is\<close>

lemma char_of_inj: "m < 256 \<Longrightarrow> n < 256 \<Longrightarrow> (char_of m :: char) = char_of n \<longleftrightarrow> m = (n :: nat)"
  by (metis of_char_of mod_less)

lemma bytes_eq:
  "list_all (\<lambda>n. n < 256) ms \<Longrightarrow> list_all (\<lambda>n. n < 256) ns \<Longrightarrow> bytes ms = bytes ns \<longleftrightarrow> ms = ns"
  by (induction ms ns rule: list_induct2') (auto simp: bytes_def char_of_inj)

lemma substr_bytes:
  assumes "list_all (\<lambda>n. n < 256) ks" "list_all (\<lambda>n. n < 256) ns"
  shows "substr_in (bytes ks) (bytes ns) = substr_in ks ns"
  using assms(2)
proof (induction ns)
  case (Cons n ns)
  have "list_all (\<lambda>n. n < 256) (take (length ks) (n # ns))"
    using Cons.prems unfolding list_all_iff by (meson in_set_takeD)
  from bytes_eq[OF this assms(1)]
  have "take (length (bytes ks)) (bytes (n # ns)) = bytes ks \<longleftrightarrow> take (length ks) (n # ns) = ks"
    by (simp only: bytes_def take_map length_map)
  then show ?case using Cons by (simp add: bytes_def)
qed (use assms(1) in \<open>auto simp: bytes_def\<close>)

lemma despace_bytes: "list_all (\<lambda>n. n < 256 \<and> n \<noteq> 32) ns \<Longrightarrow> despace (bytes ns) = bytes ns"
proof -
  have s: "CHR '' '' = char_of (32 :: nat)" by code_simp
  show "list_all (\<lambda>n. n < 256 \<and> n \<noteq> 32) ns \<Longrightarrow> despace (bytes ns) = bytes ns"
    unfolding despace_def s by (induction ns) (auto simp: bytes_def char_of_inj)
qed

lemma low_bytes:
  assumes "list_all (\<lambda>n. n < 256 \<and> n \<noteq> 226) ns"
  shows "low (bytes ns) = bytes (map (\<lambda>n. if 65 \<le> n \<and> n \<le> 90 then n + 32 else n) ns)"
proof -
  have "char_of (226 :: nat) \<notin> set (bytes ns)"
    using assms by (auto simp: bytes_def list_all_iff char_of_inj)
  then have "replace_all kelvin ''k'' (bytes ns) = bytes ns"
    unfolding kelvin_def by (simp add: bytes_def replace_all_absent)
  moreover have "lower (bytes ns) = bytes (map (\<lambda>n. if 65 \<le> n \<and> n \<le> 90 then n + 32 else n) ns)"
    using assms by (induction ns) (auto simp: bytes_def lower_def ascii_lower_char_def of_char_of)
  ultimately show ?thesis by (simp add: low_def)
qed

text \<open>The title "K-pop audition" in Korean, written with a capital K and without a space.\<close>

definition kpop_title :: string where
  "kpop_title = bytes [75, 237, 140, 157, 236, 152, 164, 235, 148, 148, 236, 133, 152]"

lemma kpop_accepted: "is_gayoje (Some kpop_title)"
  by (simp add: is_gayoje_def kpop_title_def or_none_def Let_def despace_bytes low_bytes singing_words_def contest_words_def
      substr_bytes del: substr_in.simps)
    (simp add: substr_in.simps)

lemma kpop_unclassified: "classify (Some kpop_title) = None"
  by (simp add: classify_def kpop_title_def or_none_def Let_def despace_bytes strong_buckets_def music_words_def substr_bytes)

text \<open>the wide classification accepts what the precise filter accepts by a fixed word, or by a singing
  word spelt in small letters together with a contest word other than the bare "selection";
  it is not wider in general, though meant to be: the capital K of a K-pop contest,
  which the filter lowers, leaves the title unclassified.\<close>

theorem taxonomy_recall:
  "((\<exists>k \<in> set strong_gayoje. substr_in k (despace t))
      \<or> (\<exists>s \<in> set singing_words. substr_in s (despace t)) \<and> (\<exists>c \<in> set contest_words - {bytes [236, 132, 160, 235, 176, 156]}. substr_in c (despace t))
    \<longrightarrow> classify (Some t) \<noteq> None)
   \<and> is_gayoje (Some kpop_title) \<and> classify (Some kpop_title) = None"
proof (intro conjI impI)
  let ?t = "despace t"
  assume a: "(\<exists>k \<in> set strong_gayoje. substr_in k ?t)
      \<or> (\<exists>s \<in> set singing_words. substr_in s ?t) \<and> (\<exists>c \<in> set contest_words - {bytes [236, 132, 160, 235, 176, 156]}. substr_in c ?t)"
  have strong: "set strong_gayoje \<subseteq> (\<Union>(l, ks) \<in> set strong_buckets. set ks)"
    by (simp add: strong_gayoje_def strong_buckets_def)
  have music: "set singing_words \<subseteq> set music_words" by (simp add: singing_words_def music_words_def)
  have contest: "set contest_words - {bytes [236, 132, 160, 235, 176, 156]} \<subseteq> set wide_contest_words"
    by (auto simp: contest_words_def wide_contest_words_def)
  have t: "t \<noteq> []"
  proof
    assume "t = []"
    then have "substr_in k ?t \<Longrightarrow> k = []" for k by (simp add: despace_def)
    moreover have "[] \<notin> set strong_gayoje" "[] \<notin> set singing_words" by (auto simp: strong_gayoje_def singing_words_def bytes_def)
    ultimately show False using a by blast
  qed
  show "classify (Some t) \<noteq> None"
  proof (cases "find (\<lambda>(l, ks). list_ex (\<lambda>k. substr_in k ?t) ks) strong_buckets")
    case None
    then have "\<not> (\<exists>k \<in> set strong_gayoje. substr_in k ?t)"
      using strong by (fastforce simp: find_None_iff list_ex_iff)
    then obtain s c where "s \<in> set singing_words" "substr_in s ?t" "c \<in> set contest_words - {bytes [236, 132, 160, 235, 176, 156]}" "substr_in c ?t"
      using a by blast
    then have "find (\<lambda>m. substr_in m ?t) music_words \<noteq> None" "find (\<lambda>c. substr_in c ?t) wide_contest_words \<noteq> None"
      using music contest by (auto simp: find_None_iff)
    then show ?thesis using None t by (auto simp: classify_def or_none_def split: list.splits)
  next
    case (Some x)
    then show ?thesis using t by (cases x) (auto simp: classify_def or_none_def split: list.splits)
  qed
qed (rule kpop_accepted, rule kpop_unclassified)

lemma taxonomy_recall_witness: "classify (Some (bytes [234, 176, 128, 236, 154, 148, 236, 160, 156])) \<noteq> None"
proof -
  have d: "despace (bytes [234, 176, 128, 236, 154, 148, 236, 160, 156]) = bytes [234, 176, 128, 236, 154, 148, 236, 160, 156]" by (simp add: despace_bytes)
  have "bytes [234, 176, 128, 236, 154, 148, 236, 160, 156] \<in> set strong_gayoje" by (simp add: strong_gayoje_def)
  then have "\<exists>k \<in> set strong_gayoje. substr_in k (despace (bytes [234, 176, 128, 236, 154, 148, 236, 160, 156]))" unfolding d by (rule bexI[rotated]) simp
  then show ?thesis by (intro taxonomy_recall[THEN conjunct1, rule_format]) blast
qed

end
