(* ===== verification/Regex.thy ===== *)
theory Regex
  imports PyText
begin

text \<open>
  What the crawlers use of Python's re: a backtracking matcher as the list of all ways to
  match, in the order in which the engine tries them, so that the first is Python's match.
  A text is a list of UTF-8 bytes; a character class is a predicate on the bytes of one
  character.
\<close>

section \<open>Characters\<close>

definition char_len :: "string \<Rightarrow> nat" where
  "char_len s =
     (case s of [] \<Rightarrow> 0
      | c # cs \<Rightarrow> (let n = (of_char c :: nat) in
          min (length s) (if n < 192 then 1 else if n < 224 then 2 else if n < 240 then 3 else 4)))"

lemma char_len_pos [simp]: "s \<noteq> [] \<Longrightarrow> 0 < char_len s"
  by (cases s) (auto simp: char_len_def Let_def)

lemma char_len_le: "char_len s \<le> length s"
  by (cases s) (auto simp: char_len_def Let_def)

section \<open>Patterns\<close>

text \<open>A repetition is greedy when its flag is set; a look-behind sees the text before the position,
  an end test the text after it.\<close>

datatype re = REps | RSet "string \<Rightarrow> bool" | RSeq re re | RAlt re re | RStar bool re
  | RGroup nat re | RBehind "string \<Rightarrow> bool" | RAhead "string \<Rightarrow> bool"

record rstate =
  z_before :: string
  z_rest :: string
  z_groups :: "(nat \<times> string) list"

definition advance :: "nat \<Rightarrow> rstate \<Rightarrow> rstate" where
  "advance k s = s\<lparr>z_before := z_before s @ take k (z_rest s), z_rest := drop k (z_rest s)\<rparr>"

definition shorter :: "rstate \<Rightarrow> rstate list \<Rightarrow> rstate list" where
  "shorter s ts = filter (\<lambda>t. length (z_rest t) < length (z_rest s)) ts"

definition no_longer :: "rstate \<Rightarrow> rstate list \<Rightarrow> rstate list" where
  "no_longer s ts = filter (\<lambda>t. length (z_rest t) \<le> length (z_rest s)) ts"

text \<open>An iteration of a repetition that consumes nothing is dropped.\<close>

function matches :: "re \<Rightarrow> rstate \<Rightarrow> rstate list" where
  "matches REps s = [s]"
| "matches (RSet P) s =
     (let k = char_len (z_rest s) in if k \<noteq> 0 \<and> P (take k (z_rest s)) then [advance k s] else [])"
| "matches (RSeq a b) s = concat (map (\<lambda>t. matches b t) (no_longer s (matches a s)))"
| "matches (RAlt a b) s = matches a s @ matches b s"
| "matches (RStar greedy r) s =
     (let more = concat (map (\<lambda>t. matches (RStar greedy r) t) (shorter s (matches r s)))
      in if greedy then more @ [s] else s # more)"
| "matches (RGroup n r) s =
     map (\<lambda>t. t\<lparr>z_groups := (n, take (length (z_rest s) - length (z_rest t)) (z_rest s)) # z_groups t\<rparr>) (matches r s)"
| "matches (RBehind P) s = (if P (z_before s) then [s] else [])"
| "matches (RAhead P) s = (if P (z_rest s) then [s] else [])"
  by pat_completeness auto
termination
  by (relation "measures [\<lambda>(r, s). length (z_rest s), \<lambda>(r, s). size r]")
    (auto simp: shorter_def no_longer_def)

lemmas matches_RStar = matches.simps(5)

declare matches.simps(5) [simp del]

definition start_at :: "string \<Rightarrow> string \<Rightarrow> rstate" where
  "start_at before s = \<lparr>z_before = before, z_rest = s, z_groups = []\<rparr>"

definition match_at :: "re \<Rightarrow> string \<Rightarrow> string \<Rightarrow> rstate option" where
  "match_at r before s = (case matches r (start_at before s) of [] \<Rightarrow> None | t # _ \<Rightarrow> Some t)"

text \<open>re.search.\<close>

function search_re :: "re \<Rightarrow> string \<Rightarrow> string \<Rightarrow> rstate option" where
  "search_re r before s =
     (case match_at r before s of
        Some t \<Rightarrow> Some t
      | None \<Rightarrow> if s = [] then None else search_re r (before @ take (char_len s) s) (drop (char_len s) s))"
  by auto
termination by (relation "measure (\<lambda>(r, b, s). length s)") auto

declare search_re.simps [simp del]

definition re_search :: "re \<Rightarrow> string \<Rightarrow> rstate option" where
  "re_search r s = search_re r [] s"

definition group :: "nat \<Rightarrow> rstate \<Rightarrow> string" where
  "group n t = (case map_of (z_groups t) n of Some w \<Rightarrow> w | None \<Rightarrow> [])"

text \<open>re.finditer and re.sub, for patterns that match no empty text: from a match go on after it.\<close>

function find_re :: "re \<Rightarrow> string \<Rightarrow> string \<Rightarrow> rstate list" where
  "find_re r before s =
     (if s = [] then []
      else case match_at r before s of
          None \<Rightarrow> find_re r (before @ take (char_len s) s) (drop (char_len s) s)
        | Some t \<Rightarrow>
            if length (z_rest t) < length s then t # find_re r (z_before t) (z_rest t)
            else find_re r (before @ take (char_len s) s) (drop (char_len s) s))"
  by auto
termination by (relation "measure (\<lambda>(r, b, s). length s)") auto

declare find_re.simps [simp del]

definition re_finditer :: "re \<Rightarrow> string \<Rightarrow> rstate list" where
  "re_finditer r s = find_re r [] s"

function sub_re :: "re \<Rightarrow> string \<Rightarrow> string \<Rightarrow> string \<Rightarrow> string" where
  "sub_re r new before s =
     (if s = [] then []
      else case match_at r before s of
          None \<Rightarrow> take (char_len s) s @ sub_re r new (before @ take (char_len s) s) (drop (char_len s) s)
        | Some t \<Rightarrow>
            if length (z_rest t) < length s then new @ sub_re r new (z_before t) (z_rest t)
            else take (char_len s) s @ sub_re r new (before @ take (char_len s) s) (drop (char_len s) s))"
  by auto
termination by (relation "measure (\<lambda>(r, n, b, s). length s)") auto

declare sub_re.simps [simp del]

definition re_sub :: "re \<Rightarrow> string \<Rightarrow> string \<Rightarrow> string" where
  "re_sub r new s = sub_re r new [] s"

section \<open>Building patterns\<close>

fun seq :: "re list \<Rightarrow> re" where
  "seq [] = REps"
| "seq [r] = r"
| "seq (r # rs) = RSeq r (seq rs)"

fun alts :: "re list \<Rightarrow> re" where
  "alts [] = RSet (\<lambda>_. False)"
| "alts [r] = r"
| "alts (r # rs) = RAlt r (alts rs)"

definition star :: "re \<Rightarrow> re" where "star r = RStar True r"
definition lazy :: "re \<Rightarrow> re" where "lazy r = RStar False r"
definition plus :: "re \<Rightarrow> re" where "plus r = RSeq r (RStar True r)"
definition lazy_plus :: "re \<Rightarrow> re" where "lazy_plus r = RSeq r (RStar False r)"
definition opt :: "re \<Rightarrow> re" where "opt r = RAlt r REps"

fun upto_times :: "nat \<Rightarrow> re \<Rightarrow> re" where
  "upto_times 0 r = REps"
| "upto_times (Suc n) r = opt (RSeq r (upto_times n r))"

fun times :: "nat \<Rightarrow> re \<Rightarrow> re" where
  "times 0 r = REps"
| "times (Suc n) r = RSeq r (times n r)"

definition between :: "nat \<Rightarrow> nat \<Rightarrow> re \<Rightarrow> re" where
  "between a b r = RSeq (times a r) (upto_times (b - a) r)"

text \<open>The characters of a text, at most n of them; their number, and the slice of the first n.\<close>

fun chars :: "nat \<Rightarrow> string \<Rightarrow> string list" where
  "chars 0 s = []"
| "chars (Suc n) s = (if s = [] then [] else take (char_len s) s # chars n (drop (char_len s) s))"

definition ulen :: "string \<Rightarrow> nat" where
  "ulen s = length (chars (length s) s)"

definition take_text :: "nat \<Rightarrow> string \<Rightarrow> string" where
  "take_text n s = concat (chars n s)"

text \<open>A literal text, character by character.\<close>

definition lit :: "string \<Rightarrow> re" where
  "lit w = seq (map (\<lambda>c. RSet (\<lambda>x. x = c)) (chars (length w) w))"

definition any_char :: re where "any_char = RSet (\<lambda>_. True)"

definition none_of :: "string list \<Rightarrow> re" where
  "none_of cs = RSet (\<lambda>x. x \<notin> set cs)"

definition one_of :: "string list \<Rightarrow> re" where
  "one_of cs = RSet (\<lambda>x. x \<in> set cs)"

definition is_space :: "string \<Rightarrow> bool" where
  "is_space x = (x \<in> set py_ws)"

definition space :: re where "space = RSet is_space"

text \<open>\<open>\d\<close>: the decimal digits outside ASCII are a parameter.\<close>

definition is_digit :: "(string \<Rightarrow> nat) \<Rightarrow> string \<Rightarrow> bool" where
  "is_digit udigit x = (case x of [c] \<Rightarrow> ascii_digit c | _ \<Rightarrow> udigit x \<noteq> 0)"

definition digit :: "(string \<Rightarrow> nat) \<Rightarrow> re" where "digit udigit = RSet (is_digit udigit)"

section \<open>What a match is\<close>

lemma shape_trans:
  assumes "u \<in> U" "\<And>u. u \<in> U \<Longrightarrow> \<exists>v. z_rest s = v @ z_rest u \<and> z_before u = z_before s @ v"
    "\<exists>w. z_rest u = w @ z_rest t \<and> z_before t = z_before u @ w"
  shows "\<exists>w. z_rest s = w @ z_rest t \<and> z_before t = z_before s @ w"
proof -
  obtain v where v: "z_rest s = v @ z_rest u" "z_before u = z_before s @ v" using assms(1,2) by blast
  obtain w where w: "z_rest u = w @ z_rest t" "z_before t = z_before u @ w" using assms(3) by blast
  have "z_rest s = (v @ w) @ z_rest t \<and> z_before t = z_before s @ (v @ w)" using v w by simp
  then show ?thesis by blast
qed

lemma matches_shape:
  "t \<in> set (matches r s) \<Longrightarrow> \<exists>w. z_rest s = w @ z_rest t \<and> z_before t = z_before s @ w"
proof (induction r s arbitrary: t rule: matches.induct)
  case (2 P s)
  then have "t = advance (char_len (z_rest s)) s" by (simp add: Let_def split: if_splits)
  then show ?case by (intro exI[of _ "take (char_len (z_rest s)) (z_rest s)"]) (simp add: advance_def)
next
  case (3 a b s)
  then obtain u where u: "u \<in> set (no_longer s (matches a s))" "t \<in> set (matches b u)" by auto
  then have "u \<in> set (matches a s)" by (simp add: no_longer_def)
  then show ?case using 3(1) 3(2)[OF u] by (rule shape_trans)
next
  case (5 greedy r s)
  show ?case
  proof (cases "t = s")
    case False
    define more where "more = concat (map (matches (RStar greedy r)) (shorter s (matches r s)))"
    have "matches (RStar greedy r) s = (if greedy then more @ [s] else s # more)"
      unfolding more_def by (subst matches_RStar) (simp only: Let_def)
    then have "t \<in> set more" using 5(3) False by (auto split: if_splits)
    then obtain u where u: "u \<in> set (shorter s (matches r s))" "t \<in> set (matches (RStar greedy r) u)"
      unfolding more_def by auto
    then have "u \<in> set (matches r s)" by (simp add: shorter_def)
    then show ?thesis using 5(1) 5(2)[OF u] by (rule shape_trans)
  qed simp
next
  case (6 n r s)
  then obtain u where "u \<in> set (matches r s)" "z_rest t = z_rest u" "z_before t = z_before u" by auto
  then show ?case using 6(1)[of u] by simp
qed (auto split: if_splits)

lemma no_longer_matches [simp]: "no_longer s (matches r s) = matches r s"
proof -
  have "length (z_rest t) \<le> length (z_rest s)" if "t \<in> set (matches r s)" for t
    using matches_shape[OF that] by auto
  then show ?thesis by (auto simp: no_longer_def)
qed

lemma matches_RSeq: "matches (RSeq a b) s = concat (map (matches b) (matches a s))"
  by simp

end
