(* ===== verification/Crawler.thy ===== *)
theory Crawler
  imports Ingestion Regex
begin

text \<open>
  The crawlers of municipal boards: the robots gate (robots.py), the parsers of list pages and the
  crawl itself (crawlers/board.py) under src/app/api/v1/ingestion/. The web answers according to
  the accesses made so far; urljoin, the host part of a URL and the parser of robots.txt are
  parameters, as are the letters and digits outside ASCII.
\<close>

section \<open>Texts of pages\<close>

definition tag_re :: re where
  "tag_re = seq [lit ''<'', plus (none_of [''>'']), lit ''>'']"

definition spaces_re :: re where "spaces_re = plus space"

definition dquote :: string where "dquote = [CHR 0x22]"

definition board_entities :: "(string \<times> string) list" where
  "board_entities = [(''&amp;'', ''&''), (''&lt;'', ''<''), (''&gt;'', ''>''), (''&quot;'', dquote),
     (''&#39;'', [quote]), (''&apos;'', [quote]), (''&nbsp;'', '' '')]"

definition unescape_with :: "(string \<times> string) list \<Rightarrow> string \<Rightarrow> string" where
  "unescape_with es s = foldl (\<lambda>t (e, c). replace_all e c t) s es"

definition squeeze :: "string \<Rightarrow> string" where
  "squeeze s = py_strip (re_sub spaces_re '' '' s)"

definition clean_text :: "string \<Rightarrow> string" where
  "clean_text raw = squeeze (unescape_with board_entities (re_sub tag_re '' '' raw))"

record board_post =
  bp_title :: string
  bp_url :: string
  bp_start :: "string option"
  bp_end :: "string option"
  bp_venue :: "string option"
  bp_host :: "string option"

definition new_post :: "string \<Rightarrow> string \<Rightarrow> board_post" where
  "new_post title url = \<lparr>bp_title = title, bp_url = url, bp_start = None, bp_end = None, bp_venue = None, bp_host = None\<rparr>"

text \<open>The posts by id, in the order of their first titled anchors.\<close>

fun rows_loop :: "(string \<Rightarrow> string \<Rightarrow> string) \<Rightarrow> string \<Rightarrow> (string \<Rightarrow> string) \<Rightarrow> rstate list
    \<Rightarrow> (string \<times> board_post) list \<Rightarrow> (string \<times> board_post) list" where
  "rows_loop urljoin page title_of [] acc = acc"
| "rows_loop urljoin page title_of (m # ms) acc =
     (let title = title_of (group 3 m)
      in if title = '''' \<or> ulen title < 2 \<or> group 2 m \<in> fst ` set acc
         then rows_loop urljoin page title_of ms acc
         else rows_loop urljoin page title_of ms
                (acc @ [(group 2 m, new_post title (urljoin page (replace_all ''&amp;'' ''&'' (group 1 m))))]))"

definition rows_by_id :: "(string \<Rightarrow> string \<Rightarrow> string) \<Rightarrow> string \<Rightarrow> string \<Rightarrow> re \<Rightarrow> (string \<Rightarrow> string) \<Rightarrow> board_post list" where
  "rows_by_id urljoin html page pattern title_of =
     map snd (rows_loop urljoin page title_of (re_finditer pattern html) [])"

section \<open>List pages\<close>

text \<open>A literal under re.IGNORECASE, given in small letters.\<close>

definition ci :: "string \<Rightarrow> re" where
  "ci w = seq (map (\<lambda>c. one_of (ci_letter c)) w)"

definition no_quote :: re where "no_quote = none_of [dquote]"

text \<open>After the address: the rest of the tag, the text up to the closing tag.\<close>

definition anchor_tail :: re where
  "anchor_tail = seq [lit dquote, star (none_of [''>'']), lit ''>'', RGroup 3 (lazy any_char), ci ''</a>'']"

definition egov_re :: "(string \<Rightarrow> nat) \<Rightarrow> re" where
  "egov_re ud = seq [ci (''href='' @ dquote),
     RGroup 1 (seq [star no_quote,
       alts [seq [ci ''view.do'', lazy no_quote, ci ''nttid''],
             seq [ci ''selectbbsnttview.do'', lazy no_quote, ci ''nttno'']],
       lit ''='', RGroup 2 (plus (digit ud)), star no_quote]),
     anchor_tail]"

definition query_idx_re :: "(string \<Rightarrow> nat) \<Rightarrow> re" where
  "query_idx_re ud = seq [ci (''href='' @ dquote),
     RGroup 1 (seq [star no_quote, lit ''?'', star no_quote, ci ''idx='', RGroup 2 (plus (digit ud)), star no_quote,
       alts [ci ''amode'', ci ''mode''], ci ''=view'', star no_quote]),
     anchor_tail]"

definition gunsan_re :: "(string \<Rightarrow> nat) \<Rightarrow> re" where
  "gunsan_re ud = seq [ci (''href='' @ dquote),
     RGroup 1 (seq [ci ''/arts/m'', plus (digit ud), ci ''/view/'', RGroup 2 (plus (digit ud)), star no_quote]),
     anchor_tail]"

definition sscmc_re :: "(string \<Rightarrow> nat) \<Rightarrow> re" where
  "sscmc_re ud = seq [ci (''href='' @ dquote),
     RGroup 1 (seq [star no_quote, ci ''action=read'', lazy no_quote, ci ''action-value='', RGroup 2 (plus (digit ud)),
       lit ''.0'', star no_quote]),
     anchor_tail]"

text \<open>Word characters: letters, digits and the underscore; those outside ASCII are a parameter.\<close>

definition word_char :: "(string \<Rightarrow> bool) \<Rightarrow> string \<Rightarrow> bool" where
  "word_char uword x = (case x of [] \<Rightarrow> False | [c] \<Rightarrow> ident_char c | _ \<Rightarrow> uword x)"

definition last_char :: "string \<Rightarrow> string" where
  "last_char s = (case chars (length s) s of [] \<Rightarrow> [] | cs \<Rightarrow> last cs)"

definition first_char :: "string \<Rightarrow> string" where
  "first_char s = take (char_len s) s"

definition whole_word :: "(string \<Rightarrow> bool) \<Rightarrow> string \<Rightarrow> re" where
  "whole_word uword w = seq [RBehind (\<lambda>b. \<not> word_char uword (last_char b)), lit w,
     RAhead (\<lambda>s. \<not> word_char uword (first_char s))]"

definition badge_re :: "(string \<Rightarrow> bool) \<Rightarrow> re" where
  "badge_re uword = alts [lit (bytes [237, 149, 171, 236, 157, 180, 236, 138, 136]), whole_word uword ''NEW'', whole_word uword ''HOT'']"

definition egov_title :: "(string \<Rightarrow> bool) \<Rightarrow> string \<Rightarrow> string" where
  "egov_title uword inner = squeeze (re_sub (badge_re uword) '''' (clean_text inner))"

definition sscmc_title_re :: re where
  "sscmc_title_re = seq [lit (''<p class='' @ dquote @ ''tit'' @ dquote @ ''>''), RGroup 1 (lazy any_char), lit ''</p>'']"

definition sscmc_title :: "string \<Rightarrow> string" where
  "sscmc_title inner = (case re_search sscmc_title_re inner of Some m \<Rightarrow> clean_text (group 1 m) | None \<Rightarrow> '''')"

type_synonym row_parser = "string \<Rightarrow> string \<Rightarrow> board_post list"

definition egovframe_rows :: "(string \<Rightarrow> nat) \<Rightarrow> (string \<Rightarrow> bool) \<Rightarrow> (string \<Rightarrow> string \<Rightarrow> string) \<Rightarrow> row_parser" where
  "egovframe_rows ud uword urljoin html page = rows_by_id urljoin html page (egov_re ud) (egov_title uword)"

definition query_idx_rows :: "(string \<Rightarrow> nat) \<Rightarrow> (string \<Rightarrow> string \<Rightarrow> string) \<Rightarrow> row_parser" where
  "query_idx_rows ud urljoin html page = rows_by_id urljoin html page (query_idx_re ud) clean_text"

definition gunsan_rows :: "(string \<Rightarrow> nat) \<Rightarrow> (string \<Rightarrow> string \<Rightarrow> string) \<Rightarrow> row_parser" where
  "gunsan_rows ud urljoin html page = rows_by_id urljoin html page (gunsan_re ud) clean_text"

definition sscmc_rows :: "(string \<Rightarrow> nat) \<Rightarrow> (string \<Rightarrow> string \<Rightarrow> string) \<Rightarrow> row_parser" where
  "sscmc_rows ud urljoin html page = rows_by_id urljoin html page (sscmc_re ud) sscmc_title"

section \<open>The robots gate\<close>

text \<open>An access to the web, or a question put to the gate and its answer.\<close>

datatype access = RobotsGet string | Asked string bool | PageGet string

text \<open>The web: the answer to the robots.txt of a host and the attempts at a page, after the accesses
  so far; the clock; the delay added to a retry.\<close>

record web =
  v_robots :: "access list \<Rightarrow> string \<Rightarrow> http_out"
  v_page :: "access list \<Rightarrow> string \<Rightarrow> nat \<Rightarrow> http_out"
  v_now :: "access list \<Rightarrow> rat"
  v_jitter :: "nat \<Rightarrow> rat"

text \<open>RobotFileParser: the rules read from a text (no rules for the empty one), may an agent fetch a
  URL, and its delay.\<close>

record 'p robots =
  o_parse :: "string \<Rightarrow> 'p"
  o_can_fetch :: "'p \<Rightarrow> string \<Rightarrow> string \<Rightarrow> bool"
  o_delay :: "'p \<Rightarrow> string \<Rightarrow> rat option"
  o_host :: "string \<Rightarrow> string"
  o_agent :: string
  o_ttl :: rat

record 'p crawl_state =
  x_cache :: "(string \<times> ('p option \<times> rat)) list"
  x_log :: "access list"
  x_slept :: "rat list"

text \<open>None is the refusal to crawl.\<close>

definition robots_verdict :: "'p robots \<Rightarrow> http_out \<Rightarrow> 'p option" where
  "robots_verdict g h =
     (case h of
        HttpAnswer status text \<Rightarrow>
          if status = 200 \<and> py_strip text \<noteq> '''' then Some (o_parse g text)
          else if status = 401 \<or> status = 403 then None
          else Some (o_parse g '''')
      | _ \<Rightarrow> None)"

definition gate_parser :: "web \<Rightarrow> 'p robots \<Rightarrow> string \<Rightarrow> 'p crawl_state \<Rightarrow> 'p option \<times> 'p crawl_state" where
  "gate_parser v g url s =
     (let host = o_host g url;
          fetch = (let p = robots_verdict g (v_robots v (x_log s) host);
                       s1 = s\<lparr>x_log := x_log s @ [RobotsGet host]\<rparr>
                   in (p, s1\<lparr>x_cache := (host, (p, v_now v (x_log s1))) # x_cache s1\<rparr>))
      in (case map_of (x_cache s) host of
            Some (p, stamp) \<Rightarrow> if v_now v (x_log s) - stamp < o_ttl g then (p, s) else fetch
          | None \<Rightarrow> fetch))"

definition gate_allowed :: "web \<Rightarrow> 'p robots \<Rightarrow> string \<Rightarrow> 'p crawl_state \<Rightarrow> bool \<times> 'p crawl_state" where
  "gate_allowed v g url s =
     (case gate_parser v g url s of
        (p, s1) \<Rightarrow>
          let ok = (case p of None \<Rightarrow> False | Some r \<Rightarrow> o_can_fetch g r (o_agent g) url)
          in (ok, s1\<lparr>x_log := x_log s1 @ [Asked url ok]\<rparr>))"

definition gate_delay :: "web \<Rightarrow> 'p robots \<Rightarrow> string \<Rightarrow> 'p crawl_state \<Rightarrow> rat option \<times> 'p crawl_state" where
  "gate_delay v g url s =
     (case gate_parser v g url s of
        (p, s1) \<Rightarrow> ((case p of None \<Rightarrow> None | Some r \<Rightarrow> o_delay g r (o_agent g)), s1))"

section \<open>The crawl\<close>

record board_config =
  f_name :: string
  f_system :: string
  f_base_url :: string
  f_list_url :: string
  f_rows :: row_parser
  f_max_pages :: nat
  f_pause :: rat
  f_detail :: "(string \<Rightarrow> (string \<times> string) list option) option"

text \<open>http_get_text with its retries, each of which is an access.\<close>

definition get_page :: "web \<Rightarrow> string \<Rightarrow> 'p crawl_state \<Rightarrow> (fetch_error + string) \<times> 'p crawl_state" where
  "get_page v url s =
     (case http_get_text (v_page v (x_log s) url) (v_jitter v) 1 3 of
        (r, k, waits) \<Rightarrow> (r, s\<lparr>x_log := x_log s @ replicate k (PageGet url), x_slept := x_slept s @ waits\<rparr>))"

definition pause :: "web \<Rightarrow> 'p robots \<Rightarrow> rat \<Rightarrow> string \<Rightarrow> 'p crawl_state \<Rightarrow> 'p crawl_state" where
  "pause v g default_pause url s =
     (case gate_delay v g url s of
        (d, s1) \<Rightarrow> s1\<lparr>x_slept := x_slept s1 @ [case d of Some x \<Rightarrow> x | None \<Rightarrow> default_pause]\<rparr>)"

definition merge_detail :: "(string \<times> string) list \<Rightarrow> board_post \<Rightarrow> board_post" where
  "merge_detail found p =
     (let upd = (\<lambda>k old. case or_none (map_of found k) of Some x \<Rightarrow> Some x | None \<Rightarrow> old)
      in p\<lparr>bp_start := upd ''start_date'' (bp_start p), bp_end := upd ''end_date'' (bp_end p),
           bp_venue := upd ''venue'' (bp_venue p), bp_host := upd ''host_org'' (bp_host p)\<rparr>)"

text \<open>_enrich_detail; the parser's None is an exception, which counts as no fields.\<close>

fun enrich_detail :: "web \<Rightarrow> 'p robots \<Rightarrow> board_config \<Rightarrow> (string \<Rightarrow> (string \<times> string) list option)
    \<Rightarrow> board_post list \<Rightarrow> 'p crawl_state \<Rightarrow> board_post list \<times> 'p crawl_state" where
  "enrich_detail v g cfg parse [] s = ([], s)"
| "enrich_detail v g cfg parse (p # ps) s =
     (case gate_allowed v g (bp_url p) s of
        (ok, s1) \<Rightarrow>
          let (p', s') =
            (if \<not> ok then (p, s1)
             else (case get_page v (bp_url p) s1 of
                     (Inl e, s2) \<Rightarrow> (p, s2)
                   | (Inr html, s2) \<Rightarrow>
                       (merge_detail (case parse html of Some fs \<Rightarrow> fs | None \<Rightarrow> []) p,
                        pause v g (f_pause cfg) (bp_url p) s2)));
              (ps', s'') = enrich_detail v g cfg parse ps s'
          in (p' # ps', s''))"

definition page_url :: "board_config \<Rightarrow> nat \<Rightarrow> string" where
  "page_url cfg page = replace_all ''{page}'' (dec_nat page) (f_list_url cfg)"

text \<open>The loop over the list pages, from page i with n left: the posts, the pages read, blocked.\<close>

fun crawl_pages :: "web \<Rightarrow> 'p robots \<Rightarrow> board_config \<Rightarrow> nat \<Rightarrow> nat \<Rightarrow> 'p crawl_state
    \<Rightarrow> (board_post list \<times> nat \<times> bool) \<times> 'p crawl_state" where
  "crawl_pages v g cfg 0 i s = (([], 0, False), s)"
| "crawl_pages v g cfg (Suc n) i s =
     (let url = page_url cfg i
      in case gate_allowed v g url s of
           (False, s1) \<Rightarrow> (([], 0, True), s1)
         | (True, s1) \<Rightarrow>
             (case get_page v url s1 of
                (Inl e, s2) \<Rightarrow> (([], 0, False), s2)
              | (Inr html, s2) \<Rightarrow>
                  let rows = f_rows cfg html url
                  in if rows = [] then (([], 0, False), s2)
                     else (case crawl_pages v g cfg n (Suc i) (pause v g (f_pause cfg) url s2) of
                             ((posts, pages, blocked), s3) \<Rightarrow> ((rows @ posts, Suc pages, blocked), s3))))"

fun uniq_posts :: "string set \<Rightarrow> board_post list \<Rightarrow> board_post list" where
  "uniq_posts seen [] = []"
| "uniq_posts seen (p # ps) =
     (if bp_url p \<in> seen then uniq_posts seen ps else p # uniq_posts (insert (bp_url p) seen) ps)"

record crawl_result =
  y_board :: string
  y_system :: string
  y_crawled :: nat
  y_gayoje :: nat
  y_pages :: nat
  y_blocked :: bool
  y_posts :: "board_post list"

definition crawl_board :: "web \<Rightarrow> 'p robots \<Rightarrow> board_config \<Rightarrow> bool \<Rightarrow> 'p crawl_state \<Rightarrow> crawl_result \<times> 'p crawl_state" where
  "crawl_board v g cfg fetch_details s =
     (case crawl_pages v g cfg (f_max_pages cfg) 1 s of
        ((posts, pages, blocked), s1) \<Rightarrow>
          let uniq = uniq_posts {} posts;
              gayoje = filter (\<lambda>p. is_gayoje (Some (bp_title p))) uniq;
              (gayoje', s2) = (case f_detail cfg of
                 Some parse \<Rightarrow> if fetch_details then enrich_detail v g cfg parse gayoje s1 else (gayoje, s1)
               | None \<Rightarrow> (gayoje, s1))
          in (\<lparr>y_board = f_name cfg, y_system = f_system cfg, y_crawled = length uniq, y_gayoje = length gayoje',
               y_pages = pages, y_blocked = blocked, y_posts = gayoje'\<rparr>, s2))"

section \<open>Every page was allowed\<close>

text \<open>At some earlier access the robots.txt of the host of u was fetched, with an answer whose rules
  allow u.\<close>

definition ground :: "web \<Rightarrow> 'p robots \<Rightarrow> access list \<Rightarrow> string \<Rightarrow> bool" where
  "ground v g past u \<longleftrightarrow> (\<exists>j < length past. past ! j = RobotsGet (o_host g u)
     \<and> (\<exists>p. robots_verdict g (v_robots v (take j past) (o_host g u)) = Some p \<and> o_can_fetch g p (o_agent g) u))"

definition lawful :: "web \<Rightarrow> 'p robots \<Rightarrow> 'p crawl_state \<Rightarrow> bool" where
  "lawful v g s \<longleftrightarrow>
     (\<forall>h p t. map_of (x_cache s) h = Some (p, t) \<longrightarrow>
        (\<exists>j < length (x_log s). x_log s ! j = RobotsGet h \<and> p = robots_verdict g (v_robots v (take j (x_log s)) h)))
     \<and> (\<forall>i < length (x_log s). \<forall>u. x_log s ! i = PageGet u \<longrightarrow> ground v g (take i (x_log s)) u)"

lemma ground_append: "ground v g past u \<Longrightarrow> ground v g (past @ ext) u"
  unfolding ground_def by (metis length_append nth_append take_append append_Nil2 diff_is_0_eq' less_imp_le_nat take_0 trans_less_add1)

lemma lawful_append:
  assumes "lawful v g s" "\<And>i u. i < length ext \<Longrightarrow> ext ! i = PageGet u \<Longrightarrow> ground v g (x_log s @ take i ext) u"
    "x_log s' = x_log s @ ext" "x_cache s' = x_cache s"
  shows "lawful v g s'"
  unfolding lawful_def
proof (intro conjI allI impI)
  fix h p t
  assume "map_of (x_cache s') h = Some (p, t)"
  then obtain j where j: "j < length (x_log s)" "x_log s ! j = RobotsGet h" "p = robots_verdict g (v_robots v (take j (x_log s)) h)"
    using assms(1,4) unfolding lawful_def by metis
  then show "\<exists>j < length (x_log s'). x_log s' ! j = RobotsGet h \<and> p = robots_verdict g (v_robots v (take j (x_log s')) h)"
    by (intro exI[of _ j]) (simp add: assms(3) nth_append)
next
  fix i u
  assume i: "i < length (x_log s')" "x_log s' ! i = PageGet u"
  show "ground v g (take i (x_log s')) u"
  proof (cases "i < length (x_log s)")
    case True
    then show ?thesis using i assms(1) by (simp add: lawful_def assms(3) nth_append)
  next
    case False
    then have "ext ! (i - length (x_log s)) = PageGet u" "i - length (x_log s) < length ext"
      using i by (auto simp: assms(3) nth_append)
    then show ?thesis using assms(2) False by (simp add: assms(3))
  qed
qed

lemma gate_parser_cases:
  assumes "gate_parser v g url s = (p, s1)"
  shows "(\<exists>t. map_of (x_cache s) (o_host g url) = Some (p, t) \<and> s1 = s)
    \<or> p = robots_verdict g (v_robots v (x_log s) (o_host g url))
      \<and> s1 = s\<lparr>x_log := x_log s @ [RobotsGet (o_host g url)],
          x_cache := (o_host g url, (p, v_now v (x_log s @ [RobotsGet (o_host g url)]))) # x_cache s\<rparr>"
proof (cases "map_of (x_cache s) (o_host g url)")
  case None
  then show ?thesis using assms by (auto simp: gate_parser_def Let_def)
next
  case (Some c)
  obtain q t where c: "c = (q, t)" by (cases c)
  show ?thesis using assms Some by (cases "v_now v (x_log s) - t < o_ttl g") (auto simp: gate_parser_def Let_def c)
qed

lemma gate_parser_lawful:
  assumes "gate_parser v g url s = (p, s1)" "lawful v g s"
  shows "lawful v g s1 \<and> (\<exists>j < length (x_log s1). x_log s1 ! j = RobotsGet (o_host g url)
      \<and> p = robots_verdict g (v_robots v (take j (x_log s1)) (o_host g url)))"
proof -
  let ?h = "o_host g url"
  let ?p = "robots_verdict g (v_robots v (x_log s) ?h)"
  let ?s1 = "s\<lparr>x_log := x_log s @ [RobotsGet ?h]\<rparr>"
  let ?s2 = "s\<lparr>x_log := x_log s @ [RobotsGet ?h], x_cache := (?h, (?p, v_now v (x_log s @ [RobotsGet ?h]))) # x_cache s\<rparr>"
  consider (hit) t where "map_of (x_cache s) ?h = Some (p, t)" "s1 = s" | (miss) "p = ?p" "s1 = ?s2"
    using gate_parser_cases[OF assms(1)] by blast
  then show ?thesis
  proof cases
    case hit
    have "\<exists>j < length (x_log s). x_log s ! j = RobotsGet ?h \<and> p = robots_verdict g (v_robots v (take j (x_log s)) ?h)"
      using conjunct1[OF assms(2)[unfolded lawful_def], rule_format, OF hit(1)] .
    then show ?thesis using assms(2) unfolding hit(2) by (rule conjI[rotated])
  next
    case miss
    have l: "lawful v g ?s1" by (rule lawful_append[OF assms(2), of "[RobotsGet ?h]"]) auto
    have now: "\<exists>j < length (x_log ?s2). x_log ?s2 ! j = RobotsGet ?h \<and> ?p = robots_verdict g (v_robots v (take j (x_log ?s2)) ?h)"
      by (intro exI[of _ "length (x_log s)"]) simp
    have "lawful v g ?s2"
      unfolding lawful_def
    proof (intro conjI allI impI)
      fix h p t
      assume m: "map_of (x_cache ?s2) h = Some (p, t)"
      show "\<exists>j < length (x_log ?s2). x_log ?s2 ! j = RobotsGet h \<and> p = robots_verdict g (v_robots v (take j (x_log ?s2)) h)"
      proof (cases "h = ?h")
        case True
        then show ?thesis using m now by simp
      next
        case False
        then show ?thesis using m l unfolding lawful_def by simp
      qed
    next
      fix i u
      assume "i < length (x_log ?s2)" "x_log ?s2 ! i = PageGet u"
      then show "ground v g (take i (x_log ?s2)) u" using l unfolding lawful_def by simp
    qed
    then show ?thesis using now miss by simp
  qed
qed

lemma gate_allowed_lawful:
  assumes "gate_allowed v g url s = (ok, s1)" "lawful v g s"
  shows "lawful v g s1 \<and> (ok \<longrightarrow> ground v g (x_log s1) url)"
proof -
  obtain p s0 where p: "gate_parser v g url s = (p, s0)" by fastforce
  then have s1: "s1 = s0\<lparr>x_log := x_log s0 @ [Asked url ok]\<rparr>"
    "ok = (case p of None \<Rightarrow> False | Some r \<Rightarrow> o_can_fetch g r (o_agent g) url)"
    using assms(1) by (auto simp: gate_allowed_def Let_def)
  note l = gate_parser_lawful[OF p assms(2)]
  have "lawful v g s1" by (rule lawful_append[OF conjunct1[OF l], of "[Asked url ok]"]) (auto simp: s1)
  moreover have "ok \<Longrightarrow> ground v g (x_log s0) url"
    using l s1(2) unfolding ground_def by (auto split: option.splits)
  ultimately show ?thesis using ground_append[of v g "x_log s0" url "[Asked url ok]"] by (auto simp: s1(1))
qed

lemma get_page_lawful:
  assumes "get_page v url s = (r, s1)" "lawful v g s" "ground v g (x_log s) url"
  shows "lawful v g s1"
proof -
  obtain k waits where e: "x_log s1 = x_log s @ replicate k (PageGet url)" "x_cache s1 = x_cache s"
    using assms(1) by (auto simp: get_page_def split: prod.splits)
  show ?thesis
    by (rule lawful_append[OF assms(2) _ e]) (use assms(3) in \<open>auto intro: ground_append\<close>)
qed

lemma pause_lawful: "lawful v g s \<Longrightarrow> lawful v g (pause v g d url s)"
proof -
  assume l: "lawful v g s"
  obtain p s1 where p: "gate_parser v g url s = (p, s1)" by fastforce
  then show "lawful v g (pause v g d url s)"
    using gate_parser_lawful[OF p l] by (simp add: pause_def gate_delay_def lawful_def)
qed

lemma enrich_lawful:
  "enrich_detail v g cfg parse ps s = (qs, s') \<Longrightarrow> lawful v g s \<Longrightarrow> lawful v g s'"
proof (induction ps arbitrary: s qs s')
  case (Cons p ps)
  obtain ok s1 where a: "gate_allowed v g (bp_url p) s = (ok, s1)" by fastforce
  note l1 = gate_allowed_lawful[OF a Cons.prems(2)]
  obtain r s2 where r: "get_page v (bp_url p) s1 = (r, s2)" by fastforce
  define s3 where "s3 = (if \<not> ok then s1 else case r of Inl e \<Rightarrow> s2 | Inr html \<Rightarrow> pause v g (f_pause cfg) (bp_url p) s2)"
  have l3: "lawful v g s3"
    using l1 get_page_lawful[OF r, of g] pause_lawful[of v g s2] by (auto simp: s3_def split: sum.splits)
  obtain ps' s'' where e: "enrich_detail v g cfg parse ps s3 = (ps', s'')" by fastforce
  then have "s' = s''" using Cons.prems(1) a r by (auto simp: s3_def Let_def split: if_splits sum.splits)
  then show ?case using Cons.IH[OF e l3] by simp
qed simp

lemma pages_lawful:
  "crawl_pages v g cfg n i s = (x, s') \<Longrightarrow> lawful v g s \<Longrightarrow> lawful v g s'"
proof (induction n arbitrary: i s x s')
  case (Suc n)
  obtain ok s1 where a: "gate_allowed v g (page_url cfg i) s = (ok, s1)" by fastforce
  note l1 = gate_allowed_lawful[OF a Suc.prems(2)]
  obtain r s2 where r: "get_page v (page_url cfg i) s1 = (r, s2)" by fastforce
  show ?case
  proof (cases "\<exists>html. ok \<and> r = Inr html \<and> f_rows cfg html (page_url cfg i) \<noteq> []")
    case True
    then have "lawful v g s2" using get_page_lawful[OF r, of g] l1 by blast
    then have l3: "lawful v g (pause v g (f_pause cfg) (page_url cfg i) s2)" by (rule pause_lawful)
    obtain y s3 where e: "crawl_pages v g cfg n (Suc i) (pause v g (f_pause cfg) (page_url cfg i) s2) = (y, s3)" by fastforce
    then have "s' = s3" using Suc.prems(1) a r True by (auto simp: Let_def split: prod.splits)
    then show ?thesis using Suc.IH[OF e l3] by simp
  next
    case False
    then have "s' = s1 \<or> ok \<and> s' = s2"
      using Suc.prems(1) a r by (auto simp: Let_def split: bool.splits sum.splits)
    then show ?thesis using l1 get_page_lawful[OF r, of g] by blast
  qed
qed simp

definition fresh_gate :: "'p crawl_state" where
  "fresh_gate = \<lparr>x_cache = [], x_log = [], x_slept = []\<rparr>"

lemma fresh_lawful: "lawful v g fresh_gate"
  by (simp add: lawful_def fresh_gate_def)


definition open_web :: web where
  "open_web = \<lparr>v_robots = (\<lambda>_ _. HttpAnswer 404 ''''), v_page = (\<lambda>_ _ _. HttpAnswer 200 ''page''), v_now = (\<lambda>l. of_nat (length l)),
     v_jitter = (\<lambda>_. 0)\<rparr>"

definition open_robots :: "unit robots" where
  "open_robots = \<lparr>o_parse = (\<lambda>_. ()), o_can_fetch = (\<lambda>_ _ _. True), o_delay = (\<lambda>_ _. None), o_host = (\<lambda>_. ''host''),
     o_agent = ''bot'', o_ttl = 3600\<rparr>"

definition one_page :: board_config where
  "one_page = \<lparr>f_name = ''b'', f_system = ''s'', f_base_url = ''u'', f_list_url = ''list'', f_rows = (\<lambda>_ _. []), f_max_pages = 1,
     f_pause = 1, f_detail = None\<rparr>"

lemma one_page_url: "page_url one_page n = ''list''"
  by (simp add: page_url_def one_page_def replace_all_absent)

lemma one_get: "get_page open_web url s = (Inr ''page'', s\<lparr>x_log := x_log s @ [PageGet url]\<rparr>)"
  by (simp add: get_page_def http_get_text_def open_web_def judge_answer_def transient_def numeral_eq_Suc)

lemma one_ask: "\<exists>c. gate_allowed open_web open_robots url fresh_gate =
    (True, \<lparr>x_cache = c, x_log = [RobotsGet ''host'', Asked url True], x_slept = []\<rparr>)"
proof -
  have p: "py_strip [] = []" by (simp add: py_strip_def py_lstrip_def py_rstrip_def)
  show ?thesis
    by (simp add: gate_allowed_def gate_parser_def open_robots_def open_web_def fresh_gate_def robots_verdict_def p Let_def)
qed

lemma one_page_crawl:
  "x_log (snd (crawl_board open_web open_robots one_page True fresh_gate)) = [RobotsGet ''host'', Asked ''list'' True, PageGet ''list'']"
proof -
  obtain c where a: "gate_allowed open_web open_robots ''list'' fresh_gate =
      (True, \<lparr>x_cache = c, x_log = [RobotsGet ''host'', Asked ''list'' True], x_slept = []\<rparr>)" using one_ask by blast
  have f: "f_max_pages one_page = Suc 0" "f_detail one_page = None" "\<And>h u. f_rows one_page h u = []" by (simp_all add: one_page_def)
  show ?thesis unfolding crawl_board_def f(1,2) by (simp add: one_page_url a one_get f Let_def)
qed


text \<open>the gate's answers on the first question about a host: no page may be fetched when robots.txt
  cannot be fetched or is answered with 401 or 403; rules in a 200 answer decide by themselves; every
  other answer - a missing or empty file, but also a server error such as 503, which the module
  would have called unknown and refused - lets everything be fetched.\<close>

theorem robots_policy:
  assumes "\<And>u. o_can_fetch g (o_parse g '''') (o_agent g) u"
  shows "fst (gate_allowed v g url fresh_gate) =
    (case v_robots v [] (o_host g url) of
       HttpAnswer status text \<Rightarrow>
         status \<notin> {401, 403} \<and> (status = 200 \<and> py_strip text \<noteq> '''' \<longrightarrow> o_can_fetch g (o_parse g text) (o_agent g) url)
     | _ \<Rightarrow> False)"
  using assms
  by (cases "v_robots v [] (o_host g url)")
    (auto simp: gate_allowed_def gate_parser_def fresh_gate_def robots_verdict_def Let_def)

lemma robots_policy_witness:
  "fst (gate_allowed (open_web\<lparr>v_robots := (\<lambda>_ _. HttpAnswer 503 '''')\<rparr>) open_robots ''list'' fresh_gate)"
  using robots_policy[of open_robots "open_web\<lparr>v_robots := (\<lambda>_ _. HttpAnswer 503 '''')\<rparr>" "''list''"]
  by (simp add: open_robots_def)

section \<open>What a crawl returns\<close>

definition page_gets :: "access list \<Rightarrow> nat" where
  "page_gets l = length (filter (\<lambda>a. case a of PageGet _ \<Rightarrow> True | _ \<Rightarrow> False) l)"

lemma page_gets_append [simp]: "page_gets (a @ b) = page_gets a + page_gets b" "page_gets [] = 0"
  "page_gets [RobotsGet h] = 0" "page_gets [Asked u ok] = 0" "page_gets (replicate k (PageGet u)) = k"
  by (simp_all add: page_gets_def)

lemma gate_parser_gets: "page_gets (x_log (snd (gate_parser v g url s))) = page_gets (x_log s)"
proof -
  obtain p s1 where "gate_parser v g url s = (p, s1)" by fastforce
  then show ?thesis using gate_parser_cases[of v g url s p s1] by auto
qed

lemma gate_allowed_gets: "gate_allowed v g url s = (ok, s1) \<Longrightarrow> page_gets (x_log s1) = page_gets (x_log s)"
  using gate_parser_gets[of v g url s] by (auto simp: gate_allowed_def Let_def split: prod.splits)

lemma pause_gets: "page_gets (x_log (pause v g d url s)) = page_gets (x_log s)"
  using gate_parser_gets[of v g url s] by (auto simp: pause_def gate_delay_def split: prod.splits)

lemma get_page_gets:
  assumes "get_page v url s = (r, s1)"
  shows "page_gets (x_log s1) \<le> page_gets (x_log s) + 4"
proof -
  obtain r' k waits where h: "http_get_text (v_page v (x_log s) url) (v_jitter v) 1 3 = (r', k, waits)" by (metis prod_cases3)
  have "k \<le> 4" using fetch_loop_bounds[OF h[unfolded http_get_text_def]] by simp
  then show ?thesis using assms h by (auto simp: get_page_def)
qed

lemma enrich_spec:
  "enrich_detail v g cfg parse ps s = (qs, s') \<Longrightarrow>
     map bp_url qs = map bp_url ps \<and> map bp_title qs = map bp_title ps \<and> page_gets (x_log s') \<le> page_gets (x_log s) + 4 * length ps"
proof (induction ps arbitrary: s qs s')
  case (Cons p ps)
  obtain ok s1 where a: "gate_allowed v g (bp_url p) s = (ok, s1)" by fastforce
  obtain r s2 where r: "get_page v (bp_url p) s1 = (r, s2)" by fastforce
  define s3 where "s3 = (if \<not> ok then s1 else case r of Inl e \<Rightarrow> s2 | Inr html \<Rightarrow> pause v g (f_pause cfg) (bp_url p) s2)"
  have n: "page_gets (x_log s3) \<le> page_gets (x_log s) + 4"
    using gate_allowed_gets[OF a] get_page_gets[OF r] pause_gets[of v g "f_pause cfg" "bp_url p" s2]
    by (auto simp: s3_def split: sum.splits)
  obtain ps' s'' where e: "enrich_detail v g cfg parse ps s3 = (ps', s'')" by fastforce
  obtain p' where q: "qs = p' # ps'" "s' = s''" "bp_url p' = bp_url p" "bp_title p' = bp_title p"
    using Cons.prems a r e by (auto simp: s3_def Let_def merge_detail_def split: if_splits sum.splits)
  then show ?case using Cons.IH[OF e] n by auto
qed simp

lemma pages_spec:
  "crawl_pages v g cfg n i s = ((posts, pages, blocked), s') \<Longrightarrow>
     pages \<le> n \<and> page_gets (x_log s') \<le> page_gets (x_log s) + 4 * n"
proof (induction n arbitrary: i s posts pages blocked s')
  case (Suc n)
  let ?u = "page_url cfg i"
  obtain ok s1 where a: "gate_allowed v g ?u s = (ok, s1)" by fastforce
  obtain r s2 where r: "get_page v ?u s1 = (r, s2)" by fastforce
  note n = gate_allowed_gets[OF a] get_page_gets[OF r]
  show ?case
  proof (cases "\<exists>html. ok \<and> r = Inr html \<and> f_rows cfg html ?u \<noteq> []")
    case True
    obtain po pa b s3 where e: "crawl_pages v g cfg n (Suc i) (pause v g (f_pause cfg) ?u s2) = ((po, pa, b), s3)"
      by (metis prod_cases3 prod.exhaust)
    then have "s' = s3" "pages = Suc pa" using Suc.prems a r True by (auto simp: Let_def)
    then show ?thesis using Suc.IH[OF e] n pause_gets[of v g "f_pause cfg" ?u s2] by auto
  next
    case False
    then have "pages = 0 \<and> (s' = s1 \<or> s' = s2)"
      using Suc.prems a r by (auto simp: Let_def split: bool.splits sum.splits)
    then show ?thesis using n by auto
  qed
qed simp

lemma uniq_posts_spec:
  "distinct (map bp_url (uniq_posts seen ps)) \<and> set (map bp_url (uniq_posts seen ps)) \<inter> seen = {}
   \<and> set (map bp_url (uniq_posts seen ps)) = set (map bp_url ps) - seen"
  by (induction ps arbitrary: seen) (auto 4 4)

lemma crawl_facts:
  assumes "crawl_board v g cfg fetch_details fresh_gate = (r, s')"
  shows "y_pages r \<le> f_max_pages cfg \<and> page_gets (x_log s') \<le> 4 * (f_max_pages cfg + y_gayoje r)
    \<and> distinct (map bp_url (y_posts r)) \<and> (\<forall>t \<in> set (map bp_title (y_posts r)). is_gayoje (Some t))
    \<and> y_gayoje r = length (y_posts r) \<and> y_gayoje r \<le> y_crawled r"
proof -
  obtain posts pages blocked s1 where c: "crawl_pages v g cfg (f_max_pages cfg) 1 fresh_gate = ((posts, pages, blocked), s1)"
    by (metis prod_cases3 prod.exhaust)
  define sel where "sel = filter (\<lambda>p. is_gayoje (Some (bp_title p))) (uniq_posts {} posts)"
  define out where "out = (case f_detail cfg of
                 Some parse \<Rightarrow> if fetch_details then enrich_detail v g cfg parse sel s1 else (sel, s1)
               | None \<Rightarrow> (sel, s1))"
  have o: "map bp_url (fst out) = map bp_url sel \<and> map bp_title (fst out) = map bp_title sel
      \<and> page_gets (x_log (snd out)) \<le> page_gets (x_log s1) + 4 * length sel"
  proof (cases "\<exists>parse. f_detail cfg = Some parse \<and> fetch_details")
    case True
    then obtain parse where "out = enrich_detail v g cfg parse sel s1" by (auto simp: out_def)
    then show ?thesis using enrich_spec[of v g cfg parse sel s1 "fst out" "snd out"] by simp
  next
    case False
    then have "out = (sel, s1)" by (auto simp: out_def split: option.splits)
    then show ?thesis by simp
  qed
  have r: "r = \<lparr>y_board = f_name cfg, y_system = f_system cfg, y_crawled = length (uniq_posts {} posts), y_gayoje = length (fst out),
               y_pages = pages, y_blocked = blocked, y_posts = fst out\<rparr> \<and> s' = snd out"
    using assms c unfolding crawl_board_def out_def sel_def by (auto simp: Let_def split: prod.splits)
  have len: "length (fst out) = length sel" using arg_cong[OF conjunct1[OF o], of length] by simp
  have "distinct (map bp_url sel)"
    using uniq_posts_spec[of "{}" posts] by (simp add: sel_def distinct_map_filter)
  moreover have "\<forall>t \<in> set (map bp_title sel). is_gayoje (Some t)" by (auto simp: sel_def)
  moreover have "length sel \<le> length (uniq_posts {} posts)" by (simp add: sel_def)
  moreover have "pages \<le> f_max_pages cfg \<and> page_gets (x_log s1) \<le> 4 * f_max_pages cfg"
    using pages_spec[OF c] by (simp add: fresh_gate_def)
  ultimately show ?thesis using r o len by simp
qed

text \<open>a crawl reads at most max_pages list pages and makes, retries included, at most four requests
  for each of them and for each selected post; the posts it returns have distinct addresses
  and titles of song contests, their number is the reported one and at most the number of
  posts seen.\<close>

theorem crawl_bounds:
  assumes "crawl_board v g cfg fetch_details fresh_gate = (r, s')"
  shows "y_pages r \<le> f_max_pages cfg \<and> page_gets (x_log s') \<le> 4 * (f_max_pages cfg + y_gayoje r)
    \<and> distinct (map bp_url (y_posts r)) \<and> (\<forall>t \<in> set (map bp_title (y_posts r)). is_gayoje (Some t))
    \<and> y_gayoje r = length (y_posts r) \<and> y_gayoje r \<le> y_crawled r"
  by (rule crawl_facts[OF assms])

lemma crawl_bounds_witness:
  "\<exists>r s'. crawl_board open_web open_robots one_page True fresh_gate = (r, s') \<and> y_pages r \<le> 1"
proof -
  obtain r s' where c: "crawl_board open_web open_robots one_page True fresh_gate = (r, s')" by fastforce
  then show ?thesis using crawl_bounds[OF c] by (auto simp: one_page_def)
qed

end
