(* ===== verification/Boards.thy ===== *)
theory Boards
  imports Crawler
begin

text \<open>
  The municipal boards: the parsers of their detail pages (crawlers/detail.py) and the
  catalogue (crawlers/catalog.py) under src/app/api/v1/ingestion/. \<open>ud\<close> is the length of a digit
  outside ASCII, \<open>udec\<close> int() of digits.
\<close>

section \<open>Texts and dates\<close>

definition detail_entities :: "(string \<times> string) list" where
  "detail_entities = [(''&nbsp;'', '' ''), (''&amp;'', ''&''), (''&lt;'', ''<''), (''&gt;'', ''>''),
     (''&quot;'', dquote), (''&#39;'', [quote]), (''&apos;'', [quote])]"

definition page_text :: "string \<Rightarrow> string" where
  "page_text fragment = squeeze (unescape_with detail_entities (re_sub tag_re '' '' fragment))"

definition pad_zero :: "nat \<Rightarrow> nat \<Rightarrow> string" where
  "pad_zero w n = replicate (w - length (dec_nat n)) (CHR ''0'') @ dec_nat n"

definition iso_date :: "nat \<Rightarrow> nat \<Rightarrow> nat \<Rightarrow> string" where
  "iso_date y m d = pad_zero 4 y @ ''-'' @ pad_zero 2 m @ ''-'' @ pad_zero 2 d"

definition iso_of :: "(string \<Rightarrow> nat) \<Rightarrow> string \<Rightarrow> string \<Rightarrow> string \<Rightarrow> string" where
  "iso_of udec y m d = iso_date (udec y) (udec m) (udec d)"

definition clean_chars :: "string list" where
  "clean_chars = ['' '', bytes [194, 160], [CHR 0x09], [cr], [nl], '':'', bytes [194, 183], ''-'']"

definition strip_chars :: "string list \<Rightarrow> string \<Rightarrow> string" where
  "strip_chars cs s = rev (strip_front (map rev cs) (rev (strip_front cs s)))"

definition clean_val :: "string \<Rightarrow> string" where
  "clean_val s = strip_chars clean_chars (re_sub spaces_re '' '' s)"

section \<open>Patterns\<close>

definition not_gt :: re where "not_gt = none_of [''>'']"
definition spaces0 :: re where "spaces0 = star space"

definition text_end :: re where
  "text_end = RAhead (\<lambda>s. s = [] \<or> s = [nl])"

definition ymd :: "(string \<Rightarrow> nat) \<Rightarrow> nat \<Rightarrow> re \<Rightarrow> re" where
  "ymd ud n sep = seq [RGroup n (times 4 (digit ud)), sep, RGroup (n + 1) (between 1 2 (digit ud)), sep,
     RGroup (n + 2) (between 1 2 (digit ud))]"

definition dj_dl :: "string \<Rightarrow> re" where
  "dj_dl label = seq [ci ''<dt'', star not_gt, ci ''>'', opt (seq [ci ''<i'', star not_gt, ci ''></i>'']), spaces0, lit label, spaces0,
     ci ''</dt>'', spaces0, ci ''<dd'', star not_gt, ci ''>'', spaces0, RGroup 1 (lazy (none_of [''<''])), spaces0, ci ''</dd>'']"

definition dj_haengsa :: re where "dj_haengsa = dj_dl (bytes [237, 150, 137, 236, 130, 172, 236, 157, 188])"
definition dj_jangso :: re where "dj_jangso = dj_dl (bytes [236, 158, 165, 236, 134, 140])"

definition iso_re :: "(string \<Rightarrow> nat) \<Rightarrow> re" where
  "iso_re ud = ymd ud 1 (lit ''-'')"

definition colon :: re where "colon = one_of ['':'', bytes [239, 188, 154]]"

definition dot_spaces :: re where "dot_spaces = seq [lit ''.'', spaces0]"

definition dj_body_date :: "(string \<Rightarrow> nat) \<Rightarrow> re" where
  "dj_body_date ud = seq [alts [lit (bytes [236, 152, 136, 236, 132, 160]), lit (bytes [235, 179, 184, 236, 132, 160]), lit (bytes [234, 179, 181, 236, 151, 176]), lit (bytes [237, 150, 137, 236, 130, 172])], spaces0, lit (bytes [236, 157, 188, 236, 139, 156]),
     star (RSet (\<lambda>x. x \<notin> {'':'', bytes [239, 188, 154]} \<and> \<not> is_digit ud x)), opt colon, spaces0, ymd ud 1 dot_spaces]"

definition dj_host :: "(string \<Rightarrow> nat) \<Rightarrow> re" where
  "dj_host ud = seq [lit (bytes [235, 172, 184]), spaces0, lit (bytes [236, 157, 152]), spaces0, colon, spaces0,
     RGroup 1 (lazy_plus (RSet (\<lambda>x. x \<notin> {''<'', bytes [226, 152, 142], '','', [nl], ''(''} \<and> \<not> is_digit ud x))), spaces0,
     alts [lit (bytes [226, 152, 142]), lit ''('', lit ''<'', lit '','', seq [between 2 3 (digit ud), spaces0, lit ''-''], text_end]]"

definition hw_body :: re where
  "hw_body = seq [ci ''<td'', star not_gt, ci (''class='' @ dquote @ ''bbs_content'' @ dquote), star not_gt, lit ''>'',
     RGroup 1 (lazy any_char), ci ''</td>'']"

definition hw_subject :: re where
  "hw_subject = seq [ci (''<tr class='' @ dquote @ ''subject'' @ dquote), star not_gt, lit ''>'', lazy any_char,
     ci ''<td'', star not_gt, lit ''>'', RGroup 1 (lazy any_char), ci ''</td>'']"

definition year20 :: "(string \<Rightarrow> nat) \<Rightarrow> re" where
  "year20 ud = RGroup 1 (seq [lit ''20'', times 2 (digit ud)])"

definition dot_or_dash :: re where "dot_or_dash = one_of [''.'', ''-'']"

definition md_pair :: "(string \<Rightarrow> nat) \<Rightarrow> nat \<Rightarrow> re \<Rightarrow> re" where
  "md_pair ud n sep = seq [RGroup n (between 1 2 (digit ud)), sep, RGroup (n + 1) (between 1 2 (digit ud))]"

definition hw_write :: "(string \<Rightarrow> nat) \<Rightarrow> re" where
  "hw_write ud = seq [lit (bytes [236, 158, 145, 236, 132, 177, 236, 157, 188]), upto_times 6 (RSet (\<lambda>x. \<not> is_digit ud x)), year20 ud, dot_or_dash, md_pair ud 2 dot_or_dash]"

definition spaced :: "re \<Rightarrow> re" where "spaced r = seq [spaces0, r, spaces0]"

definition hw_abs :: "(string \<Rightarrow> nat) \<Rightarrow> re" where
  "hw_abs ud = seq [year20 ud, spaced dot_or_dash, md_pair ud 2 (spaced dot_or_dash)]"

definition hw_md :: "(string \<Rightarrow> nat) \<Rightarrow> re" where
  "hw_md ud = seq [RBehind (\<lambda>b. last_char b = [] \<or> \<not> is_digit ud (last_char b)), md_pair ud 1 (spaced dot_or_dash), spaces0, lit (bytes [236, 157, 188])]"

definition hw_mwd :: "(string \<Rightarrow> nat) \<Rightarrow> re" where
  "hw_mwd ud = seq [md_pair ud 1 (spaced (lit (bytes [236, 155, 148]))), spaces0, lit (bytes [236, 157, 188])]"

definition venue_char :: "string \<Rightarrow> bool" where
  "venue_char x = (hangul_at x \<noteq> 0 \<or> is_space x \<or> x = bytes [194, 183]
     \<or> (case x of [c] \<Rightarrow> ident_char c \<and> c \<noteq> CHR ''_'' | _ \<Rightarrow> False))"

definition hw_venue :: re where
  "hw_venue = seq [lit (bytes [236, 139, 156]), plus space, RGroup 1 (lazy_plus (RSet venue_char)), lit (bytes [236, 151, 144, 236, 132, 156])]"

definition hw_host :: re where
  "hw_host = RGroup 1 (seq [plus (RSet (\<lambda>x. hangul_at x \<noteq> 0)),
     alts [lit (bytes [236, 178, 173, 236, 134, 140, 235, 133, 132, 236, 136, 152, 235, 160, 168, 234, 180, 128]), lit (bytes [235, 172, 184, 237, 153, 148, 236, 158, 172, 235, 139, 168]), lit (bytes [235, 172, 184, 237, 153, 148, 236, 155, 144]), lit (bytes [236, 158, 172, 235, 139, 168]), lit (bytes [236, 139, 156, 236, 132, 164, 234, 180, 128, 235, 166, 172, 234, 179, 181, 235, 139, 168])]])"

definition ss_gigan :: re where
  "ss_gigan = seq [ci ''<dt>'', spaces0, lit (bytes [234, 184, 176, 234, 176, 132]), spaces0, ci ''</dt>'', spaces0, ci ''<dd>'', spaces0,
     RGroup 1 (lazy_plus (none_of [''<''])), spaces0, ci ''</dd>'']"

definition ss_date :: "(string \<Rightarrow> nat) \<Rightarrow> re" where
  "ss_date ud = ymd ud 1 (lit ''.'')"

definition ss_title :: re where
  "ss_title = seq [ci (''<p class='' @ dquote @ ''tit_26'' @ dquote @ ''>''), RGroup 1 (lazy any_char), ci ''</p>'']"

definition ss_bracket :: re where
  "ss_bracket = seq [lit ''['', RGroup 1 (plus (none_of ['']''])), lit '']'']"

definition ss_label :: "re \<Rightarrow> re" where
  "ss_label r = seq [r, spaces0, colon, spaces0, RGroup 1 (lazy_plus (none_of [bytes [226, 151, 139], bytes [226, 151, 135], ''<'', [nl]])), spaces0,
     alts [lit (bytes [226, 151, 139]), lit (bytes [226, 151, 135]), lit ''<'', lit [nl], text_end]]"

definition ss_venue :: re where "ss_venue = ss_label (seq [lit (bytes [236, 158, 165]), spaces0, lit (bytes [236, 134, 140])])"
definition ss_host :: re where "ss_host = ss_label (seq [lit (bytes [236, 163, 188]), spaces0, lit (bytes [236, 181, 156])])"

section \<open>Detail pages\<close>

type_synonym fields = "(string \<times> string) list"

definition put_dates :: "string \<Rightarrow> string \<Rightarrow> fields \<Rightarrow> fields" where
  "put_dates a b out = put_key ''end_date'' b (put_key ''start_date'' a out)"

definition found_dates :: "(string \<Rightarrow> nat) \<Rightarrow> re \<Rightarrow> string \<Rightarrow> string list" where
  "found_dates udec r s = map (\<lambda>m. iso_of udec (group 1 m) (group 2 m) (group 3 m)) (re_finditer r s)"

definition dongjak_dates :: "(string \<Rightarrow> nat) \<Rightarrow> (string \<Rightarrow> nat) \<Rightarrow> string \<Rightarrow> fields" where
  "dongjak_dates ud udec html =
     (let out = (case re_search dj_haengsa html of
                   None \<Rightarrow> []
                 | Some m \<Rightarrow> (let ds = found_dates udec (iso_re ud) (group 1 m)
                             in if ds = [] then [] else put_dates (hd ds) (last ds) []));
          body = sort (found_dates udec (dj_body_date ud) html)
      in if body = [] then out else put_dates (hd body) (last body) out)"

definition parse_detail_dongjak :: "(string \<Rightarrow> nat) \<Rightarrow> (string \<Rightarrow> nat) \<Rightarrow> string \<Rightarrow> fields" where
  "parse_detail_dongjak ud udec html =
     (let out = dongjak_dates ud udec html;
          out = (case re_search dj_jangso html of
                   Some v \<Rightarrow> if py_strip (group 1 v) \<noteq> '''' then put_key ''venue'' (clean_val (group 1 v)) out else out
                 | None \<Rightarrow> out)
      in (case re_search (dj_host ud) (page_text html) of
            Some h \<Rightarrow> put_key ''host_org'' (clean_val (group 1 h)) out
          | None \<Rightarrow> out))"

definition hw_year :: "(string \<Rightarrow> nat) \<Rightarrow> string \<Rightarrow> string \<Rightarrow> string option" where
  "hw_year ud html body =
     (case re_search (year20 ud) body of
        Some m \<Rightarrow> Some (group 1 m)
      | None \<Rightarrow>
          (case (case re_search hw_subject html of Some ms \<Rightarrow> re_search (year20 ud) (page_text (group 1 ms)) | None \<Rightarrow> None) of
             Some m \<Rightarrow> Some (group 1 m)
           | None \<Rightarrow> map_option (group 1) (re_search (hw_write ud) (page_text html))))"

definition photo_re :: re where
  "photo_re = seq [ci (''<div class='' @ dquote @ ''photo_area'' @ dquote), lazy any_char, ci ''</div>'']"

definition br_re :: re where
  "br_re = seq [ci ''<br'', spaces0, opt (lit ''/''), lit ''>'']"

definition hw_dates :: "(string \<Rightarrow> nat) \<Rightarrow> (string \<Rightarrow> nat) \<Rightarrow> string \<Rightarrow> string \<Rightarrow> fields" where
  "hw_dates ud udec html body =
     (case re_search (hw_abs ud) body of
        Some m \<Rightarrow> (let d = iso_of udec (group 1 m) (group 2 m) (group 3 m) in put_dates d d [])
      | None \<Rightarrow>
          (case (case re_search (hw_mwd ud) body of Some m \<Rightarrow> Some m | None \<Rightarrow> re_search (hw_md ud) body, hw_year ud html body) of
             (Some m, Some y) \<Rightarrow> (let d = iso_of udec y (group 1 m) (group 2 m) in put_dates d d [])
           | _ \<Rightarrow> []))"

definition parse_detail_hwacheon :: "(string \<Rightarrow> nat) \<Rightarrow> (string \<Rightarrow> nat) \<Rightarrow> string \<Rightarrow> fields" where
  "parse_detail_hwacheon ud udec html =
     (case re_search hw_body html of
        None \<Rightarrow> []
      | Some mb \<Rightarrow>
          let body = page_text (re_sub br_re [nl] (re_sub photo_re '' '' (group 1 mb)));
              out = hw_dates ud udec html body;
              out = (case re_search hw_venue body of
                       Some v \<Rightarrow> put_key ''venue'' (squeeze (group 1 v)) out | None \<Rightarrow> out)
          in (case re_search hw_host body of Some h \<Rightarrow> put_key ''host_org'' (group 1 h) out | None \<Rightarrow> out))"

text \<open>html.find: the text from there.\<close>

fun find_from :: "string \<Rightarrow> string \<Rightarrow> string option" where
  "find_from w [] = (if w = [] then Some [] else None)"
| "find_from w (c # cs) = (if starts_with w (c # cs) then Some (c # cs) else find_from w cs)"

definition sscmc_dates :: "(string \<Rightarrow> nat) \<Rightarrow> (string \<Rightarrow> nat) \<Rightarrow> string \<Rightarrow> fields" where
  "sscmc_dates ud udec html =
     (case re_search ss_gigan html of
        None \<Rightarrow> []
      | Some m \<Rightarrow> (let ds = found_dates udec (ss_date ud) (group 1 m)
                  in if ds = [] then [] else put_dates (hd ds) (last ds) []))"

definition parse_detail_sscmc :: "(string \<Rightarrow> nat) \<Rightarrow> (string \<Rightarrow> nat) \<Rightarrow> string \<Rightarrow> fields" where
  "parse_detail_sscmc ud udec html =
     (let out = sscmc_dates ud udec html;
          body = (case find_from ''board_content content_editor'' html of Some t \<Rightarrow> page_text (take_text 12000 t) | None \<Rightarrow> '''');
          out = (case re_search ss_venue body of
                   Some v \<Rightarrow> put_key ''venue'' (clean_val (group 1 v)) out
                 | None \<Rightarrow>
                     (case re_search ss_title html of
                        None \<Rightarrow> out
                      | Some mt \<Rightarrow>
                          (case re_search ss_bracket (page_text (group 1 mt)) of
                             Some b \<Rightarrow> put_key ''venue'' (clean_val (group 1 b)) out
                           | None \<Rightarrow> out)))
      in (case re_search ss_host body of Some h \<Rightarrow> put_key ''host_org'' (clean_val (group 1 h)) out | None \<Rightarrow> out))"

section \<open>The catalogue\<close>

text \<open>The parsers may depend on the parameters of the text functions, gathered here.\<close>

record text_env =
  te_digit :: "string \<Rightarrow> nat"
  te_dec :: "string \<Rightarrow> nat"
  te_word :: "string \<Rightarrow> bool"
  te_join :: "string \<Rightarrow> string \<Rightarrow> string"

definition board :: "string \<Rightarrow> string \<Rightarrow> string \<Rightarrow> string \<Rightarrow> row_parser \<Rightarrow> (string \<Rightarrow> fields) option \<Rightarrow> nat \<Rightarrow> board_config" where
  "board name system base url rows detail pages =
     \<lparr>f_name = name, f_system = system, f_base_url = base, f_list_url = url, f_rows = rows, f_max_pages = pages,
      f_pause = 1, f_detail = map_option (\<lambda>d html. Some (d html)) detail\<rparr>"

definition board_configs :: "text_env \<Rightarrow> board_config list" where
  "board_configs te =
     (let ud = te_digit te; dec = te_dec te; join = te_join te; egov = egovframe_rows ud (te_word te) join
      in [board ''dongjak_culture'' ''egov:dongjak'' ''https://www.dongjak.go.kr''
            ''https://www.dongjak.go.kr/portal/bbs/B0000173/list.do?menuNo=201030&pageIndex={page}''
            egov (Some (parse_detail_dongjak ud dec)) 15,
          board ''hwacheon_youth'' ''egov:hwacheon'' ''https://www.ihc.go.kr''
            ''https://www.ihc.go.kr/hcyc/selectBbsNttList.do?bbsNo=6&key=598&pageIndex={page}''
            egov (Some (parse_detail_hwacheon ud dec)) 8,
          board ''sscmc_events'' ''egov:sscmc'' ''https://cs.sscmc.or.kr''
            ''https://cs.sscmc.or.kr/sdmcs/11?action=list&page={page}''
            (sscmc_rows ud join) (Some (parse_detail_sscmc ud dec)) 5,
          board ''gunsan_arts'' ''egov:gunsan'' ''https://www.gunsan.go.kr''
            ''https://www.gunsan.go.kr/arts/m1528/list?s_idx={page}'' (gunsan_rows ud join) None 3,
          board ''jangheung_notice'' ''egov:jangheung'' ''http://art.jangheung.go.kr''
            ''http://art.jangheung.go.kr/art/community/notice?page={page}'' (query_idx_rows ud join) None 3])"

definition get_board :: "text_env \<Rightarrow> string \<Rightarrow> board_config option" where
  "get_board te name = find (\<lambda>c. f_name c = name) (board_configs te)"

definition list_boards :: "text_env \<Rightarrow> string list" where
  "list_boards te = map f_name (board_configs te)"

section \<open>Dates of detail pages\<close>

definition digit_char :: "nat \<Rightarrow> char" where
  "digit_char n = char_of (48 + n)"

lemma digit_char [simp]: "n < 10 \<Longrightarrow> digit_of (digit_char n) = n" "n < 10 \<Longrightarrow> ascii_digit (digit_char n)"
  by (simp_all add: digit_char_def digit_of_def ascii_digit_def of_char_of)

lemma digit_char_eq: "m < 10 \<Longrightarrow> n < 10 \<Longrightarrow> digit_char m = digit_char n \<longleftrightarrow> m = n"
  using digit_char(1) by metis

lemma dec_small: "n < 10 \<Longrightarrow> dec_nat n = [digit_char n]"
  by (simp add: dec_nat.simps[of n] digit_char_def)

lemma dec_step: "\<not> n < 10 \<Longrightarrow> dec_nat n = dec_nat (n div 10) @ [digit_char (n mod 10)]"
  by (simp add: dec_nat.simps[of n] digit_char_def)

lemma zero_char: "CHR ''0'' = digit_char 0" "CHR ''1'' = digit_char 1" "CHR ''3'' = digit_char 3"
  by code_simp+

lemma pad2: "n < 100 \<Longrightarrow> pad_zero 2 n = [digit_char (n div 10), digit_char (n mod 10)]"
  by (cases "n < 10") (simp_all add: pad_zero_def dec_small dec_step zero_char numeral_2_eq_2)

lemma dec_length: "n < 10 ^ Suc k \<Longrightarrow> length (dec_nat n) \<le> Suc k"
proof (induction k arbitrary: n)
  case (Suc k)
  show ?case
  proof (cases "n < 10")
    case False
    have "n div 10 < 10 ^ Suc k" using Suc.prems by (simp add: less_mult_imp_div_less mult.commute)
    then show ?thesis using Suc.IH[of "n div 10"] dec_step[OF False] by simp
  qed (simp add: dec_small)
qed (simp add: dec_small)

lemma dec_digits: "list_all ascii_digit (dec_nat n)"
proof (induction n rule: dec_nat.induct)
  case (1 n)
  then show ?case by (cases "n < 10") (simp_all add: dec_small dec_step)
qed

lemma parse_dec_zeros: "parse_dec (replicate k (CHR ''0'') @ s) = parse_dec s"
  by (induction k) (simp_all add: parse_dec_def)

lemma pad_year: 
  assumes "y \<le> 9999"
  shows "length (pad_zero 4 y) = 4" "list_all ascii_digit (pad_zero 4 y)" "parse_dec (pad_zero 4 y) = y"
proof -
  have "length (dec_nat y) \<le> Suc 3" by (rule dec_length) (use assms in simp)
  then show "length (pad_zero 4 y) = 4" by (simp add: pad_zero_def)
  show "list_all ascii_digit (pad_zero 4 y)" using dec_digits[of y] by (auto simp: pad_zero_def list_all_iff zero_char)
  show "parse_dec (pad_zero 4 y) = y" by (simp add: pad_zero_def parse_dec_zeros)
qed

lemma month_first: "1 \<le> m \<Longrightarrow> m \<le> 12 \<Longrightarrow> \<exists>ms. month_alts (pad_zero 2 m @ r) = (m, r) # ms"
proof -
  assume m: "1 \<le> m" "m \<le> 12"
  have "m < 10 \<or> m div 10 = 1 \<and> m mod 10 \<le> 2" using m by presburger
  then consider "m < 10" | "m div 10 = 1" "m mod 10 \<le> 2" by blast
  then show ?thesis
  proof cases
    case 1
    then have "m div 10 = 0" "m mod 10 = m" by auto
    then show ?thesis using 1 m pad2[of m] by (simp add: month_alts_def two_digits_def digit_in_def zero_char digit_char_eq)
  next
    case 2
    then have "10 + m mod 10 = m" using m by arith
    then show ?thesis using 2 m pad2[of m] by (simp add: month_alts_def two_digits_def digit_in_def zero_char)
  qed
qed

lemma day_first: "1 \<le> d \<Longrightarrow> d \<le> 31 \<Longrightarrow> \<exists>ds. day_alts (pad_zero 2 d) = (d, []) # ds"
proof -
  assume d: "1 \<le> d" "d \<le> 31"
  have e: "10 * (d div 10) + d mod 10 = d" by simp
  have "d div 10 = 0 \<and> d mod 10 = d \<and> d \<le> 9 \<or> d div 10 = 1 \<or> d div 10 = 2 \<or> d div 10 = 3 \<and> d mod 10 \<le> 1"
    using d by presburger
  then show ?thesis
    using d e pad2[of d]
    by (elim disjE conjE) (simp_all add: day_alts_def two_digits_def digit_in_def zero_char digit_char_eq)
qed

lemma digit_no_space_ends: "list_all (\<lambda>w. \<not> ascii_digit (hd w) \<and> \<not> ascii_digit (last w)) py_ws"
  by code_simp

lemma strip_digits:
  assumes "s \<noteq> []" "ascii_digit (hd s)" "ascii_digit (last s)"
  shows "py_strip s = s"
proof -
  have "list_all (\<lambda>w. hd w \<noteq> hd s \<and> last w \<noteq> last s) py_ws"
    using digit_no_space_ends assms(2,3) by (auto simp: list_all_iff)
  then show ?thesis by (rule py_strip_ends[OF assms(1)])
qed

lemma iso_chars: "y \<le> 9999 \<Longrightarrow> c \<in> set (iso_date y m d) \<Longrightarrow> ascii_digit c \<or> c = CHR ''-''"
  using dec_digits[of m] dec_digits[of d] dec_digits[of y]
  by (auto simp: iso_date_def pad_zero_def list_all_iff zero_char)

lemma iso_strptime:
  assumes "valid_date (y, m, d)"
  shows "strptime True (iso_date y m d) = Some (y, m, d)"
proof -
  have v: "y \<le> 9999" "1 \<le> m" "m \<le> 12" "1 \<le> d" "d \<le> 31"
    using assms by (auto simp: valid_date_def days_in_def split: if_splits)
  note py = pad_year[OF v(1)]
  have ya: "year_at (iso_date y m d) = Some (y, ''-'' @ pad_zero 2 m @ ''-'' @ pad_zero 2 d)"
    using py by (simp add: year_at_def iso_date_def)
  obtain ms where ms: "month_alts (pad_zero 2 m @ ''-'' @ pad_zero 2 d) = (m, ''-'' @ pad_zero 2 d) # ms"
    using month_first[OF v(2,3)] by blast
  obtain ds where ds: "day_alts (pad_zero 2 d) = (d, []) # ds" using day_first[OF v(4,5)] by blast
  have "\<exists>rest. strptime_match True (iso_date y m d) = ((y, m, d), []) # rest"
    using ms ds by (simp add: strptime_match_def ya skip_dash_def)
  then show ?thesis using assms by (auto simp: strptime_def)
qed

lemma iso_read_back:
  assumes "valid_date (y, m, d)"
  shows "parse_date (Some (iso_date y m d)) = Some (y, m, d)"
proof -
  have v: "y \<le> 9999" "d < 100" using assms by (auto simp: valid_date_def days_in_def split: if_splits)
  have ne: "iso_date y m d \<noteq> []" by (simp add: iso_date_def)
  have "pad_zero 4 y \<noteq> []" using pad_year(1)[OF v(1)] by auto
  then have "ascii_digit (hd (iso_date y m d))" using pad_year(2)[OF v(1)]
    by (cases "pad_zero 4 y") (simp_all add: iso_date_def)
  moreover have "ascii_digit (last (iso_date y m d))" using pad2[OF v(2)] by (simp add: iso_date_def)
  ultimately have s: "py_strip (iso_date y m d) = iso_date y m d" by (rule strip_digits[OF ne])
  have "\<not> ascii_digit (CHR ''.'')" "\<not> ascii_digit (CHR ''/'')" by code_simp+
  then have "map (\<lambda>c. if c = CHR ''.'' \<or> c = CHR ''/'' then CHR ''-'' else c) (iso_date y m d) = iso_date y m d"
    using iso_chars[OF v(1)] by (intro map_idI) auto
  then show ?thesis using iso_strptime[OF assms] ne by (auto simp: parse_date_def or_none_def s split: list.splits)
qed

text \<open>Both dates or none, each in the form of iso_date.\<close>

definition dated :: "fields \<Rightarrow> bool" where
  "dated f \<longleftrightarrow> (map_of f ''start_date'' = None \<longleftrightarrow> map_of f ''end_date'' = None)
     \<and> (\<forall>s. map_of f ''start_date'' = Some s \<or> map_of f ''end_date'' = Some s \<longrightarrow> (\<exists>y m d. s = iso_date y m d))"

lemma dated_Nil: "dated []" by (simp add: dated_def)

lemma dated_put: "dated f \<Longrightarrow> k \<noteq> ''start_date'' \<Longrightarrow> k \<noteq> ''end_date'' \<Longrightarrow> dated (put_key k v f)"
  by (simp add: dated_def map_of_put_key)

lemma dated_dates: "\<exists>y m d. a = iso_date y m d \<Longrightarrow> \<exists>y m d. b = iso_date y m d \<Longrightarrow> dated (put_dates a b f)"
  by (auto simp: dated_def put_dates_def map_of_put_key)

lemma found_iso: "s \<in> set (found_dates udec r t) \<Longrightarrow> \<exists>y m d. s = iso_date y m d"
  by (auto simp: found_dates_def iso_of_def)

lemma dongjak_dated: "dated (dongjak_dates ud udec html)"
proof -
  have found: "ds = found_dates udec r t \<Longrightarrow> ds \<noteq> [] \<Longrightarrow> dated (put_dates (hd ds) (last ds) f)" for ds r t f
    by (rule dated_dates) (use found_iso in \<open>metis hd_in_set, metis last_in_set\<close>)
  have srt: "ds = sort (found_dates udec r t) \<Longrightarrow> ds \<noteq> [] \<Longrightarrow> dated (put_dates (hd ds) (last ds) f)" for ds r t f
    by (rule dated_dates) (use found_iso in \<open>metis hd_in_set set_sort, metis last_in_set set_sort\<close>)
  show ?thesis
    by (auto simp: dongjak_dates_def Let_def dated_Nil found srt split: option.splits)
qed

text \<open>the dates of detail pages survive the store: whatever the page, each of the three parsers
  gives a start and an end date together or neither, both written as year, month and day with
  leading zeros; and every calendar date written so is read back as the same date when the post
  is stored.\<close>

theorem detail_dates:
  "dated (parse_detail_dongjak ud udec html) \<and> dated (parse_detail_hwacheon ud udec html) \<and> dated (parse_detail_sscmc ud udec html)
   \<and> (valid_date (y, m, d) \<longrightarrow> parse_date (Some (iso_date y m d)) = Some (y, m, d))"
proof (intro conjI impI)
  show "dated (parse_detail_dongjak ud udec html)"
    by (auto simp: parse_detail_dongjak_def Let_def intro!: dated_put dongjak_dated split: option.splits)
  have one: "dated (put_dates (iso_of udec a b c) (iso_of udec a b c) [])" for a b c
    by (rule dated_dates) (auto simp: iso_of_def)
  have "dated (hw_dates ud udec html body)" for body
    by (auto simp: hw_dates_def Let_def one dated_Nil split: option.splits)
  then show "dated (parse_detail_hwacheon ud udec html)"
    by (auto simp: parse_detail_hwacheon_def Let_def dated_Nil intro!: dated_put split: option.splits)
  have found: "ds = found_dates udec r t \<Longrightarrow> ds \<noteq> [] \<Longrightarrow> dated (put_dates (hd ds) (last ds) [])" for ds r t
    by (rule dated_dates) (use found_iso in \<open>metis hd_in_set, metis last_in_set\<close>)
  have "dated (sscmc_dates ud udec html)"
    by (auto simp: sscmc_dates_def Let_def dated_Nil found split: option.splits)
  then show "dated (parse_detail_sscmc ud udec html)"
    by (auto simp: parse_detail_sscmc_def Let_def intro!: dated_put split: option.splits)
  show "valid_date (y, m, d) \<Longrightarrow> parse_date (Some (iso_date y m d)) = Some (y, m, d)" by (rule iso_read_back)
qed

lemma detail_dates_witness: "parse_date (Some (iso_date 2026 2 28)) = Some (2026, 2, 28)"
  by (rule detail_dates[THEN conjunct2, THEN conjunct2, THEN conjunct2, rule_format])
    (simp add: valid_date_def days_in_def leap_def)

end
