(* ===== verification/Config.thy ===== *)
theory Config
  imports Complex_Main GoogleOAuth Regex
begin

text \<open>
  src/app/core/config.py: the settings with their defaults, what is derived from them, the
  masked summary and the checks at start-up. Settings are read from the environment by
  pydantic, so a settings record is an input; the names of the paid tiers (module
  app.core.subscription) and urlparse are parameters.
\<close>

section \<open>Masking\<close>

definition SECRET_FIELD_HINTS :: "string list" where
  "SECRET_FIELD_HINTS = [''KEY'', ''SECRET'', ''PASSWORD'', ''TOKEN'', ''DSN'']"

definition mask_secret :: "string \<Rightarrow> nat \<Rightarrow> string" where
  "mask_secret s show =
     (if s = '''' then ''''
      else if ulen s \<le> show then ''***''
      else take_text show s @ ''***'')"

text \<open>The pattern \<open>(://[^:/@]+:)[^@]+@\<close> at one position: group 1 and the text after the match. No
  class contains the character that must follow it, so there is one way to match.\<close>

fun span_not :: "char set \<Rightarrow> string \<Rightarrow> string \<times> string" where
  "span_not cs [] = ([], [])"
| "span_not cs (c # s) = (if c \<in> cs then ([], c # s) else (case span_not cs s of (a, b) \<Rightarrow> (c # a, b)))"

definition credential_at :: "string \<Rightarrow> (string \<times> string) option" where
  "credential_at s =
     (if \<not> starts_with ''://'' s then None
      else (case span_not {CHR '':'', CHR ''/'', CHR ''@''} (drop 3 s) of
              (user, c # r) \<Rightarrow>
                if user = [] \<or> c \<noteq> CHR '':'' then None
                else (case span_not {CHR ''@''} r of
                        (pw, _ # rest) \<Rightarrow> if pw = [] then None else Some (''://'' @ user @ '':'', rest)
                      | (_, []) \<Rightarrow> None)
            | (_, []) \<Rightarrow> None))"

lemma span_not_append: "fst (span_not cs s) @ snd (span_not cs s) = s"
  by (induction s) (auto split: prod.splits)

lemma span_not_length: "span_not cs s = (a, b) \<Longrightarrow> length b \<le> length s"
  using span_not_append[of cs s] by (metis length_append le_add2 snd_conv fst_conv)

lemma credential_at_length: "credential_at s = Some (p, r) \<Longrightarrow> length r < length s"
  by (auto simp: credential_at_def starts_with_def split: if_splits prod.splits list.splits dest!: span_not_length)

function mask_db_url :: "string \<Rightarrow> string" where
  "mask_db_url s =
     (case s of
        [] \<Rightarrow> []
      | c # cs \<Rightarrow>
          (case credential_at s of
             Some (pre, rest) \<Rightarrow> pre @ ''***@'' @ mask_db_url rest
           | None \<Rightarrow> c # mask_db_url cs))"
  by auto
termination by (relation "measure length") (auto dest: credential_at_length)

declare mask_db_url.simps [simp del]

section \<open>Settings\<close>

record settings =
  S_ENV :: string
  S_PORT :: int
  S_DATABASE_URL :: string
  S_DB_POOL_SIZE :: int
  S_DB_MAX_OVERFLOW :: int
  S_DB_POOL_RECYCLE_SEC :: int
  S_DB_POOL_TIMEOUT_SEC :: int
  S_JWT_SECRET_KEY :: string
  S_JWT_ALGORITHM :: string
  S_ACCESS_TOKEN_EXPIRE_MINUTES :: int
  S_REFRESH_TOKEN_EXPIRE_DAYS :: int
  S_ALLOW_PASSWORD_SIGNUP :: bool
  S_CORS_ORIGINS :: string
  S_MAX_REQUEST_BODY_BYTES :: int
  S_FEATURE_PAYMENTS :: bool
  S_FEATURE_NOTIFICATIONS :: bool
  S_FEATURE_INGEST_CRAWLER :: bool
  S_FEATURE_INGEST_PUBLIC_API :: bool
  S_DATA_GO_KR_SERVICE_KEY :: "string option"
  S_PUBLIC_API_TIMEOUT_SEC :: int
  S_NEO4J_URI :: "string option"
  S_NEO4J_USERNAME :: string
  S_NEO4J_PASSWORD :: "string option"
  S_NEO4J_DATABASE :: string
  S_GEMINI_API_KEY :: "string option"
  S_GEMINI_MODEL :: string
  S_GEMINI_MODEL_FREE :: "string option"
  S_GEMINI_MODEL_PRO :: "string option"
  S_GEMINI_MODEL_LITE :: "string option"
  S_DOCS_USERNAME :: string
  S_DOCS_PASSWORD :: "string option"
  S_TOKEN_ENCRYPTION_KEY :: "string option"
  S_OAUTH_STATE_SECRET_KEY :: "string option"
  S_GITHUB_OAUTH_CLIENT_ID :: "string option"
  S_GITHUB_OAUTH_CLIENT_SECRET :: "string option"
  S_GITHUB_OAUTH_REDIRECT_URI :: "string option"
  S_GITHUB_OAUTH_SCOPES :: string
  S_FRONTEND_OAUTH_CALLBACK_URL :: "string option"
  S_GOOGLE_OAUTH_CLIENT_ID :: "string option"
  S_GOOGLE_OAUTH_CLIENT_SECRET :: "string option"
  S_GOOGLE_OAUTH_REDIRECT_URI :: "string option"
  S_GOOGLE_OAUTH_SCOPES :: string
  S_PADDLE_API_KEY :: "string option"
  S_PADDLE_WEBHOOK_SECRET :: "string option"
  S_PADDLE_ENV :: string
  S_PADDLE_PRICE_PRO :: "string option"
  S_PADDLE_PRICE_PRO_PLUS :: "string option"
  S_PADDLE_PRICE_PRO_MAX :: "string option"
  S_PADDLE_PRICE_PRO_Y :: "string option"
  S_PADDLE_PRICE_PRO_PLUS_Y :: "string option"
  S_PADDLE_PRICE_PRO_MAX_Y :: "string option"
  S_NOTION_OAUTH_CLIENT_ID :: "string option"
  S_NOTION_OAUTH_CLIENT_SECRET :: "string option"
  S_NOTION_OAUTH_REDIRECT_URI :: "string option"
  S_RESEND_API_KEY :: "string option"
  S_RESEND_FROM_EMAIL :: string
  S_PASSWORD_RESET_URL :: "string option"
  S_FRONTEND_URL :: string
  S_LOG_FORMAT :: string
  S_LOG_LEVEL :: string
  S_SENTRY_DSN :: "string option"
  S_SENTRY_TRACES_SAMPLE_RATE :: rat
  S_SENTRY_RELEASE :: "string option"
  S_DESIGN_AUTOFILL_API_SPECS :: bool
  S_DESIGN_AUTOFILL_BUDGET_SEC :: int
  S_AUTOFILL_LLM_CONCURRENCY :: int
  S_AUTOFILL_DRAFT_MODEL :: "string option"
  S_METRICS_ENABLED :: bool
  S_WORKER_METRICS_PORT :: int
  S_ADMIN_EMAILS :: string

definition default_settings :: settings where
  "default_settings =
     \<lparr>S_ENV = ''development'',
      S_PORT = 8000,
      S_DATABASE_URL = ''sqlite+aiosqlite:///./gayoje_dev.db'',
      S_DB_POOL_SIZE = 5,
      S_DB_MAX_OVERFLOW = 10,
      S_DB_POOL_RECYCLE_SEC = 1800,
      S_DB_POOL_TIMEOUT_SEC = 30,
      S_JWT_SECRET_KEY = ''change-me-to-a-long-random-secret-string'',
      S_JWT_ALGORITHM = ''HS256'',
      S_ACCESS_TOKEN_EXPIRE_MINUTES = 60,
      S_REFRESH_TOKEN_EXPIRE_DAYS = 7,
      S_ALLOW_PASSWORD_SIGNUP = False,
      S_CORS_ORIGINS = ''http://localhost:5173,http://localhost:3000'',
      S_MAX_REQUEST_BODY_BYTES = 30 * 1024 * 1024,
      S_FEATURE_PAYMENTS = False,
      S_FEATURE_NOTIFICATIONS = False,
      S_FEATURE_INGEST_CRAWLER = False,
      S_FEATURE_INGEST_PUBLIC_API = True,
      S_DATA_GO_KR_SERVICE_KEY = None,
      S_PUBLIC_API_TIMEOUT_SEC = 20,
      S_NEO4J_URI = None,
      S_NEO4J_USERNAME = ''neo4j'',
      S_NEO4J_PASSWORD = None,
      S_NEO4J_DATABASE = ''neo4j'',
      S_GEMINI_API_KEY = None,
      S_GEMINI_MODEL = ''gemini-2.5-flash'',
      S_GEMINI_MODEL_FREE = Some ''gemini-2.5-flash-lite'',
      S_GEMINI_MODEL_PRO = None,
      S_GEMINI_MODEL_LITE = Some ''gemini-2.5-flash-lite'',
      S_DOCS_USERNAME = ''admin'',
      S_DOCS_PASSWORD = None,
      S_TOKEN_ENCRYPTION_KEY = None,
      S_OAUTH_STATE_SECRET_KEY = None,
      S_GITHUB_OAUTH_CLIENT_ID = None,
      S_GITHUB_OAUTH_CLIENT_SECRET = None,
      S_GITHUB_OAUTH_REDIRECT_URI = None,
      S_GITHUB_OAUTH_SCOPES = ''read:user,user:email,repo'',
      S_FRONTEND_OAUTH_CALLBACK_URL = None,
      S_GOOGLE_OAUTH_CLIENT_ID = None,
      S_GOOGLE_OAUTH_CLIENT_SECRET = None,
      S_GOOGLE_OAUTH_REDIRECT_URI = None,
      S_GOOGLE_OAUTH_SCOPES = ''openid,email,profile'',
      S_PADDLE_API_KEY = None,
      S_PADDLE_WEBHOOK_SECRET = None,
      S_PADDLE_ENV = ''sandbox'',
      S_PADDLE_PRICE_PRO = None,
      S_PADDLE_PRICE_PRO_PLUS = None,
      S_PADDLE_PRICE_PRO_MAX = None,
      S_PADDLE_PRICE_PRO_Y = None,
      S_PADDLE_PRICE_PRO_PLUS_Y = None,
      S_PADDLE_PRICE_PRO_MAX_Y = None,
      S_NOTION_OAUTH_CLIENT_ID = None,
      S_NOTION_OAUTH_CLIENT_SECRET = None,
      S_NOTION_OAUTH_REDIRECT_URI = None,
      S_RESEND_API_KEY = None,
      S_RESEND_FROM_EMAIL = ''Harness <onboarding@resend.dev>'',
      S_PASSWORD_RESET_URL = None,
      S_FRONTEND_URL = ''http://localhost:5173'',
      S_LOG_FORMAT = ''text'',
      S_LOG_LEVEL = ''INFO'',
      S_SENTRY_DSN = None,
      S_SENTRY_TRACES_SAMPLE_RATE = 0,
      S_SENTRY_RELEASE = None,
      S_DESIGN_AUTOFILL_API_SPECS = True,
      S_DESIGN_AUTOFILL_BUDGET_SEC = 240,
      S_AUTOFILL_LLM_CONCURRENCY = 8,
      S_AUTOFILL_DRAFT_MODEL = None,
      S_METRICS_ENABLED = True,
      S_WORKER_METRICS_PORT = 9100,
      S_ADMIN_EMAILS = ''''\<rparr>"

datatype cfg_value = VNone | VStr string | VInt int | VBool bool | VFloat rat

definition opt_str :: "string option \<Rightarrow> cfg_value" where
  "opt_str x = (case x of None \<Rightarrow> VNone | Some s \<Rightarrow> VStr s)"

text \<open>model_dump.\<close>

definition model_dump :: "settings \<Rightarrow> (string \<times> cfg_value) list" where
  "model_dump s =
     [(''ENV'', VStr (S_ENV s)),
      (''PORT'', VInt (S_PORT s)),
      (''DATABASE_URL'', VStr (S_DATABASE_URL s)),
      (''DB_POOL_SIZE'', VInt (S_DB_POOL_SIZE s)),
      (''DB_MAX_OVERFLOW'', VInt (S_DB_MAX_OVERFLOW s)),
      (''DB_POOL_RECYCLE_SEC'', VInt (S_DB_POOL_RECYCLE_SEC s)),
      (''DB_POOL_TIMEOUT_SEC'', VInt (S_DB_POOL_TIMEOUT_SEC s)),
      (''JWT_SECRET_KEY'', VStr (S_JWT_SECRET_KEY s)),
      (''JWT_ALGORITHM'', VStr (S_JWT_ALGORITHM s)),
      (''ACCESS_TOKEN_EXPIRE_MINUTES'', VInt (S_ACCESS_TOKEN_EXPIRE_MINUTES s)),
      (''REFRESH_TOKEN_EXPIRE_DAYS'', VInt (S_REFRESH_TOKEN_EXPIRE_DAYS s)),
      (''ALLOW_PASSWORD_SIGNUP'', VBool (S_ALLOW_PASSWORD_SIGNUP s)),
      (''CORS_ORIGINS'', VStr (S_CORS_ORIGINS s)),
      (''MAX_REQUEST_BODY_BYTES'', VInt (S_MAX_REQUEST_BODY_BYTES s)),
      (''FEATURE_PAYMENTS'', VBool (S_FEATURE_PAYMENTS s)),
      (''FEATURE_NOTIFICATIONS'', VBool (S_FEATURE_NOTIFICATIONS s)),
      (''FEATURE_INGEST_CRAWLER'', VBool (S_FEATURE_INGEST_CRAWLER s)),
      (''FEATURE_INGEST_PUBLIC_API'', VBool (S_FEATURE_INGEST_PUBLIC_API s)),
      (''DATA_GO_KR_SERVICE_KEY'', opt_str (S_DATA_GO_KR_SERVICE_KEY s)),
      (''PUBLIC_API_TIMEOUT_SEC'', VInt (S_PUBLIC_API_TIMEOUT_SEC s)),
      (''NEO4J_URI'', opt_str (S_NEO4J_URI s)),
      (''NEO4J_USERNAME'', VStr (S_NEO4J_USERNAME s)),
      (''NEO4J_PASSWORD'', opt_str (S_NEO4J_PASSWORD s)),
      (''NEO4J_DATABASE'', VStr (S_NEO4J_DATABASE s)),
      (''GEMINI_API_KEY'', opt_str (S_GEMINI_API_KEY s)),
      (''GEMINI_MODEL'', VStr (S_GEMINI_MODEL s)),
      (''GEMINI_MODEL_FREE'', opt_str (S_GEMINI_MODEL_FREE s)),
      (''GEMINI_MODEL_PRO'', opt_str (S_GEMINI_MODEL_PRO s)),
      (''GEMINI_MODEL_LITE'', opt_str (S_GEMINI_MODEL_LITE s)),
      (''DOCS_USERNAME'', VStr (S_DOCS_USERNAME s)),
      (''DOCS_PASSWORD'', opt_str (S_DOCS_PASSWORD s)),
      (''TOKEN_ENCRYPTION_KEY'', opt_str (S_TOKEN_ENCRYPTION_KEY s)),
      (''OAUTH_STATE_SECRET_KEY'', opt_str (S_OAUTH_STATE_SECRET_KEY s)),
      (''GITHUB_OAUTH_CLIENT_ID'', opt_str (S_GITHUB_OAUTH_CLIENT_ID s)),
      (''GITHUB_OAUTH_CLIENT_SECRET'', opt_str (S_GITHUB_OAUTH_CLIENT_SECRET s)),
      (''GITHUB_OAUTH_REDIRECT_URI'', opt_str (S_GITHUB_OAUTH_REDIRECT_URI s)),
      (''GITHUB_OAUTH_SCOPES'', VStr (S_GITHUB_OAUTH_SCOPES s)),
      (''FRONTEND_OAUTH_CALLBACK_URL'', opt_str (S_FRONTEND_OAUTH_CALLBACK_URL s)),
      (''GOOGLE_OAUTH_CLIENT_ID'', opt_str (S_GOOGLE_OAUTH_CLIENT_ID s)),
      (''GOOGLE_OAUTH_CLIENT_SECRET'', opt_str (S_GOOGLE_OAUTH_CLIENT_SECRET s)),
      (''GOOGLE_OAUTH_REDIRECT_URI'', opt_str (S_GOOGLE_OAUTH_REDIRECT_URI s)),
      (''GOOGLE_OAUTH_SCOPES'', VStr (S_GOOGLE_OAUTH_SCOPES s)),
      (''PADDLE_API_KEY'', opt_str (S_PADDLE_API_KEY s)),
      (''PADDLE_WEBHOOK_SECRET'', opt_str (S_PADDLE_WEBHOOK_SECRET s)),
      (''PADDLE_ENV'', VStr (S_PADDLE_ENV s)),
      (''PADDLE_PRICE_PRO'', opt_str (S_PADDLE_PRICE_PRO s)),
      (''PADDLE_PRICE_PRO_PLUS'', opt_str (S_PADDLE_PRICE_PRO_PLUS s)),
      (''PADDLE_PRICE_PRO_MAX'', opt_str (S_PADDLE_PRICE_PRO_MAX s)),
      (''PADDLE_PRICE_PRO_Y'', opt_str (S_PADDLE_PRICE_PRO_Y s)),
      (''PADDLE_PRICE_PRO_PLUS_Y'', opt_str (S_PADDLE_PRICE_PRO_PLUS_Y s)),
      (''PADDLE_PRICE_PRO_MAX_Y'', opt_str (S_PADDLE_PRICE_PRO_MAX_Y s)),
      (''NOTION_OAUTH_CLIENT_ID'', opt_str (S_NOTION_OAUTH_CLIENT_ID s)),
      (''NOTION_OAUTH_CLIENT_SECRET'', opt_str (S_NOTION_OAUTH_CLIENT_SECRET s)),
      (''NOTION_OAUTH_REDIRECT_URI'', opt_str (S_NOTION_OAUTH_REDIRECT_URI s)),
      (''RESEND_API_KEY'', opt_str (S_RESEND_API_KEY s)),
      (''RESEND_FROM_EMAIL'', VStr (S_RESEND_FROM_EMAIL s)),
      (''PASSWORD_RESET_URL'', opt_str (S_PASSWORD_RESET_URL s)),
      (''FRONTEND_URL'', VStr (S_FRONTEND_URL s)),
      (''LOG_FORMAT'', VStr (S_LOG_FORMAT s)),
      (''LOG_LEVEL'', VStr (S_LOG_LEVEL s)),
      (''SENTRY_DSN'', opt_str (S_SENTRY_DSN s)),
      (''SENTRY_TRACES_SAMPLE_RATE'', VFloat (S_SENTRY_TRACES_SAMPLE_RATE s)),
      (''SENTRY_RELEASE'', opt_str (S_SENTRY_RELEASE s)),
      (''DESIGN_AUTOFILL_API_SPECS'', VBool (S_DESIGN_AUTOFILL_API_SPECS s)),
      (''DESIGN_AUTOFILL_BUDGET_SEC'', VInt (S_DESIGN_AUTOFILL_BUDGET_SEC s)),
      (''AUTOFILL_LLM_CONCURRENCY'', VInt (S_AUTOFILL_LLM_CONCURRENCY s)),
      (''AUTOFILL_DRAFT_MODEL'', opt_str (S_AUTOFILL_DRAFT_MODEL s)),
      (''METRICS_ENABLED'', VBool (S_METRICS_ENABLED s)),
      (''WORKER_METRICS_PORT'', VInt (S_WORKER_METRICS_PORT s)),
      (''ADMIN_EMAILS'', VStr (S_ADMIN_EMAILS s))]"

section \<open>Derived settings\<close>

definition gemini_model_for_free :: "settings \<Rightarrow> string" where
  "gemini_model_for_free s = py_or (S_GEMINI_MODEL_FREE s) (S_GEMINI_MODEL s)"

definition gemini_model_for_pro :: "settings \<Rightarrow> string" where
  "gemini_model_for_pro s = py_or (S_GEMINI_MODEL_PRO s) (S_GEMINI_MODEL s)"

definition gemini_model_lite :: "settings \<Rightarrow> string" where
  "gemini_model_lite s = py_or (S_GEMINI_MODEL_LITE s) (py_or (S_GEMINI_MODEL_FREE s) (S_GEMINI_MODEL s))"

definition oauth_state_secret :: "settings \<Rightarrow> string" where
  "oauth_state_secret s = py_or (S_OAUTH_STATE_SECRET_KEY s) (S_JWT_SECRET_KEY s)"

definition set_str :: "string option \<Rightarrow> bool" where
  "set_str x = (or_none x \<noteq> None)"

definition sentry_enabled :: "settings \<Rightarrow> bool" where
  "sentry_enabled s = set_str (S_SENTRY_DSN s)"

definition sentry_environment :: "settings \<Rightarrow> string" where
  "sentry_environment s = S_ENV s"

text \<open>Lists separated by commas or white space.\<close>

definition comma_words :: "string \<Rightarrow> string list" where
  "comma_words raw = filter (\<lambda>w. w \<noteq> '''') (map py_strip (py_words (map (\<lambda>c. if c = CHR '','' then CHR '' '' else c) raw)))"

definition admin_emails_list :: "settings \<Rightarrow> string list" where
  "admin_emails_list s = map lower (comma_words (S_ADMIN_EMAILS s))"

definition github_oauth_enabled :: "settings \<Rightarrow> bool" where
  "github_oauth_enabled s =
     (set_str (S_GITHUB_OAUTH_CLIENT_ID s) \<and> set_str (S_GITHUB_OAUTH_CLIENT_SECRET s)
      \<and> set_str (S_GITHUB_OAUTH_REDIRECT_URI s) \<and> set_str (S_FRONTEND_OAUTH_CALLBACK_URL s))"

definition github_oauth_scopes_list :: "settings \<Rightarrow> string list" where
  "github_oauth_scopes_list s = comma_words (S_GITHUB_OAUTH_SCOPES s)"

text \<open>The part of the settings that the Google module reads; None counts as empty there.\<close>

definition google_cfg_of :: "settings \<Rightarrow> google_cfg" where
  "google_cfg_of s =
     \<lparr>gc_client_id = py_or (S_GOOGLE_OAUTH_CLIENT_ID s) '''', gc_secret = py_or (S_GOOGLE_OAUTH_CLIENT_SECRET s) '''',
      gc_redirect_uri = py_or (S_GOOGLE_OAUTH_REDIRECT_URI s) '''', gc_frontend = py_or (S_FRONTEND_OAUTH_CALLBACK_URL s) '''',
      gc_scopes = S_GOOGLE_OAUTH_SCOPES s\<rparr>"

definition notion_oauth_enabled :: "settings \<Rightarrow> bool" where
  "notion_oauth_enabled s =
     (set_str (S_NOTION_OAUTH_CLIENT_ID s) \<and> set_str (S_NOTION_OAUTH_CLIENT_SECRET s)
      \<and> set_str (S_NOTION_OAUTH_REDIRECT_URI s) \<and> set_str (S_FRONTEND_OAUTH_CALLBACK_URL s))"

definition paddle_enabled :: "settings \<Rightarrow> bool" where
  "paddle_enabled s = set_str (S_PADDLE_WEBHOOK_SECRET s)"

definition paddle_api_base :: "settings \<Rightarrow> string" where
  "paddle_api_base s =
     (if S_PADDLE_ENV s = ''production'' then ''https://api.paddle.com'' else ''https://sandbox-api.paddle.com'')"

record paid_tiers =
  tier_pro :: string
  tier_pro_plus :: string
  tier_pro_max :: string

definition price_pairs :: "paid_tiers \<Rightarrow> settings \<Rightarrow> (string option \<times> string) list" where
  "price_pairs n s =
     [(S_PADDLE_PRICE_PRO s, tier_pro n), (S_PADDLE_PRICE_PRO_Y s, tier_pro n),
      (S_PADDLE_PRICE_PRO_PLUS s, tier_pro_plus n), (S_PADDLE_PRICE_PRO_PLUS_Y s, tier_pro_plus n),
      (S_PADDLE_PRICE_PRO_MAX s, tier_pro_max n), (S_PADDLE_PRICE_PRO_MAX_Y s, tier_pro_max n)]"

definition paddle_price_to_tier :: "paid_tiers \<Rightarrow> settings \<Rightarrow> string \<rightharpoonup> string" where
  "paddle_price_to_tier n s =
     foldl (\<lambda>m (pid, tier). case or_none pid of Some p \<Rightarrow> m(p \<mapsto> tier) | None \<Rightarrow> m) (\<lambda>_. None) (price_pairs n s)"

definition paddle_price_for_tier :: "paid_tiers \<Rightarrow> settings \<Rightarrow> string \<Rightarrow> string \<Rightarrow> string option" where
  "paddle_price_for_tier n s tier cycle =
     (let monthly = (\<lambda>_. None)(tier_pro n \<mapsto> S_PADDLE_PRICE_PRO s, tier_pro_plus n \<mapsto> S_PADDLE_PRICE_PRO_PLUS s,
            tier_pro_max n \<mapsto> S_PADDLE_PRICE_PRO_MAX s);
          yearly = (\<lambda>_. None)(tier_pro n \<mapsto> S_PADDLE_PRICE_PRO_Y s, tier_pro_plus n \<mapsto> S_PADDLE_PRICE_PRO_PLUS_Y s,
            tier_pro_max n \<mapsto> S_PADDLE_PRICE_PRO_MAX_Y s);
          table = (if cycle = ''yearly'' then yearly else monthly)
      in (case table tier of Some p \<Rightarrow> p | None \<Rightarrow> None))"

definition email_enabled :: "settings \<Rightarrow> bool" where
  "email_enabled s = set_str (S_RESEND_API_KEY s)"

definition default_reset_url :: string where
  "default_reset_url = ''http://localhost:5173/reset-password''"

text \<open>\<open>urlparse\<close> gives the scheme and the netloc of an address.\<close>

definition password_reset_url :: "(string \<Rightarrow> string \<times> string) \<Rightarrow> settings \<Rightarrow> string" where
  "password_reset_url urlparse s =
     (case or_none (S_PASSWORD_RESET_URL s) of
        Some u \<Rightarrow> u
      | None \<Rightarrow>
          (case or_none (S_FRONTEND_OAUTH_CALLBACK_URL s) of
             None \<Rightarrow> default_reset_url
           | Some cb \<Rightarrow>
               (case urlparse cb of
                  (scheme, netloc) \<Rightarrow>
                    if scheme \<noteq> '''' \<and> netloc \<noteq> '''' then scheme @ ''://'' @ netloc @ ''/reset-password''
                    else default_reset_url)))"

definition is_production :: "settings \<Rightarrow> bool" where
  "is_production s = (lower (S_ENV s) = ''production'')"

definition is_staging :: "settings \<Rightarrow> bool" where
  "is_staging s = (lower (S_ENV s) \<in> {''staging'', ''stg''})"

definition is_development :: "settings \<Rightarrow> bool" where
  "is_development s = (\<not> (is_production s \<or> is_staging s))"

definition data_go_kr_service_keys :: "settings \<Rightarrow> string list" where
  "data_go_kr_service_keys s = comma_words (py_or (S_DATA_GO_KR_SERVICE_KEY s) '''')"

definition feature_flags :: "settings \<Rightarrow> (string \<times> bool) list" where
  "feature_flags s =
     [(''payments'', S_FEATURE_PAYMENTS s), (''notifications'', S_FEATURE_NOTIFICATIONS s),
      (''ingest_crawler'', S_FEATURE_INGEST_CRAWLER s), (''ingest_public_api'', S_FEATURE_INGEST_PUBLIC_API s)]"

section \<open>CORS\<close>

datatype cors_error = CorsWildcard | CorsEmpty | CorsOnlyLocal "string list"

definition real_origin :: "string \<Rightarrow> bool" where
  "real_origin x = (\<not> substr_in ''localhost'' x \<and> \<not> substr_in ''127.0.0.1'' x)"

definition parsed_origins :: "settings \<Rightarrow> string list" where
  "parsed_origins s = filter (\<lambda>x. x \<noteq> '''') (map py_strip (split_on (CHR '','') (S_CORS_ORIGINS s)))"

definition cors_origins_list :: "settings \<Rightarrow> cors_error + string list" where
  "cors_origins_list s =
     (let raw = py_strip (S_CORS_ORIGINS s)
      in if raw = ''*'' then (if is_production s then Inl CorsWildcard else Inr [''*''])
         else (let parsed = parsed_origins s
               in if is_production s then
                    (if parsed = [] then Inl CorsEmpty
                     else if \<not> list_ex real_origin parsed then Inl (CorsOnlyLocal parsed)
                     else Inr parsed)
                  else Inr parsed))"

section \<open>Summary and start-up\<close>

text \<open>str() of a value; that of floats is a parameter.\<close>

definition value_str :: "(rat \<Rightarrow> string) \<Rightarrow> cfg_value \<Rightarrow> string" where
  "value_str fstr v =
     (case v of VNone \<Rightarrow> ''None'' | VStr s \<Rightarrow> s | VInt i \<Rightarrow> int_str i
      | VBool b \<Rightarrow> (if b then ''True'' else ''False'') | VFloat q \<Rightarrow> fstr q)"

definition value_true :: "cfg_value \<Rightarrow> bool" where
  "value_true v =
     (case v of VNone \<Rightarrow> False | VStr s \<Rightarrow> s \<noteq> '''' | VInt i \<Rightarrow> i \<noteq> 0 | VBool b \<Rightarrow> b | VFloat q \<Rightarrow> q \<noteq> 0)"

definition name_ends_with :: "string \<Rightarrow> string \<Rightarrow> bool" where
  "name_ends_with w s = starts_with (rev w) (rev s)"

definition summary_value :: "(rat \<Rightarrow> string) \<Rightarrow> string \<Rightarrow> cfg_value \<Rightarrow> cfg_value" where
  "summary_value fstr key v =
     (if value_true v \<and> name_ends_with ''_URL'' key then VStr (mask_db_url (value_str fstr v))
      else if value_true v \<and> list_ex (\<lambda>h. substr_in h key) SECRET_FIELD_HINTS then VStr (mask_secret (value_str fstr v) 4)
      else v)"

text \<open>safe_summary; the names of the fields are in capital letters already.\<close>

definition safe_summary :: "(rat \<Rightarrow> string) \<Rightarrow> settings \<Rightarrow> (string \<times> cfg_value) list" where
  "safe_summary fstr s = map (\<lambda>(key, v). (key, summary_value fstr key v)) (model_dump s)"

definition JWT_PLACEHOLDER :: string where
  "JWT_PLACEHOLDER = ''change-me-to-a-long-random-secret-string''"

definition JWT_SECRET_MIN_LENGTH :: nat where "JWT_SECRET_MIN_LENGTH = 32"

datatype boot_error = JwtPlaceholder | JwtTooShort nat | NoEncryptionKey

text \<open>The validator after the fields are read; \<open>worker\<close>: HARNESS_WORKER_CONTEXT is 1.\<close>

definition validate_production_secrets :: "bool \<Rightarrow> settings \<Rightarrow> boot_error + settings" where
  "validate_production_secrets worker s =
     (if \<not> is_production s then Inr s
      else if worker then Inr s
      else if S_JWT_SECRET_KEY s = JWT_PLACEHOLDER then Inl JwtPlaceholder
      else if ulen (S_JWT_SECRET_KEY s) < JWT_SECRET_MIN_LENGTH then Inl (JwtTooShort (ulen (S_JWT_SECRET_KEY s)))
      else if \<not> set_str (S_TOKEN_ENCRYPTION_KEY s) then Inl NoEncryptionKey
      else Inr s)"

section \<open>CORS in production\<close>

text \<open>in production the list of origins is refused when it is the wildcard alone, empty or only
  local, and an accepted list names an origin that is not local; but the wildcard is refused by
  comparing the whole text, so a star followed by a comma gives the list of the wildcard.\<close>

theorem cors_production:
  assumes "is_production s"
  shows "(py_strip (S_CORS_ORIGINS s) = ''*'' \<longrightarrow> cors_origins_list s = Inl CorsWildcard)
    \<and> (\<forall>xs. cors_origins_list s = Inr xs \<longrightarrow> xs = parsed_origins s \<and> list_ex real_origin xs \<and> '''' \<notin> set xs)
    \<and> (\<forall>e. cors_origins_list s = Inl e \<longrightarrow> py_strip (S_CORS_ORIGINS s) = ''*'' \<or> \<not> list_ex real_origin (parsed_origins s))
    \<and> cors_origins_list (s\<lparr>S_CORS_ORIGINS := ''*,''\<rparr>) = Inr [''*'']"
proof -
  have p: "is_production (s\<lparr>S_CORS_ORIGINS := x\<rparr>)" for x using assms by (simp add: is_production_def)
  have "py_strip ''*,'' = ''*,''" "py_strip ''*'' = ''*''" by (rule py_strip_ends; code_simp)+
  moreover have "py_strip '''' = ''''" by (simp add: py_strip_def py_lstrip_def py_rstrip_def)
  moreover have "real_origin ''*''" by (simp add: real_origin_def)
  ultimately have "cors_origins_list (s\<lparr>S_CORS_ORIGINS := ''*,''\<rparr>) = Inr [''*'']"
    using p by (simp add: cors_origins_list_def parsed_origins_def)
  moreover have "'''' \<notin> set (parsed_origins s)" by (simp add: parsed_origins_def)
  moreover define raw xs where "raw = py_strip (S_CORS_ORIGINS s)" and "xs = parsed_origins s"
  moreover have "cors_origins_list s = (if raw = ''*'' then Inl CorsWildcard else if xs = [] then Inl CorsEmpty
      else if \<not> list_ex real_origin xs then Inl (CorsOnlyLocal xs) else Inr xs)"
    unfolding cors_origins_list_def Let_def raw_def[symmetric] xs_def[symmetric] using assms by (simp only: if_True)
  ultimately show ?thesis by (cases "raw = ''*''"; cases "xs = []"; cases "list_ex real_origin xs") simp_all
qed

lemma production_example: "is_production (default_settings\<lparr>S_ENV := ''Production''\<rparr>)"
  by (simp add: is_production_def) code_simp

lemma cors_production_witness:
  "cors_origins_list (default_settings\<lparr>S_ENV := ''Production'', S_CORS_ORIGINS := ''*,''\<rparr>) = Inr [''*'']"
  using cors_production[OF production_example] by simp

section \<open>What the summary shows\<close>

lemma span_not_stop: "set u \<inter> cs = {} \<Longrightarrow> c \<in> cs \<Longrightarrow> span_not cs (u @ c # s) = (u, c # s)"
  by (induction u) auto

lemma mask_no_scheme: "\<not> substr_in ''://'' s \<Longrightarrow> mask_db_url s = s"
proof (induction s)
  case (Cons c s)
  then have "credential_at (c # s) = None" by (simp add: credential_at_def starts_with_def)
  moreover have "\<not> substr_in ''://'' s" using Cons.prems by simp
  ultimately show ?case using Cons.IH by (simp add: mask_db_url.simps[of "c # s"])
qed (simp add: mask_db_url.simps)

lemma mask_before: "CHR '':'' \<notin> set p \<Longrightarrow> mask_db_url (p @ s) = p @ mask_db_url s"
proof (induction p)
  case (Cons c p)
  then have "credential_at (c # p @ s) = None" by (auto simp: credential_at_def starts_with_def)
  then show ?case using Cons by (simp add: mask_db_url.simps[of "c # p @ s"])
qed simp

lemma mask_credential:
  assumes "user \<noteq> []" "set user \<inter> {CHR '':'', CHR ''/'', CHR ''@''} = {}" "pw \<noteq> []" "CHR ''@'' \<notin> set pw"
  shows "mask_db_url (''://'' @ user @ CHR '':'' # pw @ CHR ''@'' # host) = ''://'' @ user @ '':***@'' @ mask_db_url host"
proof -
  have "span_not {CHR ''@''} (pw @ CHR ''@'' # host) = (pw, CHR ''@'' # host)"
    by (rule span_not_stop) (use assms in auto)
  moreover have "span_not {CHR '':'', CHR ''/'', CHR ''@''} (user @ CHR '':'' # pw @ CHR ''@'' # host) = (user, CHR '':'' # pw @ CHR ''@'' # host)"
    by (rule span_not_stop) (use assms in auto)
  ultimately have "credential_at (''://'' @ user @ CHR '':'' # pw @ CHR ''@'' # host) = Some (''://'' @ user @ '':'', host)"
    using assms(1,3) by (simp add: credential_at_def starts_with_def)
  then show ?thesis by (subst mask_db_url.simps) simp
qed

lemma mask_no_user:
  assumes "\<not> substr_in ''://'' ('':'' @ s)"
  shows "mask_db_url (''://:'' @ s) = ''://:'' @ s"
proof -
  have "credential_at (''://:'' @ s) = None" by (simp add: credential_at_def starts_with_def)
  then have "mask_db_url (''://:'' @ s) = CHR '':'' # mask_db_url (''//'' @ '':'' @ s)"
    by (subst mask_db_url.simps) simp
  also have "mask_db_url (''//'' @ '':'' @ s) = ''//'' @ mask_db_url ('':'' @ s)"
    by (rule mask_before) simp
  also have "mask_db_url ('':'' @ s) = '':'' @ s" by (rule mask_no_scheme[OF assms])
  finally show ?thesis by simp
qed

text \<open>A masked secret shows four characters at most.\<close>

definition hidden :: "string \<Rightarrow> string \<Rightarrow> bool" where
  "hidden v w \<longleftrightarrow> w = ''***'' \<and> ulen v \<le> 4 \<or> w = take_text 4 v @ ''***'' \<and> 4 < ulen v"

text \<open>The summary for the log hides the secrets: of every field with a secret name it shows four
  characters at most, and of a database address with a user the password is starred; but an
  address with a password and no user, the usual form for Redis, is shown as it is.\<close>

theorem summary_masks:
  assumes "S_DATABASE_URL s = scheme @ ''://'' @ user @ '':'' @ pw @ ''@'' @ host"
    "CHR '':'' \<notin> set scheme" "set user \<inter> {CHR '':'', CHR ''/'', CHR ''@''} = {}" "pw \<noteq> []" "CHR ''@'' \<notin> set pw"
    "\<not> substr_in ''://'' ('':'' @ pw @ ''@'' @ host)" "\<not> substr_in ''://'' host"
  shows "(''DATABASE_URL'', VStr (scheme @ ''://'' @ user @ '':'' @ (if user = [] then pw else ''***'') @ ''@'' @ host)) \<in> set (safe_summary fstr s)
    \<and> (\<forall>(k, v) \<in> set (model_dump s). value_true v \<longrightarrow> \<not> name_ends_with ''_URL'' k \<longrightarrow> list_ex (\<lambda>h. substr_in h k) SECRET_FIELD_HINTS \<longrightarrow>
         (\<exists>w. (k, VStr w) \<in> set (safe_summary fstr s) \<and> (value_str fstr v \<noteq> '''' \<longrightarrow> hidden (value_str fstr v) w)))"
proof
  have "mask_db_url (S_DATABASE_URL s) = scheme @ ''://'' @ user @ '':'' @ (if user = [] then pw else ''***'') @ ''@'' @ host"
  proof (cases "user = []")
    case True
    then show ?thesis using mask_before[OF assms(2)] mask_no_user[OF assms(6)] assms(1) by simp
  next
    case False
    then show ?thesis
      using mask_before[OF assms(2)] mask_credential[OF False assms(3,4,5)] mask_no_scheme[OF assms(7)] assms(1) by simp
  qed
  moreover have "name_ends_with ''_URL'' ''DATABASE_URL''" by code_simp
  moreover have "(''DATABASE_URL'', VStr (S_DATABASE_URL s)) \<in> set (model_dump s)" by (simp add: model_dump_def)
  moreover have "S_DATABASE_URL s \<noteq> ''''" using assms(1) by simp
  ultimately show "(''DATABASE_URL'', VStr (scheme @ ''://'' @ user @ '':'' @ (if user = [] then pw else ''***'') @ ''@'' @ host))
      \<in> set (safe_summary fstr s)"
    by (force simp: safe_summary_def summary_value_def value_true_def value_str_def)
  show "\<forall>(k, v) \<in> set (model_dump s). value_true v \<longrightarrow> \<not> name_ends_with ''_URL'' k \<longrightarrow> list_ex (\<lambda>h. substr_in h k) SECRET_FIELD_HINTS \<longrightarrow>
         (\<exists>w. (k, VStr w) \<in> set (safe_summary fstr s) \<and> (value_str fstr v \<noteq> '''' \<longrightarrow> hidden (value_str fstr v) w))"
  proof clarify
    fix k v
    assume k: "(k, v) \<in> set (model_dump s)" and "value_true v" "\<not> name_ends_with ''_URL'' k" "list_ex (\<lambda>h. substr_in h k) SECRET_FIELD_HINTS"
    then have "summary_value fstr k v = VStr (mask_secret (value_str fstr v) 4)" by (simp add: summary_value_def)
    then have "(k, VStr (mask_secret (value_str fstr v) 4)) \<in> set (safe_summary fstr s)"
      using k by (force simp: safe_summary_def)
    then show "\<exists>w. (k, VStr w) \<in> set (safe_summary fstr s) \<and> (value_str fstr v \<noteq> '''' \<longrightarrow> hidden (value_str fstr v) w)"
      by (intro exI[of _ "mask_secret (value_str fstr v) 4"]) (simp add: mask_secret_def hidden_def)
  qed
qed

lemma summary_masks_witness:
  "(''DATABASE_URL'', VStr ''redis://:secret@h'') \<in> set (safe_summary (\<lambda>_. '''') (default_settings\<lparr>S_DATABASE_URL := ''redis://:secret@h''\<rparr>))"
  using summary_masks[of "default_settings\<lparr>S_DATABASE_URL := ''redis://:secret@h''\<rparr>" "''redis''" "''''" "''secret''" "''h''"] by simp

section \<open>Prices and tiers\<close>

definition named_prices :: "(string option \<times> string) list \<Rightarrow> string list" where
  "named_prices ps = concat (map (\<lambda>(p, t). case or_none p of Some x \<Rightarrow> [x] | None \<Rightarrow> []) ps)"

lemma named_prices_simps [simp]:
  "named_prices [] = []"
  "named_prices ((p, t) # ps) = (case or_none p of Some x \<Rightarrow> [x] | None \<Rightarrow> []) @ named_prices ps"
  by (simp_all add: named_prices_def)

lemma named_prices_mem: "p \<noteq> '''' \<Longrightarrow> (Some p, t) \<in> set ps \<Longrightarrow> p \<in> set (named_prices ps)"
  by (induction ps) (auto simp: or_none_def split: list.splits)

lemma price_table:
  "distinct (named_prices ps) \<Longrightarrow> p \<noteq> '''' \<Longrightarrow>
   foldl (\<lambda>m (pid, tier). case or_none pid of Some p \<Rightarrow> m(p \<mapsto> tier) | None \<Rightarrow> m) m ps p = Some t \<longleftrightarrow>
     (Some p, t) \<in> set ps \<or> p \<notin> set (named_prices ps) \<and> m p = Some t"
proof (induction ps arbitrary: m)
  case (Cons x ps)
  obtain q u where x: "x = (q, u)" by fastforce
  show ?case
  proof (cases "or_none q")
    case None
    then have "q \<noteq> Some p" using Cons.prems(2) by (auto simp: or_none_def split: list.splits)
    then show ?thesis using Cons None x by auto
  next
    case (Some r)
    then have "q = Some r" by (auto simp: or_none_def split: option.splits list.splits if_splits)
    then show ?thesis using Cons Some x named_prices_mem[OF Cons.prems(2), of t ps] by (auto split: if_splits)
  qed
qed simp

text \<open>Prices and tiers fit: when the configured prices and the tiers are distinct, the webhook
  reads a price as a tier exactly if one of the tier's two billing cycles sells it; so the
  price that a change of subscription asks for is read back as the wanted tier.\<close>

theorem paddle_prices_fit:
  assumes "distinct (named_prices (price_pairs n s))" "distinct [tier_pro n, tier_pro_plus n, tier_pro_max n]" "p \<noteq> ''''"
  shows "paddle_price_to_tier n s p = Some t \<longleftrightarrow>
    paddle_price_for_tier n s t ''monthly'' = Some p \<or> paddle_price_for_tier n s t ''yearly'' = Some p"
proof -
  have "paddle_price_to_tier n s p = Some t \<longleftrightarrow> (Some p, t) \<in> set (price_pairs n s)"
    unfolding paddle_price_to_tier_def price_table[OF assms(1,3)] by simp
  also have "\<dots> \<longleftrightarrow> paddle_price_for_tier n s t ''monthly'' = Some p \<or> paddle_price_for_tier n s t ''yearly'' = Some p"
    using assms(2) by (auto simp: paddle_price_for_tier_def price_pairs_def)
  finally show ?thesis .
qed

lemma paddle_prices_fit_witness:
  "paddle_price_to_tier \<lparr>tier_pro = ''pro'', tier_pro_plus = ''plus'', tier_pro_max = ''max''\<rparr>
     (default_settings\<lparr>S_PADDLE_PRICE_PRO := Some ''a'', S_PADDLE_PRICE_PRO_MAX_Y := Some ''b''\<rparr>) ''b'' = Some ''max''"
  by (subst paddle_prices_fit) (simp_all add: price_pairs_def paddle_price_for_tier_def default_settings_def)

end
