(* ===== verification/TokenEncryption.thy ===== *)
theory TokenEncryption
  imports Config
begin

text \<open>
  src/app/core/token_encryption.py: encryption of OAuth tokens before they are stored. Fernet
  is a parameter: keys from texts, encryption (which draws a nonce) and decryption, which
  recognises foreign texts.
\<close>

record 'k fernet_lib =
  fl_new :: "string \<Rightarrow> 'k option"
  fl_encrypt :: "'k \<Rightarrow> nat \<Rightarrow> string \<Rightarrow> string"
  fl_decrypt :: "'k \<Rightarrow> string \<Rightarrow> string option"
  fl_is_text :: "string \<Rightarrow> bool"

text \<open>The module's globals: the key object and whether the warning was logged.\<close>

record 'k fernet_state =
  fs_cache :: "'k option"
  fs_warned :: bool

datatype token_error = BadToken | BadText

definition ENCRYPTED_PREFIX :: string where "ENCRYPTED_PREFIX = ''enc:v1:''"

definition get_fernet :: "'k fernet_lib \<Rightarrow> settings \<Rightarrow> 'k fernet_state \<Rightarrow> 'k option \<times> 'k fernet_state" where
  "get_fernet lib cfg st =
     (case fs_cache st of
        Some k \<Rightarrow> (Some k, st)
      | None \<Rightarrow>
          (case or_none (S_TOKEN_ENCRYPTION_KEY cfg) of
             None \<Rightarrow> (None, st\<lparr>fs_warned := True\<rparr>)
           | Some key \<Rightarrow>
               (case fl_new lib key of
                  Some k \<Rightarrow> (Some k, st\<lparr>fs_cache := Some k\<rparr>)
                | None \<Rightarrow> (None, st))))"

definition is_enabled :: "'k fernet_lib \<Rightarrow> settings \<Rightarrow> 'k fernet_state \<Rightarrow> bool \<times> 'k fernet_state" where
  "is_enabled lib cfg st = (case get_fernet lib cfg st of (k, st') \<Rightarrow> (k \<noteq> None, st'))"

definition encrypt :: "'k fernet_lib \<Rightarrow> settings \<Rightarrow> nat \<Rightarrow> string \<Rightarrow> 'k fernet_state \<Rightarrow> string \<times> 'k fernet_state" where
  "encrypt lib cfg nonce plaintext st =
     (if plaintext = '''' then (plaintext, st)
      else (case get_fernet lib cfg st of
              (None, st') \<Rightarrow> (plaintext, st')
            | (Some k, st') \<Rightarrow> (ENCRYPTED_PREFIX @ fl_encrypt lib k nonce plaintext, st')))"

definition decrypt :: "'k fernet_lib \<Rightarrow> settings \<Rightarrow> string \<Rightarrow> 'k fernet_state \<Rightarrow> (token_error + string) \<times> 'k fernet_state" where
  "decrypt lib cfg v st =
     (if v = '''' then (Inr v, st)
      else if \<not> starts_with ENCRYPTED_PREFIX v then (Inr v, st)
      else (case get_fernet lib cfg st of
              (None, st') \<Rightarrow> (Inl BadToken, st')
            | (Some k, st') \<Rightarrow>
                ((case fl_decrypt lib k (drop (length ENCRYPTED_PREFIX) v) of
                    None \<Rightarrow> Inl BadToken
                  | Some p \<Rightarrow> if fl_is_text lib p then Inr p else Inl BadText), st')))"

text \<open>None for a token that is not valid; another error is raised.\<close>

definition try_decrypt ::
  "'k fernet_lib \<Rightarrow> settings \<Rightarrow> string \<Rightarrow> 'k fernet_state \<Rightarrow> (token_error + string option) \<times> 'k fernet_state" where
  "try_decrypt lib cfg v st =
     (case decrypt lib cfg v st of
        (Inr p, st') \<Rightarrow> (Inr (Some p), st')
      | (Inl BadToken, st') \<Rightarrow> (Inr None, st')
      | (Inl e, st') \<Rightarrow> (Inl e, st'))"

section \<open>What is stored can be read\<close>

text \<open>The key object that the module uses belongs to its setting.\<close>

definition cache_ok :: "'k fernet_lib \<Rightarrow> settings \<Rightarrow> 'k fernet_state \<Rightarrow> bool" where
  "cache_ok lib cfg st \<longleftrightarrow>
     (\<forall>k. fs_cache st = Some k \<longrightarrow> (\<exists>key. or_none (S_TOKEN_ENCRYPTION_KEY cfg) = Some key \<and> fl_new lib key = Some k))"

definition key_of :: "'k fernet_lib \<Rightarrow> settings \<Rightarrow> 'k option" where
  "key_of lib cfg = (case or_none (S_TOKEN_ENCRYPTION_KEY cfg) of None \<Rightarrow> None | Some key \<Rightarrow> fl_new lib key)"

lemma get_fernet_key:
  "cache_ok lib cfg st \<Longrightarrow> fst (get_fernet lib cfg st) = key_of lib cfg \<and> cache_ok lib cfg (snd (get_fernet lib cfg st))"
  by (auto simp: get_fernet_def key_of_def cache_ok_def split: option.splits)

lemma encrypt_value:
  assumes "cache_ok lib cfg st"
  shows "fst (encrypt lib cfg nonce p st) =
      (case key_of lib cfg of Some k \<Rightarrow> if p = '''' then p else ENCRYPTED_PREFIX @ fl_encrypt lib k nonce p | None \<Rightarrow> p)"
    "cache_ok lib cfg (snd (encrypt lib cfg nonce p st))"
  using get_fernet_key[OF assms] assms by (auto simp: encrypt_def split: prod.splits option.splits)

lemma decrypt_value:
  assumes "cache_ok lib cfg st"
  shows "fst (decrypt lib cfg v st) =
      (if starts_with ENCRYPTED_PREFIX v then
         (case key_of lib cfg of
            None \<Rightarrow> Inl BadToken
          | Some k \<Rightarrow> (case fl_decrypt lib k (drop (length ENCRYPTED_PREFIX) v) of
                        None \<Rightarrow> Inl BadToken | Some p \<Rightarrow> if fl_is_text lib p then Inr p else Inl BadText))
       else Inr v)"
  using get_fernet_key[OF assms]
  by (auto simp: decrypt_def ENCRYPTED_PREFIX_def starts_with_def split: prod.splits option.splits)

text \<open>C32: stored tokens can be read back and foreign ones are refused: with a good key every text is
  read back as it was, whatever text it is and however often the module was used before, and
  is stored as ciphertext unless it is empty; a text that the key did not make is refused.\<close>

theorem token_roundtrip:
  assumes "cache_ok lib cfg st" "key_of lib cfg = Some k" "fl_is_text lib p" "\<And>n. fl_decrypt lib k (fl_encrypt lib k n p) = Some p"
    "encrypt lib cfg nonce p st = (stored, st1)"
  shows "fst (try_decrypt lib cfg stored st1) = Inr (Some p)
    \<and> (p \<noteq> '''' \<longrightarrow> stored = ENCRYPTED_PREFIX @ fl_encrypt lib k nonce p)
    \<and> (\<forall>c. fl_decrypt lib k c = None \<longrightarrow> fst (try_decrypt lib cfg (ENCRYPTED_PREFIX @ c) st1) = Inr None)"
proof -
  have s: "stored = (if p = '''' then p else ENCRYPTED_PREFIX @ fl_encrypt lib k nonce p)" "cache_ok lib cfg st1"
    using encrypt_value[OF assms(1), of nonce p] assms(2,5) by simp_all
  have t: "fst (try_decrypt lib cfg v st1) = (case fst (decrypt lib cfg v st1) of
      Inr q \<Rightarrow> Inr (Some q) | Inl BadToken \<Rightarrow> Inr None | Inl e \<Rightarrow> Inl e)" for v
    by (auto simp: try_decrypt_def split: prod.splits sum.splits token_error.splits)
  have pre: "starts_with ENCRYPTED_PREFIX (ENCRYPTED_PREFIX @ c)" "\<not> starts_with ENCRYPTED_PREFIX ''''" for c
    by (simp_all add: starts_with_def ENCRYPTED_PREFIX_def)
  show ?thesis using assms(2-4) s(1) by (simp add: t decrypt_value[OF s(2)] pre)
qed

definition xor_lib :: "unit fernet_lib" where
  "xor_lib = \<lparr>fl_new = (\<lambda>key. if length key = 44 then Some () else None), fl_encrypt = (\<lambda>_ _. rev), fl_decrypt = (\<lambda>_ c. Some (rev c)),
     fl_is_text = (\<lambda>_. True)\<rparr>"

definition good_key :: settings where
  "good_key = default_settings\<lparr>S_TOKEN_ENCRYPTION_KEY := Some (replicate 44 (CHR ''k''))\<rparr>"

lemma good_key: "key_of xor_lib good_key = Some ()" "cache_ok xor_lib good_key \<lparr>fs_cache = None, fs_warned = False\<rparr>"
  by (simp_all add: key_of_def good_key_def xor_lib_def cache_ok_def or_none_def numeral_eq_Suc)

lemma token_roundtrip_witness:
  "\<exists>st. fst (try_decrypt xor_lib good_key (fst (encrypt xor_lib good_key 1 ''gho_1'' \<lparr>fs_cache = None, fs_warned = False\<rparr>)) st) = Inr (Some ''gho_1'')"
proof -
  obtain x st1 where e: "encrypt xor_lib good_key 1 ''gho_1'' \<lparr>fs_cache = None, fs_warned = False\<rparr> = (x, st1)" by fastforce
  show ?thesis using token_roundtrip[OF good_key(2,1) _ _ e] e by (auto simp: xor_lib_def)
qed

text \<open>The start-up check does not keep tokens from being stored in clear: the settings are refused
  in production when no key is set; but a key that Fernet does not accept passes the check, and
  then every token is stored as it is, and tokens encrypted earlier cannot be read.\<close>

theorem bad_key_stores_clear:
  assumes "is_production s" "fl_new lib key = None" "key \<noteq> ''''" "S_JWT_SECRET_KEY s \<noteq> JWT_PLACEHOLDER"
    "JWT_SECRET_MIN_LENGTH \<le> ulen (S_JWT_SECRET_KEY s)"
  shows "validate_production_secrets False (s\<lparr>S_TOKEN_ENCRYPTION_KEY := None\<rparr>) = Inl NoEncryptionKey
    \<and> (let t = s\<lparr>S_TOKEN_ENCRYPTION_KEY := Some key\<rparr>; st = \<lparr>fs_cache = None, fs_warned = False\<rparr>
       in validate_production_secrets False t = Inr t \<and> fst (encrypt lib t nonce p st) = p
          \<and> fst (decrypt lib t (ENCRYPTED_PREFIX @ c) st) = Inl BadToken)"
proof -
  have k: "key_of lib (s\<lparr>S_TOKEN_ENCRYPTION_KEY := Some key\<rparr>) = None" using assms(2,3) by (simp add: key_of_def or_none_def split: list.splits)
  have c: "cache_ok lib t \<lparr>fs_cache = None, fs_warned = False\<rparr>" for t by (simp add: cache_ok_def)
  have "set_str (Some key)" "\<not> set_str None" using assms(3) by (simp_all add: set_str_def or_none_def split: list.splits)
  moreover have "is_production (s\<lparr>S_TOKEN_ENCRYPTION_KEY := x\<rparr>)" for x using assms(1) by (simp add: is_production_def)
  ultimately show ?thesis
    using assms(4,5) k
    by (simp add: validate_production_secrets_def Let_def encrypt_value(1)[OF c] decrypt_value[OF c] starts_with_def)
qed

definition live :: settings where
  "live = default_settings\<lparr>S_ENV := ''production'', S_JWT_SECRET_KEY := replicate 40 (CHR ''s'')\<rparr>"

lemma bad_key_stores_clear_witness:
  "validate_production_secrets False (live\<lparr>S_TOKEN_ENCRYPTION_KEY := Some ''changeme''\<rparr>) = Inr (live\<lparr>S_TOKEN_ENCRYPTION_KEY := Some ''changeme''\<rparr>)
   \<and> fst (encrypt xor_lib (live\<lparr>S_TOKEN_ENCRYPTION_KEY := Some ''changeme''\<rparr>) 1 ''gho_1'' \<lparr>fs_cache = None, fs_warned = False\<rparr>) = ''gho_1''"
proof -
  have "is_production live" by (simp add: is_production_def live_def) code_simp
  moreover have "ulen (replicate 40 (CHR ''s'')) = 40" by code_simp
  moreover have "replicate 40 (CHR ''s'') \<noteq> JWT_PLACEHOLDER" by code_simp
  ultimately show ?thesis
    using bad_key_stores_clear[of live xor_lib "''changeme''" 1 "''gho_1''"]
    by (simp add: live_def xor_lib_def JWT_SECRET_MIN_LENGTH_def Let_def)
qed

end
