(* ===== verification/Webhooks.thy ===== *)
theory Webhooks
  imports PyText
begin

text \<open>
  src/app/service/webhook_event_repository.py: the WebhookEvent nodes, keyed by the event id of
  the payment provider, which may deliver an event any number of times. \<open>ok\<close> is whether the
  query runs; \<open>dumps\<close> is json.dumps.
\<close>

definition STATUS_PENDING :: string where "STATUS_PENDING = ''pending''"
definition STATUS_PROCESSED :: string where "STATUS_PROCESSED = ''processed''"
definition STATUS_FAILED :: string where "STATUS_FAILED = ''failed''"

record webhook_node =
  wn_id :: string
  wn_pg :: string
  wn_type :: string
  wn_payload :: string
  wn_status :: string
  wn_payment :: "string option"
  wn_retries :: "int option"
  wn_error :: "string option"
  wn_received :: "instant option"
  wn_processed :: "instant option"
  wn_updated :: "instant option"

datatype db_failure = DbFailure

definition payload_text :: "(json \<Rightarrow> string) \<Rightarrow> json \<Rightarrow> string" where
  "payload_text dumps p = (case p of JStr s \<Rightarrow> s | _ \<Rightarrow> dumps p)"

definition insert_cypher :: "string \<Rightarrow> instant \<Rightarrow> string \<Rightarrow> string \<Rightarrow> string \<Rightarrow> webhook_node list
    \<Rightarrow> (string \<times> string) list \<times> webhook_node list" where
  "insert_cypher uuid now pg kind payload ws =
     (let ws' = merge_on wn_pg pg
            \<lparr>wn_id = uuid, wn_pg = pg, wn_type = kind, wn_payload = payload, wn_status = ''pending'', wn_payment = None,
             wn_retries = Some 0, wn_error = None, wn_received = Some now, wn_processed = None, wn_updated = Some now\<rparr>
            (\<lambda>w. w) ws
      in (map (\<lambda>w. (wn_id w, wn_status w)) (match_on wn_pg pg ws'), ws'))"

definition try_insert :: "(json \<Rightarrow> string) \<Rightarrow> bool \<Rightarrow> string \<Rightarrow> instant \<Rightarrow> string \<Rightarrow> string \<Rightarrow> json \<Rightarrow> webhook_node list
    \<Rightarrow> (db_failure + string \<times> bool) \<times> webhook_node list" where
  "try_insert dumps ok uuid now pg kind payload ws =
     (if \<not> ok then (Inl DbFailure, ws)
      else (case insert_cypher uuid now pg kind (payload_text dumps payload) ws of
              (rows, ws') \<Rightarrow>
                (case rows of
                   [] \<Rightarrow> (Inr (''unknown'', False), ws')
                 | (i, st) # _ \<Rightarrow> (Inr (if st = '''' then STATUS_PENDING else st, i = uuid), ws'))))"

definition mark_processed :: "bool \<Rightarrow> instant \<Rightarrow> string \<Rightarrow> string option \<Rightarrow> webhook_node list
    \<Rightarrow> (db_failure + bool) \<times> webhook_node list" where
  "mark_processed ok now pg payment ws =
     (if \<not> ok then (Inl DbFailure, ws)
      else (let ws' = set_on wn_pg pg (\<lambda>w. w\<lparr>wn_status := ''processed'', wn_payment := Some (py_or payment ''''),
                        wn_processed := Some now, wn_updated := Some now\<rparr>) ws
            in (Inr (case row1 (match_on wn_pg pg ws') of None \<Rightarrow> False | Some w \<Rightarrow> wn_id w \<noteq> ''''), ws')))"

definition mark_failed :: "bool \<Rightarrow> instant \<Rightarrow> string \<Rightarrow> string \<Rightarrow> webhook_node list
    \<Rightarrow> (db_failure + int option) \<times> webhook_node list" where
  "mark_failed ok now pg err ws =
     (if \<not> ok then (Inl DbFailure, ws)
      else (let ws' = set_on wn_pg pg (\<lambda>w. w\<lparr>wn_status := ''failed'', wn_error := Some err,
                        wn_retries := Some (coalesce (wn_retries w) 0 + 1), wn_updated := Some now\<rparr>) ws
            in (Inr (map_option (\<lambda>w. coalesce (wn_retries w) 0) (row1 (match_on wn_pg pg ws'))), ws')))"

record webhook_event =
  we_id :: string
  we_pg :: string
  we_type :: string
  we_payload :: string
  we_status :: string
  we_payment :: "string option"
  we_retries :: int
  we_error :: "string option"
  we_received :: "instant option"
  we_processed :: "instant option"
  we_updated :: "instant option"

definition get_by_pg_event_id :: "bool \<Rightarrow> string \<Rightarrow> webhook_node list \<Rightarrow> db_failure + webhook_event option" where
  "get_by_pg_event_id ok pg ws =
     (if \<not> ok then Inl DbFailure
      else Inr (map_option (\<lambda>w. \<lparr>we_id = wn_id w, we_pg = wn_pg w, we_type = wn_type w, we_payload = wn_payload w,
             we_status = wn_status w, we_payment = wn_payment w, we_retries = coalesce (wn_retries w) 0, we_error = wn_error w,
             we_received = wn_received w, we_processed = wn_processed w, we_updated = wn_updated w\<rparr>)
           (row1 (match_on wn_pg pg ws))))"

section \<open>Histories\<close>

datatype webhook_op = Arrive bool string instant string string json | Processed bool instant string "string option"
  | Failed bool instant string string

fun webhook_step :: "(json \<Rightarrow> string) \<Rightarrow> webhook_op \<Rightarrow> webhook_node list \<Rightarrow> (string \<times> bool) option \<times> webhook_node list" where
  "webhook_step dumps (Arrive ok uuid now pg kind payload) ws =
     (case try_insert dumps ok uuid now pg kind payload ws of (Inr r, ws') \<Rightarrow> (Some r, ws') | (Inl e, ws') \<Rightarrow> (None, ws'))"
| "webhook_step dumps (Processed ok now pg payment) ws = (None, snd (mark_processed ok now pg payment ws))"
| "webhook_step dumps (Failed ok now pg err) ws = (None, snd (mark_failed ok now pg err ws))"

text \<open>Each step with its answer.\<close>

fun webhook_run :: "(json \<Rightarrow> string) \<Rightarrow> webhook_op list \<Rightarrow> webhook_node list
    \<Rightarrow> (webhook_op \<times> (string \<times> bool) option) list \<times> webhook_node list" where
  "webhook_run dumps [] ws = ([], ws)"
| "webhook_run dumps (p # ps) ws =
     (case webhook_step dumps p ws of
        (r, ws1) \<Rightarrow> (case webhook_run dumps ps ws1 of (rs, ws2) \<Rightarrow> ((p, r) # rs, ws2)))"

fun arrival_ids :: "webhook_op list \<Rightarrow> string list" where
  "arrival_ids [] = []"
| "arrival_ids (Arrive ok uuid now pg kind payload # ps) = uuid # arrival_ids ps"
| "arrival_ids (_ # ps) = arrival_ids ps"

fun arrives :: "string \<Rightarrow> webhook_op \<Rightarrow> bool" where
  "arrives e (Arrive ok uuid now pg kind payload) = (ok \<and> pg = e)"
| "arrives e _ = False"

definition starts_processing :: "string \<Rightarrow> webhook_op \<times> (string \<times> bool) option \<Rightarrow> bool" where
  "starts_processing e x \<longleftrightarrow> arrives e (fst x) \<and> (\<exists>st. snd x = Some (st, True))"

lemma insert_cypher_rows:
  "fst (insert_cypher uuid now pg kind payload ws) =
     (if match_on wn_pg pg ws = [] then [(uuid, ''pending'')] else map (\<lambda>w. (wn_id w, wn_status w)) (match_on wn_pg pg ws))"
  by (simp add: insert_cypher_def match_on_merge_same)

lemma set_on_image: "(\<And>n. key' (f n) = key' n) \<Longrightarrow> key' ` set (set_on key k f ns) = key' ` set ns"
  by (metis set_on_keys list.set_map)

lemma step_keys:
  "wn_pg ` set (snd (webhook_step dumps p ws)) = wn_pg ` set ws \<union> {e. arrives e p}"
proof (cases p)
  case (Arrive ok uuid now pg kind payload)
  have "pg \<in> wn_pg ` set ws" if "match_on wn_pg pg ws \<noteq> []"
    using that by (auto simp: match_on_def filter_empty_conv)
  then show ?thesis using Arrive
    by (auto simp: try_insert_def insert_cypher_def Let_def merge_on_def set_on_def split: list.splits prod.splits sum.splits if_splits)
next
  case (Processed ok now pg payment)
  then show ?thesis by (simp add: mark_processed_def Let_def set_on_image)
next
  case (Failed ok now pg err)
  then show ?thesis by (simp add: mark_failed_def Let_def set_on_image)
qed

lemma step_ids:
  "wn_id ` set (snd (webhook_step dumps p ws)) \<subseteq> wn_id ` set ws \<union> set (arrival_ids [p])"
  by (cases p) (auto simp: try_insert_def insert_cypher_def mark_processed_def mark_failed_def Let_def merge_on_def set_on_def
      split: list.splits prod.splits sum.splits if_splits)

lemma arrival_ids_Cons: "arrival_ids (p # ps) = arrival_ids [p] @ arrival_ids ps"
  by (cases p) simp_all

lemma step_new:
  assumes "set (arrival_ids [p]) \<inter> wn_id ` set ws = {}"
  shows "starts_processing e (p, fst (webhook_step dumps p ws)) \<longleftrightarrow> arrives e p \<and> e \<notin> wn_pg ` set ws"
proof (cases p)
  case (Arrive ok uuid now pg kind payload)
  have m: "w \<in> set ws \<and> wn_pg w = pg" if "match_on wn_pg pg ws = w # r" for w r
  proof -
    have "w \<in> set (match_on wn_pg pg ws)" using that by simp
    then show ?thesis by (simp add: match_on_def)
  qed
  have "match_on wn_pg pg ws = [] \<longleftrightarrow> pg \<notin> wn_pg ` set ws" by (auto simp: match_on_def filter_empty_conv)
  then show ?thesis
    using Arrive assms m insert_cypher_rows[of uuid now pg kind "payload_text dumps payload" ws]
    by (cases "match_on wn_pg pg ws") (auto simp: starts_processing_def try_insert_def split: prod.splits list.splits)
qed (simp_all add: starts_processing_def)

lemma run_counts:
  assumes "distinct (arrival_ids ps)" "set (arrival_ids ps) \<inter> wn_id ` set ws = {}"
  shows "length (filter (starts_processing e) (fst (webhook_run dumps ps ws))) =
    (if e \<notin> wn_pg ` set ws \<and> (\<exists>p \<in> set ps. arrives e p) then 1 else 0)"
  using assms
proof (induction ps arbitrary: ws)
  case (Cons p ps)
  obtain r ws1 where s: "webhook_step dumps p ws = (r, ws1)" by fastforce
  have sub: "wn_id ` set ws1 \<subseteq> wn_id ` set ws \<union> set (arrival_ids [p])" using step_ids[of dumps p ws] s by simp
  have dis: "distinct (arrival_ids [p] @ arrival_ids ps)" "set (arrival_ids [p] @ arrival_ids ps) \<inter> wn_id ` set ws = {}"
    using Cons.prems arrival_ids_Cons[of p ps] by simp_all
  then have d: "distinct (arrival_ids ps)" "set (arrival_ids [p]) \<inter> wn_id ` set ws = {}" by auto
  have d2: "set (arrival_ids ps) \<inter> wn_id ` set ws1 = {}" using sub dis by (simp del: arrival_ids.simps) blast
  have k: "wn_pg ` set ws1 = wn_pg ` set ws \<union> {e. arrives e p}" using step_keys[of dumps p ws] s by simp
  have n: "starts_processing e (p, r) \<longleftrightarrow> arrives e p \<and> e \<notin> wn_pg ` set ws" using step_new[OF d(2)] s by (metis fst_conv)
  show ?case using Cons.IH[OF d(1) d2] k n s by (auto split: prod.splits)
qed simp



text \<open>A failed event is never retried: after a failure was recorded, which counts it, every later
  delivery is answered as known with status failed, so the handler that skips known events
  does not process it again.\<close>

theorem failed_event_stuck:
  assumes "unique_key wn_pg ws" "w \<in> set ws" "wn_pg w = e" "mark_failed True now e err ws = (r, ws1)" "wn_id w \<noteq> uuid"
  shows "r = Inr (Some (coalesce (wn_retries w) 0 + 1)) \<and> try_insert dumps True uuid later e kind payload ws1 = (Inr (''failed'', False), ws1)"
proof -
  have "match_on wn_pg e ws \<noteq> []" using assms(2,3) by (auto simp: match_on_def filter_empty_conv)
  moreover have "w \<in> set (match_on wn_pg e ws)" using assms(2,3) by (simp add: match_on_def)
  ultimately have m: "match_on wn_pg e ws = [w]" using unique_key_match[OF assms(1), of e] by auto
  let ?f = "\<lambda>w. w\<lparr>wn_status := ''failed'', wn_error := Some err, wn_retries := Some (coalesce (wn_retries w) 0 + 1), wn_updated := Some now\<rparr>"
  have ws1: "ws1 = set_on wn_pg e ?f ws" "r = Inr (Some (coalesce (wn_retries w) 0 + 1))"
    using assms(4) m by (simp_all add: mark_failed_def Let_def match_on_set_same split: prod.splits)
  have m1: "match_on wn_pg e ws1 = [?f w]" using m by (simp add: ws1(1) match_on_set_same)
  have "set_on wn_pg e (\<lambda>w. w) ws1 = ws1" by (simp add: set_on_def)
  then show ?thesis using m1 assms(5) ws1(2)
    by (simp add: try_insert_def insert_cypher_def Let_def merge_on_def)
qed

lemma failed_event_stuck_witness:
  "\<exists>ws1. try_insert (\<lambda>_. '''') True ''b'' 2 ''evt'' ''k'' JNull ws1 = (Inr (''failed'', False), ws1)"
proof -
  let ?w = "\<lparr>wn_id = ''a'', wn_pg = ''evt'', wn_type = ''k'', wn_payload = '''', wn_status = ''pending'', wn_payment = None,
     wn_retries = Some 0, wn_error = None, wn_received = None, wn_processed = None, wn_updated = None\<rparr>"
  obtain r ws1 where m: "mark_failed True 1 ''evt'' ''x'' [?w] = (r, ws1)" by fastforce
  show ?thesis using failed_event_stuck[OF _ _ _ m, of ?w "''b''" "\<lambda>_. ''''" 2 "''k''" JNull] by (auto simp: unique_key_def)
qed

end
