(* ===== verification/Notifications.thy ===== *)
theory Notifications
  imports Config
begin

text \<open>
  The NotificationLog nodes of src/app/service/notification_log_repository.py and send_email
  of src/app/core/email.py, which leaves an entry there for every attempt. The provider's
  answer is an input; \<open>log_ok\<close> is whether the query of the log runs.
\<close>

section \<open>The log\<close>

record notification =
  nl_id :: string
  nl_email :: string
  nl_kind :: string
  nl_subject :: string
  nl_status :: string
  nl_provider :: string
  nl_message_id :: string
  nl_error :: "string option"
  nl_context :: "string option"
  nl_sent :: instant

definition KIND_OTHER :: string where "KIND_OTHER = ''other''"

record log_env =
  le_uuid :: string
  le_now :: instant
  le_ok :: bool
  le_dumps :: "(string \<times> json) list \<Rightarrow> string option"

definition record_notification :: "log_env \<Rightarrow> string \<Rightarrow> string \<Rightarrow> string \<Rightarrow> string \<Rightarrow> string \<Rightarrow> string option \<Rightarrow> string option
    \<Rightarrow> (string \<times> json) list option \<Rightarrow> notification list \<Rightarrow> string option \<times> notification list" where
  "record_notification n user_email kind subject status provider message_id error context ns =
     (let ctx = (case context of None \<Rightarrow> None
                 | Some c \<Rightarrow> if c = [] then None else map_option (take_text 2000) (le_dumps n c))
      in if \<not> le_ok n then (None, ns)
         else (if le_uuid n \<noteq> '''' then Some (le_uuid n) else None,
               ns @ [\<lparr>nl_id = le_uuid n, nl_email = user_email, nl_kind = (if kind = '''' then KIND_OTHER else kind),
                      nl_subject = take_text 300 subject, nl_status = (if status = '''' then ''sent'' else status),
                      nl_provider = (if provider = '''' then ''resend'' else provider), nl_message_id = py_or message_id '''',
                      nl_error = map_option (take_text 500) (or_none error), nl_context = ctx, nl_sent = le_now n\<rparr>]))"

text \<open>The newest entries of a user, entries of one instant in scan order; a negative limit is an error
  of the query.\<close>

definition list_logs_for_user :: "bool \<Rightarrow> string \<Rightarrow> int \<Rightarrow> notification list \<Rightarrow> notification list option" where
  "list_logs_for_user ok email limit ns =
     (if \<not> ok \<or> limit < 0 then None
      else Some (filter (\<lambda>x. nl_id x \<noteq> '''')
             (take (nat limit) (sort_key (\<lambda>x. - nl_sent x) (match_on nl_email email ns)))))"

section \<open>Sending\<close>

datatype email_error = EmailDisabled | EmailSendError string | OtherError

text \<open>The answer of the provider: a transport error with its text, or a status, a body text and what
  json() makes of it (None: not JSON).\<close>

datatype post_answer = Transport string | Answered nat string "json option"

record mail_request =
  mr_from :: string
  mr_to :: string
  mr_subject :: string
  mr_html :: string
  mr_text :: "string option"
  mr_bearer :: string

definition mail_request_of :: "settings \<Rightarrow> string \<Rightarrow> string \<Rightarrow> string \<Rightarrow> string option \<Rightarrow> mail_request" where
  "mail_request_of cfg to_addr subject html text =
     \<lparr>mr_from = S_RESEND_FROM_EMAIL cfg, mr_to = to_addr, mr_subject = subject, mr_html = html, mr_text = or_none text,
      mr_bearer = py_or (S_RESEND_API_KEY cfg) ''''\<rparr>"

text \<open>The reason in an error answer; None: get is called on something else than a dict.\<close>

definition refusal_reason :: "(json \<Rightarrow> string) \<Rightarrow> json \<Rightarrow> string option" where
  "refusal_reason to_str b =
     (if \<not> is_obj (Some b) then None
      else Some (to_str (case json_get b ''message'' of
              Some m \<Rightarrow> if json_true m then m
                        else (case json_get b ''error'' of Some e \<Rightarrow> if json_true e then e else b | None \<Rightarrow> b)
            | None \<Rightarrow> (case json_get b ''error'' of Some e \<Rightarrow> if json_true e then e else b | None \<Rightarrow> b))))"

definition message_id_of :: "(json \<Rightarrow> string) \<Rightarrow> json \<Rightarrow> string option" where
  "message_id_of to_str d =
     (if \<not> is_obj (Some d) then None
      else Some (case json_get d ''id'' of Some i \<Rightarrow> if json_true i then to_str i else '''' | None \<Rightarrow> ''''))"

definition send_email :: "settings \<Rightarrow> (json \<Rightarrow> string) \<Rightarrow> log_env \<Rightarrow> (mail_request \<Rightarrow> post_answer) \<Rightarrow> string \<Rightarrow> string \<Rightarrow> string
    \<Rightarrow> string option \<Rightarrow> string option \<Rightarrow> (string \<times> json) list option \<Rightarrow> notification list
    \<Rightarrow> (email_error + string) \<times> mail_request option \<times> notification list" where
  "send_email cfg to_str n post to_addr subject html text kind context ns =
     (let note = (\<lambda>status mid err. snd (record_notification n to_addr (py_or kind KIND_OTHER) subject status ''resend'' mid err context ns));
          req = mail_request_of cfg to_addr subject html text
      in if \<not> email_enabled cfg then (Inl EmailDisabled, None, note ''disabled'' None (Some (bytes [82, 69, 83, 69, 78, 68, 95, 65, 80, 73, 95, 75, 69, 89, 32, 235, 175, 184, 236, 132, 164, 236,
      160, 149])))
         else (case post req of
                 Transport e \<Rightarrow> (Inl (EmailSendError (bytes [236, 157, 180, 235, 169, 148, 236, 157, 188, 32, 235, 176, 156, 236, 134, 161, 32, 236, 139, 164, 237, 140,
      168, 58, 32] @ e)), Some req, note ''failed'' None (Some (''network: '' @ e)))
               | Answered status body js \<Rightarrow>
                   if 400 \<le> status then
                     (case refusal_reason to_str (case js of Some j \<Rightarrow> j | None \<Rightarrow> JObj [(''raw'', JStr body)]) of
                        None \<Rightarrow> (Inl OtherError, Some req, ns)
                      | Some why \<Rightarrow>
                          (Inl (EmailSendError (bytes [236, 157, 180, 235, 169, 148, 236, 157, 188, 32, 235, 176, 156, 236, 134, 161, 32, 234, 177, 176, 235, 182,
      128, 32, 40, 115, 116, 97, 116, 117, 115, 61] @ dec_nat status @ ''): '' @ why)), Some req,
                           note ''failed'' None (Some (''status='' @ dec_nat status @ '': '' @ why))))
                   else (case (if body = '''' then Some (JObj []) else js) of
                           None \<Rightarrow> (Inl OtherError, Some req, ns)
                         | Some d \<Rightarrow>
                             (case message_id_of to_str d of
                                None \<Rightarrow> (Inl OtherError, Some req, ns)
                              | Some i \<Rightarrow> (Inr i, Some req, note ''sent'' (Some i) None)))))"

section \<open>Every attempt is on record\<close>

definition the_log :: "notification list option \<Rightarrow> notification list" where
  "the_log x = (case x of Some ns \<Rightarrow> ns | None \<Rightarrow> [])"

lemma newest_first:
  assumes "\<And>x. x \<in> set ns \<Longrightarrow> nl_sent x < nl_sent e" "nl_email e = a"
  shows "sort_key (\<lambda>x. - nl_sent x) (match_on nl_email a (ns @ [e])) = e # sort_key (\<lambda>x. - nl_sent x) (match_on nl_email a ns)"
proof -
  define xs where "xs = match_on nl_email a ns"
  have "\<And>x. x \<in> set xs \<Longrightarrow> nl_sent x < nl_sent e" using assms(1) by (simp add: xs_def match_on_def)
  then have "sort_key (\<lambda>x. - nl_sent x) (xs @ [e]) = e # sort_key (\<lambda>x. - nl_sent x) xs"
  proof (induction xs)
    case (Cons x xs)
    have "- nl_sent x \<noteq> - nl_sent e" "\<not> - nl_sent x \<le> - nl_sent e" using Cons.prems[of x] by auto
    then show ?case using Cons by (simp add: insort_key.simps)
  qed simp
  then show ?thesis using assms(2) by (simp add: xs_def)
qed


definition mail_settings :: settings where
  "mail_settings = default_settings\<lparr>S_RESEND_API_KEY := Some ''re_1''\<rparr>"

definition works :: log_env where
  "works = \<lparr>le_uuid = ''n1'', le_now = 7, le_ok = True, le_dumps = (\<lambda>_. None)\<rparr>"


end
