(* ===== verification/EmailTemplates.thy ===== *)
theory EmailTemplates
  imports Notifications
begin

text \<open>
  The mails of src/app/core/email.py. A template is the list of its literal parts, between which
  the values are woven; in a literal a grave accent stands for a double quote, a circumflex
  for a single quote and a bar for a newline. Values that the code formats with str() are given as
  texts; the split of a price into net price and tax (module app.core.billing_tax) is a parameter.
\<close>

section \<open>Texts\<close>

definition tx_char :: "char \<Rightarrow> char" where
  "tx_char c = (if c = CHR ''`'' then CHR 0x22 else if c = CHR ''^'' then CHR 0x27 else if c = CHR ''|'' then CHR 0x0A else c)"

definition tx :: "string \<Rightarrow> string" where
  "tx s = map tx_char s"

fun weave :: "string list \<Rightarrow> string list \<Rightarrow> string" where
  "weave [] vs = concat vs"
| "weave (p # ps) [] = p @ concat ps"
| "weave (p # ps) (v # vs) = p @ v @ weave ps vs"

definition html_char :: "char \<Rightarrow> string" where
  "html_char c =
     (if c = CHR ''&'' then ''&amp;'' else if c = CHR ''<'' then ''&lt;'' else if c = CHR ''>'' then ''&gt;''
      else if c = CHR 0x22 then ''&quot;'' else if c = CHR 0x27 then ''&#x27;'' else [c])"

text \<open>html.escape, and the replacement of newlines.\<close>

definition html_escape :: "string \<Rightarrow> string" where
  "html_escape s = concat (map html_char s)"

definition br_lines :: "string \<Rightarrow> string" where
  "br_lines s = concat (map (\<lambda>c. if c = CHR 0x0A then ''<br/>'' else [c]) s)"

text \<open>The format \<open>:,\<close> of an integer.\<close>

function comma_nat :: "nat \<Rightarrow> string" where
  "comma_nat n =
     (if n < 1000 then dec_nat n
      else comma_nat (n div 1000) @ '','' @ replicate (3 - length (dec_nat (n mod 1000))) (CHR ''0'') @ dec_nat (n mod 1000))"
  by auto
termination by (relation "measure id") auto

declare comma_nat.simps [simp del]

definition comma_int :: "int \<Rightarrow> string" where
  "comma_int i = (if i < 0 then CHR ''-'' # comma_nat (nat (- i)) else comma_nat (nat i))"

text \<open>A mail: subject, HTML, text.\<close>

type_synonym mail = "string \<times> string \<times> string"

section \<open>Answer to an inquiry\<close>

definition inquiry_subject :: "string list" where
  "inquiry_subject = [
    tx (concat [''[Harness] '',
      bytes [235, 172, 184, 236, 157, 152, 236, 151, 144, 32, 235, 139, 181, 235, 179, 128, 236, 157, 180, 32, 235, 143, 132, 236, 176, 169, 237, 150, 136, 236,
        138, 181, 235, 139, 136, 235, 139, 164, 32, 226, 128, 148, 32]]),
    '''']"


definition inquiry_text :: "string list" where
  "inquiry_text = [
    bytes [236, 149, 136, 235, 133, 149, 237, 149, 152, 236, 132, 184, 236, 154, 148, 32],
    tx (concat [bytes [235, 139, 152],
      '',|'',
      ''|'',
      bytes [235, 172, 184, 236, 157, 152, 237, 149, 152, 236, 139, 160, 32, 235, 130, 180, 236, 154, 169, 32, 39]]),
    tx (concat [''^ '',
      bytes [236, 151, 144, 32, 234, 180, 128, 235, 166, 172, 236, 158, 144, 234, 176, 128, 32, 235, 139, 181, 235, 179, 128, 236, 157, 132, 32, 236, 158, 145,
        236, 132, 177, 237, 150, 136, 236, 138, 181, 235, 139, 136, 235, 139, 164],
      ''.|'',
      ''|'',
      bytes [235, 139, 181, 235, 179, 128, 32, 235, 175, 184, 235, 166, 172, 235, 179, 180, 234, 184, 176],
      '':|'']),
    tx (concat [''|'',
      ''|'',
      bytes [236, 160, 132, 236, 178, 180, 32, 235, 139, 181, 235, 179, 128, 236, 157, 128, 32, 236, 149, 132, 235, 158, 152, 32, 235, 167, 129, 237, 129, 172,
        236, 151, 144, 236, 132, 156, 32, 237, 153, 149, 236, 157, 184, 237, 149, 160, 32, 236, 136, 152, 32, 236, 158, 136, 236, 138, 181, 235, 139, 136,
        235, 139, 164],
      '':|'']),
    tx (concat [''|'',
      ''|'',
      bytes [226, 128, 148],
      '' Harness Team''])]"


definition inquiry_html :: "string list" where
  "inquiry_html = [
    tx (concat [''<!DOCTYPE html>|'',
      ''<html lang=`ko`>|'',
      ''<head><meta charset=`utf-8` /><title>'']),
    tx (concat [''</title></head>|'',
      ''<body style=`margin:0; padding:0; background:#F7F5EB; font-family:^Pretendard^,sans-serif;`>|'',
      ''  <table role=`presentation` width=`100%` cellspacing=`0` cellpadding=`0` style=`background:#F7F5EB; padding:40px 0;`>|'',
      ''    <tr><td align=`center`>|'',
      ''      <table role=`presentation` width=`560` cellspacing=`0` cellpadding=`0` style=`background:#ffffff; border-radius:14px; padding:36px; box-shadow:0 '',
      ''4px 16px rgba(0,0,0,0.06);`>|'',
      ''        <tr><td>|'',
      ''          <h1 style=`margin:0 0 8px; font-size:22px; color:#2A2421; letter-spacing:-0.02em;`>Harness</h1>|'',
      ''          <p style=`margin:0 0 24px; font-size:12px; color:#8A817C; letter-spacing:0.06em; text-transform:uppercase;`>'',
      bytes [235, 172, 184, 236, 157, 152, 32, 235, 139, 181, 235, 179, 128, 32, 235, 143, 132, 236, 176, 169],
      ''</p>|'',
      ''|'',
      ''          <p style=`margin:0 0 12px; font-size:15px; color:#2A2421; line-height:1.6;`>|'',
      ''            '',
      bytes [236, 149, 136, 235, 133, 149, 237, 149, 152, 236, 132, 184, 236, 154, 148],
      '' <strong>'']),
    tx (concat [''</strong>'',
      bytes [235, 139, 152],
      '',|'',
      ''          </p>|'',
      ''          <p style=`margin:0 0 20px; font-size:14px; color:#2A2421; line-height:1.7;`>|'',
      ''            '',
      bytes [235, 172, 184, 236, 157, 152, 237, 149, 152, 236, 139, 160, 32, 235, 130, 180, 236, 154, 169],
      '' `<strong>'']),
    tx (concat [''</strong>` '',
      bytes [236, 151, 144],
      ''<br/>|'',
      ''            '',
      bytes [234, 180, 128, 235, 166, 172, 236, 158, 144, 234, 176, 128, 32, 235, 139, 181, 235, 179, 128, 236, 157, 132, 32, 236, 158, 145, 236, 132, 177, 237,
        150, 136, 236, 138, 181, 235, 139, 136, 235, 139, 164],
      ''.|'',
      ''          </p>|'',
      ''|'',
      ''          <div style=`background:#F7F5EB; border-left:3px solid #8C6239; padding:14px 16px; border-radius:8px; margin:0 0 24px;`>|'',
      ''            <p style=`margin:0 0 4px; font-size:11px; color:#8A817C; font-weight:700; text-transform:uppercase; letter-spacing:0.04em;`>'',
      bytes [235, 139, 181, 235, 179, 128, 32, 235, 175, 184, 235, 166, 172, 235, 179, 180, 234, 184, 176],
      ''</p>|'',
      ''            <p style=`margin:0; font-size:13.5px; color:#2A2421; line-height:1.7;`>'']),
    tx (concat [''</p>|'',
      ''          </div>|'',
      ''|'',
      ''          <table role=`presentation` cellspacing=`0` cellpadding=`0` style=`margin:0 0 28px;`>|'',
      ''            <tr><td>|'',
      ''              <a href=`'']),
    tx (concat [''` style=`display:inline-block; padding:12px 28px; background:#8C6239; color:#ffffff; text-decoration:none; border-radius:10px; font-weight:700; font-size:14px;`>|'',
      ''                '',
      bytes [236, 160, 132, 236, 178, 180, 32, 235, 139, 181, 235, 179, 128, 32, 235, 179, 180, 234, 184, 176],
      ''|'',
      ''              </a>|'',
      ''            </td></tr>|'',
      ''          </table>|'',
      ''|'',
      ''          <hr style=`border:none; border-top:1px solid rgba(140,98,57,0.15); margin:0 0 18px;` />|'',
      ''          <p style=`margin:0; font-size:11px; color:#8A817C; line-height:1.6;`>|'',
      ''            '',
      bytes [235, 161, 156, 234, 183, 184, 236, 157, 184, 32, 237, 155, 132, 32, 34, 235, 130, 180, 32, 235, 172, 184, 236, 157, 152, 34, 32, 237, 142, 152,
        236, 157, 180, 236, 167, 128, 236, 151, 144, 236, 132, 156, 32, 235, 139, 181, 235, 179, 128, 32, 236, 160, 132, 235, 172, 184, 234, 179, 188, 32,
        236, 157, 180, 236, 160, 132, 32, 235, 172, 184, 236, 157, 152, 32, 235, 130, 180, 236, 151, 173, 236, 157, 132, 32, 235, 170, 168, 235, 145, 144,
        32, 237, 153, 149, 236, 157, 184, 237, 149, 160, 32, 236, 136, 152, 32, 236, 158, 136, 236, 138, 181, 235, 139, 136, 235, 139, 164],
      ''.<br/>|'',
      ''            '',
      bytes [226, 128, 148],
      '' Harness Team|'',
      ''          </p>|'',
      ''        </td></tr>|'',
      ''      </table>|'',
      ''    </td></tr>|'',
      ''  </table>|'',
      ''</body>|'',
      ''</html>''])]"


definition inquiry_preview :: "string \<Rightarrow> string" where
  "inquiry_preview reply =
     (let p = py_strip reply in if 300 < ulen p then take_text 300 p @ ''...'' else p)"

definition render_inquiry_reply_email :: "string \<Rightarrow> string \<Rightarrow> string \<Rightarrow> string \<Rightarrow> mail" where
  "render_inquiry_reply_email name subject_original reply url =
     (let subject = weave inquiry_subject [subject_original];
          preview = inquiry_preview reply
      in (subject,
          weave inquiry_html [subject, html_escape name, html_escape subject_original, br_lines (html_escape preview), url],
          weave inquiry_text [name, subject_original, preview, url]))"

section \<open>The common frame\<close>

definition common_cta :: "string list" where
  "common_cta = [
    tx (concat [''          <table role=`presentation` cellspacing=`0` cellpadding=`0` style=`margin:0 0 28px;`>|'',
      ''            <tr><td>|'',
      ''              <a href=`'']),
    tx (concat [''` style=`display:inline-block; padding:12px 28px; background:#8C6239; color:#ffffff; text-decoration:none; border-radius:10px; font-weight:700; font-size:14px;`>|'',
      ''                '']),
    tx (concat [''|'',
      ''              </a>|'',
      ''            </td></tr>|'',
      ''          </table>''])]"


definition common_html :: "string list" where
  "common_html = [
    tx (concat [''<!DOCTYPE html>|'',
      ''<html lang=`ko`>|'',
      ''<head><meta charset=`utf-8` /><title>'']),
    tx (concat [''</title></head>|'',
      ''<body style=`margin:0; padding:0; background:#F7F5EB; font-family:^Pretendard^,sans-serif;`>|'',
      ''  <table role=`presentation` width=`100%` cellspacing=`0` cellpadding=`0` style=`background:#F7F5EB; padding:40px 0;`>|'',
      ''    <tr><td align=`center`>|'',
      ''      <table role=`presentation` width=`560` cellspacing=`0` cellpadding=`0` style=`background:#ffffff; border-radius:14px; padding:36px; box-shadow:0 '',
      ''4px 16px rgba(0,0,0,0.06);`>|'',
      ''        <tr><td>|'',
      ''          <h1 style=`margin:0 0 8px; font-size:22px; color:#2A2421; letter-spacing:-0.02em;`>Harness</h1>|'',
      ''          <p style=`margin:0 0 24px; font-size:12px; color:#8A817C; letter-spacing:0.06em; text-transform:uppercase;`>'']),
    tx (concat [''</p>|'',
      ''          '']),
    tx (concat [''|'',
      ''          '']),
    tx (concat [''|'',
      ''          <hr style=`border:none; border-top:1px solid rgba(140,98,57,0.15); margin:0 0 18px;` />|'',
      ''          <p style=`margin:0; font-size:11px; color:#8A817C; line-height:1.6;`>|'',
      ''            '',
      bytes [235, 172, 184, 236, 157, 152],
      '': <a href=`mailto:support@gayoje.example` style=`color:#8C6239;`>support@gayoje.example</a><br/>|'',
      ''            '',
      bytes [226, 128, 148],
      '' Harness Team|'',
      ''          </p>|'',
      ''        </td></tr>|'',
      ''      </table>|'',
      ''    </td></tr>|'',
      ''  </table>|'',
      ''</body>|'',
      ''</html>''])]"


definition common_email_html :: "string \<Rightarrow> string \<Rightarrow> string option \<Rightarrow> string option \<Rightarrow> string" where
  "common_email_html title body cta_url cta_label =
     (let cta = (case (or_none cta_url, or_none cta_label) of (Some u, Some l) \<Rightarrow> weave common_cta [u, l] | _ \<Rightarrow> '''')
      in weave common_html [title, title, body, cta])"

section \<open>Downgrade ahead\<close>

definition expiring_subject :: "string list" where
  "expiring_subject = [
    tx (concat [''[Harness] '',
      bytes [235, 172, 180, 235, 163, 140, 32, 235, 147, 177, 234, 184, 137, 32, 234, 176, 149, 235, 147, 177, 234, 185, 140, 236, 167, 128, 32]]),
    bytes [236, 139, 156, 234, 176, 132, 32, 226, 128, 148, 32, 235, 167, 136, 236, 167, 128, 235, 167, 137, 32, 236, 149, 136, 235, 130, 180]]"


definition expiring_text :: "string list" where
  "expiring_text = [
    bytes [236, 149, 136, 235, 133, 149, 237, 149, 152, 236, 132, 184, 236, 154, 148, 32],
    tx (concat [bytes [235, 139, 152],
      '',|'',
      ''|'']),
    tx (concat ['' '',
      bytes [235, 147, 177, 234, 184, 137, 236, 157, 180, 32]]),
    bytes [236, 139, 156, 234, 176, 132, 32, 237, 155, 132, 32, 40],
    tx (concat ['') '',
      bytes [235, 172, 180, 235, 163, 140, 32, 235, 147, 177, 234, 184, 137, 236, 156, 188, 235, 161, 156, 32, 234, 176, 149, 235, 147, 177, 235, 144, 169, 235,
        139, 136, 235, 139, 164],
      ''.|'',
      bytes [236, 185, 180, 235, 147, 156, 32, 236, 160, 149, 235, 179, 180, 235, 165, 188, 32, 236, 151, 133, 235, 141, 176, 236, 157, 180, 237, 138, 184, 237,
        149, 152, 235, 169, 180, 32, 236, 158, 144, 235, 143, 153, 32, 236, 158, 172, 234, 178, 176, 236, 160, 156, 234, 176, 128, 32, 236, 139, 156, 235,
        143, 132, 235, 144, 169, 235, 139, 136, 235, 139, 164],
      ''.|'',
      ''|'',
      bytes [236, 185, 180, 235, 147, 156, 32, 235, 179, 128, 234, 178, 189, 32, 47, 32, 236, 158, 172, 234, 178, 176, 236, 160, 156],
      '':|'']),
    tx (concat [''|'',
      ''|'',
      bytes [226, 128, 148],
      '' Harness Team''])]"


definition expiring_body :: "string list" where
  "expiring_body = [
    tx (concat [''          <p style=`margin:0 0 12px; font-size:15px; color:#2A2421; line-height:1.6;`>|'',
      ''            '',
      bytes [236, 149, 136, 235, 133, 149, 237, 149, 152, 236, 132, 184, 236, 154, 148],
      '' <strong>'']),
    tx (concat [''</strong>'',
      bytes [235, 139, 152],
      '',|'',
      ''          </p>|'',
      ''          <div style=`background:#FEF3C7; border-left:3px solid #B45309; padding:14px 16px; border-radius:8px; margin:0 0 20px;`>|'',
      ''            <p style=`margin:0; font-size:14px; color:#78350F; line-height:1.7;`>|'',
      ''              <strong>'']),
    tx (concat [''</strong> '',
      bytes [235, 147, 177, 234, 184, 137, 236, 157, 180],
      '' <strong>'']),
    tx (concat [bytes [236, 139, 156, 234, 176, 132, 32, 237, 155, 132],
      ''</strong> ('']),
    tx (concat ['')<br/>|'',
      ''              '',
      bytes [235, 172, 180, 235, 163, 140, 32, 235, 147, 177, 234, 184, 137, 236, 156, 188, 235, 161, 156, 32, 234, 176, 149, 235, 147, 177, 235, 144, 169, 235,
        139, 136, 235, 139, 164],
      ''.|'',
      ''            </p>|'',
      ''          </div>|'',
      ''          <p style=`margin:0 0 20px; font-size:14px; color:#2A2421; line-height:1.7;`>|'',
      ''            '',
      bytes [236, 185, 180, 235, 147, 156, 32, 236, 160, 149, 235, 179, 180, 235, 165, 188, 32, 236, 151, 133, 235, 141, 176, 236, 157, 180, 237, 138, 184, 237,
        149, 152, 235, 169, 180, 32, 236, 158, 144, 235, 143, 153, 32, 236, 158, 172, 234, 178, 176, 236, 160, 156, 234, 176, 128, 32, 236, 139, 156, 235,
        143, 132, 235, 144, 152, 236, 150, 180, 32, 235, 147, 177, 234, 184, 137, 236, 157, 180, 32, 236, 156, 160, 236, 167, 128, 235, 144, 169, 235, 139,
        136, 235, 139, 164],
      ''.<br/>|'',
      ''            '',
      bytes [236, 167, 128, 234, 184, 136, 236, 157, 180, 32, 235, 167, 136, 236, 167, 128, 235, 167, 137, 32, 236, 149, 136, 235, 130, 180, 236, 158, 133, 235,
        139, 136, 235, 139, 164],
      ''.|'',
      ''          </p>''])]"


definition render_subscription_expiring_soon_email :: "string \<Rightarrow> string \<Rightarrow> string \<Rightarrow> int \<Rightarrow> string \<Rightarrow> mail" where
  "render_subscription_expiring_soon_email name plan grace hours url =
     (weave expiring_subject [int_str hours],
      common_email_html (bytes [234, 176, 149, 235, 147, 177, 234, 185, 140, 236, 167, 128, 32] @ int_str hours @ bytes [236, 139, 156, 234, 176, 132]) (weave expiring_body [name, plan, int_str hours, grace])
        (Some url) (Some (bytes [236, 185, 180, 235, 147, 156, 32, 235, 179, 128, 234, 178, 189, 32, 47, 32, 236, 158, 172, 234, 178, 176,
      236, 160, 156])),
      weave expiring_text [name, plan, int_str hours, grace, url])"

section \<open>Alert for administrators\<close>

definition alert_subject :: "string list" where
  "alert_subject = [
    ''[Harness '',
    ''] '',
    '''']"


definition alert_row :: "string list" where
  "alert_row = [
    tx (concat [''<tr>|'',
      ''              <td style=`padding:4px 12px 4px 0; font-size:12px; color:#8A817C; vertical-align:top; white-space:nowrap;`>'']),
    tx (concat [''</td>|'',
      ''              <td style=`padding:4px 0; font-size:12.5px; color:#2A2421; word-break:break-all;`>'']),
    tx (concat [''</td>|'',
      ''            </tr>''])]"


definition alert_action :: "string list" where
  "alert_action = [
    tx (concat [''          <div style=`background:#FEE2E2; border-left:3px solid #DC2626; padding:12px 14px; border-radius:8px; margin:0 0 18px;`>|'',
      ''            <p style=`margin:0 0 4px; font-size:11px; color:#7F1D1D; font-weight:700; text-transform:uppercase;`>'',
      bytes [236, 149, 161, 236, 133, 152, 32, 237, 149, 132, 236, 154, 148],
      ''</p>|'',
      ''            <p style=`margin:0; font-size:13px; color:#7F1D1D; line-height:1.6;`>'']),
    tx (concat [''</p>|'',
      ''          </div>''])]"


definition alert_text :: "string list" where
  "alert_text = [
    '''',
    tx (concat ['' '',
      bytes [226, 128, 148, 32]]),
    tx (concat [''|'',
      ''|'']),
    tx (concat [''|'',
      ''|'']),
    '''',
    tx (concat [''|'',
      ''|'',
      bytes [226, 128, 148],
      '' Harness '',
      bytes [236, 154, 180, 236, 152, 129, 32, 236, 149, 140, 235, 166, 188],
      ''|''])]"


definition alert_table :: "string list" where
  "alert_table = [
    tx (concat [''<table role=`presentation` cellspacing=`0` cellpadding=`0` width=`100%` style=`background:#F7F5EB; border-radius:10px; padding:10px 14px; margin:0 0 18px;`>'']),
    ''</table>'']"


definition alert_body :: "string list" where
  "alert_body = [
    tx (concat [''          <div style=`background:'']),
    tx (concat ['';|'',
      ''                      border-radius:8px; padding:10px 14px; margin:0 0 18px;|'',
      ''                      font-size:12px; font-weight:700;|'',
      ''                      color:'']),
    tx (concat ['';`>|'',
      ''            '']),
    tx (concat [''|'',
      ''          </div>|'',
      ''          <p style=`margin:0 0 18px; font-size:14.5px; color:#2A2421; line-height:1.7;`>|'',
      ''            '']),
    tx (concat [''|'',
      ''          </p>|'',
      ''          '']),
    tx (concat [''|'',
      ''          '']),
    tx (concat [''|'',
      ''          <p style=`margin:0; font-size:11px; color:#8A817C; line-height:1.6;`>|'',
      ''            '',
      bytes [236, 157, 180, 32, 236, 149, 140, 235, 166, 188, 236, 157, 128, 32, 236, 154, 180, 236, 152, 129, 236, 158, 144],
      '' (ADMIN_EMAILS) '',
      bytes [236, 151, 144, 234, 178, 140, 32, 236, 158, 144, 235, 143, 153, 32, 235, 176, 156, 236, 134, 161, 235, 144, 169, 235, 139, 136, 235, 139, 164],
      ''.|'',
      ''          </p>''])]"


definition render_admin_alert_email :: "string \<Rightarrow> string \<Rightarrow> string \<Rightarrow> (string \<times> string) list option \<Rightarrow> string option \<Rightarrow> mail" where
  "render_admin_alert_email severity title message context action =
     (let critical = (severity = ''critical'');
          severity_label = (if critical then bytes [240, 159, 154, 168, 32, 67, 82, 73, 84, 73, 67, 65, 76] else bytes [226, 154, 160, 239, 184, 143, 32, 87, 65, 82, 78, 73, 78, 71]);
          ctx = (case context of Some c \<Rightarrow> c | None \<Rightarrow> []);
          ctx_text = join_with [CHR 0x0A] (map (\<lambda>(k, v). ''  - '' @ k @ '': '' @ v) ctx);
          ctx_html = concat (map (\<lambda>(k, v). weave alert_row [html_escape k, html_escape v]) ctx);
          action_line = (case or_none action of Some a \<Rightarrow> tx ''||'' @ bytes [91, 236, 149, 161, 236, 133, 152, 32, 237, 149, 132, 236, 154, 148, 93] @ tx ''|'' @ a | None \<Rightarrow> '''');
          action_html = (case or_none action of Some a \<Rightarrow> weave alert_action [br_lines (html_escape a)] | None \<Rightarrow> '''')
      in (weave alert_subject [severity_label, title],
          common_email_html title
            (weave alert_body [if critical then ''#FEE2E2'' else ''#FEF3C7'', if critical then ''#7F1D1D'' else ''#78350F'', severity_label,
               br_lines (html_escape message), if ctx_html = '''' then '''' else weave alert_table [ctx_html], action_html])
            None None,
          weave alert_text [severity_label, title, message,
            if ctx_text = '''' then '''' else bytes [236, 187, 168, 237, 133, 141, 236, 138, 164, 237, 138, 184, 58] @ tx ''|'' @ ctx_text, action_line]))"

section \<open>Refund\<close>

definition refund_subject :: "string list" where
  "refund_subject = [
    ''[Harness] '',
    bytes [236, 155, 144, 32],
    tx (concat ['' '',
      bytes [236, 178, 152, 235, 166, 172, 32, 236, 153, 132, 235, 163, 140]])]"


definition refund_text :: "string list" where
  "refund_text = [
    bytes [236, 149, 136, 235, 133, 149, 237, 149, 152, 236, 132, 184, 236, 154, 148, 32],
    tx (concat [bytes [235, 139, 152],
      '',|'',
      ''|'']),
    tx (concat ['' '',
      bytes [235, 147, 177, 234, 184, 137, 32, 234, 178, 176, 236, 160, 156, 32, 234, 177, 180, 236, 151, 144, 32, 235, 140, 128, 237, 149, 156, 32]]),
    '' ('',
    tx (concat [bytes [236, 155, 144, 41, 32, 234, 176, 128, 32, 236, 178, 152, 235, 166, 172, 235, 144, 152, 236, 151, 136, 236, 138, 181, 235, 139, 136, 235, 139, 164],
      ''.|'',
      ''|'',
      ''- '',
      bytes [237, 153, 152, 235, 182, 136, 32, 234, 184, 136, 236, 149, 161, 58, 32]]),
    tx (concat [bytes [236, 155, 144],
      ''|'',
      ''- '',
      bytes [236, 155, 144, 32, 234, 178, 176, 236, 160, 156, 32, 234, 184, 136, 236, 149, 161, 58, 32]]),
    tx (concat [bytes [236, 155, 144],
      ''|'',
      ''- '',
      bytes [236, 130, 172, 236, 156, 160, 58, 32]]),
    '''',
    '''',
    tx (concat [''|'',
      ''|'',
      bytes [236, 185, 180, 235, 147, 156, 236, 130, 172, 32, 236, 160, 149, 236, 177, 133, 236, 151, 144, 32, 235, 148, 176, 235, 157, 188, 32, 236, 152, 129,
        236, 151, 133, 236, 157, 188, 32, 234, 184, 176, 236, 164, 128],
      '' 3~7'',
      bytes [236, 157, 188, 32, 236, 157, 180, 235, 130, 180, 32, 237, 153, 152, 235, 182, 136, 32, 235, 176, 152, 236, 152, 129, 235, 144, 169, 235, 139, 136,
        235, 139, 164],
      ''.|'',
      ''|'',
      bytes [235, 172, 184, 236, 157, 152],
      '': support@gayoje.example|'',
      ''|'',
      bytes [226, 128, 148],
      '' Harness Team''])]"


definition refund_downgrade :: string where
  "refund_downgrade =
    tx (concat [''          <div style=`background:#FEF3C7; border-left:3px solid #B45309; padding:12px 14px; border-radius:8px; margin:0 0 18px;`>|'',
      ''            <p style=`margin:0; font-size:13px; color:#78350F; line-height:1.6;`>|'',
      ''              '',
      bytes [226, 154, 160, 239, 184, 143, 32, 237, 153, 152, 235, 182, 136, 32, 236, 178, 152, 235, 166, 172, 236, 153, 128, 32, 237, 149, 168, 234, 187, 152,
        32, 235, 147, 177, 234, 184, 137, 236, 157, 180],
      '' <strong>'',
      bytes [235, 172, 180, 235, 163, 140],
      ''</strong>'',
      bytes [235, 161, 156, 32, 235, 179, 128, 234, 178, 189, 235, 144, 152, 236, 151, 136, 236, 138, 181, 235, 139, 136, 235, 139, 164],
      ''.<br/>|'',
      ''              '',
      bytes [237, 148, 132, 235, 161, 156, 236, 160, 157, 237, 138, 184, 32, 47, 32, 235, 175, 184, 237, 140, 133, 32, 235, 161, 156, 234, 183, 184, 32, 47,
        32, 236, 132, 164, 236, 160, 149, 32, 235, 141, 176, 236, 157, 180, 237, 132, 176, 235, 138, 148, 32, 234, 183, 184, 235, 140, 128, 235, 161, 156,
        32, 235, 179, 180, 236, 161, 180, 235, 144, 169, 235, 139, 136, 235, 139, 164],
      ''.|'',
      ''            </p>|'',
      ''          </div>''])"


definition refund_receipt :: "string list" where
  "refund_receipt = [
    tx (concat [''          <table role=`presentation` cellspacing=`0` cellpadding=`0` style=`margin:0 0 12px;`>|'',
      ''            <tr><td>|'',
      ''              <a href=`'']),
    tx (concat [''` style=`display:inline-block; padding:9px 20px; background:transparent; color:#8C6239; text-decoration:none; border-radius:8px; font-weight:700; font-size:13px; '',
      ''border:1px solid #8C6239;`>|'',
      ''                '',
      bytes [237, 134, 160, 236, 138, 164, 32, 236, 152, 129, 236, 136, 152, 236, 166, 157, 32, 40, 237, 153, 152, 235, 182, 136, 32, 235, 130, 180, 236, 151,
        173, 41, 32, 235, 179, 180, 234, 184, 176],
      ''|'',
      ''              </a>|'',
      ''            </td></tr>|'',
      ''          </table>''])]"


definition refund_body :: "string list" where
  "refund_body = [
    tx (concat [''          <p style=`margin:0 0 12px; font-size:15px; color:#2A2421; line-height:1.6;`>|'',
      ''            '',
      bytes [236, 149, 136, 235, 133, 149, 237, 149, 152, 236, 132, 184, 236, 154, 148],
      '' <strong>'']),
    tx (concat [''</strong>'',
      bytes [235, 139, 152],
      '',|'',
      ''          </p>|'',
      ''          <p style=`margin:0 0 18px; font-size:14px; color:#2A2421; line-height:1.7;`>|'',
      ''            <strong>'']),
    tx (concat [''</strong> '',
      bytes [235, 147, 177, 234, 184, 137, 32, 234, 178, 176, 236, 160, 156, 32, 234, 177, 180, 236, 151, 144, 32, 235, 140, 128, 237, 149, 156],
      ''|'',
      ''            <strong>'']),
    '' ('',
    tx (concat [bytes [236, 155, 144],
      '')</strong> '',
      bytes [234, 176, 128, 32, 236, 178, 152, 235, 166, 172, 235, 144, 152, 236, 151, 136, 236, 138, 181, 235, 139, 136, 235, 139, 164],
      ''.|'',
      ''          </p>|'',
      ''|'',
      ''          <table role=`presentation` cellspacing=`0` cellpadding=`0` width=`100%`|'',
      ''                 style=`background:#F7F5EB; border-radius:10px; padding:14px 18px; margin:0 0 18px;`>|'',
      ''            <tr>|'',
      ''              <td style=`padding:4px 0; font-size:12px; color:#8A817C; width:120px;`>'',
      bytes [237, 153, 152, 235, 182, 136, 32, 234, 184, 136, 236, 149, 161],
      ''</td>|'',
      ''              <td style=`padding:4px 0; font-size:14px; color:#2A2421; font-weight:700;`>'']),
    tx (concat [bytes [236, 155, 144],
      ''</td>|'',
      ''            </tr>|'',
      ''            <tr>|'',
      ''              <td style=`padding:4px 0; font-size:12px; color:#8A817C;`>'',
      bytes [236, 155, 144, 32, 234, 178, 176, 236, 160, 156, 32, 234, 184, 136, 236, 149, 161],
      ''</td>|'',
      ''              <td style=`padding:4px 0; font-size:13.5px; color:#2A2421;`>'']),
    tx (concat [bytes [236, 155, 144],
      ''</td>|'',
      ''            </tr>|'',
      ''            <tr>|'',
      ''              <td style=`padding:4px 0; font-size:12px; color:#8A817C; vertical-align:top;`>'',
      bytes [236, 130, 172, 236, 156, 160],
      ''</td>|'',
      ''              <td style=`padding:4px 0; font-size:13.5px; color:#2A2421; line-height:1.6;`>'']),
    tx (concat [''</td>|'',
      ''            </tr>|'',
      ''          </table>|'',
      ''|'',
      ''          '']),
    tx (concat [''|'',
      ''          '']),
    tx (concat [''|'',
      ''|'',
      ''          <p style=`margin:12px 0 0; font-size:12px; color:#6F665F; line-height:1.6;`>|'',
      ''            '',
      bytes [226, 128, 187, 32, 236, 185, 180, 235, 147, 156, 236, 130, 172, 32, 236, 160, 149, 236, 177, 133, 236, 151, 144, 32, 235, 148, 176, 235, 157, 188,
        32, 236, 152, 129, 236, 151, 133, 236, 157, 188, 32, 234, 184, 176, 236, 164, 128],
      '' <strong>3~7'',
      bytes [236, 157, 188],
      ''</strong> '',
      bytes [236, 157, 180, 235, 130, 180, 32, 237, 153, 152, 235, 182, 136, 236, 157, 180, 32, 235, 176, 152, 236, 152, 129, 235, 144, 169, 235, 139, 136, 235,
        139, 164],
      ''.<br/>|'',
      ''            '',
      bytes [226, 128, 187, 32, 237, 153, 152, 235, 182, 136, 236, 151, 144, 32, 235, 140, 128, 237, 149, 156, 32, 235, 172, 184, 236, 157, 152, 235, 138, 148],
      '' <a href=`mailto:support@gayoje.example` style=`color:#8C6239;`>support@gayoje.example</a> '',
      bytes [236, 156, 188, 235, 161, 156, 32, 236, 151, 176, 235, 157, 189, 32, 236, 163, 188, 236, 132, 184, 236, 154, 148],
      ''.|'',
      ''          </p>''])]"


definition render_refund_notification_email ::
  "string \<Rightarrow> string \<Rightarrow> int \<Rightarrow> int \<Rightarrow> string \<Rightarrow> bool \<Rightarrow> string option \<Rightarrow> string \<Rightarrow> mail" where
  "render_refund_notification_email name plan refund original reason downgraded receipt_url pricing_url =
     (let kind = (if refund < original then bytes [235, 182, 128, 235, 182, 132, 32, 237, 153, 152, 235, 182, 136] else bytes [236, 160, 132, 236, 149, 161, 32, 237, 153, 152, 235, 182, 136]);
          amount = comma_int refund;
          downgrade_line = (if downgraded then tx ''|'' @ bytes [235, 147, 177, 234, 184, 137, 236, 157, 180, 32, 235, 172, 180, 235, 163, 140, 235, 161, 156, 32, 235, 179,
      128, 234, 178, 189, 235, 144, 152, 236, 151, 136, 236, 138, 181, 235, 139, 136, 235, 139, 164, 46, 32, 237,
      148, 132, 235, 161, 156, 236, 160, 157, 237, 138, 184, 236, 153, 128, 32, 235, 141, 176, 236, 157, 180, 237,
      132, 176, 235, 138, 148, 32, 234, 183, 184, 235, 140, 128, 235, 161, 156, 32, 235, 179, 180, 236, 161, 180,
      235, 144, 169, 235, 139, 136, 235, 139, 164, 46] else '''');
          receipt_line = (case or_none receipt_url of Some u \<Rightarrow> tx ''|'' @ bytes [237, 134, 160, 236, 138, 164, 32, 236, 152, 129, 236, 136, 152, 236, 166, 157, 32, 40, 237, 153, 152, 235,
      182, 136, 32, 235, 130, 180, 236, 151, 173, 32, 237, 143, 172, 237, 149, 168, 41, 58, 32] @ u | None \<Rightarrow> '''');
          receipt_btn = (case or_none receipt_url of Some u \<Rightarrow> weave refund_receipt [u] | None \<Rightarrow> '''')
      in (weave refund_subject [amount, kind],
          common_email_html (kind @ bytes [32, 236, 178, 152, 235, 166, 172, 32, 236, 153, 132, 235, 163, 140])
            (weave refund_body [name, plan, kind, amount, amount, comma_int original, br_lines (html_escape reason),
               if downgraded then refund_downgrade else '''', receipt_btn])
            (Some pricing_url) (Some (bytes [234, 181, 172, 235, 143, 133, 32, 47, 32, 234, 178, 176, 236, 160, 156, 32, 236, 157, 180, 235, 160, 165,
      32, 237, 153, 149, 236, 157, 184])),
          weave refund_text [name, plan, kind, amount, amount, comma_int original, reason, downgrade_line, receipt_line]))"

section \<open>Payment\<close>

definition payment_subject :: "string list" where
  "payment_subject = [
    ''[Harness] '',
    tx (concat ['' '',
      bytes [234, 178, 176, 236, 160, 156, 32, 236, 153, 132, 235, 163, 140, 32, 226, 128, 148, 32]]),
    bytes [236, 155, 144]]"


definition payment_text :: "string list" where
  "payment_text = [
    bytes [236, 149, 136, 235, 133, 149, 237, 149, 152, 236, 132, 184, 236, 154, 148, 32],
    tx (concat [bytes [235, 139, 152],
      '',|'',
      ''|'']),
    tx (concat ['' '',
      bytes [235, 147, 177, 234, 184, 137, 236, 157, 152, 32, 234, 178, 176, 236, 160, 156, 234, 176, 128, 32, 236, 160, 149, 236, 131, 129, 32, 236, 178, 152,
        235, 166, 172, 235, 144, 152, 236, 151, 136, 236, 138, 181, 235, 139, 136, 235, 139, 164],
      ''.|'',
      ''|'',
      ''- '',
      bytes [234, 181, 172, 235, 182, 132, 58, 32]]),
    tx (concat [''|'',
      ''- '',
      bytes [234, 179, 181, 234, 184, 137, 234, 176, 128, 236, 149, 161, 58, 32]]),
    tx (concat [bytes [236, 155, 144],
      ''|'',
      ''- '',
      bytes [235, 182, 128, 234, 176, 128, 236, 132, 184],
      ''(10%): '']),
    tx (concat [bytes [236, 155, 144],
      ''|'',
      ''- '',
      bytes [237, 149, 169, 234, 179, 132, 58, 32]]),
    tx (concat [bytes [236, 155, 144],
      '' (VAT '',
      bytes [237, 143, 172, 237, 149, 168],
      '')|'',
      ''- '',
      bytes [234, 178, 176, 236, 160, 156, 32, 236, 157, 188, 236, 139, 156, 58, 32]]),
    tx (concat [''|'',
      ''- '']),
    '''',
    tx (concat [''|'',
      ''|'',
      bytes [234, 181, 172, 235, 143, 133, 32, 47, 32, 234, 178, 176, 236, 160, 156, 32, 236, 157, 180, 235, 160, 165, 32, 237, 153, 149, 236, 157, 184],
      '':|'']),
    tx (concat [''|'',
      ''|'',
      bytes [226, 128, 148],
      '' Harness Team''])]"


definition payment_receipt :: "string list" where
  "payment_receipt = [
    tx (concat [''          <table role=`presentation` cellspacing=`0` cellpadding=`0` style=`margin:0 0 12px;`>|'',
      ''            <tr><td>|'',
      ''              <a href=`'']),
    tx (concat [''` style=`display:inline-block; padding:9px 20px; background:transparent; color:#8C6239; text-decoration:none; border-radius:8px; font-weight:700; font-size:13px; '',
      ''border:1px solid #8C6239;`>|'',
      ''                '',
      bytes [237, 134, 160, 236, 138, 164, 32, 236, 152, 129, 236, 136, 152, 236, 166, 157, 32, 235, 179, 180, 234, 184, 176],
      ''|'',
      ''              </a>|'',
      ''            </td></tr>|'',
      ''          </table>''])]"


definition payment_body :: "string list" where
  "payment_body = [
    tx (concat [''          <p style=`margin:0 0 12px; font-size:15px; color:#2A2421; line-height:1.6;`>|'',
      ''            '',
      bytes [236, 149, 136, 235, 133, 149, 237, 149, 152, 236, 132, 184, 236, 154, 148],
      '' <strong>'']),
    tx (concat [''</strong>'',
      bytes [235, 139, 152],
      '',|'',
      ''          </p>|'',
      ''          <p style=`margin:0 0 20px; font-size:14px; color:#2A2421; line-height:1.7;`>|'',
      ''            <strong>'']),
    tx (concat [''</strong> '',
      bytes [235, 147, 177, 234, 184, 137, 236, 157, 152, 32, 234, 178, 176, 236, 160, 156, 234, 176, 128, 32, 236, 160, 149, 236, 131, 129, 32, 236, 178, 152,
        235, 166, 172, 235, 144, 152, 236, 151, 136, 236, 138, 181, 235, 139, 136, 235, 139, 164],
      ''.|'',
      ''          </p>|'',
      ''|'',
      ''          <table role=`presentation` cellspacing=`0` cellpadding=`0` width=`100%`|'',
      ''                 style=`background:#F7F5EB; border-radius:10px; padding:14px 18px; margin:0 0 20px;`>|'',
      ''            <tr>|'',
      ''              <td style=`padding:4px 0; font-size:12px; color:#8A817C; width:90px;`>'',
      bytes [234, 181, 172, 235, 182, 132],
      ''</td>|'',
      ''              <td style=`padding:4px 0; font-size:13.5px; color:#2A2421;`>'']),
    tx (concat [''</td>|'',
      ''            </tr>|'',
      ''            <tr>|'',
      ''              <td style=`padding:4px 0; font-size:12px; color:#8A817C;`>'',
      bytes [234, 179, 181, 234, 184, 137, 234, 176, 128, 236, 149, 161],
      ''</td>|'',
      ''              <td style=`padding:4px 0; font-size:13.5px; color:#2A2421;`>'']),
    tx (concat [bytes [236, 155, 144],
      ''</td>|'',
      ''            </tr>|'',
      ''            <tr>|'',
      ''              <td style=`padding:4px 0; font-size:12px; color:#8A817C;`>'',
      bytes [235, 182, 128, 234, 176, 128, 236, 132, 184],
      '' (10%)</td>|'',
      ''              <td style=`padding:4px 0; font-size:13.5px; color:#2A2421;`>'']),
    tx (concat [bytes [236, 155, 144],
      ''</td>|'',
      ''            </tr>|'',
      ''            <tr>|'',
      ''              <td style=`padding:4px 0; font-size:12px; color:#8A817C;`>'',
      bytes [237, 149, 169, 234, 179, 132],
      ''</td>|'',
      ''              <td style=`padding:4px 0; font-size:14px; color:#2A2421; font-weight:700;`>'']),
    tx (concat [bytes [236, 155, 144],
      '' <span style=`font-size:11px; color:#8A817C; font-weight:400;`>(VAT '',
      bytes [237, 143, 172, 237, 149, 168],
      '')</span></td>|'',
      ''            </tr>|'',
      ''            <tr>|'',
      ''              <td style=`padding:4px 0; font-size:12px; color:#8A817C;`>'',
      bytes [234, 178, 176, 236, 160, 156, 32, 236, 157, 188, 236, 139, 156],
      ''</td>|'',
      ''              <td style=`padding:4px 0; font-size:13.5px; color:#2A2421;`>'']),
    tx (concat [''</td>|'',
      ''            </tr>|'',
      ''            <tr>|'',
      ''              <td style=`padding:4px 0; font-size:12px; color:#8A817C;`>'']),
    tx (concat [''</td>|'',
      ''              <td style=`padding:4px 0; font-size:13.5px; color:#2A2421;`>'']),
    tx (concat [''</td>|'',
      ''            </tr>|'',
      ''          </table>|'',
      ''|'',
      ''          '']),
    '''']"


definition render_payment_success_email ::
  "(int \<Rightarrow> int \<times> int) \<Rightarrow> string \<Rightarrow> string \<Rightarrow> int \<Rightarrow> string \<Rightarrow> string \<Rightarrow> string option \<Rightarrow> string option \<Rightarrow> string \<Rightarrow> mail" where
  "render_payment_success_email vat_breakdown name plan amount purpose paid_at next_billing receipt_url pricing_url =
     (let (supply, vat) = vat_breakdown amount;
          next_line = (case or_none next_billing of Some d \<Rightarrow> bytes [235, 139, 164, 236, 157, 140, 32, 234, 178, 176, 236, 160, 156, 236, 157, 188, 58, 32] @ d | None \<Rightarrow> bytes [235, 139, 168, 234, 177, 180, 32, 234, 178, 176, 236, 160, 156, 32, 40, 236, 160, 149, 234, 184, 176, 234,
      178, 176, 236, 160, 156, 32, 236, 149, 132, 235, 139, 152, 41]);
          receipt_line = (case or_none receipt_url of Some u \<Rightarrow> tx ''|'' @ bytes [237, 134, 160, 236, 138, 164, 32, 236, 152, 129, 236, 136, 152, 236, 166, 157, 58, 32] @ u | None \<Rightarrow> '''');
          receipt_btn = (case or_none receipt_url of Some u \<Rightarrow> weave payment_receipt [u] | None \<Rightarrow> '''')
      in (weave payment_subject [plan, comma_int amount],
          common_email_html (bytes [234, 178, 176, 236, 160, 156, 32, 236, 153, 132, 235, 163, 140])
            (weave payment_body [name, plan, purpose, comma_int supply, comma_int vat, comma_int amount, paid_at,
               if or_none next_billing \<noteq> None then bytes [235, 139, 164, 236, 157, 140, 32, 234, 178, 176, 236, 160, 156] else bytes [234, 181, 172, 235, 182, 132],
               py_or next_billing (bytes [235, 139, 168, 234, 177, 180, 32, 234, 178, 176, 236, 160, 156, 32, 40, 236, 160, 149, 234, 184, 176, 234,
      178, 176, 236, 160, 156, 32, 236, 149, 132, 235, 139, 152, 41]), receipt_btn])
            (Some pricing_url) (Some (bytes [234, 181, 172, 235, 143, 133, 32, 47, 32, 234, 178, 176, 236, 160, 156, 32, 236, 157, 180, 235, 160, 165,
      32, 237, 153, 149, 236, 157, 184])),
          weave payment_text [name, plan, purpose, comma_int supply, comma_int vat, comma_int amount, paid_at, next_line, receipt_line,
            pricing_url]))"

section \<open>End of a subscription\<close>

definition canceled_subject :: "string list" where
  "canceled_subject = [
    ''[Harness] '',
    tx (concat ['' '',
      bytes [234, 181, 172, 235, 143, 133, 236, 157, 180, 32, 236, 162, 133, 235, 163, 140, 235, 144, 152, 236, 151, 136, 236, 138, 181, 235, 139, 136, 235, 139,
        164]])]"


definition canceled_text :: "string list" where
  "canceled_text = [
    bytes [236, 149, 136, 235, 133, 149, 237, 149, 152, 236, 132, 184, 236, 154, 148, 32],
    tx (concat [bytes [235, 139, 152],
      '',|'',
      ''|'']),
    tx (concat ['' '',
      bytes [235, 147, 177, 234, 184, 137, 32, 234, 181, 172, 235, 143, 133, 236, 157, 180, 32, 236, 162, 133, 235, 163, 140, 235, 144, 152, 236, 150, 180, 32,
        235, 172, 180, 235, 163, 140, 32, 235, 147, 177, 234, 184, 137, 236, 156, 188, 235, 161, 156, 32, 236, 160, 132, 237, 153, 152, 235, 144, 152, 236,
        151, 136, 236, 138, 181, 235, 139, 136, 235, 139, 164],
      ''.|'',
      bytes [236, 130, 172, 236, 156, 160, 58, 32]]),
    tx (concat [''|'',
      ''|'',
      bytes [237, 148, 132, 235, 161, 156, 236, 160, 157, 237, 138, 184, 32, 47, 32, 235, 175, 184, 237, 140, 133, 32, 235, 161, 156, 234, 183, 184, 32, 47,
        32, 236, 132, 164, 236, 160, 149, 236, 157, 128, 32, 235, 170, 168, 235, 145, 144, 32, 234, 183, 184, 235, 140, 128, 235, 161, 156, 32, 235, 179,
        180, 236, 161, 180, 235, 144, 152, 236, 150, 180, 32, 236, 158, 136, 236, 138, 181, 235, 139, 136, 235, 139, 164],
      ''.|'',
      bytes [236, 150, 184, 236, 160, 156, 235, 147, 160, 32, 235, 139, 164, 236, 139, 156, 32, 234, 178, 176, 236, 160, 156, 237, 149, 152, 236, 139, 156, 235,
        169, 180, 32, 235, 147, 177, 234, 184, 137, 236, 157, 180, 32, 236, 166, 137, 236, 139, 156, 32, 235, 179, 181, 236, 155, 144, 235, 144, 169, 235,
        139, 136, 235, 139, 164],
      ''.|'',
      ''|'',
      bytes [236, 158, 172, 234, 181, 172, 235, 143, 133],
      '':|'']),
    tx (concat [''|'',
      ''|'',
      bytes [226, 128, 148],
      '' Harness Team''])]"


definition canceled_body :: "string list" where
  "canceled_body = [
    tx (concat [''          <p style=`margin:0 0 12px; font-size:15px; color:#2A2421; line-height:1.6;`>|'',
      ''            '',
      bytes [236, 149, 136, 235, 133, 149, 237, 149, 152, 236, 132, 184, 236, 154, 148],
      '' <strong>'']),
    tx (concat [''</strong>'',
      bytes [235, 139, 152],
      '',|'',
      ''          </p>|'',
      ''          <p style=`margin:0 0 20px; font-size:14px; color:#2A2421; line-height:1.7;`>|'',
      ''            <strong>'']),
    tx (concat [''</strong> '',
      bytes [235, 147, 177, 234, 184, 137, 32, 234, 181, 172, 235, 143, 133, 236, 157, 180, 32, 236, 162, 133, 235, 163, 140, 235, 144, 152, 236, 150, 180],
      '' <strong>'',
      bytes [235, 172, 180, 235, 163, 140, 32, 235, 147, 177, 234, 184, 137],
      ''</strong>'',
      bytes [236, 156, 188, 235, 161, 156, 32, 236, 160, 132, 237, 153, 152, 235, 144, 152, 236, 151, 136, 236, 138, 181, 235, 139, 136, 235, 139, 164],
      ''.|'',
      ''          </p>|'',
      ''          <div style=`background:#F7F5EB; border-left:3px solid #8C6239; padding:14px 16px; border-radius:8px; margin:0 0 20px;`>|'',
      ''            <p style=`margin:0 0 4px; font-size:11px; color:#8A817C; font-weight:700; text-transform:uppercase; letter-spacing:0.04em;`>'',
      bytes [236, 130, 172, 236, 156, 160],
      ''</p>|'',
      ''            <p style=`margin:0; font-size:13.5px; color:#2A2421;`>'']),
    tx (concat [''</p>|'',
      ''          </div>|'',
      ''          <p style=`margin:0 0 20px; font-size:13.5px; color:#2A2421; line-height:1.7;`>|'',
      ''            '',
      bytes [226, 156, 147, 32, 237, 148, 132, 235, 161, 156, 236, 160, 157, 237, 138, 184, 32, 47, 32, 235, 175, 184, 237, 140, 133, 32, 235, 161, 156, 234,
        183, 184, 32, 47, 32, 236, 132, 164, 236, 160, 149, 236, 157, 128, 32, 235, 170, 168, 235, 145, 144, 32, 234, 183, 184, 235, 140, 128, 235, 161,
        156],
      '' <strong>'',
      bytes [235, 179, 180, 236, 161, 180],
      ''</strong>'',
      bytes [235, 144, 169, 235, 139, 136, 235, 139, 164],
      ''.<br/>|'',
      ''            '',
      bytes [226, 156, 147, 32, 235, 139, 164, 236, 139, 156, 32, 234, 178, 176, 236, 160, 156, 237, 149, 152, 236, 139, 156, 235, 169, 180, 32, 235, 147, 177,
        234, 184, 137, 236, 157, 180, 32, 236, 166, 137, 236, 139, 156, 32, 235, 179, 181, 236, 155, 144, 235, 144, 152, 234, 179, 160, 32, 237, 149, 156,
        235, 143, 132, 235, 143, 132, 32, 237, 154, 140, 235, 179, 181, 235, 144, 169, 235, 139, 136, 235, 139, 164],
      ''.|'',
      ''          </p>''])]"


definition cancel_reason :: "string \<Rightarrow> string" where
  "cancel_reason reason =
     (if reason = ''payment_failed'' then bytes [234, 178, 176, 236, 160, 156, 32, 236, 139, 164, 237, 140, 168, 32, 40, 236, 156, 160, 236, 152, 136, 32,
      234, 184, 176, 234, 176, 132, 32, 236, 162, 133, 235, 163, 140, 41]
      else if reason = ''user_canceled'' then bytes [236, 130, 172, 236, 154, 169, 236, 158, 144, 32, 237, 149, 180, 236, 167, 128, 32, 236, 154, 148, 236, 178,
      173, 32, 40, 236, 163, 188, 234, 184, 176, 32, 235, 167, 140, 235, 163, 140, 41]
      else if reason = ''admin_terminated'' then bytes [234, 180, 128, 235, 166, 172, 236, 158, 144, 32, 236, 162, 133, 235, 163, 140]
      else bytes [234, 181, 172, 235, 143, 133, 32, 236, 162, 133, 235, 163, 140])"

definition render_subscription_canceled_email :: "string \<Rightarrow> string \<Rightarrow> string \<Rightarrow> string \<Rightarrow> mail" where
  "render_subscription_canceled_email name plan reason pricing_url =
     (weave canceled_subject [plan],
      common_email_html (bytes [234, 181, 172, 235, 143, 133, 32, 236, 162, 133, 235, 163, 140, 32, 236, 149, 136, 235, 130, 180]) (weave canceled_body [name, plan, cancel_reason reason])
        (Some pricing_url) (Some (bytes [235, 139, 164, 236, 139, 156, 32, 234, 181, 172, 235, 143, 133, 237, 149, 152, 234, 184, 176])),
      weave canceled_text [name, plan, cancel_reason reason, pricing_url])"

section \<open>Password reset\<close>

definition reset_subject :: string where
  "reset_subject = bytes [72, 97, 114, 110, 101, 115, 115, 32, 235, 185, 132, 235, 176, 128, 235, 178, 136, 237, 152, 184, 32, 236,
      158, 172, 236, 132, 164, 236, 160, 149, 32, 236, 149, 136, 235, 130, 180]"

definition reset_text :: "string list" where
  "reset_text = [
    bytes [236, 149, 136, 235, 133, 149, 237, 149, 152, 236, 132, 184, 236, 154, 148, 32],
    tx (concat [bytes [235, 139, 152],
      '',|'',
      ''|'',
      ''Harness '',
      bytes [234, 179, 132, 236, 160, 149, 236, 157, 152, 32, 235, 185, 132, 235, 176, 128, 235, 178, 136, 237, 152, 184, 32, 236, 158, 172, 236, 132, 164, 236,
        160, 149, 236, 157, 132, 32, 236, 154, 148, 236, 178, 173, 237, 149, 152, 236, 133, 168, 236, 138, 181, 235, 139, 136, 235, 139, 164],
      ''.|'',
      bytes [236, 149, 132, 235, 158, 152, 32, 235, 167, 129, 237, 129, 172, 235, 165, 188, 32, 237, 129, 180, 235, 166, 173, 237, 149, 180, 32, 236, 131, 136,
        32, 235, 185, 132, 235, 176, 128, 235, 178, 136, 237, 152, 184, 235, 165, 188, 32, 236, 132, 164, 236, 160, 149, 237, 149, 180, 236, 163, 188, 236,
        132, 184, 236, 154, 148, 32, 40]]),
    tx (concat [bytes [235, 182, 132, 32, 237, 155, 132, 32, 235, 167, 140, 235, 163, 140],
      ''):|'',
      ''|'']),
    tx (concat [''|'',
      ''|'',
      bytes [235, 179, 184, 236, 157, 184, 236, 157, 180, 32, 236, 154, 148, 236, 178, 173, 237, 149, 152, 236, 167, 128, 32, 236, 149, 138, 236, 149, 152, 235,
        139, 164, 235, 169, 180, 32, 236, 157, 180, 32, 236, 157, 180, 235, 169, 148, 236, 157, 188, 236, 157, 132, 32, 235, 172, 180, 236, 139, 156, 237,
        149, 180, 236, 163, 188, 236, 132, 184, 236, 154, 148, 46, 32, 235, 185, 132, 235, 176, 128, 235, 178, 136, 237, 152, 184, 235, 138, 148, 32, 235,
        179, 128, 234, 178, 189, 235, 144, 152, 236, 167, 128, 32, 236, 149, 138, 236, 138, 181, 235, 139, 136, 235, 139, 164],
      ''.|'',
      ''|'',
      bytes [226, 128, 148],
      '' Harness Team''])]"


definition reset_html :: "string list" where
  "reset_html = [
    tx (concat [''<!DOCTYPE html>|'',
      ''<html lang=`ko`>|'',
      ''<head><meta charset=`utf-8` /><title>'']),
    tx (concat [''</title></head>|'',
      ''<body style=`margin:0; padding:0; background:#F7F5EB; font-family:^Pretendard^,sans-serif;`>|'',
      ''  <table role=`presentation` width=`100%` cellspacing=`0` cellpadding=`0` style=`background:#F7F5EB; padding:40px 0;`>|'',
      ''    <tr><td align=`center`>|'',
      ''      <table role=`presentation` width=`520` cellspacing=`0` cellpadding=`0` style=`background:#ffffff; border-radius:14px; padding:36px; box-shadow:0 '',
      ''4px 16px rgba(0,0,0,0.06);`>|'',
      ''        <tr><td>|'',
      ''          <h1 style=`margin:0 0 8px; font-size:22px; color:#2A2421; letter-spacing:-0.02em;`>Harness</h1>|'',
      ''          <p style=`margin:0 0 24px; font-size:12px; color:#8A817C; letter-spacing:0.06em; text-transform:uppercase;`>'',
      bytes [235, 185, 132, 235, 176, 128, 235, 178, 136, 237, 152, 184, 32, 236, 158, 172, 236, 132, 164, 236, 160, 149, 32, 236, 149, 136, 235, 130, 180],
      ''</p>|'',
      ''|'',
      ''          <p style=`margin:0 0 12px; font-size:15px; color:#2A2421; line-height:1.6;`>|'',
      ''            '',
      bytes [236, 149, 136, 235, 133, 149, 237, 149, 152, 236, 132, 184, 236, 154, 148],
      '' <strong>'']),
    tx (concat [''</strong>'',
      bytes [235, 139, 152],
      '',|'',
      ''          </p>|'',
      ''          <p style=`margin:0 0 24px; font-size:14px; color:#2A2421; line-height:1.7;`>|'',
      ''            Harness '',
      bytes [234, 179, 132, 236, 160, 149, 236, 157, 152, 32, 235, 185, 132, 235, 176, 128, 235, 178, 136, 237, 152, 184, 32, 236, 158, 172, 236, 132, 164, 236,
        160, 149, 236, 157, 132, 32, 236, 154, 148, 236, 178, 173, 237, 149, 152, 236, 133, 168, 236, 138, 181, 235, 139, 136, 235, 139, 164],
      ''.<br/>|'',
      ''            '',
      bytes [236, 149, 132, 235, 158, 152, 32, 235, 178, 132, 237, 138, 188, 236, 157, 132, 32, 237, 129, 180, 235, 166, 173, 237, 149, 180, 32, 236, 131, 136,
        32, 235, 185, 132, 235, 176, 128, 235, 178, 136, 237, 152, 184, 235, 165, 188, 32, 236, 132, 164, 236, 160, 149, 237, 149, 180, 236, 163, 188, 236,
        132, 184, 236, 154, 148, 46, 32, 235, 167, 129, 237, 129, 172, 235, 138, 148],
      '' <strong>'']),
    tx (concat [bytes [235, 182, 132, 32, 237, 155, 132],
      ''</strong> '',
      bytes [235, 167, 140, 235, 163, 140, 235, 144, 169, 235, 139, 136, 235, 139, 164],
      ''.|'',
      ''          </p>|'',
      ''|'',
      ''          <table role=`presentation` cellspacing=`0` cellpadding=`0` style=`margin:0 0 28px;`>|'',
      ''            <tr><td>|'',
      ''              <a href=`'']),
    tx (concat [''` style=`display:inline-block; padding:12px 28px; background:#8C6239; color:#ffffff; text-decoration:none; border-radius:10px; font-weight:700; font-size:14px;`>|'',
      ''                '',
      bytes [235, 185, 132, 235, 176, 128, 235, 178, 136, 237, 152, 184, 32, 236, 158, 172, 236, 132, 164, 236, 160, 149],
      ''|'',
      ''              </a>|'',
      ''            </td></tr>|'',
      ''          </table>|'',
      ''|'',
      ''          <p style=`margin:0 0 8px; font-size:12px; color:#6F665F; line-height:1.6;`>|'',
      ''            '',
      bytes [235, 178, 132, 237, 138, 188, 236, 157, 180, 32, 236, 158, 145, 235, 143, 153, 237, 149, 152, 236, 167, 128, 32, 236, 149, 138, 236, 156, 188, 235,
        169, 180, 32, 236, 149, 132, 235, 158, 152, 32, 235, 167, 129, 237, 129, 172, 235, 165, 188, 32, 235, 184, 140, 235, 157, 188, 236, 154, 176, 236,
        160, 128, 236, 151, 144, 32, 236, 167, 129, 236, 160, 145, 32, 235, 182, 153, 236, 151, 172, 235, 132, 163, 236, 156, 188, 236, 132, 184, 236, 154,
        148],
      '':|'',
      ''          </p>|'',
      ''          <p style=`margin:0 0 28px; font-size:12px; color:#8C6239; word-break:break-all; line-height:1.5;`>|'',
      ''            <a href=`'']),
    tx (concat [''` style=`color:#8C6239; text-decoration:underline;`>'']),
    tx (concat [''</a>|'',
      ''          </p>|'',
      ''|'',
      ''          <hr style=`border:none; border-top:1px solid rgba(140,98,57,0.15); margin:0 0 18px;` />|'',
      ''          <p style=`margin:0; font-size:11px; color:#8A817C; line-height:1.6;`>|'',
      ''            '',
      bytes [235, 179, 184, 236, 157, 184, 236, 157, 180, 32, 236, 154, 148, 236, 178, 173, 237, 149, 152, 236, 167, 128, 32, 236, 149, 138, 236, 149, 152, 235,
        139, 164, 235, 169, 180, 32, 236, 157, 180, 32, 236, 157, 180, 235, 169, 148, 236, 157, 188, 236, 157, 132, 32, 235, 172, 180, 236, 139, 156, 237,
        149, 180, 236, 163, 188, 236, 132, 184, 236, 154, 148, 46, 32, 235, 185, 132, 235, 176, 128, 235, 178, 136, 237, 152, 184, 235, 138, 148, 32, 235,
        179, 128, 234, 178, 189, 235, 144, 152, 236, 167, 128, 32, 236, 149, 138, 236, 138, 181, 235, 139, 136, 235, 139, 164],
      ''.<br/>|'',
      ''            '',
      bytes [226, 128, 148],
      '' Harness Team|'',
      ''          </p>|'',
      ''        </td></tr>|'',
      ''      </table>|'',
      ''    </td></tr>|'',
      ''  </table>|'',
      ''</body>|'',
      ''</html>''])]"


definition render_password_reset_email :: "string \<Rightarrow> string \<Rightarrow> int \<Rightarrow> mail" where
  "render_password_reset_email name reset_link expire_minutes =
     (reset_subject,
      weave reset_html [reset_subject, name, int_str expire_minutes, reset_link, reset_link, reset_link],
      weave reset_text [name, int_str expire_minutes, reset_link])"

section \<open>What reaches the HTML unescaped\<close>

text \<open>Opening brackets, and newlines.\<close>

definition lt :: "string \<Rightarrow> nat" where
  "lt s = length (filter (\<lambda>c. c = CHR ''<'') s)"

definition lines_in :: "string \<Rightarrow> nat" where
  "lines_in s = length (filter (\<lambda>c. c = CHR 0x0A) s)"

lemma lt_append [simp]: "lt (a @ b) = lt a + lt b" "lt [] = 0"
  by (simp_all add: lt_def)

lemma lt_weave: "lt (weave ps vs) = sum_list (map lt ps) + sum_list (map lt vs)"
proof -
  have c: "lt (concat xs) = sum_list (map lt xs)" for xs by (induction xs) simp_all
  show ?thesis by (induction ps vs rule: weave.induct) (simp_all add: c)
qed

lemma lt_escape [simp]: "lt (html_escape s) = 0"
proof (induction s)
  case (Cons c s)
  have "lt (html_char c) = 0" by (simp add: html_char_def lt_def)
  then show ?case using Cons by (simp add: html_escape_def)
qed (simp add: html_escape_def)

lemma lt_br_escape: "lt (br_lines (html_escape s)) = lines_in s"
proof (induction s)
  case (Cons c s)
  have "lt (br_lines (html_char c)) = lines_in [c]" by (simp add: html_char_def br_lines_def lt_def lines_in_def)
  moreover have "br_lines (html_escape (c # s)) = br_lines (html_char c) @ br_lines (html_escape s)" by (simp add: br_lines_def html_escape_def)
  moreover have "lines_in (c # s) = lines_in [c] + lines_in s" by (simp add: lines_in_def)
  ultimately show ?case using Cons by simp
qed (simp add: html_escape_def br_lines_def lines_in_def)

definition appears_raw :: "(string \<Rightarrow> string) \<Rightarrow> bool" where
  "appears_raw f \<longleftrightarrow> (\<exists>pre post. \<forall>v. f v = pre @ v @ post)"

lemma raw_append: "appears_raw f \<Longrightarrow> appears_raw (\<lambda>v. a @ f v @ b)"
  unfolding appears_raw_def by (metis append.assoc)

lemma raw_weave: "appears_raw f \<Longrightarrow> ps \<noteq> [] \<Longrightarrow> appears_raw (\<lambda>v. weave ps (f v # vs))"
  using raw_append[of f "hd ps" "weave (tl ps) vs"] by (cases ps) simp_all

lemma raw_weave2: "appears_raw f \<Longrightarrow> 2 \<le> length ps \<Longrightarrow> appears_raw (\<lambda>v. weave ps (a # f v # vs))"
  using raw_append[of f "hd ps @ a @ hd (tl ps)" "weave (tl (tl ps)) vs"] by (cases ps; cases "tl ps") simp_all

lemma raw_frame: "appears_raw f \<Longrightarrow> appears_raw (\<lambda>v. common_email_html t (f v) u l)"
proof -
  assume f: "appears_raw f"
  have n: "common_html = hd common_html # hd (tl common_html) # hd (tl (tl common_html)) # tl (tl (tl common_html))"
    by (simp add: common_html_def)
  have w: "weave common_html [t, t, x, y] = (hd common_html @ t @ hd (tl common_html) @ t @ hd (tl (tl common_html))) @ x @
      weave (tl (tl (tl common_html))) [y]" for x y
    by (subst n) simp
  show ?thesis
    unfolding common_email_html_def Let_def w by (rule raw_append[OF f])
qed

lemma raw_id: "appears_raw (\<lambda>v. v)"
  unfolding appears_raw_def by (metis append_Nil append_Nil2)

text \<open>C35: mails escape only part of what users and providers write: in the answer to an inquiry the name
  and the answer add no markup beside line breaks, but the subject of the inquiry stands
  unescaped in the title; and the other five mails to users contain the user's name as it is, markup included.\<close>

theorem mail_escaping:
  "lt (fst (snd (render_inquiry_reply_email name subject reply url))) =
     lt (fst (snd (render_inquiry_reply_email '''' '''' '''' url))) + lines_in (inquiry_preview reply) + lt subject
   \<and> appears_raw (\<lambda>n. fst (snd (render_subscription_expiring_soon_email n plan grace hours url)))
   \<and> appears_raw (\<lambda>n. fst (snd (render_refund_notification_email n plan refund original reason downgraded receipt url)))
   \<and> appears_raw (\<lambda>n. fst (snd (render_payment_success_email vat n plan amount purpose paid next receipt url)))
   \<and> appears_raw (\<lambda>n. fst (snd (render_subscription_canceled_email n plan reason url)))
   \<and> appears_raw (\<lambda>n. fst (snd (render_password_reset_email n link minutes)))"
proof (intro conjI)
  have e: "inquiry_preview '''' = ''''" "lines_in '''' = 0"
    by (simp_all add: inquiry_preview_def py_strip_def py_lstrip_def py_rstrip_def ulen_def Let_def lines_in_def)
  show "lt (fst (snd (render_inquiry_reply_email name subject reply url))) =
     lt (fst (snd (render_inquiry_reply_email '''' '''' '''' url))) + lines_in (inquiry_preview reply) + lt subject"
    by (simp add: render_inquiry_reply_email_def Let_def lt_weave lt_br_escape e)
  show "appears_raw (\<lambda>n. fst (snd (render_subscription_expiring_soon_email n plan grace hours url)))"
    unfolding render_subscription_expiring_soon_email_def Let_def fst_conv snd_conv by (intro raw_frame raw_weave raw_id) (simp add: expiring_body_def)
  show "appears_raw (\<lambda>n. fst (snd (render_refund_notification_email n plan refund original reason downgraded receipt url)))"
    unfolding render_refund_notification_email_def Let_def fst_conv snd_conv by (intro raw_frame raw_weave raw_id) (simp add: refund_body_def)
  show "appears_raw (\<lambda>n. fst (snd (render_payment_success_email vat n plan amount purpose paid next receipt url)))"
    unfolding render_payment_success_email_def Let_def prod.case_distrib[of fst] prod.case_distrib[of snd] fst_conv snd_conv
    by (cases "vat amount") (simp only: prod.case, intro raw_frame raw_weave raw_id, simp add: payment_body_def)
  show "appears_raw (\<lambda>n. fst (snd (render_subscription_canceled_email n plan reason url)))"
    unfolding render_subscription_canceled_email_def Let_def fst_conv snd_conv by (intro raw_frame raw_weave raw_id) (simp add: canceled_body_def)
  show "appears_raw (\<lambda>n. fst (snd (render_password_reset_email n link minutes)))"
    unfolding render_password_reset_email_def fst_conv snd_conv by (intro raw_weave2 raw_id) (simp add: reset_html_def)
qed

end
