(* ===== verification/CoreText.thy ===== *)
theory CoreText
  imports PipelineText Regex
begin

text \<open>
  Small text modules under src/app/core/: names given by users (name_validation.py), prompt
  templates (prompt_render.py), throwaway mail addresses (disposable_emails.py) and the masking
  of personal data (pii.py). \<open>ud\<close> is the length of a digit outside ASCII, \<open>lc\<close> str.lower().
\<close>

section \<open>Names\<close>

datatype name_error = NotText | EmptyName | LongName nat | BadCharacters

definition name_char :: "string \<Rightarrow> bool" where
  "name_char x = (hangul_at x \<noteq> 0 \<or>
     (case x of [c] \<Rightarrow> ident_char c \<or> c = CHR '' '' \<or> c = CHR ''-'' | _ \<Rightarrow> False))"

definition chars_of :: "string \<Rightarrow> string list" where
  "chars_of s = chars (length s) s"

text \<open>The pattern with match: a final newline is no obstacle to \<open>$\<close>.\<close>

definition name_match :: "string \<Rightarrow> bool" where
  "name_match s =
     (let cs = chars_of s
      in cs \<noteq> [] \<and> (list_all name_char cs \<or> last cs = [nl] \<and> butlast cs \<noteq> [] \<and> list_all name_char (butlast cs)))"

text \<open>None is an argument that is not a text.\<close>

definition validate_name :: "string option \<Rightarrow> name_error + string" where
  "validate_name x =
     (case x of
        None \<Rightarrow> Inl NotText
      | Some s \<Rightarrow>
          (let n = py_strip s
           in if ulen n < 1 then Inl EmptyName
              else if ulen n > 50 then Inl (LongName (ulen n))
              else if \<not> name_match n then Inl BadCharacters
              else Inr n))"

definition is_valid_name :: "string option \<Rightarrow> bool" where
  "is_valid_name x = (case validate_name x of Inr _ \<Rightarrow> True | Inl _ \<Rightarrow> False)"

section \<open>Prompt templates\<close>

definition lt2 :: string where "lt2 = ''<<''"
definition gt2 :: string where "gt2 = ''>>''"

fun span_ident :: "string \<Rightarrow> string \<times> string" where
  "span_ident [] = ([], [])"
| "span_ident (c # s) = (if ident_char c then (case span_ident s of (a, b) \<Rightarrow> (c # a, b)) else ([], c # s))"

text \<open>The token at the front: its key and the text after it.\<close>

definition token_at :: "string \<Rightarrow> (string \<times> string) option" where
  "token_at s =
     (if \<not> starts_with lt2 s then None
      else (case span_ident (drop 2 s) of
              (key, r) \<Rightarrow> if key \<noteq> '''' \<and> starts_with gt2 r then Some (key, drop 2 r) else None))"

lemma span_ident_append: "fst (span_ident s) @ snd (span_ident s) = s"
  by (induction s) (auto split: prod.splits)

lemma span_ident_rest: "span_ident s = (a, b) \<Longrightarrow> s = a @ b"
  using span_ident_append[of s] by simp

lemma token_at_text: "token_at s = Some (k, r) \<Longrightarrow> s = lt2 @ k @ gt2 @ r"
proof -
  assume t: "token_at s = Some (k, r)"
  obtain a b where sp: "span_ident (drop 2 s) = (a, b)" by fastforce
  have s: "take 2 s = lt2" "take 2 b = gt2" "k = a" "r = drop 2 b"
    using t sp by (auto simp: token_at_def starts_with_def lt2_def gt2_def numeral_2_eq_2 split: if_splits)
  have "s = take 2 s @ a @ take 2 b @ drop 2 b" using span_ident_rest[OF sp] by (metis append_take_drop_id)
  then show ?thesis using s by simp
qed

lemma token_at_shorter: "token_at s = Some (k, r) \<Longrightarrow> length r < length s"
  by (drule token_at_text) (simp add: lt2_def)

text \<open>One pass over the template; the values are given as texts.\<close>

function render_template :: "(string \<Rightarrow> string option) \<Rightarrow> string \<Rightarrow> string" where
  "render_template vs s =
     (case s of
        [] \<Rightarrow> []
      | c # cs \<Rightarrow>
          (case token_at s of
             Some (k, r) \<Rightarrow> (case vs k of Some v \<Rightarrow> v | None \<Rightarrow> lt2 @ k @ gt2) @ render_template vs r
           | None \<Rightarrow> c # render_template vs cs))"
  by auto
termination by (relation "measure (\<lambda>(vs, s). length s)") (auto dest: token_at_shorter)

declare render_template.simps [simp del]

definition LT :: string where "LT = bytes [226, 128, 185, 226, 128, 185]"
definition GT :: string where "GT = bytes [226, 128, 186, 226, 128, 186]"

text \<open>The value as a text, None for None.\<close>

definition harden_untrusted :: "string option \<Rightarrow> nat option \<Rightarrow> string" where
  "harden_untrusted v max_len =
     (case v of
        None \<Rightarrow> ''''
      | Some s \<Rightarrow>
          (let t = (case max_len of Some m \<Rightarrow> if ulen s > m then take_text m s else s | None \<Rightarrow> s)
           in replace_all gt2 GT (replace_all lt2 LT t)))"

section \<open>Throwaway addresses\<close>

definition DISPOSABLE_DOMAINS :: "string list" where
  "DISPOSABLE_DOMAINS =
     [''mailinator.com'', ''guerrillamail.com'', ''guerrillamail.net'', ''guerrillamail.org'', ''sharklasers.com'', ''grr.la'',
      ''10minutemail.com'', ''10minutemail.net'', ''temp-mail.org'', ''tempmail.com'', ''tempmailo.com'', ''throwawaymail.com'',
      ''yopmail.com'', ''yopmail.net'', ''getnada.com'', ''nada.email'', ''maildrop.cc'', ''dispostable.com'', ''fakeinbox.com'',
      ''trashmail.com'', ''trashmail.de'', ''mailnesia.com'', ''mohmal.com'', ''emailondeck.com'', ''tempr.email'', ''mailcatch.com'',
      ''spamgourmet.com'', ''mintemail.com'', ''moakt.com'', ''tmail.ws'', ''tmpmail.org'', ''burnermail.io'', ''33mail.com'',
      ''anonaddy.com'', ''guerrillamailblock.com'', ''spam4.me'', ''mailto.plus'', ''fakemail.net'', ''discard.email'']"

definition email_domain :: "(string \<Rightarrow> string) \<Rightarrow> string \<Rightarrow> string" where
  "email_domain lc email =
     (if CHR ''@'' \<notin> set email then ''''
      else lc (py_strip (last (split_on (CHR ''@'') email))))"

definition is_disposable_email :: "(string \<Rightarrow> string) \<Rightarrow> string \<Rightarrow> bool" where
  "is_disposable_email lc email =
     (let d = email_domain lc email
      in d \<noteq> '''' \<and> (d \<in> set DISPOSABLE_DOMAINS \<or> list_ex (\<lambda>x. starts_with (rev (''.'' @ x)) (rev d)) DISPOSABLE_DOMAINS))"

section \<open>Personal data\<close>

definition email_re :: re where
  "email_re =
     seq [plus (RSet (\<lambda>x. case x of [c] \<Rightarrow> ident_char c \<or> c \<in> set ''.%+-'' | _ \<Rightarrow> False)), lit ''@'',
       plus (RSet (\<lambda>x. case x of [c] \<Rightarrow> ident_char c \<and> c \<noteq> CHR ''_'' \<or> c \<in> set ''.-'' | _ \<Rightarrow> False)), lit ''.'',
       (let letter = RSet (\<lambda>x. case x of [c] \<Rightarrow> ident_char c \<and> \<not> ascii_digit c \<and> c \<noteq> CHR ''_'' | _ \<Rightarrow> False)
        in seq [letter, plus letter])]"

definition phone_re :: "(string \<Rightarrow> nat) \<Rightarrow> re" where
  "phone_re ud =
     (let sep = opt (RSet (\<lambda>x. x \<in> {''-'', ''.''} \<or> is_space x))
      in seq [lit ''01'', one_of [''0'', ''1'', ''6'', ''7'', ''8'', ''9''], sep, between 3 4 (digit ud), sep, times 4 (digit ud)])"

definition mask_pii :: "(string \<Rightarrow> nat) \<Rightarrow> string \<Rightarrow> string" where
  "mask_pii ud text = re_sub (phone_re ud) ''***-****-****'' (re_sub email_re ''***@***'' text)"

fun partition_at :: "char \<Rightarrow> string \<Rightarrow> (string \<times> string) option" where
  "partition_at d [] = None"
| "partition_at d (c # s) = (if c = d then Some ([], s) else map_option (\<lambda>(a, b). (c # a, b)) (partition_at d s))"

definition mask_email_partial :: "string \<Rightarrow> string" where
  "mask_email_partial email =
     (case partition_at (CHR ''@'') email of
        None \<Rightarrow> email
      | Some (local_part, domain) \<Rightarrow> take_text 1 local_part @ ''***@'' @ domain)"

section \<open>Valid names\<close>

lemma chars_concat: "length s \<le> n \<Longrightarrow> concat (chars n s) = s"
proof (induction n arbitrary: s)
  case (Suc n)
  show ?case
  proof (cases "s = []")
    case False
    then have "length (drop (char_len s) s) \<le> n" using Suc.prems char_len_pos[OF False] unfolding length_drop by linarith
    then show ?thesis using Suc.IH False by simp
  qed simp
qed simp

lemma chars_of_concat: "concat (chars_of s) = s"
  by (simp add: chars_of_def chars_concat)

lemma strip_no_newline: "py_strip s \<noteq> a @ [nl]"
proof
  assume "py_strip s = a @ [nl]"
  then have "take (length (rev [nl])) (strip_front (map rev py_ws) (rev (py_lstrip s))) = rev [nl]"
    by (simp add: py_strip_def py_rstrip_def) (metis rev_eq_Cons_iff rev_rev_ident take_Suc_Cons take0 One_nat_def)
  moreover have "rev [nl] \<in> set (map rev py_ws)" by code_simp
  ultimately show False using strip_front_done by blast
qed

lemma name_match_strip: "name_match (py_strip s) \<longleftrightarrow> chars_of (py_strip s) \<noteq> [] \<and> list_all name_char (chars_of (py_strip s))"
proof -
  have "last (chars_of (py_strip s)) \<noteq> [nl]" if "chars_of (py_strip s) \<noteq> []"
  proof
    assume "last (chars_of (py_strip s)) = [nl]"
    then have "chars_of (py_strip s) = butlast (chars_of (py_strip s)) @ [[nl]]" using that by (metis append_butlast_last_id)
    then have "py_strip s = concat (butlast (chars_of (py_strip s))) @ [nl]" by (metis chars_of_concat concat_append concat.simps append_Nil2)
    then show False using strip_no_newline by blast
  qed
  then show ?thesis by (auto simp: name_match_def Let_def)
qed

text \<open>Exactly the names of at most 50 allowed characters pass: a text is accepted if, without
  the white space at its ends, it is 1 to 50 Hangul syllables, letters, digits, spaces, hyphens or underscores,
  so without line breaks; the result is that text, and is accepted again as it is.\<close>

theorem valid_names:
  "(validate_name (Some s) = Inr n \<longleftrightarrow> n = py_strip s \<and> 1 \<le> ulen n \<and> ulen n \<le> 50 \<and> list_all name_char (chars_of n))
   \<and> (validate_name (Some s) = Inr n \<longrightarrow> validate_name (Some n) = Inr n \<and> is_valid_name (Some s))"
proof -
  have u: "1 \<le> ulen t \<Longrightarrow> chars_of t \<noteq> []" for t by (auto simp: ulen_def chars_of_def)
  have "validate_name (Some s) = Inr n \<longleftrightarrow> n = py_strip s \<and> 1 \<le> ulen n \<and> ulen n \<le> 50 \<and> list_all name_char (chars_of n)" for s n
    using u[of n] by (auto simp: validate_name_def Let_def name_match_strip)
  then show ?thesis by (metis strip_idem is_valid_name_def sum.simps(6))
qed

lemma valid_names_witness: "is_valid_name (Some ''folder-1'')"
proof -
  have a: "''folder-1'' = py_strip ''folder-1''" by (rule py_strip_ends[symmetric]; code_simp)
  have c: "chars_of ''folder-1'' = [''f'', ''o'', ''l'', ''d'', ''e'', ''r'', ''-'', ''1'']" by code_simp
  have "list_all (\<lambda>c. ident_char c \<or> c = CHR ''-'') ''folder-1''" by code_simp
  then have "list_all name_char (chars_of ''folder-1'')" unfolding c by (simp add: name_char_def)
  moreover have "1 \<le> ulen ''folder-1''" "ulen ''folder-1'' \<le> 50" by code_simp+
  ultimately have b: "1 \<le> ulen ''folder-1''" "ulen ''folder-1'' \<le> 50" "list_all name_char (chars_of ''folder-1'')" by blast+
  have "validate_name (Some ''folder-1'') = Inr ''folder-1''"
    by (rule valid_names[THEN conjunct1, THEN iffD2]) (intro conjI a b)
  then show ?thesis by (rule valid_names[THEN conjunct2, THEN mp, THEN conjunct2])
qed

section \<open>Rendering once\<close>

lemma span_ident_key: "list_all ident_char k \<Longrightarrow> span_ident (k @ gt2 @ r) = (k, gt2 @ r)"
proof (induction k)
  case Nil
  have "\<not> ident_char (CHR ''>'')" by code_simp
  then show ?case by (simp add: gt2_def)
qed simp

lemma token_at_key: "list_all ident_char k \<Longrightarrow> k \<noteq> [] \<Longrightarrow> token_at (lt2 @ k @ gt2 @ r) = Some (k, r)"
proof -
  assume k: "list_all ident_char k" "k \<noteq> []"
  have "drop 2 (lt2 @ k @ gt2 @ r) = k @ gt2 @ r" "starts_with lt2 (lt2 @ k @ gt2 @ r)" "starts_with gt2 (gt2 @ r)" "drop 2 (gt2 @ r) = r"
    by (simp_all add: lt2_def gt2_def starts_with_def)
  then show ?thesis using span_ident_key[OF k(1), of r] k(2) by (simp add: token_at_def)
qed

lemma render_text: "CHR ''<'' \<notin> set t \<Longrightarrow> render_template vs (t @ s) = t @ render_template vs s"
proof (induction t)
  case (Cons c t)
  then have "token_at (c # t @ s) = None" by (auto simp: token_at_def starts_with_def lt2_def)
  then show ?case using Cons by (simp add: render_template.simps[of vs "c # t @ s"])
qed simp

lemma render_key: "list_all ident_char k \<Longrightarrow> k \<noteq> [] \<Longrightarrow>
    render_template vs (lt2 @ k @ gt2 @ r) = (case vs k of Some v \<Rightarrow> v | None \<Rightarrow> lt2 @ k @ gt2) @ render_template vs r"
proof -
  assume k: "list_all ident_char k" "k \<noteq> []"
  obtain c cs where c: "lt2 @ k @ gt2 @ r = c # cs" by (cases "lt2 @ k @ gt2 @ r") (auto simp: lt2_def)
  then show ?thesis using token_at_key[OF k, of r] by (subst render_template.simps) simp
qed

text \<open>A template: texts, each followed by a key, and a last text.\<close>

fun template :: "(string \<times> string) list \<Rightarrow> string \<Rightarrow> string" where
  "template [] t = t"
| "template ((u, k) # ps) t = u @ lt2 @ k @ gt2 @ template ps t"

fun filled :: "(string \<Rightarrow> string option) \<Rightarrow> (string \<times> string) list \<Rightarrow> string \<Rightarrow> string" where
  "filled vs [] t = t"
| "filled vs ((u, k) # ps) t = u @ (case vs k of Some v \<Rightarrow> v | None \<Rightarrow> lt2 @ k @ gt2) @ filled vs ps t"

lemma substr_pair:
  "substr_in [e, e] (c # s) \<longleftrightarrow> (c = e \<and> s \<noteq> [] \<and> hd s = e) \<or> substr_in [e, e] s"
  by (cases s) auto

lemma no_pair:
  assumes "e \<notin> set new" "new \<noteq> []" "e = d \<or> \<not> substr_in [e, e] s"
  shows "\<not> substr_in [e, e] (replace_all [d, d] new s)
    \<and> (replace_all [d, d] new s \<noteq> [] \<and> hd (replace_all [d, d] new s) = e \<longrightarrow> s \<noteq> [] \<and> hd s = e)"
  using assms(3)
proof (induction s rule: length_induct)
  case (1 s)
  have app: "\<not> substr_in [e, e] (new @ r) \<longleftrightarrow> \<not> substr_in [e, e] r" for r
    using assms(1)
  proof (induction new)
    case (Cons c w)
    then have "c \<noteq> e" by auto
    then show ?case using Cons by (simp add: substr_pair del: substr_in.simps)
  qed simp
  show ?case
  proof (cases s)
    case Nil
    then show ?thesis by (subst (1 2 3) replace_all.simps) simp
  next
    case (Cons c cs)
    show ?thesis
    proof (cases "starts_with [d, d] s")
      case True
      then obtain r where s: "s = d # d # r" using Cons by (cases cs) (auto simp: starts_with_def)
      have "e = d \<or> \<not> substr_in [e, e] r" using 1(2) s by (auto simp: substr_pair simp del: substr_in.simps)
      then have i: "\<not> substr_in [e, e] (replace_all [d, d] new r)"
        using 1(1)[rule_format, of r] s by (simp del: substr_in.simps)
      have "replace_all [d, d] new s = new @ replace_all [d, d] new r"
        using True by (subst replace_all.simps) (simp add: s)
      moreover have "hd (new @ q) \<noteq> e" for q using assms(1,2) by (cases new) auto
      ultimately show ?thesis using i app by simp
    next
      case False
      have "e = d \<or> \<not> substr_in [e, e] cs" using 1(2) Cons by (auto simp: substr_pair simp del: substr_in.simps)
      then have i: "\<not> substr_in [e, e] (replace_all [d, d] new cs)"
        "replace_all [d, d] new cs \<noteq> [] \<and> hd (replace_all [d, d] new cs) = e \<longrightarrow> cs \<noteq> [] \<and> hd cs = e"
        using 1(1)[rule_format, of cs] Cons by (simp_all del: substr_in.simps)
      have r: "replace_all [d, d] new s = c # replace_all [d, d] new cs"
        using False Cons by (subst replace_all.simps) simp
      have "\<not> (c = e \<and> cs \<noteq> [] \<and> hd cs = e)"
        using 1(2) False Cons by (cases cs) (auto simp: starts_with_def)
      then show ?thesis using i r Cons by (auto simp: substr_pair simp del: substr_in.simps)
    qed
  qed
qed

text \<open>C34: values cannot change a prompt: a template is filled in one pass, each known key by its value,
  whatever tokens the values contain, and unknown keys stay; and a hardened text contains no delimiter at all.\<close>

theorem prompt_injection_safe:
  assumes "\<forall>(u, k) \<in> set ps. CHR ''<'' \<notin> set u \<and> list_all ident_char k \<and> k \<noteq> []" "CHR ''<'' \<notin> set t"
  shows "render_template vs (template ps t) = filled vs ps t
    \<and> \<not> substr_in lt2 (harden_untrusted x m) \<and> \<not> substr_in gt2 (harden_untrusted x m)"
proof (intro conjI)
  show "render_template vs (template ps t) = filled vs ps t" using assms(1)
  proof (induction ps)
    case Nil
    have "render_template vs [] = []" by (subst render_template.simps) simp
    then show ?case using render_text[OF assms(2), of vs "[]"] by simp
  next
    case (Cons p ps)
    obtain u k where p: "p = (u, k)" by fastforce
    then have "CHR ''<'' \<notin> set u" "list_all ident_char k" "k \<noteq> []" using Cons.prems by auto
    then show ?case using Cons p by (simp add: render_text render_key)
  qed
  have L: "CHR ''<'' \<notin> set LT" "LT \<noteq> []" "CHR ''<'' \<notin> set GT" "CHR ''>'' \<notin> set GT" "GT \<noteq> []" by code_simp+
  have "\<not> substr_in lt2 (replace_all lt2 LT s)" for s using no_pair[OF L(1,2)] by (simp add: lt2_def)
  then have a: "\<not> substr_in lt2 (replace_all gt2 GT (replace_all lt2 LT s))" for s
    using no_pair[OF L(3,5)] unfolding lt2_def gt2_def by blast
  have b: "\<not> substr_in gt2 (replace_all gt2 GT s)" for s using no_pair[OF L(4,5)] by (simp add: gt2_def)
  show "\<not> substr_in lt2 (harden_untrusted x m)" "\<not> substr_in gt2 (harden_untrusted x m)"
    using a b by (auto simp: harden_untrusted_def Let_def lt2_def gt2_def split: option.splits)
qed

lemma prompt_injection_safe_witness:
  "render_template (\<lambda>k. if k = ''a'' then Some ''<<b>>'' else if k = ''b'' then Some ''secret'' else None) ''x <<a>> y'' = ''x <<b>> y''"
proof -
  have "list_all ident_char ''a''" by code_simp
  then show ?thesis
    using prompt_injection_safe[of "[(''x '', ''a'')]" "'' y''" "\<lambda>k. if k = ''a'' then Some ''<<b>>'' else if k = ''b'' then Some ''secret'' else None" None None]
    by (simp add: lt2_def gt2_def)
qed

end
