(* ===== verification/HttpFront.thy ===== *)
theory HttpFront
  imports Config
begin

text \<open>
  What stands around every request: the error envelopes (src/app/common/errors.py,
  exception_handlers.py), request ids (core/request_context.py), the limit of the body
  (core/body_size_limit.py), the key of the rate limit (core/limiter.py), request metrics
  (core/metrics.py), the guard of the synchronous mode (core/wait_guard.py) and the health
  checks of main.py. As Starlette documents, the handler of unexpected exceptions runs outside of all
  middleware, the other handlers inside.
\<close>

section \<open>Errors\<close>

datatype domain_error = AppError | BadRequestError | UnauthorizedError | ForbiddenError | NotFoundError | ConflictError
  | ValidationError | ServiceUnavailableError

fun status_of :: "domain_error \<Rightarrow> nat" where
  "status_of AppError = 500"
| "status_of BadRequestError = 400"
| "status_of UnauthorizedError = 401"
| "status_of ForbiddenError = 403"
| "status_of NotFoundError = 404"
| "status_of ConflictError = 409"
| "status_of ValidationError = 422"
| "status_of ServiceUnavailableError = 503"

fun code_of :: "domain_error \<Rightarrow> string" where
  "code_of AppError = ''internal_error''"
| "code_of BadRequestError = ''bad_request''"
| "code_of UnauthorizedError = ''unauthorized''"
| "code_of ForbiddenError = ''forbidden''"
| "code_of NotFoundError = ''not_found''"
| "code_of ConflictError = ''conflict''"
| "code_of ValidationError = ''validation_error''"
| "code_of ServiceUnavailableError = ''service_unavailable''"

type_synonym field_errors = "(string \<times> string) list"

record app_error =
  ae_kind :: domain_error
  ae_message :: string
  ae_detail :: json
  ae_fields :: "field_errors option"

definition new_error :: "domain_error \<Rightarrow> string option \<Rightarrow> json \<Rightarrow> field_errors option \<Rightarrow> app_error" where
  "new_error k message detail fs =
     \<lparr>ae_kind = k, ae_message = py_or message (code_of k), ae_detail = detail, ae_fields = fs\<rparr>"

text \<open>An exception of a route: of the domain, of the validation (places and messages), an HTTPException
  with its detail, any other.\<close>

datatype exc = Domain app_error | Invalid "(string list \<times> string) list" | HttpExc nat json | Unexpected string

record envelope =
  en_status :: nat
  en_code :: string
  en_message :: string
  en_detail :: json
  en_trace :: "string option"
  en_fields :: "field_errors option"

definition STATUS_CODE :: "(nat \<times> string) list" where
  "STATUS_CODE =
     [(400, ''bad_request''), (401, ''unauthorized''), (403, ''forbidden''), (404, ''not_found''), (405, ''method_not_allowed''),
      (409, ''conflict''), (413, ''payload_too_large''), (422, ''validation_error''), (429, ''rate_limited''), (500, ''internal_error''),
      (503, ''service_unavailable'')]"

text \<open>The request id of the context; a hyphen stands for none.\<close>

definition trace_id :: "string \<Rightarrow> string option" where
  "trace_id rid = (if rid \<noteq> '''' \<and> rid \<noteq> ''-'' then Some rid else None)"

definition new_envelope :: "string \<Rightarrow> nat \<Rightarrow> string \<Rightarrow> string \<Rightarrow> json \<Rightarrow> field_errors option \<Rightarrow> envelope" where
  "new_envelope rid status code message detail fs =
     \<lparr>en_status = status, en_code = code, en_message = message, en_detail = detail, en_trace = trace_id rid, en_fields = fs\<rparr>"

definition app_error_handler :: "string \<Rightarrow> app_error \<Rightarrow> envelope" where
  "app_error_handler rid e =
     new_envelope rid (status_of (ae_kind e)) (code_of (ae_kind e)) (ae_message e) (ae_detail e) (ae_fields e)"

definition validation_handler :: "string \<Rightarrow> (string list \<times> string) list \<Rightarrow> envelope" where
  "validation_handler rid es =
     new_envelope rid 422 ''validation_error'' (bytes [236, 154, 148, 236, 178, 173, 32, 234, 178, 128, 236, 166, 157, 236, 151, 144, 32, 236, 139, 164, 237, 140,
      168, 237, 150, 136, 236, 138, 181, 235, 139, 136, 235, 139, 164, 46]) JNull
       (Some (map (\<lambda>(loc, msg). (join_with ''.'' loc, msg)) es))"

definition http_exception_handler :: "string \<Rightarrow> nat \<Rightarrow> json \<Rightarrow> envelope" where
  "http_exception_handler rid status detail =
     (let code = (case map_of STATUS_CODE status of Some c \<Rightarrow> c | None \<Rightarrow> ''error'')
      in (case detail of
            JStr m \<Rightarrow> new_envelope rid status code m JNull None
          | _ \<Rightarrow> new_envelope rid status code code detail None))"

definition unhandled_handler :: "string \<Rightarrow> envelope" where
  "unhandled_handler rid = new_envelope rid 500 ''internal_error'' (bytes [236, 132, 156, 235, 178, 132, 32, 236, 152, 164, 235, 165, 152, 234, 176, 128, 32, 235, 176, 156, 236, 131,
      157, 237, 150, 136, 236, 138, 181, 235, 139, 136, 235, 139, 164, 46]) JNull None"

section \<open>Requests\<close>

record request =
  rq_headers :: "(string \<times> string) list"
  rq_peer :: string
  rq_method :: string
  rq_route :: "string option"

definition header :: "string \<Rightarrow> request \<Rightarrow> string option" where
  "header k rq = map_of (rq_headers rq) k"

datatype 'b reply = Body 'b | Envelope envelope | TooLarge nat

record 'b response =
  rs_status :: nat
  rs_reply :: "'b reply"
  rs_request_id :: "string option"

text \<open>The claims of a bearer token that verifies; expiry counts, the kind of the token does not.\<close>

definition email_from_jwt :: "(string \<Rightarrow> claims option) \<Rightarrow> request \<Rightarrow> string option" where
  "email_from_jwt verify rq =
     (case or_none (header ''authorization'' rq) of
        None \<Rightarrow> None
      | Some auth \<Rightarrow>
          (case py_words auth of
             [scheme, token] \<Rightarrow>
               if lower scheme \<noteq> ''bearer'' then None
               else (case verify token of
                       None \<Rightarrow> None
                     | Some c \<Rightarrow> (case or_none (c_sub c) of Some e \<Rightarrow> Some e | None \<Rightarrow> c_email c))
           | _ \<Rightarrow> None))"

definition extract_client_ip :: "request \<Rightarrow> string" where
  "extract_client_ip rq =
     (let direct = (case or_none (header ''x-real-ip'' rq) of Some r \<Rightarrow> py_strip r | None \<Rightarrow> rq_peer rq)
      in (case or_none (header ''x-forwarded-for'' rq) of
            None \<Rightarrow> direct
          | Some fwd \<Rightarrow> (let first = py_strip (hd (split_on (CHR '','') fwd)) in if first \<noteq> '''' then first else direct)))"

definition rate_limit_key :: "(string \<Rightarrow> claims option) \<Rightarrow> request \<Rightarrow> string" where
  "rate_limit_key verify rq =
     (case or_none (email_from_jwt verify rq) of Some e \<Rightarrow> ''user:'' @ e | None \<Rightarrow> ''ip:'' @ extract_client_ip rq)"

section \<open>Layers\<close>

text \<open>A layer's outcome: a response or an exception that goes on outwards. The context is the
  request id and the user's address for the log.\<close>

type_synonym 'b outcome = "string + 'b response"

record req_context =
  cx_request_id :: string
  cx_email :: string

definition no_context :: req_context where
  "no_context = \<lparr>cx_request_id = ''-'', cx_email = ''-''\<rparr>"

definition plain :: "nat \<Rightarrow> 'b reply \<Rightarrow> 'b response" where
  "plain status r = \<lparr>rs_status = status, rs_reply = r, rs_request_id = None\<rparr>"

text \<open>The route with the handlers that run inside.\<close>

definition exception_layer :: "(req_context \<Rightarrow> exc + nat \<times> 'b) \<Rightarrow> req_context \<Rightarrow> 'b outcome" where
  "exception_layer route cx =
     (let out = (\<lambda>e. Inr (plain (en_status e) (Envelope e))); rid = cx_request_id cx
      in (case route cx of
            Inr (status, b) \<Rightarrow> Inr (plain status (Body b))
          | Inl (Domain e) \<Rightarrow> out (app_error_handler rid e)
          | Inl (Invalid es) \<Rightarrow> out (validation_handler rid es)
          | Inl (HttpExc status d) \<Rightarrow> out (http_exception_handler rid status d)
          | Inl (Unexpected m) \<Rightarrow> Inl m))"

text \<open>BodySizeLimitMiddleware; \<open>py_int\<close> is int() of a text.\<close>

definition body_limit_layer :: "(string \<Rightarrow> int option) \<Rightarrow> int \<Rightarrow> request \<Rightarrow> (req_context \<Rightarrow> 'b outcome) \<Rightarrow> req_context \<Rightarrow> 'b outcome" where
  "body_limit_layer py_int max_bytes rq inner cx =
     (let size = (case or_none (header ''content-length'' rq) of
                    None \<Rightarrow> 0
                  | Some l \<Rightarrow> (case py_int l of Some i \<Rightarrow> i | None \<Rightarrow> -1))
      in if or_none (header ''content-length'' rq) \<noteq> None \<and> size > max_bytes
         then Inr (plain 413 (TooLarge (nat (max_bytes div 1024 div 1024))))
         else inner cx)"

definition request_id_layer :: "(string \<Rightarrow> claims option) \<Rightarrow> string \<Rightarrow> request \<Rightarrow> (req_context \<Rightarrow> 'b outcome) \<Rightarrow> req_context \<Rightarrow> 'b outcome" where
  "request_id_layer verify uuid rq inner cx =
     (let rid = take_text 64 (py_or (header ''x-request-id'' rq) uuid);
          email = py_or (email_from_jwt verify rq) ''-''
      in (case inner \<lparr>cx_request_id = rid, cx_email = email\<rparr> of
            Inl m \<Rightarrow> Inl m
          | Inr r \<Rightarrow> Inr (r\<lparr>rs_request_id := Some rid\<rparr>)))"

text \<open>MetricsMiddleware: the requests counted by method, path and status, and those in progress.\<close>

record metrics =
  mt_requests :: "(string \<times> string \<times> nat) list"
  mt_in_progress :: int

definition route_template :: "request \<Rightarrow> string" where
  "route_template rq = py_or (rq_route rq) ''other''"

definition metrics_layer :: "bool \<Rightarrow> request \<Rightarrow> (req_context \<Rightarrow> metrics \<Rightarrow> 'b outcome \<times> metrics) \<Rightarrow> req_context \<Rightarrow> metrics \<Rightarrow> 'b outcome \<times> metrics" where
  "metrics_layer available rq inner cx m =
     (if \<not> available then inner cx m
      else (case inner cx (m\<lparr>mt_in_progress := mt_in_progress m + 1\<rparr>) of
              (r, m') \<Rightarrow>
                let status = (case r of Inr x \<Rightarrow> rs_status x | Inl _ \<Rightarrow> 500)
                in (r, m'\<lparr>mt_in_progress := mt_in_progress m' - 1,
                          mt_requests := mt_requests m' @ [(rq_method rq, route_template rq, status)]\<rparr>)))"

text \<open>The layers as create_app stacks them (rate limit, compression and CORS, of libraries, left
  out), and around them the handler of unexpected exceptions, in the outer context.\<close>

record app_env =
  av_verify :: "string \<Rightarrow> claims option"
  av_int :: "string \<Rightarrow> int option"
  av_uuid :: string
  av_max_bytes :: int
  av_prometheus :: bool

definition limited :: "app_env \<Rightarrow> request \<Rightarrow> (req_context \<Rightarrow> exc + nat \<times> 'b) \<Rightarrow> req_context \<Rightarrow> 'b outcome" where
  "limited v rq route =
     (if av_max_bytes v > 0 then body_limit_layer (av_int v) (av_max_bytes v) rq (exception_layer route) else exception_layer route)"

definition serve :: "app_env \<Rightarrow> request \<Rightarrow> (req_context \<Rightarrow> exc + nat \<times> 'b) \<Rightarrow> metrics \<Rightarrow> 'b response \<times> metrics" where
  "serve v rq route m =
     (case metrics_layer (av_prometheus v) rq
             (\<lambda>cx m. (request_id_layer (av_verify v) (av_uuid v) rq (limited v rq route) cx, m)) no_context m of
        (Inr r, m') \<Rightarrow> (r, m')
      | (Inl msg, m') \<Rightarrow> (let e = unhandled_handler (cx_request_id no_context) in (plain 500 (Envelope e), m')))"

section \<open>Guards and health\<close>

definition guard_wait_mode :: "settings \<Rightarrow> bool \<Rightarrow> bool \<Rightarrow> exc option" where
  "guard_wait_mode cfg wait is_admin =
     (if \<not> wait then None
      else if \<not> is_production cfg then None
      else if is_admin then None
      else Some (HttpExc 403 (JStr (bytes [63, 119, 97, 105, 116, 61, 116, 114, 117, 101, 32, 235, 143, 153, 234, 184, 176, 32, 235, 170, 168, 235,
      147, 156, 235, 138, 148, 32, 236, 154, 180, 236, 152, 129, 32, 237, 153, 152, 234, 178, 189, 236, 151, 144,
      236, 132, 156, 32, 234, 180, 128, 235, 166, 172, 236, 158, 144, 235, 167, 140, 32, 236, 130, 172, 236, 154,
      169, 237, 149, 160, 32, 236, 136, 152, 32, 236, 158, 136, 236, 138, 181, 235, 139, 136, 235, 139, 164, 46,
      32, 236, 157, 188, 235, 176, 152, 32, 236, 130, 172, 236, 154, 169, 236, 158, 144, 235, 138, 148, 32, 237,
      129, 144, 32, 234, 184, 176, 235, 176, 152, 32, 235, 185, 132, 235, 143, 153, 234, 184, 176, 32, 235, 170,
      168, 235, 147, 156, 40, 234, 184, 176, 235, 179, 184, 41, 235, 165, 188, 32, 236, 130, 172, 236, 154, 169,
      237, 149, 152, 236, 132, 184, 236, 154, 148, 46]))))"

text \<open>A dependency's probe: an exception by name, or whether the answer was the expected one.\<close>

definition probe :: "string \<Rightarrow> string + bool \<Rightarrow> string list \<times> (string \<times> json)" where
  "probe name r =
     (case r of
        Inl e \<Rightarrow> ([name], (name, JStr (''error: '' @ e)))
      | Inr True \<Rightarrow> ([], (name, JStr ''ok''))
      | Inr False \<Rightarrow> ([name], (name, JStr ''unexpected_response'')))"

text \<open>The ping of Redis answers or raises.\<close>

definition check_dependencies :: "string + bool \<Rightarrow> string + bool \<Rightarrow> string option \<Rightarrow> string list \<times> (string \<times> json) list" where
  "check_dependencies pg neo redis =
     (let ps = [probe ''postgres'' pg, probe ''neo4j'' neo,
                probe ''redis'' (case redis of Some e \<Rightarrow> Inl e | None \<Rightarrow> Inr True)]
      in (concat (map fst ps), map snd ps))"

definition health_deep :: "string list \<times> (string \<times> json) list \<Rightarrow> exc + nat \<times> json" where
  "health_deep d =
     (case d of (failures, results) \<Rightarrow>
        let body = JObj [(''status'', JStr (if failures = [] then ''healthy'' else ''degraded'')), (''checks'', JObj results)]
        in if failures \<noteq> [] then Inl (HttpExc 503 body) else Inr (200, body))"

definition readyz :: "string list \<times> (string \<times> json) list \<Rightarrow> exc + nat \<times> json" where
  "readyz d =
     (case d of (failures, results) \<Rightarrow>
        if failures \<noteq> [] then Inl (HttpExc 503 (JObj [(''status'', JStr ''not_ready''), (''checks'', JObj results)]))
        else Inr (200, JObj [(''status'', JStr ''ready''), (''checks'', JObj results)]))"

definition healthz :: "exc + nat \<times> json" where
  "healthz = Inr (200, JObj [(''status'', JStr ''healthy'')])"

section \<open>What a client sees\<close>

definition request_id :: "app_env \<Rightarrow> request \<Rightarrow> string" where
  "request_id v rq = take_text 64 (py_or (header ''x-request-id'' rq) (av_uuid v))"

definition inner_context :: "app_env \<Rightarrow> request \<Rightarrow> req_context" where
  "inner_context v rq = \<lparr>cx_request_id = request_id v rq, cx_email = py_or (email_from_jwt (av_verify v) rq) ''-''\<rparr>"

definition too_large :: "app_env \<Rightarrow> request \<Rightarrow> bool" where
  "too_large v rq \<longleftrightarrow> av_max_bytes v > 0 \<and>
     (\<exists>l i. or_none (header ''content-length'' rq) = Some l \<and> av_int v l = Some i \<and> i > av_max_bytes v)"

lemma limited_cases:
  "limited v rq route cx = (if too_large v rq then Inr (plain 413 (TooLarge (nat (av_max_bytes v div 1024 div 1024)))) else exception_layer route cx)"
  by (auto simp: limited_def body_limit_layer_def too_large_def Let_def split: option.splits)

lemma serve_cases:
  "fst (serve v rq route m) =
     (case limited v rq route (inner_context v rq) of
        Inl msg \<Rightarrow> plain 500 (Envelope (unhandled_handler ''-''))
      | Inr r \<Rightarrow> r\<lparr>rs_request_id := Some (request_id v rq)\<rparr>)
   \<and> mt_in_progress (snd (serve v rq route m)) = mt_in_progress m"
  by (auto simp: serve_def metrics_layer_def request_id_layer_def Let_def inner_context_def request_id_def no_context_def
      split: sum.splits)

lemma handlers_shape:
  "en_trace (app_error_handler rid e) = trace_id rid" "en_code (app_error_handler rid e) \<noteq> ''''"
  "en_trace (validation_handler rid es) = trace_id rid" "en_code (validation_handler rid es) \<noteq> ''''"
  "en_trace (http_exception_handler rid st d) = trace_id rid" "en_code (http_exception_handler rid st d) \<noteq> ''''"
  "en_status (http_exception_handler rid st d) = st"
proof -
  have c: "(case map_of STATUS_CODE st of Some c \<Rightarrow> c | None \<Rightarrow> ''error'') \<noteq> ''''" by (simp add: STATUS_CODE_def)
  show "en_trace (http_exception_handler rid st d) = trace_id rid" "en_code (http_exception_handler rid st d) \<noteq> ''''"
    "en_status (http_exception_handler rid st d) = st"
    using c by (simp_all add: http_exception_handler_def new_envelope_def Let_def split: json.splits)
  show "en_trace (app_error_handler rid e) = trace_id rid" "en_code (app_error_handler rid e) \<noteq> ''''"
    by (simp add: app_error_handler_def new_envelope_def) (cases "ae_kind e"; simp add: app_error_handler_def new_envelope_def)
  show "en_trace (validation_handler rid es) = trace_id rid" "en_code (validation_handler rid es) \<noteq> ''''"
    by (simp_all add: validation_handler_def new_envelope_def)
qed


definition calm :: app_env where
  "calm = \<lparr>av_verify = (\<lambda>_. None), av_int = (\<lambda>_. None), av_uuid = ''u1'', av_max_bytes = 30 * 1024 * 1024, av_prometheus = True\<rparr>"

definition plain_get :: request where
  "plain_get = \<lparr>rq_headers = [], rq_peer = ''10.0.0.1'', rq_method = ''GET'', rq_route = Some ''/x''\<rparr>"


text \<open>Only a declared length is limited: a request is refused for its size, with 413 and before the
  route runs, exactly when its Content-Length is a number above the limit; a chunked request or a
  length that is not a number always reaches the route, although the module
  announces that it counts such bodies while they are read.\<close>

theorem body_limit_declared:
  "((\<exists>k. rs_reply (fst (serve v rq route m)) = TooLarge k) \<longleftrightarrow> too_large v rq)
   \<and> (too_large v rq \<longrightarrow> rs_status (fst (serve v rq route m)) = 413 \<and> fst (serve v rq route m) = fst (serve v rq route' m))
   \<and> (or_none (header ''content-length'' rq) = None \<longrightarrow>
        (case exception_layer route (inner_context v rq) of
           Inr r \<Rightarrow> rs_reply (fst (serve v rq route m)) = rs_reply r
         | Inl msg \<Rightarrow> rs_status (fst (serve v rq route m)) = 500))"
proof -
  have n: "rs_reply r \<noteq> TooLarge k" if "exception_layer route cx = Inr r" for r k cx
    using that by (auto simp: exception_layer_def plain_def Let_def split: sum.splits exc.splits)
  have "\<not> too_large v rq" if "or_none (header ''content-length'' rq) = None" using that by (simp add: too_large_def)
  then show ?thesis
    using serve_cases[of v rq route m] serve_cases[of v rq route' m] n
    by (auto simp: limited_cases plain_def split: sum.splits)
qed

lemma body_limit_declared_witness:
  "rs_status (fst (serve calm (plain_get\<lparr>rq_headers := [(''transfer-encoding'', ''chunked'')]\<rparr>) (\<lambda>_. Inl (Unexpected ''MemoryError'') :: exc + nat \<times> unit)
     \<lparr>mt_requests = [], mt_in_progress = 0\<rparr>)) = 500"
proof -
  let ?q = "plain_get\<lparr>rq_headers := [(''transfer-encoding'', ''chunked'')]\<rparr>" and ?r = "\<lambda>_ :: req_context. Inl (Unexpected ''MemoryError'') :: exc + nat \<times> unit"
  have h: "or_none (header ''content-length'' ?q) = None" by (simp add: header_def)
  have e: "exception_layer ?r (inner_context calm ?q) = Inl ''MemoryError''" by (simp add: exception_layer_def)
  show ?thesis using body_limit_declared[of calm ?q ?r "\<lparr>mt_requests = [], mt_in_progress = 0\<rparr>" ?r] h e by auto
qed

text \<open>Readiness: the probe for traffic is answered 200 exactly when PostgreSQL, Neo4j and Redis all gave the
  expected answer, and 503 otherwise, with an envelope that keeps the result of each check and the request's id; the
  liveness probe is answered 200 whatever they do.\<close>

theorem readiness_exact:
  assumes "\<not> too_large v rq" "request_id v rq \<notin> {'''', ''-''}"
  shows "(if pg = Inr True \<and> neo = Inr True \<and> redis = None
          then rs_status (fst (serve v rq (\<lambda>_. readyz (check_dependencies pg neo redis)) m)) = 200
          else \<exists>e. fst (serve v rq (\<lambda>_. readyz (check_dependencies pg neo redis)) m) =
                 \<lparr>rs_status = 503, rs_reply = Envelope e, rs_request_id = Some (request_id v rq)\<rparr>
               \<and> en_code e = ''service_unavailable'' \<and> en_trace e = Some (request_id v rq)
               \<and> json_get (en_detail e) ''checks'' = Some (JObj (snd (check_dependencies pg neo redis))))
    \<and> rs_status (fst (serve v rq (\<lambda>_. healthz) m)) = 200"
proof -
  have t: "trace_id (request_id v rq) = Some (request_id v rq)" using assms(2) by (simp add: trace_id_def)
  have f: "fst (check_dependencies pg neo redis) = [] \<longleftrightarrow> pg = Inr True \<and> neo = Inr True \<and> redis = None"
    by (auto simp: check_dependencies_def probe_def Let_def split: sum.splits bool.splits option.splits)
  have i: "cx_request_id (inner_context v rq) = request_id v rq" by (simp add: inner_context_def)
  show ?thesis
    using serve_cases[of v rq "\<lambda>_. readyz (check_dependencies pg neo redis)" m] serve_cases[of v rq "\<lambda>_. healthz" m] assms(1) f
    by (cases "check_dependencies pg neo redis")
      (auto simp: limited_cases exception_layer_def readyz_def healthz_def http_exception_handler_def new_envelope_def
        STATUS_CODE_def plain_def Let_def t i json_get_def)
qed

lemma readiness_exact_witness:
  "rs_status (fst (serve calm plain_get (\<lambda>_. readyz (check_dependencies (Inr True) (Inr True) (Some ''ConnectionError''))) \<lparr>mt_requests = [], mt_in_progress = 0\<rparr>)) = 503"
proof -
  have "request_id calm plain_get = ''u1''" by code_simp
  moreover have "\<not> too_large calm plain_get" by (simp add: too_large_def plain_get_def header_def)
  ultimately show ?thesis
    using readiness_exact[of calm plain_get "Inr True" "Inr True" "Some ''ConnectionError''" "\<lparr>mt_requests = [], mt_in_progress = 0\<rparr>"] by auto
qed

end
