(* ===== verification/IngestApi.thy ===== *)
theory IngestApi
  imports Boards HttpFront
begin

text \<open>
  The HTTP interface of the collected festivals: src/app/api/v1/ingestion/router.py (run an
  adapter, crawl a board), src/app/api/v1/festivals (browse) and the request's database session of
  src/app/infra/db.py. The database is the table of festivals; a session works on its own copy until it
  commits. The answers of the web, the text functions and the dialect of LIKE are parameters.
\<close>

section \<open>Sessions\<close>

record session =
  sn_db :: store
  sn_work :: store

definition open_session :: "store \<Rightarrow> session" where
  "open_session db = \<lparr>sn_db = db, sn_work = db\<rparr>"

definition commit :: "session \<Rightarrow> session" where
  "commit s = s\<lparr>sn_db := sn_work s\<rparr>"

definition rollback :: "session \<Rightarrow> session" where
  "rollback s = s\<lparr>sn_work := sn_db s\<rparr>"

text \<open>get_session around a handler: what is not committed is lost when the session closes.\<close>

definition get_session :: "(session \<Rightarrow> (exc + 'b) \<times> session) \<Rightarrow> store \<Rightarrow> (exc + 'b) \<times> store" where
  "get_session handler db =
     (case handler (open_session db) of
        (Inl e, s) \<Rightarrow> (Inl e, sn_db (rollback s))
      | (Inr b, s) \<Rightarrow> (Inr b, sn_db s))"

definition session_scope :: "(session \<Rightarrow> (exc + 'b) \<times> session) \<Rightarrow> store \<Rightarrow> (exc + 'b) \<times> store" where
  "session_scope body db =
     (case body (open_session db) of
        (Inl e, s) \<Rightarrow> (Inl e, sn_db (rollback s))
      | (Inr b, s) \<Rightarrow> (Inr b, sn_db (commit s)))"

section \<open>Collecting\<close>

record ingest_env =
  ie_settings :: settings
  ie_loads :: "string \<Rightarrow> json option"
  ie_http :: "string \<times> (string \<times> string) list \<Rightarrow> nat \<Rightarrow> http_out"
  ie_jitter :: "nat \<Rightarrow> rat"
  ie_str :: "json \<Rightarrow> string"
  ie_sha1 :: "string \<Rightarrow> string"
  ie_digest :: "raw \<Rightarrow> string"
  ie_text :: text_env
  ie_list :: "string list \<Rightarrow> json"

definition list_sources :: "(string \<times> string) list" where
  "list_sources = map (\<lambda>a. (a_key a, a_system a)) all_adapters"

record ingest_request =
  ir_source :: string
  ir_rows :: int
  ir_page :: int

record ingest_response =
  ip_source :: string
  ip_fetched :: nat
  ip_counts :: counts

text \<open>An exception of the fetch, by the name of its class.\<close>

definition fetch_exc :: "fetch_error \<Rightarrow> exc" where
  "fetch_exc e = Unexpected (case e of NetError n \<Rightarrow> n | Raised n \<Rightarrow> n | HttpStatus s \<Rightarrow> ''HTTPStatusError''
     | AttributeErr \<Rightarrow> ''AttributeError'' | AssertFailed \<Rightarrow> ''AssertionError'')"

definition fetch_raw :: "ingest_env \<Rightarrow> adapter \<Rightarrow> string \<Rightarrow> int \<Rightarrow> int \<Rightarrow> fetch_error + raw list" where
  "fetch_raw v a key rows page =
     fst (http_fetch_records (ie_loads v) (ie_http v (fetch_request a None key rows page)) (ie_jitter v) 1 3)"

definition run_ingest :: "ingest_env \<Rightarrow> ingest_request \<Rightarrow> session \<Rightarrow> (exc + ingest_response) \<times> session" where
  "run_ingest v rq s =
     (case get_adapter (ir_source rq) of
        None \<Rightarrow> (Inl (Domain (new_error NotFoundError (Some (bytes [236, 149, 140, 32, 236, 136, 152, 32, 236, 151, 134, 235, 138, 148, 32, 236, 134, 140, 236, 138, 164, 58,
      32] @ ir_source rq))
                   (JObj [(''available'', ie_list v list_adapter_keys)]) None)), s)
      | Some a \<Rightarrow>
          (case data_go_kr_service_keys (ie_settings v) of
             [] \<Rightarrow> (Inl (Domain (new_error ServiceUnavailableError
                     (Some (bytes [234, 179, 181, 234, 179, 181, 235, 141, 176, 236, 157, 180, 237, 132, 176, 32, 236, 132, 156, 235, 185, 132,
      236, 138, 164, 237, 130, 164, 40, 68, 65, 84, 65, 95, 71, 79, 95, 75, 82, 95, 83, 69, 82, 86,
      73, 67, 69, 95, 75, 69, 89, 41, 234, 176, 128, 32, 235, 175, 184, 236, 132, 164, 236, 160, 149, 236,
      157, 180, 235, 157, 188, 32, 236, 136, 152, 236, 167, 145, 237, 149, 160, 32, 236, 136, 152, 32, 236, 151,
      134, 236, 138, 181, 235, 139, 136, 235, 139, 164, 46])) JNull None)), s)
           | key # _ \<Rightarrow>
               (case fetch_raw v a key (ir_rows rq) (ir_page rq) of
                  Inl e \<Rightarrow> (Inl (fetch_exc e), s)
                | Inr records \<Rightarrow>
                    (case ingest_records (normalize_record (ie_str v) (ie_sha1 v) (ie_digest v) a) records (sn_work s) of
                       (c, t) \<Rightarrow>
                         (Inr \<lparr>ip_source = ir_source rq, ip_fetched = length records, ip_counts = c\<rparr>,
                          commit (s\<lparr>sn_work := t\<rparr>))))))"

section \<open>Crawling\<close>

definition list_crawl_boards :: "ingest_env \<Rightarrow> (string \<times> string \<times> string) list" where
  "list_crawl_boards v = map (\<lambda>c. (f_name c, f_system c, f_base_url c)) (board_configs (ie_text v))"

definition MAX_CRAWL_PAGES :: int where "MAX_CRAWL_PAGES = 20"

record crawl_request =
  cw_board :: string
  cw_max_pages :: int

record crawl_response =
  cp_board :: string
  cp_system :: string
  cp_crawled :: nat
  cp_gayoje :: nat
  cp_blocked :: bool
  cp_counts :: counts
  cp_posts :: "board_post list"

definition handed_on :: "board_post \<Rightarrow> post" where
  "handed_on p = \<lparr>p_title = bp_title p, p_url = bp_url p, p_start = bp_start p, p_end = bp_end p, p_venue = bp_venue p, p_host = bp_host p\<rparr>"

definition crawl_of :: "web \<Rightarrow> 'p robots \<Rightarrow> crawl_request \<Rightarrow> board_config \<Rightarrow> crawl_result" where
  "crawl_of w g rq cfg =
     (let pages = max 1 (min (cw_max_pages rq) MAX_CRAWL_PAGES)
      in fst (crawl_board w g (cfg\<lparr>f_max_pages := nat pages\<rparr>) True fresh_gate))"

definition run_crawl :: "ingest_env \<Rightarrow> web \<Rightarrow> 'p robots \<Rightarrow> crawl_request \<Rightarrow> session \<Rightarrow> (exc + crawl_response) \<times> session" where
  "run_crawl v w g rq s =
     (case get_board (ie_text v) (cw_board rq) of
        None \<Rightarrow> (Inl (Domain (new_error NotFoundError (Some (bytes [236, 149, 140, 32, 236, 136, 152, 32, 236, 151, 134, 235, 138, 148, 32, 234, 178, 140, 236, 139, 156, 237,
      140, 144, 58, 32] @ cw_board rq))
                   (JObj [(''available'', ie_list v (list_boards (ie_text v)))]) None)), s)
      | Some cfg \<Rightarrow>
          (let r = crawl_of w g rq cfg
           in (case ingest_board_posts (te_digit (ie_text v)) (ie_sha1 v) (ie_digest v) (y_system r) (map handed_on (y_posts r)) (sn_work s) of
                 (c, t) \<Rightarrow>
                   (Inr \<lparr>cp_board = y_board r, cp_system = y_system r, cp_crawled = y_crawled r, cp_gayoje = y_gayoje r,
                         cp_blocked = y_blocked r, cp_counts = c, cp_posts = y_posts r\<rparr>,
                    commit (s\<lparr>sn_work := t\<rparr>)))))"

section \<open>Browsing\<close>

text \<open>LIKE of a pattern of characters, where a backslash escapes only in some databases.\<close>

function like :: "bool \<Rightarrow> string list \<Rightarrow> string list \<Rightarrow> bool" where
  "like esc [] cs = (cs = [])"
| "like esc (p # ps) cs =
     (if esc \<and> p = [bslash] \<and> ps \<noteq> [] then (case cs of [] \<Rightarrow> False | c # cs' \<Rightarrow> c = hd ps \<and> like esc (tl ps) cs')
      else if p = ''%'' then like esc ps cs \<or> (case cs of [] \<Rightarrow> False | c # cs' \<Rightarrow> like esc (p # ps) cs')
      else (case cs of [] \<Rightarrow> False | c # cs' \<Rightarrow> (p = ''_'' \<or> p = c) \<and> like esc ps cs'))"
  by pat_completeness auto
termination by (relation "measure (\<lambda>(e, ps, cs). length ps + length cs)") auto

text \<open>Characters are lowered one by one.\<close>

record like_dialect =
  lk_escape :: bool
  lk_lower :: "string \<Rightarrow> string list"

definition text_chars :: "string \<Rightarrow> string list" where
  "text_chars s = chars (length s) s"

definition lower_chars :: "like_dialect \<Rightarrow> string list \<Rightarrow> string list" where
  "lower_chars k cs = concat (map (lk_lower k) cs)"

definition ilike :: "like_dialect \<Rightarrow> string list \<Rightarrow> string list \<Rightarrow> bool" where
  "ilike k x pat = like (lk_escape k) (lower_chars k pat) (lower_chars k x)"

definition region_matches :: "like_dialect \<Rightarrow> string option \<Rightarrow> row \<Rightarrow> bool" where
  "region_matches k region w =
     (case region of
        None \<Rightarrow> True
      | Some r \<Rightarrow> r = '''' \<or> (case e_region (w_event w) of None \<Rightarrow> False | Some x \<Rightarrow> ilike k (text_chars x) (''%'' # text_chars r @ [''%''])))"

text \<open>Rows without a start last, then the latest start first, then the largest id first.\<close>

definition festival_key :: "row \<Rightarrow> int list" where
  "festival_key w =
     (case e_start (w_event w) of
        None \<Rightarrow> [1, 0, 0, 0, - int (w_id w)]
      | Some (y, m, d) \<Rightarrow> [0, - int y, - int m, - int d, - int (w_id w)])"

definition festivals :: "like_dialect \<Rightarrow> string option \<Rightarrow> store \<Rightarrow> row list" where
  "festivals k region t = sort_key festival_key (filter (region_matches k region) (t_rows t))"

definition list_festivals :: "like_dialect \<Rightarrow> nat \<Rightarrow> nat \<Rightarrow> string option \<Rightarrow> store \<Rightarrow> row list \<times> nat" where
  "list_festivals k limit offset region t =
     (take limit (drop offset (festivals k region t)), length (filter (region_matches k region) (t_rows t)))"

definition get_festival :: "nat \<Rightarrow> store \<Rightarrow> row option" where
  "get_festival i t = find (\<lambda>w. w_id w = i) (t_rows t)"

record festival_item =
  fi_id :: nat
  fi_title :: string
  fi_region :: "string option"
  fi_venue :: "string option"
  fi_host :: "string option"
  fi_start :: "date option"
  fi_end :: "date option"

record festival_detail = festival_item +
  fi_url :: "string option"
  fi_system :: string

definition item_of :: "row \<Rightarrow> festival_item" where
  "item_of w = (let e = w_event w in
     \<lparr>fi_id = w_id w, fi_title = e_title e, fi_region = e_region e, fi_venue = e_venue e, fi_host = e_host e, fi_start = e_start e, fi_end = e_end e\<rparr>)"

definition detail_of :: "row \<Rightarrow> festival_detail" where
  "detail_of w = (let e = w_event w in
     \<lparr>fi_id = w_id w, fi_title = e_title e, fi_region = e_region e, fi_venue = e_venue e, fi_host = e_host e, fi_start = e_start e, fi_end = e_end e,
      fi_url = e_url e, fi_system = e_system e\<rparr>)"

record festival_page =
  fp_items :: "festival_item list"
  fp_total :: nat
  fp_limit :: int
  fp_offset :: int

text \<open>The bounds of the query are checked before the handler.\<close>

definition list_festival_events :: "like_dialect \<Rightarrow> int \<Rightarrow> int \<Rightarrow> string option \<Rightarrow> session \<Rightarrow> (exc + festival_page) \<times> session" where
  "list_festival_events k limit offset region s =
     (let bad = (if 1 \<le> limit \<and> limit \<le> 200 then [] else [([''query'', ''limit''], ''range'')])
              @ (if 0 \<le> offset then [] else [([''query'', ''offset''], ''range'')])
      in if bad \<noteq> [] then (Inl (Invalid bad), s)
         else (case list_festivals k (nat limit) (nat offset) region (sn_work s) of
                 (rows, n) \<Rightarrow> (Inr \<lparr>fp_items = map item_of rows, fp_total = n, fp_limit = limit, fp_offset = offset\<rparr>, s)))"

definition get_festival_event :: "int \<Rightarrow> session \<Rightarrow> (exc + festival_detail) \<times> session" where
  "get_festival_event i s =
     (case (if i < 0 then None else get_festival (nat i) (sn_work s)) of
        None \<Rightarrow> (Inl (Domain (new_error NotFoundError (Some (bytes [234, 176, 128, 236, 154, 148, 236, 160, 156, 235, 165, 188, 32, 236, 176, 190, 236, 157, 132, 32, 236, 136,
      152, 32, 236, 151, 134, 236, 138, 181, 235, 139, 136, 235, 139, 164, 58, 32] @ int_str i)) JNull None)), s)
      | Some w \<Rightarrow> (Inr (detail_of w), s))"

section \<open>Collecting is all or nothing\<close>


definition offline :: ingest_env where
  "offline = \<lparr>ie_settings = default_settings\<lparr>S_DATA_GO_KR_SERVICE_KEY := Some ''k1''\<rparr>, ie_loads = (\<lambda>_. None), ie_http = (\<lambda>_ _. HttpRaise ''ReadError''),
     ie_jitter = (\<lambda>_. 0), ie_str = (\<lambda>_. ''''), ie_sha1 = id, ie_digest = (\<lambda>_. ''''),
     ie_text = \<lparr>te_digit = (\<lambda>_. 0), te_dec = (\<lambda>_. 0), te_word = (\<lambda>_. False), te_join = (\<lambda>_ u. u)\<rparr>, ie_list = (\<lambda>_. JNull)\<rparr>"


section \<open>Crawling\<close>


definition closed_web :: web where
  "closed_web = open_web\<lparr>v_robots := (\<lambda>_ _. HttpAnswer 403 '''')\<rparr>"

lemma board_name: "f_name (board n sy b u r d p) = n" by (simp add: board_def)

lemma gunsan_listed: "get_board te ''gunsan_arts'' \<noteq> None"
proof -
  have "''gunsan_arts'' \<in> f_name ` set (board_configs te)"
    unfolding board_configs_def Let_def by (simp add: board_name)
  then show ?thesis by (auto simp: get_board_def find_None_iff)
qed


section \<open>Browsing shows every event once\<close>

text \<open>The latest start first, events without a start last, the newest row first among equals.\<close>

definition newer_first :: "row \<Rightarrow> row \<Rightarrow> bool" where
  "newer_first a b =
     (case (e_start (w_event a), e_start (w_event b)) of
        (None, None) \<Rightarrow> w_id b < w_id a
      | (Some x, None) \<Rightarrow> True
      | (None, Some y) \<Rightarrow> False
      | (Some (y, m, d), Some (y', m', d')) \<Rightarrow>
          y' < y \<or> y' = y \<and> (m' < m \<or> m' = m \<and> (d' < d \<or> d' = d \<and> w_id b < w_id a)))"

lemma festival_key_order:
  "festival_key a \<le> festival_key b \<Longrightarrow> w_id a \<noteq> w_id b \<Longrightarrow> newer_first a b"
  by (auto simp: festival_key_def newer_first_def split: option.splits prod.splits if_splits)

lemma festivals_rows:
  assumes "distinct (map w_id (t_rows t))"
  shows "mset (festivals k region t) = mset (filter (region_matches k region) (t_rows t))"
    "sorted_wrt newer_first (festivals k region t)"
proof -
  show "mset (festivals k region t) = mset (filter (region_matches k region) (t_rows t))"
    by (simp add: festivals_def)
  have "distinct (map w_id (filter (region_matches k region) (t_rows t)))" using assms by (simp add: distinct_map_filter)
  then have "distinct (map w_id (festivals k region t))"
    using distinct_map[of w_id] by (simp add: festivals_def distinct_map)
  moreover have "sorted (map festival_key (festivals k region t))" by (simp add: festivals_def)
  ultimately show "sorted_wrt newer_first (festivals k region t)"
    using festival_key_order by (auto simp: sorted_wrt_iff_nth_less sorted_iff_nth_mono distinct_conv_nth)
qed

text \<open>C37: reading the list page by page shows every event that passes the filter exactly once, the latest first,
  and every page tells their number; a limit or an offset out of range is refused.\<close>

theorem festival_pages:
  assumes "store_ok (sn_work s)" "1 \<le> limit" "limit \<le> 200"
    "length (filter (region_matches k region) (t_rows (sn_work s))) \<le> n * nat limit"
  shows "(\<exists>ps rows. map (\<lambda>i. list_festival_events k limit (int i * limit) region s) [0..<n] = map (\<lambda>p. (Inr p, s)) ps
       \<and> concat (map fp_items ps) = map item_of rows
       \<and> mset rows = mset (filter (region_matches k region) (t_rows (sn_work s)))
       \<and> sorted_wrt newer_first rows \<and> (\<forall>p \<in> set ps. fp_total p = length rows))
    \<and> (\<forall>l off. l < 1 \<or> 200 < l \<or> off < 0 \<longrightarrow> (\<exists>bad. bad \<noteq> [] \<and> list_festival_events k l off region s = (Inl (Invalid bad), s)))"
proof
  let ?rows = "festivals k region (sn_work s)" and ?l = "nat limit"
  let ?page = "\<lambda>i. \<lparr>fp_items = map item_of (take ?l (drop (i * ?l) ?rows)), fp_total = length ?rows, fp_limit = limit, fp_offset = int i * limit\<rparr>"
  have d: "distinct (map w_id (t_rows (sn_work s)))" using assms(1) by (simp add: store_ok_def)
  note rows = festivals_rows[OF d, of k region]
  have len: "length ?rows = length (filter (region_matches k region) (t_rows (sn_work s)))" by (rule mset_eq_length[OF rows(1)])
  have p: "list_festival_events k limit (int i * limit) region s = (Inr (?page i), s)" for i
    using assms(2,3) by (simp add: list_festival_events_def list_festivals_def len nat_mult_distrib)
  have "concat (map fp_items (map ?page [0..<n])) = map item_of (concat (map (\<lambda>i. take ?l (drop (i * ?l) ?rows)) [0..<n]))"
    by (simp only: map_concat map_map comp_def festival_page.select_convs)
  then have c: "concat (map fp_items (map ?page [0..<n])) = map item_of ?rows"
    using assms(4) by (simp add: concat_pages len)
  show "\<exists>ps rows. map (\<lambda>i. list_festival_events k limit (int i * limit) region s) [0..<n] = map (\<lambda>p. (Inr p, s)) ps
       \<and> concat (map fp_items ps) = map item_of rows
       \<and> mset rows = mset (filter (region_matches k region) (t_rows (sn_work s)))
       \<and> sorted_wrt newer_first rows \<and> (\<forall>p \<in> set ps. fp_total p = length rows)"
    by (intro exI[of _ "map ?page [0..<n]"] exI[of _ ?rows] conjI c rows) (auto simp: p)
  show "\<forall>l off. l < 1 \<or> 200 < l \<or> off < 0 \<longrightarrow> (\<exists>bad. bad \<noteq> [] \<and> list_festival_events k l off region s = (Inl (Invalid bad), s))"
    by (auto simp: list_festival_events_def Let_def)
qed

definition browse_event :: "date option \<Rightarrow> string \<Rightarrow> event" where
  "browse_event start i =
     \<lparr>e_system = ''x'', e_id = i, e_url = None, e_hash = i, e_raw = [], e_title = i, e_host = None, e_region = None, e_venue = None,
      e_start = start, e_end = None\<rparr>"

definition browse_store :: store where
  "browse_store =
     \<lparr>t_rows = [\<lparr>w_id = 1, w_event = browse_event None ''a''\<rparr>, \<lparr>w_id = 2, w_event = browse_event (Some (2026, 5, 1)) ''b''\<rparr>,
                \<lparr>w_id = 3, w_event = browse_event (Some (2026, 9, 1)) ''c''\<rparr>], t_next = 4\<rparr>"

lemma festival_pages_witness:
  "\<exists>ps rows. map (\<lambda>i. list_festival_events \<lparr>lk_escape = True, lk_lower = \<lambda>c. [c]\<rparr> 2 (int i * 2) None (open_session browse_store)) [0..<2]
       = map (\<lambda>p. (Inr p, open_session browse_store)) ps
     \<and> concat (map fp_items ps) = map item_of rows \<and> length rows = 3"
proof -
  have a: "store_ok (sn_work (open_session browse_store))"
    by (simp add: store_ok_def open_session_def browse_store_def browse_event_def row_key_def event_key_def)
  have b: "filter (region_matches k None) (t_rows (sn_work (open_session browse_store))) = t_rows browse_store" for k
    by (simp add: region_matches_def open_session_def)
  have l: "length (t_rows browse_store) = 3" by (simp add: browse_store_def)
  have "length (filter (region_matches k None) (t_rows (sn_work (open_session browse_store)))) \<le> 2 * nat 2" for k
    unfolding b l by simp
  from festival_pages[OF a _ _ this, of "\<lparr>lk_escape = True, lk_lower = \<lambda>c. [c]\<rparr>"]
  obtain ps rows where p: "map (\<lambda>i. list_festival_events \<lparr>lk_escape = True, lk_lower = \<lambda>c. [c]\<rparr> 2 (int i * 2) None (open_session browse_store)) [0..<2]
       = map (\<lambda>p. (Inr p, open_session browse_store)) ps" "concat (map fp_items ps) = map item_of rows"
     "mset rows = mset (t_rows browse_store)" unfolding b by auto
  then have "length rows = 3" using mset_eq_length[OF p(3)] l by simp
  then show ?thesis using p(1,2) by auto
qed

section \<open>The region filter\<close>

lemma like_percent: "like esc (''%'' # ps) cs \<longleftrightarrow> (\<exists>a b. cs = a @ b \<and> like esc ps b)"
proof (induction cs)
  case Nil
  then show ?case by simp
next
  case (Cons c cs)
  have "like esc (''%'' # ps) (c # cs) \<longleftrightarrow> like esc ps (c # cs) \<or> like esc (''%'' # ps) cs" by simp
  then show ?case unfolding Cons.IH by (metis append_Cons append_Nil list.sel(3) neq_Nil_conv tl_append2)
qed

definition plain_chars :: "string list \<Rightarrow> bool" where
  "plain_chars cs = list_all (\<lambda>c. c \<notin> {''%'', ''_'', [bslash]}) cs"

lemma like_plain: "plain_chars ps \<Longrightarrow> like esc (ps @ [''%'']) cs \<longleftrightarrow> (\<exists>b. cs = ps @ b)"
proof (induction ps arbitrary: cs)
  case Nil
  then show ?case using like_percent[of esc "[]" cs] by simp
next
  case (Cons p ps)
  then show ?case by (cases cs) (auto simp: plain_chars_def)
qed

text \<open>A region without the signs of LIKE selects the rows whose region has it as a part, upper and lower
  case aside; the sign for one character selects every row with a region.\<close>

lemma region_filter:
  assumes "lk_lower k ''%'' = [''%'']" "plain_chars (lower_chars k (text_chars r))" "r \<noteq> ''''"
  shows "region_matches k (Some r) w \<longleftrightarrow>
    (\<exists>x a b. e_region (w_event w) = Some x \<and> lower_chars k (text_chars x) = a @ lower_chars k (text_chars r) @ b)"
proof -
  have "lower_chars k (''%'' # text_chars r @ [''%'']) = ''%'' # lower_chars k (text_chars r) @ [''%'']"
    by (simp add: lower_chars_def assms(1))
  then have "ilike k x (''%'' # text_chars r @ [''%'']) \<longleftrightarrow> (\<exists>a b. lower_chars k x = a @ lower_chars k (text_chars r) @ b)" for x
    by (auto simp add: ilike_def like_percent like_plain[OF assms(2)] simp del: like.simps)
  then show ?thesis using assms(3) by (simp add: region_matches_def split: option.split)
qed

end
