(* ===== verification/Observability.thy ===== *)
theory Observability
  imports CoreText HttpFront
begin

text \<open>
  src/app/core/observability.py with the filter of src/app/core/request_context.py: what a log
  record becomes on its way through the filters and the formatter of the installed handler, the
  set-up of the root logger, and the reports to Sentry. The first part shows what the masking of
  personal data (core/pii.py) leaves of a text.
\<close>

section \<open>Texts a pattern matches\<close>

text \<open>\<open>eats r w\<close>: wherever the text goes on with w, the pattern has a match that ends after it.\<close>

definition eats :: "re \<Rightarrow> string \<Rightarrow> bool" where
  "eats r w = (\<forall>s u. z_rest s = w @ u \<longrightarrow> (\<exists>t \<in> set (matches r s). z_rest t = u))"

definition ascii :: "char \<Rightarrow> bool" where
  "ascii c = ((of_char c :: nat) < 128)"

lemma eats_set: "ascii c \<Longrightarrow> P [c] \<Longrightarrow> eats (RSet P) [c]"
  by (auto simp: eats_def ascii_def char_len_def Let_def advance_def)

lemma eats_eps: "eats REps []"
  by (simp add: eats_def)

lemma eats_seq: "eats a v \<Longrightarrow> eats b w \<Longrightarrow> eats (RSeq a b) (v @ w)"
  unfolding eats_def by simp blast

lemma eats_left: "eats a w \<Longrightarrow> eats (RAlt a b) w"
  by (auto simp: eats_def)

lemma eats_right: "eats b w \<Longrightarrow> eats (RAlt a b) w"
  by (auto simp: eats_def)

lemma matches_RStar_iff:
  "t \<in> set (matches (RStar g r) s) \<longleftrightarrow> t = s \<or> (\<exists>u \<in> set (shorter s (matches r s)). t \<in> set (matches (RStar g r) u))"
  by (subst matches_RStar) (auto simp: Let_def)

lemma eats_star: "list_all (\<lambda>c. eats r [c]) w \<Longrightarrow> eats (RStar g r) w"
proof (induction w)
  case Nil
  show ?case unfolding eats_def
  proof (intro allI impI)
    fix s :: rstate and u
    assume "z_rest s = [] @ u"
    then show "\<exists>t \<in> set (matches (RStar g r) s). z_rest t = u" using matches_RStar_iff[of s g r s] by auto
  qed
next
  case (Cons c w)
  show ?case unfolding eats_def
  proof (intro allI impI)
    fix s :: rstate and u
    assume s: "z_rest s = (c # w) @ u"
    then obtain v where v: "v \<in> set (matches r s)" "z_rest v = w @ u" using Cons.prems by (auto simp: eats_def)
    then have "v \<in> set (shorter s (matches r s))" by (simp add: shorter_def s)
    moreover obtain t where "t \<in> set (matches (RStar g r) v)" "z_rest t = u" using Cons v(2) by (auto simp: eats_def)
    ultimately show "\<exists>t \<in> set (matches (RStar g r) s). z_rest t = u" using matches_RStar_iff[of t g r s] by blast
  qed
qed

lemma eats_plus: "w \<noteq> [] \<Longrightarrow> list_all (\<lambda>c. eats r [c]) w \<Longrightarrow> eats (plus r) w"
  using eats_seq[of r "[hd w]" "RStar True r" "tl w"] eats_star[of r "tl w" True] by (cases w) (auto simp: plus_def)

lemma eats_times: "list_all (\<lambda>c. eats r [c]) w \<Longrightarrow> length w = n \<Longrightarrow> eats (times n r) w"
proof (induction n arbitrary: w)
  case (Suc n)
  then show ?case using eats_seq[of r "[hd w]" "times n r" "tl w"] by (cases w) auto
qed (simp add: eats_eps)

lemma eats_upto: "list_all (\<lambda>c. eats r [c]) w \<Longrightarrow> length w \<le> n \<Longrightarrow> eats (upto_times n r) w"
proof (induction n arbitrary: w)
  case (Suc n)
  show ?case
  proof (cases w)
    case Nil
    then show ?thesis by (simp add: opt_def eats_right eats_eps)
  next
    case (Cons c v)
    then show ?thesis using Suc.IH[of v] Suc.prems eats_seq[of r "[c]" "upto_times n r" v] by (simp add: opt_def eats_left)
  qed
qed (simp add: eats_eps)

lemma eats_between: "list_all (\<lambda>c. eats r [c]) w \<Longrightarrow> a \<le> length w \<Longrightarrow> length w \<le> b \<Longrightarrow> eats (between a b r) w"
proof -
  assume w: "list_all (\<lambda>c. eats r [c]) w" "a \<le> length w" "length w \<le> b"
  then have "list_all (\<lambda>c. eats r [c]) (take a w @ drop a w)" by simp
  then have "list_all (\<lambda>c. eats r [c]) (take a w)" "list_all (\<lambda>c. eats r [c]) (drop a w)"
    unfolding list_all_append by blast+
  then have "eats (RSeq (times a r) (upto_times (b - a) r)) (take a w @ drop a w)"
    using w(2,3) by (intro eats_seq eats_times eats_upto) auto
  then show ?thesis by (simp add: between_def)
qed

text \<open>Patterns that match no empty text.\<close>

definition moves :: "re \<Rightarrow> bool" where
  "moves r = (\<forall>s. \<forall>t \<in> set (matches r s). length (z_rest t) < length (z_rest s))"

lemma moves_RSet: "moves (RSet P)"
  using char_len_pos by (fastforce simp: moves_def advance_def char_len_def Let_def split: if_splits list.splits)

lemma moves_RSeq: "moves a \<Longrightarrow> moves (RSeq a b)"
  unfolding moves_def matches_RSeq using matches_shape[of _ b] by fastforce

section \<open>Addresses and telephone numbers\<close>

definition contains :: "(string \<Rightarrow> bool) \<Rightarrow> string \<Rightarrow> bool" where
  "contains L s = (\<exists>a w b. s = a @ w @ b \<and> L w)"

definition local_char :: "char \<Rightarrow> bool" where
  "local_char c = (ident_char c \<or> c \<in> set ''.%+-'')"

definition domain_char :: "char \<Rightarrow> bool" where
  "domain_char c = (ident_char c \<and> c \<noteq> CHR ''_'' \<or> c \<in> set ''.-'')"

definition letter :: "char \<Rightarrow> bool" where
  "letter c = (ident_char c \<and> \<not> ascii_digit c \<and> c \<noteq> CHR ''_'')"

text \<open>A mail address, and a Korean mobile number with its optional separators.\<close>

definition mail_address :: "string \<Rightarrow> bool" where
  "mail_address w = (\<exists>l d t. w = l @ ''@'' @ d @ ''.'' @ t \<and> l \<noteq> [] \<and> d \<noteq> [] \<and> 2 \<le> length t
     \<and> list_all local_char l \<and> list_all domain_char d \<and> list_all letter t)"

definition separator :: "string \<Rightarrow> bool" where
  "separator x = (x \<in> {'''', ''-'', ''.'', '' ''})"

definition phone_number :: "string \<Rightarrow> bool" where
  "phone_number w = (\<exists>k x m y e. w = ''01'' @ [k] @ x @ m @ y @ e \<and> k \<in> set ''016789'' \<and> separator x \<and> separator y
     \<and> 3 \<le> length m \<and> length m \<le> 4 \<and> length e = 4 \<and> list_all ascii_digit m \<and> list_all ascii_digit e)"

lemma ident_char_ascii: "ident_char c \<Longrightarrow> ascii c"
  by (auto simp: ident_char_def ident_start_def ascii_digit_def ascii_def Let_def)

lemma local_char_ascii: "local_char c \<Longrightarrow> ascii c"
  using ident_char_ascii[of c] by (auto simp: local_char_def ascii_def)

lemma domain_char_ascii: "domain_char c \<Longrightarrow> ascii c"
  using ident_char_ascii[of c] by (auto simp: domain_char_def ascii_def)

lemma eats_lit1: "ascii c \<Longrightarrow> eats (lit [c]) [c]"
  by (auto simp: lit_def ascii_def char_len_def Let_def intro!: eats_set)

lemma eats_class: "list_all Q w \<Longrightarrow> (\<And>c. Q c \<Longrightarrow> ascii c \<and> P [c]) \<Longrightarrow> list_all (\<lambda>c. eats (RSet P) [c]) w"
  by (auto simp: list_all_iff intro!: eats_set)

lemma eats_mail: "mail_address w \<Longrightarrow> eats email_re w"
proof -
  assume "mail_address w"
  then obtain l d t where w: "w = l @ ''@'' @ d @ ''.'' @ t" "l \<noteq> []" "d \<noteq> []" "2 \<le> length t"
    "list_all local_char l" "list_all domain_char d" "list_all letter t" by (auto simp: mail_address_def)
  then obtain c v where t: "t = [c] @ v" "letter c" "list_all letter v" "v \<noteq> []" by (cases t; cases "tl t") auto
  have a: "ascii (CHR ''@'')" "ascii (CHR ''.'')" by (simp_all add: ascii_def)
  have e: "letter c \<Longrightarrow> ascii c" for c by (simp add: letter_def ident_char_ascii)
  show ?thesis unfolding w(1) t(1) email_re_def seq.simps Let_def
    by (intro eats_seq eats_lit1 a eats_plus w(2,3) t(4) eats_class[OF w(5)] eats_class[OF w(6)] eats_class[OF t(3)] eats_set)
      (use t(2) in \<open>auto simp: local_char_ascii domain_char_ascii e local_char_def domain_char_def letter_def\<close>)
qed

lemma eats_phone: "phone_number w \<Longrightarrow> eats (phone_re ud) w"
proof -
  assume "phone_number w"
  then obtain k x m y e where w: "w = ''0'' @ ''1'' @ [k] @ x @ m @ y @ e" "k \<in> set ''016789''" "separator x" "separator y"
    "3 \<le> length m" "length m \<le> 4" "length e = 4" "list_all ascii_digit m" "list_all ascii_digit e"
    by (auto simp: phone_number_def)
  have a: "ascii (CHR ''0'')" "ascii (CHR ''1'')" "ascii k" using w(2) by (auto simp: ascii_def)
  have d: "ascii_digit c \<Longrightarrow> ascii c \<and> is_digit ud [c]" for c by (simp add: ascii_digit_def ascii_def is_digit_def)
  have sp: "is_space '' ''" by code_simp
  have s: "eats (opt (RSet (\<lambda>x. x \<in> {''-'', ''.''} \<or> is_space x))) x" if "separator x" for x
    using that unfolding separator_def opt_def
    by (elim insertE emptyE) (auto simp: ascii_def sp intro!: eats_eps eats_set intro: eats_left[OF eats_set] eats_right)
  have l: "lit ''01'' = RSeq (RSet (\<lambda>x. x = ''0'')) (RSet (\<lambda>x. x = ''1''))" by (simp add: lit_def char_len_def Let_def)
  have l2: "eats (lit ''01'') (''0'' @ ''1'')" unfolding l by (intro eats_seq eats_set a) simp_all
  have k: "eats (one_of [''0'', ''1'', ''6'', ''7'', ''8'', ''9'']) [k]"
    unfolding one_of_def using w(2) a(3) by (intro eats_set) auto
  have "eats (phone_re ud) ((''0'' @ ''1'') @ [k] @ x @ m @ y @ e)"
    unfolding phone_re_def seq.simps Let_def digit_def
    by (intro eats_seq l2 k s w(3-7) eats_between eats_times eats_class[OF w(8) d] eats_class[OF w(9) d])
  then show ?thesis by (simp add: w(1))
qed

section \<open>What masking leaves\<close>

text \<open>Complete UTF-8 sequences.\<close>

definition lead_len :: "char \<Rightarrow> nat" where
  "lead_len c = (let n = (of_char c :: nat) in if n < 192 then 1 else if n < 224 then 2 else if n < 240 then 3 else 4)"

lemma lead_len_pos [simp]: "0 < lead_len c" "lead_len c \<noteq> 0"
  by (simp_all add: lead_len_def Let_def)

function utf8 :: "string \<Rightarrow> bool" where
  "utf8 [] = True"
| "utf8 (c # s) = (lead_len c \<le> Suc (length s) \<and> list_all (\<lambda>c. \<not> ascii c) (take (lead_len c - 1) s) \<and> utf8 (drop (lead_len c - 1) s))"
  by pat_completeness auto
termination by (relation "measure length") (auto simp: less_Suc_eq_le)

lemma char_len_lead: "char_len (c # s) = min (Suc (length s)) (lead_len c)"
  by (simp add: char_len_def lead_len_def Let_def)

lemma utf8_drop: "utf8 s \<Longrightarrow> utf8 (drop (char_len s) s)"
  by (cases s) (auto simp: char_len_lead min_def drop_Cons' split: if_splits)

lemma utf8_advance: "utf8 (z_rest s) \<Longrightarrow> t \<in> set (matches r s) \<Longrightarrow> utf8 (z_rest t)"
proof (induction r s arbitrary: t rule: matches.induct)
  case (2 P s)
  then show ?case using utf8_drop by (auto simp: Let_def advance_def split: if_splits)
next
  case (3 a b s)
  then show ?case unfolding matches_RSeq by (auto simp del: matches.simps)
next
  case (5 g r s)
  then show ?case unfolding matches_RStar_iff[of t g r s] by (auto simp: shorter_def)
qed auto

lemma utf8_append: "list_all ascii a \<Longrightarrow> utf8 (a @ s) = utf8 s"
  by (induction a) (auto simp: lead_len_def ascii_def Let_def)

lemma utf8_char: "utf8 s \<Longrightarrow> s \<noteq> [] \<Longrightarrow> utf8 x \<Longrightarrow> utf8 (take (char_len s) s @ x)"
proof (cases s)
  case (Cons c v)
  assume u: "utf8 s" "utf8 x"
  define w where "w = take (lead_len c - 1) v"
  have w: "length w = lead_len c - 1" "list_all (\<lambda>c. \<not> ascii c) w" using u(1) by (auto simp: Cons w_def)
  have "take (char_len s) s = c # w" using u(1) by (simp add: Cons char_len_lead w_def take_Cons')
  then show ?thesis using w u(2) lead_len_pos(1)[of c] by (simp del: lead_len_pos)
qed simp

lemma utf8_tail: "utf8 s \<Longrightarrow> 0 < k \<Longrightarrow> k < char_len s \<Longrightarrow> \<not> ascii (s ! k)"
proof (cases s)
  case (Cons c v)
  assume "utf8 s" "0 < k" "k < char_len s"
  then have "list_all (\<lambda>c. \<not> ascii c) (take (lead_len c - 1) v)" "k - 1 < length (take (lead_len c - 1) v)"
    "take (lead_len c - 1) v ! (k - 1) = s ! k"
    by (auto simp: Cons char_len_lead nth_Cons')
  then show ?thesis by (metis list_all_length)
qed (simp add: char_len_def)

lemma utf8_sub: "utf8 s \<Longrightarrow> list_all ascii new \<Longrightarrow> utf8 (sub_re r new before s)"
proof (induction r new before s rule: sub_re.induct)
  case (1 r new before s)
  show ?case
  proof (cases "s = [] \<or> (\<exists>t. match_at r before s = Some t \<and> length (z_rest t) < length s)")
    case True
    then show ?thesis
    proof
      assume "\<exists>t. match_at r before s = Some t \<and> length (z_rest t) < length s"
      then obtain t where t: "match_at r before s = Some t" "length (z_rest t) < length s" by blast
      then have "t \<in> set (matches r (start_at before s))" by (auto simp: match_at_def split: list.splits)
      then have "utf8 (z_rest t)" using utf8_advance[of "start_at before s" t r] 1(4) by (simp add: start_at_def)
      then show ?thesis using 1 t by (subst sub_re.simps) (auto simp: utf8_append)
    qed (simp add: sub_re.simps)
  next
    case False
    then show ?thesis using 1 utf8_char[of s] utf8_drop[of s]
      by (subst sub_re.simps) (auto split: option.splits)
  qed
qed

text \<open>What follows a replaced text agrees with the original up to the next star.\<close>

lemma sub_agrees:
  assumes "hd new = CHR ''*''" "new \<noteq> []"
  shows "\<exists>p x y. sub_re r new before s = p @ x \<and> s = p @ y \<and> (x = [] \<or> hd x = CHR ''*'')"
  using assms
proof (induction r new before s rule: sub_re.induct)
  case (1 r new before s)
  show ?case
  proof (cases "s = [] \<or> (\<exists>t. match_at r before s = Some t \<and> length (z_rest t) < length s)")
    case True
    then have "sub_re r new before s = [] \<or> (\<exists>z. sub_re r new before s = new @ z)" by (subst (1 2) sub_re.simps) auto
    then have "sub_re r new before s = [] \<or> hd (sub_re r new before s) = CHR ''*''" using 1(4,5) by auto
    then show ?thesis by (intro exI[of _ "[]"] exI[of _ "sub_re r new before s"] exI[of _ s]) simp
  next
    case False
    define k where "k = char_len s"
    have "sub_re r new before s = take k s @ sub_re r new (before @ take k s) (drop k s)"
      using False by (subst sub_re.simps) (auto simp: k_def split: option.splits)
    moreover obtain p x y where "sub_re r new (before @ take k s) (drop k s) = p @ x" "drop k s = p @ y" "x = [] \<or> hd x = CHR ''*''"
      using 1 False unfolding k_def by (cases "match_at r before s") blast+
    moreover have "s = take k s @ drop k s" by simp
    ultimately show ?thesis by (metis append.assoc)
  qed
qed

lemma starless_prefix:
  assumes "w @ u = p @ x" "x = [] \<or> hd x = CHR ''*''" "CHR ''*'' \<notin> set w"
  shows "\<exists>v. p = w @ v"
proof -
  obtain v where "w = p @ v \<and> v @ u = x \<or> w @ v = p \<and> u = v @ x" using assms(1) by (auto simp: append_eq_append_conv2)
  then show ?thesis using assms(2,3) by (cases v) auto
qed

text \<open>Texts of L hold no star, and each character of the replacement that could begin one is followed by a star.\<close>

definition apart :: "(string \<Rightarrow> bool) \<Rightarrow> string \<Rightarrow> bool" where
  "apart L new = (new \<noteq> [] \<and> hd new = CHR ''*'' \<and>
     (\<forall>w. L w \<longrightarrow> 2 \<le> length w \<and> ascii (hd w) \<and> CHR ''*'' \<notin> set w \<and>
        (\<forall>k < length new. hd w = new ! k \<longrightarrow> Suc k < length new \<and> new ! Suc k = CHR ''*'')))"

lemma contains_new: "apart L new \<Longrightarrow> contains L (new @ x) \<Longrightarrow> contains L x"
proof -
  assume p: "apart L new" and "contains L (new @ x)"
  then obtain a w b where w: "new @ x = a @ w @ b" "L w" by (auto simp: contains_def)
  have l: "2 \<le> length w" "CHR ''*'' \<notin> set w"
    "\<And>k. k < length new \<Longrightarrow> hd w = new ! k \<Longrightarrow> Suc k < length new \<and> new ! Suc k = CHR ''*''"
    using p w(2) by (auto simp: apart_def)
  have at: "new ! (length a + i) = w ! i" if "length a + i < length new" "i < 2" for i
    using arg_cong[OF w(1), of "\<lambda>x. x ! (length a + i)"] that l(1) by (simp add: nth_append)
  have "length new \<le> length a"
  proof (rule ccontr)
    assume c: "\<not> length new \<le> length a"
    moreover have "hd w = w ! 0" using l(1) by (cases w) auto
    ultimately have "Suc (length a) < length new \<and> new ! Suc (length a) = CHR ''*''" using at[of 0] l(3)[of "length a"] by simp
    then have "w ! 1 = CHR ''*''" using at[of 1] by simp
    then show False using l(1,2) nth_mem[of 1 w] by auto
  qed
  then have "x = drop (length new) a @ w @ b" using arg_cong[OF w(1), of "drop (length new)"] by simp
  then show "contains L x" using w(2) by (auto simp: contains_def)
qed

lemma contains_char:
  assumes "apart L new" "utf8 s" "contains L (take (char_len s) s @ x)"
  shows "contains L x \<or> (\<exists>w b. L w \<and> take (char_len s) s @ x = w @ b)"
proof -
  obtain a w b where w: "take (char_len s) s @ x = a @ w @ b" "L w" using assms(3) by (auto simp: contains_def)
  have l: "w \<noteq> []" "ascii (hd w)" using assms(1) w(2) by (auto simp: apart_def)
  have k: "char_len s \<le> length s" by (rule char_len_le)
  consider "a = []" | "a \<noteq> []" "length a < char_len s" | "char_len s \<le> length a" by linarith
  then show ?thesis
  proof cases
    case 2
    then have "s ! length a = hd w"
      using arg_cong[OF w(1), of "\<lambda>x. x ! length a"] k l(1) by (simp add: nth_append hd_conv_nth)
    then show ?thesis using utf8_tail[OF assms(2), of "length a"] 2 l(2) by simp
  next
    case 3
    then have "x = drop (char_len s) a @ w @ b" using arg_cong[OF w(1), of "drop (char_len s)"] k by simp
    then show ?thesis using w(2) by (auto simp: contains_def)
  qed (use w in auto)
qed

text \<open>Such a replacement leaves texts of L only where the pattern failed on one.\<close>

lemma sub_clean:
  assumes "apart L new" "utf8 s"
    "\<And>a w u before. s0 = a @ w @ u \<Longrightarrow> L w \<Longrightarrow>
       \<exists>t. match_at r before (w @ u) = Some t \<and> length (z_rest t) < length (w @ u)"
    "\<exists>a. s0 = a @ s"
  shows "\<not> contains L (sub_re r new before s)"
  using assms(2,4)
proof (induction "length s" arbitrary: before s rule: less_induct)
  case less
  have n: "hd new = CHR ''*''" "new \<noteq> []" using assms(1) by (simp_all add: apart_def)
  show ?case
  proof (cases "s = [] \<or> (\<exists>t. match_at r before s = Some t \<and> length (z_rest t) < length s)")
    case True
    then show ?thesis
    proof
      assume "s = []"
      then show ?thesis using assms(1) by (auto simp: contains_def sub_re.simps apart_def)
    next
      assume "\<exists>t. match_at r before s = Some t \<and> length (z_rest t) < length s"
      then obtain t where t: "match_at r before s = Some t" "length (z_rest t) < length s" by blast
      have m: "t \<in> set (matches r (start_at before s))" using t(1) by (auto simp: match_at_def split: list.splits)
      then have u: "utf8 (z_rest t)" using utf8_advance[of "start_at before s" t r] less(2) by (simp add: start_at_def)
      obtain v where "s = v @ z_rest t" using matches_shape[OF m] by (auto simp: start_at_def)
      then have "\<exists>a. s0 = a @ z_rest t" using less(3) by (metis append.assoc)
      then have "\<not> contains L (sub_re r new (z_before t) (z_rest t))" by (rule less(1)[OF t(2) u])
      moreover have "sub_re r new before s = new @ sub_re r new (z_before t) (z_rest t)" using t by (subst sub_re.simps) auto
      ultimately show ?thesis using contains_new[OF assms(1)] by auto
    qed
  next
    case False
    let ?x = "sub_re r new (before @ take (char_len s) s) (drop (char_len s) s)"
    have e: "sub_re r new before s = take (char_len s) s @ ?x" using False by (subst sub_re.simps) (auto split: option.splits)
    have "\<exists>a. s0 = a @ drop (char_len s) s" using less(3) by (metis append.assoc append_take_drop_id)
    moreover have "length (drop (char_len s) s) < length s" using False char_len_pos[of s] by (cases s) auto
    ultimately have ih: "\<not> contains L ?x" using less(1) utf8_drop[OF less(2)] by blast
    show ?thesis
    proof
      assume "contains L (sub_re r new before s)"
      then obtain w b where w: "L w" "sub_re r new before s = w @ b"
        using contains_char[OF assms(1) less(2)] ih e by metis
      obtain p x y where p: "sub_re r new before s = p @ x" "s = p @ y" "x = [] \<or> hd x = CHR ''*''"
        using sub_agrees[OF n] by blast
      then obtain v where "p = w @ v" using starless_prefix[of w b p x] w assms(1) by (auto simp: apart_def)
      then have s: "s = w @ v @ y" using p(2) by simp
      then obtain a where "s0 = a @ w @ v @ y" using less(3) by auto
      then show False using assms(3)[of a w "v @ y" before] w(1) s False by auto
    qed
  qed
qed

lemma eats_match_at:
  assumes "moves r" "eats r w"
  shows "\<exists>t. match_at r before (w @ u) = Some t \<and> length (z_rest t) < length (w @ u)"
proof -
  let ?s = "start_at before (w @ u)"
  obtain t where "t \<in> set (matches r ?s)" using assms(2) unfolding eats_def by (metis start_at_def rstate.select_convs(2))
  then obtain t ts where m: "matches r ?s = t # ts" by (cases "matches r ?s") auto
  then have "length (z_rest t) < length (z_rest ?s)" using assms(1) unfolding moves_def by (metis list.set_intros(1))
  then have "length (z_rest t) < length (w @ u)" by (simp add: start_at_def)
  moreover have "match_at r before (w @ u) = Some t" unfolding match_at_def m by simp
  ultimately show ?thesis by blast
qed

lemma mail_address_chars:
  assumes "mail_address w"
  shows "2 \<le> length w" "local_char (hd w)" "CHR ''*'' \<notin> set w"
proof -
  obtain l d t where w: "w = l @ ''@'' @ d @ ''.'' @ t" "l \<noteq> []"
    "list_all local_char l" "list_all domain_char d" "list_all letter t" using assms by (auto simp: mail_address_def)
  have c: "\<not> ident_char (CHR ''*'')" by code_simp
  then have n: "\<not> local_char (CHR ''*'')" "\<not> domain_char (CHR ''*'')" "\<not> letter (CHR ''*'')"
    by (auto simp: local_char_def domain_char_def letter_def)
  show "2 \<le> length w" "local_char (hd w)" using w(1-3) by (cases l; simp)+
  show "CHR ''*'' \<notin> set w" using w n by (auto simp: list_all_iff)
qed

lemma apart_intro:
  assumes "new \<noteq> []" "hd new = CHR ''*''" "\<And>w. L w \<Longrightarrow> 2 \<le> length w \<and> H (hd w) \<and> CHR ''*'' \<notin> set w" "\<And>c. H c \<Longrightarrow> ascii c"
    "list_all (\<lambda>k. \<not> H (new ! k) \<or> (Suc k < length new \<and> new ! Suc k = CHR ''*'')) [0..<length new]"
  shows "apart L new"
  using assms by (fastforce simp: apart_def list_all_iff)

lemma mail_apart: "apart mail_address ''***@***''" "apart mail_address ''***-****-****''"
proof -
  have c: "\<not> ident_char (CHR ''*'')" "\<not> ident_char (CHR ''@'')" by code_simp+
  then have n: "\<not> local_char (CHR ''*'')" "\<not> local_char (CHR ''@'')" by (auto simp: local_char_def)
  show "apart mail_address ''***@***''" "apart mail_address ''***-****-****''"
    by (rule apart_intro[where H = local_char];
        simp add: mail_address_chars local_char_ascii n upt_rec)+
qed

lemma phone_apart: "apart phone_number ''***-****-****''"
proof (rule apart_intro[where H = "\<lambda>c. c = CHR ''0''"])
  fix w
  assume "phone_number w"
  then obtain k x m y e where w: "w = ''01'' @ [k] @ x @ m @ y @ e" "k \<in> set ''016789''" "separator x" "separator y"
    "list_all ascii_digit m" "list_all ascii_digit e" by (auto simp: phone_number_def)
  have c: "\<not> ascii_digit (CHR ''*'')" by code_simp
  then show "2 \<le> length w \<and> hd w = CHR ''0'' \<and> CHR ''*'' \<notin> set w" using w by (auto simp: list_all_iff separator_def)
qed (simp_all add: ascii_def upt_rec)

text \<open>The masked text of complete UTF-8 holds no mail address and no mobile number.\<close>

definition personal :: "string \<Rightarrow> bool" where
  "personal w = (mail_address w \<or> phone_number w)"

lemma mask_moves: "moves email_re" "moves (phone_re ud)"
  by (simp_all add: email_re_def phone_re_def plus_def lit_def char_len_def Let_def moves_RSet moves_RSeq del: matches.simps)

lemma mask_clean:
  assumes "utf8 s"
  shows "\<not> contains personal (mask_pii ud s)" "utf8 (mask_pii ud s)"
proof -
  let ?m = "re_sub email_re ''***@***'' s"
  have a: "list_all ascii ''***@***''" "list_all ascii ''***-****-****''" by (simp_all add: ascii_def)
  have u: "utf8 ?m" unfolding re_sub_def by (rule utf8_sub[OF assms a(1)])
  show "utf8 (mask_pii ud s)" unfolding mask_pii_def re_sub_def[of "phone_re ud"] by (rule utf8_sub[OF u a(2)])
  have m: "\<not> contains mail_address ?m"
    unfolding re_sub_def by (rule sub_clean[OF mail_apart(1) assms eats_match_at[OF mask_moves(1) eats_mail], where ?s0.0 = s]) simp_all
  have "\<not> contains phone_number (mask_pii ud s)"
    unfolding mask_pii_def re_sub_def[of "phone_re ud"]
    by (rule sub_clean[OF phone_apart u eats_match_at[OF mask_moves(2) eats_phone], where ?s0.0 = ?m]) simp_all
  moreover have "\<not> contains mail_address (mask_pii ud s)"
    unfolding mask_pii_def re_sub_def[of "phone_re ud"]
    by (rule sub_clean[OF mail_apart(2) u, where ?s0.0 = ?m]) (use m in \<open>auto simp: contains_def\<close>)
  ultimately show "\<not> contains personal (mask_pii ud s)" unfolding contains_def personal_def by blast
qed

section \<open>Records and filters\<close>

text \<open>A LogRecord: \<open>lr_message\<close> is what getMessage gives, None when the arguments do not fit the
  message; the class name and formatted trace of the exception; \<open>lr_dict\<close> are the entries of its
  \<open>__dict__\<close>, as far as the formatter copies or skips them.\<close>

record log_record =
  lr_message :: "string option"
  lr_level :: string
  lr_logger :: string
  lr_ts :: string
  lr_asctime :: string
  lr_exc :: "(string option \<times> string) option"
  lr_stack :: "string option"
  lr_request_id :: "string option"
  lr_user_email :: "string option"
  lr_dict :: "(string \<times> json) list"

definition context_filter :: "req_context \<Rightarrow> log_record \<Rightarrow> log_record" where
  "context_filter cx r = r\<lparr>lr_request_id := Some (cx_request_id cx), lr_user_email := Some (cx_email cx)\<rparr>"

definition pii_filter :: "(string \<Rightarrow> nat) \<Rightarrow> log_record \<Rightarrow> log_record" where
  "pii_filter ud r =
     (case lr_message r of
        None \<Rightarrow> r
      | Some msg \<Rightarrow>
          (let masked = mask_pii ud msg;
               r1 = (if masked \<noteq> msg then r\<lparr>lr_message := Some masked\<rparr> else r)
           in (case or_none (lr_user_email r1) of
                 None \<Rightarrow> r1
               | Some ue \<Rightarrow> if ue \<noteq> ''-'' then r1\<lparr>lr_user_email := Some (mask_email_partial ue)\<rparr> else r1)))"

section \<open>Formats\<close>

definition RESERVED_ATTRS :: "string list" where
  "RESERVED_ATTRS =
     [''args'', ''asctime'', ''created'', ''exc_info'', ''exc_text'', ''filename'',
      ''funcName'', ''levelname'', ''levelno'', ''lineno'', ''module'', ''msecs'',
      ''message'', ''msg'', ''name'', ''pathname'', ''process'', ''processName'',
      ''relativeCreated'', ''stack_info'', ''thread'', ''threadName'',
      ''request_id'', ''user_email'', ''taskName'']"

definition add_extra :: "(string \<times> json) list \<Rightarrow> string \<times> json \<Rightarrow> (string \<times> json) list" where
  "add_extra p kv =
     (if fst kv \<in> set RESERVED_ATTRS \<or> starts_with ''_'' (fst kv) \<or> fst kv \<in> fst ` set p then p else p @ [kv])"

definition own_fields :: "string \<Rightarrow> log_record \<Rightarrow> (string \<times> json) list" where
  "own_fields msg r =
     [(''ts'', JStr (lr_ts r)), (''level'', JStr (lr_level r)), (''logger'', JStr (lr_logger r)), (''msg'', JStr msg),
      (''request_id'', JStr (coalesce (lr_request_id r) ''-'')), (''user_email'', JStr (coalesce (lr_user_email r) ''-''))]
     @ (case lr_exc r of None \<Rightarrow> []
        | Some (cls, trace) \<Rightarrow> [(''exc_type'', JStr (coalesce cls ''Exception'')), (''exc'', JStr trace)])
     @ (case or_none (lr_stack r) of None \<Rightarrow> [] | Some st \<Rightarrow> [(''stack'', JStr st)])"

definition json_payload :: "log_record \<Rightarrow> (string \<times> json) list option" where
  "json_payload r = map_option (\<lambda>msg. foldl add_extra (own_fields msg r) (lr_dict r)) (lr_message r)"

text \<open>The formatter of the library for the text format: the line, then the trace and the stack on lines of
  their own; an attribute that is missing raises.\<close>

definition on_new_line :: "string \<Rightarrow> string \<Rightarrow> string" where
  "on_new_line s x = (if s \<noteq> [] \<and> last s = CHR 0x0A then s @ x else s @ [CHR 0x0A] @ x)"

definition text_line :: "log_record \<Rightarrow> string option" where
  "text_line r =
     (case (lr_message r, lr_request_id r, lr_user_email r) of
        (Some msg, Some rid, Some ue) \<Rightarrow>
          (let s = lr_asctime r @ '' ['' @ lr_level r @ ''] '' @ lr_logger r @ '' req='' @ rid @ '' user='' @ ue @ '': '' @ msg;
               s1 = (case lr_exc r of None \<Rightarrow> s | Some (cls, trace) \<Rightarrow> if trace = '''' then s else on_new_line s trace)
           in Some (case or_none (lr_stack r) of None \<Rightarrow> s1 | Some st \<Rightarrow> on_new_line s1 st))
      | _ \<Rightarrow> None)"

section \<open>The root logger\<close>

datatype log_format = JsonFormat | TextFormat | OtherFormat
datatype log_filter = ContextFilter | PiiMaskingFilter

record log_handler =
  lh_format :: log_format
  lh_filters :: "log_filter list"

record root_logger =
  ro_level :: nat
  ro_handlers :: "log_handler list"
  ro_levels :: "(string \<times> nat) list"

fun run_filter :: "(string \<Rightarrow> nat) \<Rightarrow> req_context \<Rightarrow> log_filter \<Rightarrow> log_record \<Rightarrow> log_record" where
  "run_filter ud cx ContextFilter r = context_filter cx r"
| "run_filter ud cx PiiMaskingFilter r = pii_filter ud r"

text \<open>install_request_context_logging.\<close>

definition install_request_context_logging :: "root_logger \<Rightarrow> root_logger" where
  "install_request_context_logging rl =
     rl\<lparr>ro_handlers := map (\<lambda>h. if ContextFilter \<in> set (lh_filters h) then h
                                 else h\<lparr>lh_filters := lh_filters h @ [ContextFilter]\<rparr>) (ro_handlers rl)\<rparr>"

text \<open>getattr(logging, name, INFO): the constants of the module; \<open>BASIC_FORMAT\<close> is none of the levels
  and makes setLevel raise.\<close>

definition LEVELS :: "(string \<times> nat) list" where
  "LEVELS = [(''CRITICAL'', 50), (''FATAL'', 50), (''ERROR'', 40), (''WARNING'', 30), (''WARN'', 30), (''INFO'', 20),
             (''DEBUG'', 10), (''NOTSET'', 0)]"

datatype log_error = UnknownLevel

definition upper :: "string \<Rightarrow> string" where
  "upper = map (\<lambda>c. if 97 \<le> (of_char c :: nat) \<and> (of_char c :: nat) \<le> 122 then char_of ((of_char c :: nat) - 32) else c)"

definition level_attr :: "string \<Rightarrow> nat option" where
  "level_attr name = (if name \<in> {''BASIC_FORMAT'', ''_STYLES''} then None else Some (coalesce (map_of LEVELS name) 20))"

definition setup_logging :: "settings \<Rightarrow> root_logger \<Rightarrow> log_error + root_logger" where
  "setup_logging cfg rl =
     (let level_name = upper (if S_LOG_LEVEL cfg = '''' then ''INFO'' else S_LOG_LEVEL cfg)
      in (case level_attr level_name of
            None \<Rightarrow> Inl UnknownLevel
          | Some level \<Rightarrow>
              (let fmt = (if lower (if S_LOG_FORMAT cfg = '''' then ''text'' else S_LOG_FORMAT cfg) = ''json'' then JsonFormat else TextFormat);
                   handler = \<lparr>lh_format = fmt, lh_filters = [ContextFilter, PiiMaskingFilter]\<rparr>;
                   root1 = install_request_context_logging (rl\<lparr>ro_level := level, ro_handlers := [handler]\<rparr>)
               in Inr (root1\<lparr>ro_levels := (''neo4j.notifications'', 40) # (''httpx'', 30) #
                     filter (\<lambda>(n, l). n \<noteq> ''neo4j.notifications'' \<and> n \<noteq> ''httpx'') (ro_levels root1)\<rparr>))))"

text \<open>What a handler writes of a record: nothing when the formatter raises (the library reports it
  on stderr and goes on). \<open>dumps\<close> is json.dumps with \<open>default=str\<close>.\<close>

definition handled :: "(string \<Rightarrow> nat) \<Rightarrow> req_context \<Rightarrow> log_handler \<Rightarrow> log_record \<Rightarrow> log_record" where
  "handled ud cx h r = foldl (\<lambda>x f. run_filter ud cx f x) r (lh_filters h)"

definition emit :: "(json \<Rightarrow> string) \<Rightarrow> (string \<Rightarrow> nat) \<Rightarrow> req_context \<Rightarrow> log_handler \<Rightarrow> log_record \<Rightarrow> string option" where
  "emit dumps ud cx h r =
     (case lh_format h of
        JsonFormat \<Rightarrow> map_option (\<lambda>p. dumps (JObj p)) (json_payload (handled ud cx h r))
      | _ \<Rightarrow> text_line (handled ud cx h r))"

section \<open>Sentry\<close>

record sentry_lib =
  sl_installed :: bool
  sl_init_ok :: bool

record sentry_init =
  si_dsn :: string
  si_environment :: string
  si_release :: "string option"
  si_sample_rate :: rat
  si_send_pii :: bool
  si_component :: string

definition init_sentry :: "sentry_lib \<Rightarrow> settings \<Rightarrow> string \<Rightarrow> bool \<times> sentry_init option" where
  "init_sentry lib cfg component =
     (if \<not> sentry_enabled cfg \<or> \<not> sl_installed lib then (False, None)
      else if \<not> sl_init_ok lib then (False, None)
      else (True, Some \<lparr>si_dsn = coalesce (S_SENTRY_DSN cfg) '''', si_environment = sentry_environment cfg,
              si_release = S_SENTRY_RELEASE cfg, si_sample_rate = S_SENTRY_TRACES_SAMPLE_RATE cfg,
              si_send_pii = False, si_component = component\<rparr>))"

text \<open>The event sent for an exception, with its tags.\<close>

definition capture_exception :: "sentry_lib \<Rightarrow> settings \<Rightarrow> 'e \<Rightarrow> (string \<times> string) list \<Rightarrow> ('e \<times> (string \<times> string) list) option" where
  "capture_exception lib cfg e tags = (if \<not> sl_installed lib \<or> \<not> sentry_enabled cfg then None else Some (e, tags))"

section \<open>What the log shows\<close>

lemma map_of_snoc: "map_of (p @ [x]) k = (if k \<in> fst ` set p then map_of p k else if k = fst x then Some (snd x) else None)"
  by (induction p) auto

lemma add_extra_keeps: "k \<in> fst ` set p \<Longrightarrow> map_of (foldl add_extra p d) k = map_of p k"
proof (induction d arbitrary: p)
  case (Cons x d)
  have "k \<in> fst ` set (add_extra p x)" using Cons.prems by (simp add: add_extra_def)
  moreover have "map_of (add_extra p x) k = map_of p k"
    using Cons.prems unfolding add_extra_def by (simp add: map_of_snoc del: map_of_append)
  ultimately show ?case using Cons.IH by simp
qed simp

lemma add_extra_new:
  "k \<notin> set RESERVED_ATTRS \<Longrightarrow> \<not> starts_with ''_'' k \<Longrightarrow> k \<notin> fst ` set p \<Longrightarrow> map_of d k = Some v \<Longrightarrow>
    map_of (foldl add_extra p d) k = Some v"
proof (induction d arbitrary: p)
  case (Cons x d)
  show ?case
  proof (cases "fst x = k")
    case True
    then have x: "add_extra p x = p @ [(k, v)]" using Cons.prems by (cases x) (simp add: add_extra_def)
    have "map_of (foldl add_extra (p @ [(k, v)]) d) k = map_of (p @ [(k, v)]) k" by (rule add_extra_keeps) simp
    then show ?thesis using Cons.prems(3) by (simp add: x map_of_snoc del: map_of_append)
  next
    case False
    then have "k \<notin> fst ` set (add_extra p x)" "map_of d k = Some v" using Cons.prems(3,4) by (simp_all add: add_extra_def)
    then show ?thesis using Cons.IH Cons.prems(1,2) by simp
  qed
qed simp

lemma setup_facts:
  assumes "setup_logging cfg rl = Inr rl'"
  shows "ro_handlers rl' = [\<lparr>lh_format = (if lower (if S_LOG_FORMAT cfg = '''' then ''text'' else S_LOG_FORMAT cfg) = ''json''
      then JsonFormat else TextFormat), lh_filters = [ContextFilter, PiiMaskingFilter]\<rparr>]"
    "setup_logging cfg rl' = Inr rl'"
proof -
  define f where "f = (if lower (if S_LOG_FORMAT cfg = '''' then ''text'' else S_LOG_FORMAT cfg) = ''json'' then JsonFormat else TextFormat)"
  obtain n where n: "level_attr (upper (if S_LOG_LEVEL cfg = '''' then ''INFO'' else S_LOG_LEVEL cfg)) = Some n"
    using assms unfolding setup_logging_def by (fastforce split: option.splits)
  have s: "setup_logging cfg rl = Inr (rl\<lparr>ro_level := n, ro_handlers := [\<lparr>lh_format = f, lh_filters = [ContextFilter, PiiMaskingFilter]\<rparr>],
      ro_levels := (''neo4j.notifications'', 40) # (''httpx'', 30) #
        filter (\<lambda>(n, l). n \<noteq> ''neo4j.notifications'' \<and> n \<noteq> ''httpx'') (ro_levels rl)\<rparr>)" for rl
    unfolding setup_logging_def n Let_def by (simp add: f_def install_request_context_logging_def)
  then show "ro_handlers rl' = [\<lparr>lh_format = (if lower (if S_LOG_FORMAT cfg = '''' then ''text'' else S_LOG_FORMAT cfg) = ''json''
      then JsonFormat else TextFormat), lh_filters = [ContextFilter, PiiMaskingFilter]\<rparr>]"
    using assms unfolding f_def[symmetric] by auto
  show "setup_logging cfg rl' = Inr rl'" using assms s by auto
qed

lemma handled_facts:
  assumes "lr_message r = Some msg" "lh_filters h = [ContextFilter, PiiMaskingFilter]"
  shows "lr_message (handled ud cx h r) = Some (mask_pii ud msg)"
    "lr_request_id (handled ud cx h r) = Some (cx_request_id cx)"
    "lr_user_email (handled ud cx h r) =
       Some (if cx_email cx \<in> {'''', ''-''} then cx_email cx else mask_email_partial (cx_email cx))"
    "lr_exc (handled ud cx h r) = lr_exc r" "lr_stack (handled ud cx h r) = lr_stack r" "lr_dict (handled ud cx h r) = lr_dict r"
  using assms by (auto simp: handled_def context_filter_def pii_filter_def Let_def or_none_def split: option.splits)


definition sample_record :: log_record where
  "sample_record =
     \<lparr>lr_message = Some ''login a@b.kr'', lr_level = ''INFO'', lr_logger = ''app'', lr_ts = ''t'', lr_asctime = ''t'',
      lr_exc = Some (Some ''KeyError'', ''KeyError: a@b.kr''), lr_stack = None, lr_request_id = None, lr_user_email = None,
      lr_dict = [(''msg'', JStr ''login a@b.kr''), (''to'', JStr ''a@b.kr'')]\<rparr>"


end
