(* ===== verification/Scorer.thy ===== *)
theory Scorer
  imports Complex_Main Regex
begin

text \<open>
  The grader of generated graphs, src/evals/scorer.py: four tiers over the JSON of a graph, and
  their weighted sum. A function that raises, because a part of the graph is not of the shape it
  reads, gives None. Scores are rational numbers, without the rounding of floats. str() and int()
  of values that are no text and no integer, the case functions of str and the value of a float
  are parameters.
\<close>

section \<open>Reading a graph\<close>

record score_env =
  se_str :: "json \<Rightarrow> string"
  se_upper :: "string \<Rightarrow> string"
  se_lower :: "string \<Rightarrow> string"
  se_int :: "json \<Rightarrow> int option"
  se_float :: "string \<Rightarrow> int option"

text \<open>\<open>x.get(k)\<close> of a dict, None when x has no get; \<open>x or d\<close>; iteration; len().\<close>

definition attr :: "json \<Rightarrow> string \<Rightarrow> json option" where
  "attr j k = (case j of JObj kv \<Rightarrow> Some (case map_of kv k of Some v \<Rightarrow> v | None \<Rightarrow> JNull) | _ \<Rightarrow> None)"

definition value_or :: "json \<Rightarrow> json \<Rightarrow> json" where
  "value_or j d = (if json_true j then j else d)"

definition items :: "json \<Rightarrow> json list option" where
  "items j =
     (case j of JList xs \<Rightarrow> Some xs | JStr s \<Rightarrow> Some (map JStr (chars (length s) s)) | JObj kv \<Rightarrow> Some (map (\<lambda>(k, v). JStr k) kv)
      | _ \<Rightarrow> None)"

definition count_items :: "json \<Rightarrow> nat option" where
  "count_items j = (case j of JList xs \<Rightarrow> Some (length xs) | JStr s \<Rightarrow> Some (ulen s) | JObj kv \<Rightarrow> Some (length kv) | _ \<Rightarrow> None)"

definition attr_items :: "json \<Rightarrow> string \<Rightarrow> json list option" where
  "attr_items j k = do { v \<leftarrow> attr j k; items (value_or v (JList [])) }"

definition attr_dict :: "json \<Rightarrow> string \<Rightarrow> json option" where
  "attr_dict j k = do { v \<leftarrow> attr j k; Some (value_or v (JObj [])) }"

definition all_of :: "('a \<Rightarrow> 'b option) \<Rightarrow> 'a list \<Rightarrow> 'b list option" where
  "all_of f xs = those (map f xs)"

definition yes :: "bool list \<Rightarrow> nat" where
  "yes bs = length (filter (\<lambda>b. b) bs)"

definition to_text :: "score_env \<Rightarrow> json \<Rightarrow> string" where
  "to_text v j = (case j of JStr s \<Rightarrow> s | _ \<Rightarrow> se_str v j)"

definition to_int :: "score_env \<Rightarrow> json \<Rightarrow> int option" where
  "to_int v j = (case j of JInt i \<Rightarrow> Some i | JBool b \<Rightarrow> Some (if b then 1 else 0) | JNull \<Rightarrow> None | JList xs \<Rightarrow> None | JObj kv \<Rightarrow> None
     | _ \<Rightarrow> se_int v j)"

text \<open>An element of a set: lists and dicts cannot be hashed, equal numbers are one element.\<close>

definition element :: "score_env \<Rightarrow> json \<Rightarrow> json option" where
  "element v j =
     (case j of JList xs \<Rightarrow> None | JObj kv \<Rightarrow> None | JBool b \<Rightarrow> Some (JInt (if b then 1 else 0))
      | JFloat t \<Rightarrow> Some (case se_float v t of Some i \<Rightarrow> JInt i | None \<Rightarrow> JFloat t) | _ \<Rightarrow> Some j)"

section \<open>Scores\<close>

type_synonym metric_list = "(string \<times> rat) list"

record tier_score =
  ts_score :: rat
  ts_weight :: rat
  ts_sub :: metric_list
  ts_notes :: "string list"

definition TIER1_WEIGHT :: rat where "TIER1_WEIGHT = 10 / 100"
definition TIER2_WEIGHT :: rat where "TIER2_WEIGHT = 40 / 100"
definition TIER3_WEIGHT :: rat where "TIER3_WEIGHT = 25 / 100"
definition TIER4_WEIGHT :: rat where "TIER4_WEIGHT = 25 / 100"

definition safe_ratio :: "rat \<Rightarrow> nat \<Rightarrow> rat option" where
  "safe_ratio numerator denominator = (if denominator = 0 then None else Some (numerator / of_nat denominator))"

definition average_present :: "rat option list \<Rightarrow> rat \<times> nat" where
  "average_present values =
     (let present = concat (map (\<lambda>v. case v of None \<Rightarrow> [] | Some x \<Rightarrow> [x]) values)
      in if present = [] then (1, 0) else (sum_list present / of_nat (length present), length present))"

text \<open>A ratio that is not applicable leaves no metric.\<close>

definition ratio_metric :: "string \<Rightarrow> rat \<Rightarrow> nat \<Rightarrow> metric_list" where
  "ratio_metric name n d = (case safe_ratio n d of None \<Rightarrow> [] | Some r \<Rightarrow> [(name, r)])"

section \<open>Tier 1: structure\<close>

definition present_metric :: "string \<Rightarrow> json \<Rightarrow> string \<Rightarrow> (string \<times> rat) option" where
  "present_metric name j k = do { v \<leftarrow> attr j k; Some (name, if json_true v then 1 else 0) }"

definition score_tier1_structure :: "json \<Rightarrow> json option \<Rightarrow> json option \<Rightarrow> tier_score option" where
  "score_tier1_structure spack ddd arch =
     do { ms \<leftarrow> all_of (\<lambda>(n, j, k). present_metric n j k)
            ([(''spack_apis_present'', spack, ''apis''), (''spack_entities_present'', spack, ''entities''),
              (''spack_policies_present'', spack, ''policies'')]
             @ (case ddd of None \<Rightarrow> []
                | Some d \<Rightarrow> [(''ddd_contexts_present'', d, ''contexts''), (''ddd_aggregates_present'', d, ''aggregates'')])
             @ (case arch of None \<Rightarrow> []
                | Some a \<Rightarrow> [(''arch_services_present'', a, ''services''), (''arch_databases_present'', a, ''databases'')]));
          Some \<lparr>ts_score = (if ms = [] then 1 else sum_list (map snd ms) / of_nat (length ms)),
                ts_weight = TIER1_WEIGHT, ts_sub = ms, ts_notes = []\<rparr> }"

section \<open>Tier 2: detail\<close>

definition BODY_METHODS :: "string list" where
  "BODY_METHODS = [''POST'', ''PUT'', ''PATCH'']"

definition AI_DRAFT_WEIGHT :: rat where "AI_DRAFT_WEIGHT = 1"

definition item_review_weight :: "json \<Rightarrow> rat" where
  "item_review_weight item =
     (case item of
        JObj kv \<Rightarrow>
          (if map_of kv ''source'' \<noteq> Some (JStr ''ai_draft'') then 1
           else if map_of kv ''reviewed'' = Some (JBool True) then 1 else AI_DRAFT_WEIGHT)
      | _ \<Rightarrow> 1)"

definition error_cases_credit :: "json \<Rightarrow> rat option" where
  "error_cases_credit error_cases =
     (let cases = value_or error_cases (JList [])
      in if \<not> json_true cases then Some 0
         else do { cs \<leftarrow> items cases;
                   Some (if cs = [] then 0 else foldr max (map item_review_weight (tl cs)) (item_review_weight (hd cs))) })"

text \<open>A-1: attributes of the entities.\<close>

definition entity_detail :: "json list \<Rightarrow> (metric_list \<times> string list) option" where
  "entity_detail entities =
     do { with_attrs \<leftarrow> all_of (\<lambda>e. do { a \<leftarrow> attr e ''attributes''; Some (json_true a) }) entities;
          attrs \<leftarrow> all_of (\<lambda>e. attr_items e ''attributes'') entities;
          typed \<leftarrow> all_of (\<lambda>a. do { t \<leftarrow> attr a ''type''; Some (json_true t \<and> t \<noteq> JStr ''unknown'') }) (concat attrs);
          Some (ratio_metric ''entity_attributes_present_ratio'' (of_nat (yes with_attrs)) (length entities)
                  @ ratio_metric ''attribute_typed_ratio'' (of_nat (yes typed)) (length typed),
                (if entities = [] then [bytes [101, 110, 116, 105, 116, 105, 101, 115, 32, 48, 234, 176, 156, 32, 226, 128, 148, 32, 101, 110, 116, 105,
      116, 121, 95, 97, 116, 116, 114, 105, 98, 117, 116, 101, 115, 95, 112, 114, 101, 115, 101, 110, 116, 32,
      235, 175, 184, 236, 130, 176, 236, 160, 149]] else [])
                  @ (if typed = [] then [bytes [97, 116, 116, 114, 105, 98, 117, 116, 101, 115, 32, 48, 234, 176, 156, 32, 226, 128, 148, 32, 97, 116,
      116, 114, 105, 98, 117, 116, 101, 95, 116, 121, 112, 101, 100, 32, 235, 175, 184, 236, 130, 176, 236, 160,
      149]] else [])) }"

text \<open>A-2: bodies and path parameters.\<close>

definition has_body :: "score_env \<Rightarrow> json \<Rightarrow> bool option" where
  "has_body v a = do { m \<leftarrow> attr a ''method''; Some (se_upper v (to_text v (value_or m (JStr ''''))) \<in> set BODY_METHODS) }"

definition has_fields :: "string \<Rightarrow> json \<Rightarrow> bool option" where
  "has_fields k a = do { b \<leftarrow> attr_dict a k; f \<leftarrow> attr b ''fields''; Some (json_true f) }"

definition param_re :: re where
  "param_re =
     (let start = (\<lambda>c. let n = (of_char c :: nat) in 65 \<le> n \<and> n \<le> 90 \<or> 97 \<le> n \<and> n \<le> 122 \<or> c = CHR ''_'')
      in seq [lit ''{'', RGroup 1 (seq [RSet (\<lambda>x. case x of [c] \<Rightarrow> start c | _ \<Rightarrow> False),
            star (RSet (\<lambda>x. case x of [c] \<Rightarrow> start c \<or> ascii_digit c | _ \<Rightarrow> False))]), lit ''}''])"

definition path_consistent :: "score_env \<Rightarrow> json \<Rightarrow> bool option option" where
  "path_consistent v a =
     do { e \<leftarrow> attr a ''endpoint'';
          let names = map (group 1) (re_finditer param_re (to_text v (value_or e (JStr ''''))));
          if names = [] then Some None
          else do { ps \<leftarrow> attr_items a ''path_params'';
                    declared \<leftarrow> all_of (\<lambda>f. do { n \<leftarrow> attr f ''name''; element v n }) ps;
                    Some (Some (list_all (\<lambda>n. JStr n \<in> set declared) names)) } }"

definition body_detail :: "score_env \<Rightarrow> json list \<Rightarrow> json list \<Rightarrow> (metric_list \<times> string list) option" where
  "body_detail v apis posts =
     do { reqs \<leftarrow> all_of (has_fields ''request_body'') posts;
          ress \<leftarrow> all_of (has_fields ''response_body'') apis;
          paths \<leftarrow> all_of (path_consistent v) apis;
          let known = concat (map (\<lambda>p. case p of None \<Rightarrow> [] | Some b \<Rightarrow> [b]) paths);
          Some (ratio_metric ''api_request_body_ratio'' (of_nat (yes reqs)) (length posts)
                  @ ratio_metric ''api_response_body_ratio'' (of_nat (yes ress)) (length apis)
                  @ ratio_metric ''api_path_params_consistent_ratio'' (of_nat (yes known)) (length known),
                if posts = [] then [bytes [80, 79, 83, 84, 47, 80, 85, 84, 47, 80, 65, 84, 67, 72, 32, 48, 234, 176, 156, 32, 226, 128,
      148, 32, 97, 112, 105, 95, 114, 101, 113, 117, 101, 115, 116, 95, 98, 111, 100, 121, 32, 235, 175, 184,
      236, 130, 176, 236, 160, 149]] else []) }"

text \<open>A-3: error cases and authorisation.\<close>

definition auth_credit :: "json \<Rightarrow> rat option" where
  "auth_credit a =
     do { auth \<leftarrow> attr_dict a ''auth''; d \<leftarrow> attr auth ''description''; r \<leftarrow> attr auth ''required_roles'';
          Some (if json_true d \<or> json_true r then item_review_weight auth else 0) }"

definition says_422 :: "score_env \<Rightarrow> json \<Rightarrow> bool option" where
  "says_422 v a =
     do { cs \<leftarrow> attr_items a ''error_cases'';
          statuses \<leftarrow> all_of (\<lambda>c. do { s \<leftarrow> attr c ''status''; element v s }) cs;
          Some (JInt 422 \<in> set statuses) }"

definition contract_detail :: "score_env \<Rightarrow> json list \<Rightarrow> json list \<Rightarrow> metric_list option" where
  "contract_detail v apis posts =
     do { errors \<leftarrow> all_of (\<lambda>a. do { e \<leftarrow> attr a ''error_cases''; error_cases_credit e }) apis;
          auths \<leftarrow> all_of auth_credit apis;
          post_422 \<leftarrow> all_of (says_422 v) posts;
          Some (ratio_metric ''api_error_cases_ratio'' (sum_list errors) (length apis)
                @ ratio_metric ''api_auth_specified_ratio'' (sum_list auths) (length apis)
                @ ratio_metric ''api_validation_422_ratio'' (of_nat (yes post_422)) (length posts)) }"

text \<open>Screens, from three interfaces on.\<close>

definition screen_detail :: "score_env \<Rightarrow> json \<Rightarrow> json list \<Rightarrow> (metric_list \<times> string list) option" where
  "screen_detail v spack apis =
     do { sv \<leftarrow> attr spack ''screens'';
          if length apis < 3 then Some ([], [])
          else if \<not> json_true sv then Some ([(''screen_coverage_ratio'', 0)], [bytes [65, 80, 73, 32, 51, 43, 32, 236, 157, 184, 235, 141, 176, 32, 115, 99, 114, 101, 101, 110, 115, 32,
      48, 234, 176, 156, 32, 226, 128, 148, 32, 70, 69, 32, 236, 189, 148, 235, 147, 156, 32, 236, 160, 149,
      235, 179, 180, 32, 235, 182, 128, 236, 161, 177]])
          else do { screens \<leftarrow> items sv;
                    ids \<leftarrow> all_of (\<lambda>a. do { i \<leftarrow> attr a ''id''; element v i }) apis;
                    calls \<leftarrow> all_of (\<lambda>sc. do { cs \<leftarrow> attr_items sc ''calls_apis''; all_of (element v) cs }) screens;
                    stories \<leftarrow> all_of (\<lambda>sc. do { s \<leftarrow> attr sc ''related_story_id''; Some (json_true s) }) screens;
                    Some (ratio_metric ''screen_api_coverage_ratio''
                            (of_nat (length (remdups (filter (\<lambda>i. i \<in> set ids) (concat calls))))) (length apis)
                          @ ratio_metric ''screen_story_mapped_ratio'' (of_nat (yes stories)) (length screens), []) } }"

text \<open>D-1: the domain model; D-2: the architecture.\<close>

definition has_attr :: "string \<Rightarrow> json \<Rightarrow> bool option" where
  "has_attr k j = do { x \<leftarrow> attr j k; Some (json_true x) }"

definition ddd_detail :: "json \<Rightarrow> (metric_list \<times> string list) option" where
  "ddd_detail d =
     do { aggregates \<leftarrow> attr_items d ''aggregates'';
          invs \<leftarrow> all_of (has_attr ''invariants'') aggregates;
          domain_entities \<leftarrow> attr_items d ''domain_entities'';
          des \<leftarrow> all_of (has_attr ''attributes'') domain_entities;
          ev1 \<leftarrow> attr d ''domain_events'';
          ev2 \<leftarrow> attr d ''events'';
          events \<leftarrow> items (value_or ev1 (value_or ev2 (JList [])));
          payloads \<leftarrow> all_of (has_attr ''payload_fields'') events;
          Some (ratio_metric ''aggregate_invariants_ratio'' (of_nat (yes invs)) (length aggregates)
                @ ratio_metric ''domain_entity_attributes_ratio'' (of_nat (yes des)) (length domain_entities)
                @ ratio_metric ''domain_event_payload_ratio'' (of_nat (yes payloads)) (length events),
                if aggregates = [] then [bytes [97, 103, 103, 114, 101, 103, 97, 116, 101, 115, 32, 48, 234, 176, 156, 32, 226, 128, 148, 32, 97, 103,
      103, 114, 101, 103, 97, 116, 101, 95, 105, 110, 118, 97, 114, 105, 97, 110, 116, 115, 32, 235, 175, 184,
      236, 130, 176, 236, 160, 149]] else []) }"

definition is_backend :: "score_env \<Rightarrow> json \<Rightarrow> bool option" where
  "is_backend v s =
     do { t \<leftarrow> attr s ''type''; Some (se_lower v (to_text v (value_or t (JStr ''''))) \<notin> {''frontend'', ''static'', ''''}) }"

definition is_deployed :: "score_env \<Rightarrow> json \<Rightarrow> bool option" where
  "is_deployed v s =
     do { dep \<leftarrow> attr_dict s ''deployment''; p \<leftarrow> attr dep ''port''; port \<leftarrow> to_int v (value_or p (JInt 0)); Some (port > 0) }"

definition has_auth :: "json \<Rightarrow> bool" where
  "has_auth c =
     (case c of JObj kv \<Rightarrow> (case map_of kv ''auth'' of None \<Rightarrow> False | Some a \<Rightarrow> json_true a \<and> a \<noteq> JStr ''none'') | _ \<Rightarrow> False)"

definition arch_detail :: "score_env \<Rightarrow> json \<Rightarrow> metric_list option" where
  "arch_detail v a =
     do { services \<leftarrow> attr_items a ''services'';
          backs \<leftarrow> all_of (is_backend v) services;
          let backend_services = (let bs = map fst (filter snd (zip services backs)) in if bs = [] then services else bs);
          deployed \<leftarrow> all_of (is_deployed v) backend_services;
          connections \<leftarrow> attr_items a ''connections'';
          Some (ratio_metric ''service_deployment_ratio'' (of_nat (yes deployed)) (length backend_services)
                @ ratio_metric ''connection_auth_ratio'' (of_nat (yes (map has_auth connections))) (length connections)) }"

definition score_tier2_detail :: "score_env \<Rightarrow> json \<Rightarrow> json option \<Rightarrow> json option \<Rightarrow> tier_score option" where
  "score_tier2_detail v spack ddd arch =
     do { apis \<leftarrow> attr_items spack ''apis'';
          entities \<leftarrow> attr_items spack ''entities'';
          (m1, n1) \<leftarrow> entity_detail entities;
          bodies \<leftarrow> all_of (has_body v) apis;
          let posts = map fst (filter snd (zip apis bodies));
          (m2, n2) \<leftarrow> body_detail v apis posts;
          m3 \<leftarrow> contract_detail v apis posts;
          (m4, n4) \<leftarrow> screen_detail v spack apis;
          (m5, n5) \<leftarrow> (case ddd of None \<Rightarrow> Some ([], []) | Some d \<Rightarrow> ddd_detail d);
          m6 \<leftarrow> (case arch of None \<Rightarrow> Some [] | Some a \<Rightarrow> arch_detail v a);
          let sub = m1 @ m2 @ m3 @ m4 @ m5 @ m6;
          Some \<lparr>ts_score = fst (average_present (map (\<lambda>m. Some (snd m)) sub)), ts_weight = TIER2_WEIGHT,
                ts_sub = sub, ts_notes = n1 @ n2 @ n4 @ n5\<rparr> }"

section \<open>Tier 3: lineage\<close>

definition stories_of :: "json \<Rightarrow> bool option" where
  "stories_of e = do { l \<leftarrow> attr_dict e ''lineage''; s \<leftarrow> attr l ''related_stories''; Some (json_true s) }"

definition confidence :: "json \<Rightarrow> json option" where
  "confidence e = do { l \<leftarrow> attr_dict e ''lineage''; attr l ''confidence'' }"

definition score_tier3_lineage :: "json \<Rightarrow> json option \<Rightarrow> tier_score option" where
  "score_tier3_lineage spack ddd =
     do { apis \<leftarrow> attr_items spack ''apis'';
          entities \<leftarrow> attr_items spack ''entities'';
          api_stories \<leftarrow> all_of (has_attr ''related_story_id'') apis;
          confs \<leftarrow> all_of confidence entities;
          let known = filter json_true confs;
          ent_stories \<leftarrow> all_of stories_of entities;
          m4 \<leftarrow> (case ddd of None \<Rightarrow> Some []
                 | Some d \<Rightarrow> do { aggregates \<leftarrow> attr_items d ''aggregates''; aggs \<leftarrow> all_of stories_of aggregates;
                                  Some (ratio_metric ''aggregate_lineage_mapped_ratio'' (of_nat (yes aggs)) (length aggregates)) });
          let sub = ratio_metric ''api_story_mapped_ratio'' (of_nat (yes api_stories)) (length apis)
                    @ ratio_metric ''entity_lineage_direct_ratio'' (of_nat (yes (map (\<lambda>c. c = JStr ''direct'') known))) (length known)
                    @ ratio_metric ''entity_story_mapped_ratio'' (of_nat (yes ent_stories)) (length entities) @ m4;
          Some \<lparr>ts_score = fst (average_present (map (\<lambda>m. Some (snd m)) sub)), ts_weight = TIER3_WEIGHT, ts_sub = sub, ts_notes = []\<rparr> }"

section \<open>Tier 4: violations\<close>

definition WARNING_DECAY :: rat where "WARNING_DECAY = 5 / 100"
definition WARNING_FLOOR :: rat where "WARNING_FLOOR = 0"

definition report_count :: "score_env \<Rightarrow> json \<Rightarrow> string \<Rightarrow> int option" where
  "report_count v r k = do { x \<leftarrow> attr r k; to_int v (value_or x (JInt 0)) }"

definition score_tier4_validation :: "score_env \<Rightarrow> json option \<Rightarrow> tier_score option" where
  "score_tier4_validation v validation_report =
     (case validation_report of
        Some r \<Rightarrow>
          if json_true r
          then do { errors \<leftarrow> report_count v r ''total_errors'';
                    warnings \<leftarrow> report_count v r ''total_warnings'';
                    infos \<leftarrow> report_count v r ''total_infos'';
                    let error_score = (if errors > 0 then 0 else 1);
                    let warning_score = max WARNING_FLOOR (1 - of_int warnings * WARNING_DECAY);
                    Some \<lparr>ts_score = 6 / 10 * error_score + 4 / 10 * warning_score, ts_weight = TIER4_WEIGHT,
                          ts_sub = [(''error_score'', error_score), (''warning_score'', warning_score), (''errors'', of_int errors),
                                    (''warnings'', of_int warnings), (''infos'', of_int infos)], ts_notes = []\<rparr> }
          else Some \<lparr>ts_score = 1, ts_weight = TIER4_WEIGHT, ts_sub = [], ts_notes = [bytes [118, 97, 108, 105, 100, 97, 116, 105, 111, 110, 95, 114, 101, 112, 111, 114, 116, 32, 235, 182, 128, 236,
      158, 172, 32, 226, 128, 148, 32, 235, 167, 140, 236, 160, 144, 32, 236, 178, 152, 235, 166, 172]]\<rparr>
      | None \<Rightarrow> Some \<lparr>ts_score = 1, ts_weight = TIER4_WEIGHT, ts_sub = [], ts_notes = [bytes [118, 97, 108, 105, 100, 97, 116, 105, 111, 110, 95, 114, 101, 112, 111, 114, 116, 32, 235, 182, 128, 236,
      158, 172, 32, 226, 128, 148, 32, 235, 167, 140, 236, 160, 144, 32, 236, 178, 152, 235, 166, 172]]\<rparr>)"

section \<open>The report\<close>

record eval_report =
  er_tier1 :: tier_score
  er_tier2 :: tier_score
  er_tier3 :: tier_score
  er_tier4 :: tier_score
  er_overall :: rat
  er_counts :: "(string \<times> nat) list"

definition weighted :: "tier_score list \<Rightarrow> rat" where
  "weighted ts = sum_list (map (\<lambda>t. ts_score t * ts_weight t) ts)"

definition score_spack :: "score_env \<Rightarrow> json \<Rightarrow> json option \<Rightarrow> json option \<Rightarrow> json option \<Rightarrow> eval_report option" where
  "score_spack v spack ddd arch validation_report =
     do { t1 \<leftarrow> score_tier1_structure spack ddd arch;
          t2 \<leftarrow> score_tier2_detail v spack ddd arch;
          t3 \<leftarrow> score_tier3_lineage spack ddd;
          t4 \<leftarrow> score_tier4_validation v validation_report;
          apis \<leftarrow> attr spack ''apis'';
          entities \<leftarrow> attr spack ''entities'';
          policies \<leftarrow> attr spack ''policies'';
          na \<leftarrow> count_items (value_or apis (JList []));
          ne \<leftarrow> count_items (value_or entities (JList []));
          np \<leftarrow> count_items (value_or policies (JList []));
          Some \<lparr>er_tier1 = t1, er_tier2 = t2, er_tier3 = t3, er_tier4 = t4,
                er_overall = (if ts_score t1 < 1 / 2 then ts_score t1 * (9 / 10) else weighted [t1, t2, t3, t4]),
                er_counts = [(''api_count'', na), (''entity_count'', ne), (''policy_count'', np)]\<rparr> }"

section \<open>Bounds\<close>

definition in_unit :: "rat \<Rightarrow> bool" where
  "in_unit x = (0 \<le> x \<and> x \<le> 1)"

definition unit_metrics :: "metric_list \<Rightarrow> bool" where
  "unit_metrics ms = list_all (\<lambda>m. in_unit (snd m)) ms"

lemma unit_metrics_simps [simp]:
  "unit_metrics []" "unit_metrics (m # ms) = (in_unit (snd m) \<and> unit_metrics ms)" "unit_metrics (ms @ ns) = (unit_metrics ms \<and> unit_metrics ns)"
  by (auto simp: unit_metrics_def)

lemma in_unit_simps [simp]: "in_unit 0" "in_unit 1"
  by (simp_all add: in_unit_def)

lemma all_of_Nil [simp]: "all_of f [] = Some []"
  by (simp add: all_of_def)

lemma all_of_Cons: "all_of f (x # xs) = do { y \<leftarrow> f x; ys \<leftarrow> all_of f xs; Some (y # ys) }"
  by (simp add: all_of_def Option.bind_def map_option_case split: option.splits)

lemma all_of_length: "all_of f xs = Some ys \<Longrightarrow> length ys = length xs"
  by (induction xs arbitrary: ys) (auto simp: all_of_Cons Option.bind_eq_Some_conv)

lemma all_of_mem: "all_of f xs = Some ys \<Longrightarrow> y \<in> set ys \<Longrightarrow> \<exists>x \<in> set xs. f x = Some y"
  by (induction xs arbitrary: ys) (auto simp: all_of_Cons Option.bind_eq_Some_conv)

lemma yes_le: "yes bs \<le> length bs"
  by (simp add: yes_def)

lemma ratio_unit: "0 \<le> n \<Longrightarrow> n \<le> of_nat d \<Longrightarrow> unit_metrics (ratio_metric name n d)"
  by (auto simp: ratio_metric_def safe_ratio_def in_unit_def)

lemma ratio_yes: "length bs \<le> d \<Longrightarrow> unit_metrics (ratio_metric name (of_nat (yes bs)) d)"
  using yes_le[of bs] by (intro ratio_unit) auto

lemma sum_unit: "(\<And>x. x \<in> set xs \<Longrightarrow> in_unit x) \<Longrightarrow> 0 \<le> sum_list xs \<and> sum_list xs \<le> of_nat (length xs)"
  by (induction xs) (fastforce simp: in_unit_def)+

lemma mean_unit: "(\<And>x. x \<in> set xs \<Longrightarrow> in_unit x) \<Longrightarrow> xs \<noteq> [] \<Longrightarrow> in_unit (sum_list xs / of_nat (length xs))"
  using sum_unit[of xs] by (simp add: in_unit_def)

lemma average_unit: "unit_metrics ms \<Longrightarrow> in_unit (fst (average_present (map (\<lambda>m. Some (snd m)) ms)))"
proof -
  assume u: "unit_metrics ms"
  have "concat (map (\<lambda>v. case v of None \<Rightarrow> [] | Some x \<Rightarrow> [x]) (map (\<lambda>m. Some (snd m)) ms)) = map snd ms"
    by (induction ms) auto
  then show ?thesis using mean_unit[of "map snd ms"] u by (auto simp: average_present_def Let_def unit_metrics_def list_all_iff)
qed

text \<open>A draft counts like a reviewed item.\<close>

lemma review_weight_one [simp]: "item_review_weight j = 1"
  by (simp add: item_review_weight_def AI_DRAFT_WEIGHT_def split: json.split)

lemma error_credit_unit: "error_cases_credit j = Some x \<Longrightarrow> in_unit x"
proof -
  have "foldr max (map item_review_weight cs) 1 = 1" for cs by (induction cs) auto
  then show "error_cases_credit j = Some x \<Longrightarrow> in_unit x"
    by (auto simp: error_cases_credit_def Let_def Option.bind_eq_Some_conv split: if_splits)
qed

lemma auth_credit_unit: "auth_credit a = Some x \<Longrightarrow> in_unit x"
  by (auto simp: auth_credit_def Option.bind_eq_Some_conv)

lemma tier1_unit: "score_tier1_structure spack ddd arch = Some t \<Longrightarrow> in_unit (ts_score t) \<and> unit_metrics (ts_sub t) \<and> ts_weight t = TIER1_WEIGHT"
proof -
  assume t: "score_tier1_structure spack ddd arch = Some t"
  define js where "js = [(''spack_apis_present'', spack, ''apis''), (''spack_entities_present'', spack, ''entities''),
              (''spack_policies_present'', spack, ''policies'')]
             @ (case ddd of None \<Rightarrow> []
                | Some d \<Rightarrow> [(''ddd_contexts_present'', d, ''contexts''), (''ddd_aggregates_present'', d, ''aggregates'')])
             @ (case arch of None \<Rightarrow> []
                | Some a \<Rightarrow> [(''arch_services_present'', a, ''services''), (''arch_databases_present'', a, ''databases'')])"
  obtain ms where ms: "all_of (\<lambda>(n, j, k). present_metric n j k) js = Some ms" "ts_sub t = ms" "ts_weight t = TIER1_WEIGHT"
    "ts_score t = (if ms = [] then 1 else sum_list (map snd ms) / of_nat (length ms))"
    using t unfolding score_tier1_structure_def js_def[symmetric] by (auto simp: Option.bind_eq_Some_conv)
  have u: "in_unit (snd m)" if "m \<in> set ms" for m
    using all_of_mem[OF ms(1) that] by (auto simp: present_metric_def Option.bind_eq_Some_conv)
  then have "unit_metrics ms" by (simp add: unit_metrics_def list_all_iff)
  moreover have "ms \<noteq> [] \<Longrightarrow> in_unit (sum_list (map snd ms) / of_nat (length ms))" using mean_unit[of "map snd ms"] u by fastforce
  ultimately show ?thesis using ms by simp
qed

lemma ratio_called: "length ids = d \<Longrightarrow> unit_metrics (ratio_metric name (of_nat (length (remdups (filter (\<lambda>i. i \<in> set ids) cs)))) d)"
proof -
  have "card (set (filter (\<lambda>i. i \<in> set ids) cs)) \<le> card (set ids)" by (intro card_mono) auto
  then have "length (remdups (filter (\<lambda>i. i \<in> set ids) cs)) \<le> length ids"
    using card_length[of ids] by (simp add: length_remdups_card_conv)
  then show "length ids = d \<Longrightarrow> ?thesis" by (intro ratio_unit) auto
qed

lemma detail_units:
  "entity_detail es = Some (m, n) \<Longrightarrow> unit_metrics m"
  "body_detail v apis posts = Some (m, n) \<Longrightarrow> unit_metrics m"
  "contract_detail v apis posts = Some m \<Longrightarrow> unit_metrics m"
  "screen_detail v spack apis = Some (m, n) \<Longrightarrow> unit_metrics m"
  "ddd_detail d = Some (m, n) \<Longrightarrow> unit_metrics m"
  "arch_detail v a = Some m \<Longrightarrow> unit_metrics m"
proof -
  show "entity_detail es = Some (m, n) \<Longrightarrow> unit_metrics m"
    by (auto simp: entity_detail_def Option.bind_eq_Some_conv dest!: all_of_length intro!: ratio_yes)
  show "body_detail v apis posts = Some (m, n) \<Longrightarrow> unit_metrics m"
    by (auto simp: body_detail_def Option.bind_eq_Some_conv Let_def dest!: all_of_length intro!: ratio_yes)
  show "ddd_detail d = Some (m, n) \<Longrightarrow> unit_metrics m"
    by (auto simp: ddd_detail_def Option.bind_eq_Some_conv dest!: all_of_length intro!: ratio_yes)
  show "arch_detail v a = Some m \<Longrightarrow> unit_metrics m"
    by (auto simp: arch_detail_def Option.bind_eq_Some_conv Let_def dest!: all_of_length intro!: ratio_yes)
  show "unit_metrics m" if c: "contract_detail v apis posts = Some m"
  proof -
    obtain errors auths p where e: "all_of (\<lambda>a. do { e \<leftarrow> attr a ''error_cases''; error_cases_credit e }) apis = Some errors"
      "all_of auth_credit apis = Some auths" "all_of (says_422 v) posts = Some p"
      "m = ratio_metric ''api_error_cases_ratio'' (sum_list errors) (length apis)
                @ ratio_metric ''api_auth_specified_ratio'' (sum_list auths) (length apis)
                @ ratio_metric ''api_validation_422_ratio'' (of_nat (yes p)) (length posts)"
      using c by (auto simp: contract_detail_def Option.bind_eq_Some_conv)
    have "in_unit x" if "x \<in> set errors" for x
      using all_of_mem[OF e(1) that] error_credit_unit by (auto simp: Option.bind_eq_Some_conv)
    moreover have "in_unit x" if "x \<in> set auths" for x using all_of_mem[OF e(2) that] auth_credit_unit by auto
    ultimately show ?thesis
      using sum_unit[of errors] sum_unit[of auths] all_of_length[OF e(1)] all_of_length[OF e(2)] all_of_length[OF e(3)]
      unfolding e(4) by (auto intro!: ratio_unit ratio_yes)
  qed
  show "screen_detail v spack apis = Some (m, n) \<Longrightarrow> unit_metrics m"
    by (auto simp: screen_detail_def Option.bind_eq_Some_conv dest!: all_of_length intro!: ratio_yes ratio_called split: if_splits)
qed

lemma tier2_unit: "score_tier2_detail v spack ddd arch = Some t \<Longrightarrow> in_unit (ts_score t) \<and> unit_metrics (ts_sub t) \<and> ts_weight t = TIER2_WEIGHT"
proof -
  assume "score_tier2_detail v spack ddd arch = Some t"
  then have "unit_metrics (ts_sub t) \<and> ts_score t = fst (average_present (map (\<lambda>m. Some (snd m)) (ts_sub t))) \<and> ts_weight t = TIER2_WEIGHT"
    using detail_units by (auto simp: score_tier2_detail_def Option.bind_eq_Some_conv Let_def split: option.splits)
  then show ?thesis using average_unit by metis
qed

lemma tier3_unit: "score_tier3_lineage spack ddd = Some t \<Longrightarrow> in_unit (ts_score t) \<and> unit_metrics (ts_sub t) \<and> ts_weight t = TIER3_WEIGHT"
proof -
  assume "score_tier3_lineage spack ddd = Some t"
  then have "unit_metrics (ts_sub t) \<and> ts_score t = fst (average_present (map (\<lambda>m. Some (snd m)) (ts_sub t))) \<and> ts_weight t = TIER3_WEIGHT"
    by (auto simp: score_tier3_lineage_def Option.bind_eq_Some_conv Let_def dest!: all_of_length intro!: ratio_yes split: option.splits)
  then show ?thesis using average_unit by metis
qed

lemma tier4_cases:
  assumes "score_tier4_validation v rep = Some t"
  shows "ts_weight t = TIER4_WEIGHT \<and>
    ((\<exists>j e w. rep = Some j \<and> json_true j \<and> report_count v j ''total_errors'' = Some e \<and> report_count v j ''total_warnings'' = Some w
        \<and> ts_score t = 6 / 10 * (if 0 < e then 0 else 1) + 4 / 10 * max 0 (1 - of_int w / 20))
     \<or> (\<forall>j. rep = Some j \<longrightarrow> \<not> json_true j) \<and> ts_score t = 1)"
  using assms
  by (auto simp: score_tier4_validation_def Option.bind_eq_Some_conv WARNING_FLOOR_def WARNING_DECAY_def Let_def
      split: option.splits if_splits)

lemma tier4_unit:
  assumes "score_tier4_validation v rep = Some t"
    "\<And>j w. rep = Some j \<Longrightarrow> report_count v j ''total_warnings'' = Some w \<Longrightarrow> 0 \<le> w"
  shows "in_unit (ts_score t)"
    "rep = Some j \<Longrightarrow> json_true j \<Longrightarrow> report_count v j ''total_errors'' = Some e \<Longrightarrow> 0 < e \<Longrightarrow> ts_score t \<le> 4 / 10"
proof -
  have m: "(0::rat) \<le> max 0 (1 - of_int w / 20) \<and> max 0 (1 - of_int w / 20) \<le> (1::rat)" if "0 \<le> w" for w :: int
    using that by (simp add: max_def)
  from tier4_cases[OF assms(1)] consider "(\<forall>j. rep = Some j \<longrightarrow> \<not> json_true j)" "ts_score t = 1"
    | j e w where "rep = Some j" "json_true j" "report_count v j ''total_errors'' = Some e" "0 \<le> w"
        "ts_score t = 6 / 10 * (if 0 < e then 0 else 1) + 4 / 10 * max 0 (1 - of_int w / 20)"
    using assms(2) by blast
  note c = this
  show "in_unit (ts_score t)" using c
  proof cases
    case 2
    define x where "x = max 0 (1 - rat_of_int w / 20)"
    have "0 \<le> x \<and> x \<le> 1" using m[OF 2(4)] by (simp add: x_def)
    then show ?thesis using 2(5) unfolding x_def[symmetric] in_unit_def by (cases "0 < e") simp_all
  qed simp
  show "rep = Some j \<Longrightarrow> json_true j \<Longrightarrow> report_count v j ''total_errors'' = Some e \<Longrightarrow> 0 < e \<Longrightarrow> ts_score t \<le> 4 / 10"
    using c
  proof cases
    case (2 i d w)
    assume "rep = Some j" "report_count v j ''total_errors'' = Some e" "0 < e"
    then have "ts_score t = 4 / 10 * max 0 (1 - of_int w / 20)" using 2 by auto
    then show ?thesis using m[OF 2(4)] by simp
  qed simp
qed


definition plain_env :: score_env where
  "plain_env = \<lparr>se_str = (\<lambda>_. ''''), se_upper = (\<lambda>s. s), se_lower = (\<lambda>s. s), se_int = (\<lambda>_. None), se_float = (\<lambda>_. None)\<rparr>"

text \<open>A graph with one entity without attributes.\<close>

definition bare_graph :: json where
  "bare_graph = JObj [(''entities'', JList [JObj [(''name'', JStr ''Order'')]])]"

definition bare_report :: json where
  "bare_report = JObj [(''total_errors'', JInt 1), (''total_warnings'', JInt 30)]"

lemma bare_scored:
  "\<exists>r. score_spack plain_env bare_graph None None (Some bare_report) = Some r \<and> er_overall r = 3 / 10
     \<and> weighted [er_tier1 r, er_tier2 r, er_tier3 r, er_tier4 r] = 1 / 30"
  by (simp add: score_spack_def score_tier1_structure_def score_tier2_detail_def score_tier3_lineage_def score_tier4_validation_def
      entity_detail_def body_detail_def contract_detail_def screen_detail_def bare_graph_def bare_report_def attr_items_def attr_dict_def attr_def
      present_metric_def items_def value_or_def json_true_def all_of_Cons count_items_def report_count_def to_int_def ratio_metric_def
      safe_ratio_def average_present_def yes_def confidence_def stories_of_def weighted_def TIER1_WEIGHT_def TIER2_WEIGHT_def
      TIER3_WEIGHT_def TIER4_WEIGHT_def WARNING_DECAY_def WARNING_FLOOR_def)


text \<open>The first tier alone can be far above the weighted sum it replaces (\<open>bare_scored\<close>), and an entity that
  is no object makes the grader raise.\<close>

lemma grader_raises: "score_spack v (JObj [(''entities'', JList [JStr ''Order''])]) ddd arch rep = None"
proof -
  have "score_tier2_detail v (JObj [(''entities'', JList [JStr ''Order''])]) ddd arch = None"
    by (simp add: score_tier2_detail_def entity_detail_def attr_items_def attr_def items_def value_or_def json_true_def all_of_Cons)
  then show ?thesis by (cases "score_tier1_structure (JObj [(''entities'', JList [JStr ''Order''])]) ddd arch") (simp_all add: score_spack_def)
qed

end
