(* ===== verification/QueueAdmin.thy ===== *)
theory QueueAdmin
  imports QueueClient "HOL-Library.List_Lexorder" "HOL-Library.Char_ord"
begin

text \<open>
  The administration of the queues in src/app/queue/client.py: the pool of connections, queue
  statistics and the flush of all queues. The Redis commands are fields of a record; a command
  that raises gives None.
\<close>

section \<open>Commands and pool\<close>

record 'r admin_api =
  d_zrange :: "string \<Rightarrow> 'r \<Rightarrow> string list option"
  d_zcard :: "string \<Rightarrow> 'r \<Rightarrow> nat option"
  d_get :: "string \<Rightarrow> 'r \<Rightarrow> string option option"
  d_del :: "string list \<Rightarrow> 'r \<Rightarrow> nat option \<times> 'r"
  d_scan :: "nat \<Rightarrow> 'r \<Rightarrow> (nat \<times> string list) option"

text \<open>The pool of the process: \<open>create\<close> is what create_pool gives, None when it raises.\<close>

definition get_pool :: "'p option \<Rightarrow> 'p option \<Rightarrow> 'p option \<times> 'p option" where
  "get_pool create pool =
     (case pool of Some p \<Rightarrow> (Some p, Some p) | None \<Rightarrow> (create, create))"

definition close_pool :: "'p option \<Rightarrow> 'p option \<times> 'p option" where
  "close_pool pool = (case pool of None \<Rightarrow> (None, None) | Some p \<Rightarrow> (Some p, None))"

definition targets :: "queue_names \<Rightarrow> string list" where
  "targets n = remdups [n_default n, n_pro n, n_free n]"

section \<open>Statistics\<close>

record queue_info =
  qi_pending :: "nat option"
  qi_health :: "string option"

definition queue_info_of :: "'r admin_api \<Rightarrow> 'r \<Rightarrow> string \<Rightarrow> queue_info" where
  "queue_info_of a s q =
     \<lparr>qi_pending = d_zcard a q s,
      qi_health = (case d_get a (''arq:health-check:'' @ q) s of None \<Rightarrow> None | Some raw \<Rightarrow> raw)\<rparr>"

definition get_queue_stats :: "'r admin_api \<Rightarrow> queue_names \<Rightarrow> 'r \<Rightarrow> (string \<times> queue_info) list \<times> string" where
  "get_queue_stats a n s = (map (\<lambda>q. (q, queue_info_of a s q)) (sort (targets n)), n_default n)"

section \<open>Flush\<close>

record flush_counts =
  fc_pending :: nat
  fc_inprogress :: nat
  fc_job_hash :: nat

definition job_key :: "string \<Rightarrow> string" where
  "job_key jid = ''arq:job:'' @ jid"

definition in_progress_key :: "string \<Rightarrow> string" where
  "in_progress_key q = ''arq:in-progress:'' @ q"

text \<open>The first try block of a queue: when a command raises, what was done and counted stays.\<close>

definition flush_pending :: "'r admin_api \<Rightarrow> string \<Rightarrow> 'r \<times> flush_counts \<Rightarrow> 'r \<times> flush_counts" where
  "flush_pending a q sc =
     (case sc of (s, c) \<Rightarrow>
        (case d_zrange a q s of
           None \<Rightarrow> (s, c)
         | Some job_ids \<Rightarrow>
             if job_ids = [] then (s, c)
             else (case d_del a [q] s of
                     (None, s1) \<Rightarrow> (s1, c)
                   | (Some _, s1) \<Rightarrow>
                       (let c1 = c\<lparr>fc_pending := fc_pending c + length job_ids\<rparr>
                        in (case d_del a (map job_key job_ids) s1 of
                              (None, s2) \<Rightarrow> (s2, c1)
                            | (Some deleted, s2) \<Rightarrow> (s2, c1\<lparr>fc_job_hash := fc_job_hash c1 + deleted\<rparr>))))))"

definition flush_in_progress :: "'r admin_api \<Rightarrow> string \<Rightarrow> 'r \<times> flush_counts \<Rightarrow> 'r \<times> flush_counts" where
  "flush_in_progress a q sc =
     (case sc of (s, c) \<Rightarrow>
        (case d_zcard a (in_progress_key q) s of
           None \<Rightarrow> (s, c)
         | Some ip_count \<Rightarrow>
             if ip_count = 0 then (s, c)
             else (case d_del a [in_progress_key q] s of
                     (None, s1) \<Rightarrow> (s1, c)
                   | (Some _, s1) \<Rightarrow> (s1, c\<lparr>fc_inprogress := fc_inprogress c + ip_count\<rparr>))))"

text \<open>The loop over the pages of SCAN for the stage keys; without a last page it does not end. A command that
  raises ends it.\<close>

partial_function (option) scan_stage :: "'r admin_api \<Rightarrow> nat \<Rightarrow> 'r \<Rightarrow> nat \<Rightarrow> ('r \<times> nat) option" where
  "scan_stage a cursor s removed =
     (case d_scan a cursor s of
        None \<Rightarrow> Some (s, removed)
      | Some (c, keys) \<Rightarrow>
          if keys = [] then (if c = 0 then Some (s, removed) else scan_stage a c s removed)
          else (case d_del a keys s of
                  (None, s1) \<Rightarrow> Some (s1, removed)
                | (Some _, s1) \<Rightarrow> if c = 0 then Some (s1, removed + length keys) else scan_stage a c s1 (removed + length keys)))"

record flush_report =
  fr_queues :: "string list"
  fr_pending :: nat
  fr_inprogress :: nat
  fr_stage :: nat
  fr_job_hash :: nat

text \<open>\<open>arr\<close> is the order in which a set is iterated.\<close>

definition flush_queues :: "'r admin_api \<Rightarrow> queue_names \<Rightarrow> (string list \<Rightarrow> string list) \<Rightarrow> 'r \<Rightarrow> (flush_report \<times> 'r) option" where
  "flush_queues a n arr s =
     (case fold (\<lambda>q sc. flush_in_progress a q (flush_pending a q sc)) (arr (targets n))
             (s, \<lparr>fc_pending = 0, fc_inprogress = 0, fc_job_hash = 0\<rparr>) of
        (s1, c) \<Rightarrow>
          map_option (\<lambda>(s2, stage).
              (\<lparr>fr_queues = sort (targets n), fr_pending = fc_pending c, fr_inprogress = fc_inprogress c,
                fr_stage = stage, fr_job_hash = fc_job_hash c\<rparr>, s2))
            (scan_stage a 0 s1 0))"

section \<open>What Redis promises\<close>

text \<open>The keys SCAN is asked for.\<close>

definition stage_key :: "string \<Rightarrow> bool" where
  "stage_key k = (\<exists>t. k = ''harness:job:'' @ t @ '':stage'')"

text \<open>Commands that do not raise, in terms of the sorted sets of \<open>zset_api\<close> and of the existing keys:
  DEL removes whole keys, ZRANGE lists the members, and a full SCAN, from cursor 0 to cursor 0, returns
  every matching key that is there throughout. The place of a key and of a cursor in the table is \<open>b\<close> and
  \<open>pos\<close>.\<close>

definition admin_laws :: "'r admin_api \<Rightarrow> 'r zset_api \<Rightarrow> (string \<Rightarrow> 'r \<Rightarrow> bool) \<Rightarrow> bool" where
  "admin_laws a z ex \<longleftrightarrow> zset_laws z \<and>
     (\<forall>ks s. fst (d_del a ks s) \<noteq> None \<and> (\<forall>k. ex k (snd (d_del a ks s)) \<longleftrightarrow> ex k s \<and> k \<notin> set ks) \<and>
        (\<forall>k m. z_score z k m (snd (d_del a ks s)) = (if k \<in> set ks then None else z_score z k m s))) \<and>
     (\<forall>k s. \<exists>ms. d_zrange a k s = Some ms \<and> set ms = {m. z_score z k m s \<noteq> None}) \<and>
     (\<forall>k s. d_zcard a k s = Some (z_card z k s)) \<and>
     (\<exists>b pos N. pos 0 = 0 \<and> (\<forall>c s. \<exists>c' ks. d_scan a c s = Some (c', ks) \<and> (c' = 0 \<or> pos c < pos c' \<and> pos c' \<le> N)
        \<and> (\<forall>k \<in> set ks. stage_key k)
        \<and> (\<forall>k. ex k s \<and> stage_key k \<and> (pos c :: nat) \<le> b k \<and> (c' = 0 \<or> b k < pos c') \<longrightarrow> k \<in> set ks)))"

section \<open>What a flush leaves\<close>

definition admin_key :: "queue_names \<Rightarrow> string \<Rightarrow> bool" where
  "admin_key n k = (k \<in> set (targets n) \<or> (\<exists>t. k = job_key t \<or> k = in_progress_key t) \<or> stage_key k)"

text \<open>Between two states only members of such keys have gone.\<close>

definition swept :: "'r zset_api \<Rightarrow> queue_names \<Rightarrow> 'r \<Rightarrow> 'r \<Rightarrow> bool" where
  "swept z n s s' = (\<forall>k m. z_score z k m s' = z_score z k m s \<or> admin_key n k \<and> z_score z k m s' = None)"

definition emptied :: "'r zset_api \<Rightarrow> string \<Rightarrow> 'r \<Rightarrow> bool" where
  "emptied z k s = (\<forall>m. z_score z k m s = None)"

lemma swept_refl [simp]: "swept z n s s"
  by (simp add: swept_def)

lemma swept_trans: "swept z n s s1 \<Longrightarrow> swept z n s1 s2 \<Longrightarrow> swept z n s s2"
  unfolding swept_def by metis

lemma swept_emptied: "swept z n s s1 \<Longrightarrow> emptied z k s \<Longrightarrow> emptied z k s1"
  unfolding swept_def emptied_def by metis

lemma del_facts:
  assumes "admin_laws a z ex"
  shows "\<exists>d. d_del a ks s = (Some d, snd (d_del a ks s))"
    "(\<And>k. k \<in> set ks \<Longrightarrow> admin_key n k) \<Longrightarrow> swept z n s (snd (d_del a ks s))"
    "k \<in> set ks \<Longrightarrow> emptied z k (snd (d_del a ks s))"
    "ex k (snd (d_del a ks s)) \<longleftrightarrow> ex k s \<and> k \<notin> set ks"
proof -
  have l: "fst (d_del a ks s) \<noteq> None" "\<And>k. ex k (snd (d_del a ks s)) \<longleftrightarrow> ex k s \<and> k \<notin> set ks"
    "\<And>k m. z_score z k m (snd (d_del a ks s)) = (if k \<in> set ks then None else z_score z k m s)"
    using assms unfolding admin_laws_def by blast+
  show "\<exists>d. d_del a ks s = (Some d, snd (d_del a ks s))" using l(1) by (cases "d_del a ks s") auto
  show "(\<And>k. k \<in> set ks \<Longrightarrow> admin_key n k) \<Longrightarrow> swept z n s (snd (d_del a ks s))" by (simp add: swept_def l(3))
  show "k \<in> set ks \<Longrightarrow> emptied z k (snd (d_del a ks s))" by (simp add: emptied_def l(3))
  show "ex k (snd (d_del a ks s)) \<longleftrightarrow> ex k s \<and> k \<notin> set ks" by (rule l(2))
qed

lemma flush_pending_facts:
  assumes "admin_laws a z ex" "q \<in> set (targets n)"
  shows "swept z n s (fst (flush_pending a q (s, c))) \<and> emptied z q (fst (flush_pending a q (s, c)))"
proof -
  obtain ids where ids: "d_zrange a q s = Some ids" "set ids = {m. z_score z q m s \<noteq> None}"
    using assms(1) unfolding admin_laws_def by metis
  show ?thesis
  proof (cases "ids = []")
    case True
    then have "emptied z q s" using ids(2) by (auto simp: emptied_def)
    then show ?thesis by (simp add: flush_pending_def ids True)
  next
    case False
    obtain d1 s1 where d1: "d_del a [q] s = (Some d1, s1)" using del_facts(1)[OF assms(1)] by metis
    obtain d2 s2 where d2: "d_del a (map job_key ids) s1 = (Some d2, s2)" using del_facts(1)[OF assms(1)] by metis
    have f: "fst (flush_pending a q (s, c)) = s2" by (simp add: flush_pending_def ids(1) False d1 d2 Let_def)
    have "swept z n s s1" using del_facts(2)[OF assms(1), of "[q]" n s] assms(2) by (simp add: admin_key_def d1)
    moreover have "swept z n s1 s2" using del_facts(2)[OF assms(1), of "map job_key ids" n s1] by (auto simp: admin_key_def d2)
    moreover have "emptied z q s1" using del_facts(3)[OF assms(1), of q "[q]" s] by (simp add: d1)
    ultimately show ?thesis unfolding f using swept_trans swept_emptied by metis
  qed
qed

lemma flush_in_progress_facts:
  assumes "admin_laws a z ex"
  shows "swept z n s (fst (flush_in_progress a q (s, c))) \<and> emptied z (in_progress_key q) (fst (flush_in_progress a q (s, c)))"
proof -
  have z: "zset_laws z" and k: "d_zcard a (in_progress_key q) s = Some (z_card z (in_progress_key q) s)"
    using assms unfolding admin_laws_def by blast+
  show ?thesis
  proof (cases "z_card z (in_progress_key q) s = 0")
    case True
    then have "{m. z_score z (in_progress_key q) m s \<noteq> None} = {}" using zset_lawsD(5,6)[OF z, of "in_progress_key q" s] by auto
    then have "emptied z (in_progress_key q) s" by (auto simp: emptied_def)
    then show ?thesis by (simp add: flush_in_progress_def k True)
  next
    case False
    obtain d s1 where d: "d_del a [in_progress_key q] s = (Some d, s1)" using del_facts(1)[OF assms] by metis
    have f: "fst (flush_in_progress a q (s, c)) = s1" by (simp add: flush_in_progress_def k False d)
    have "swept z n s s1" using del_facts(2)[OF assms, of "[in_progress_key q]" n s] by (auto simp: admin_key_def d)
    moreover have "emptied z (in_progress_key q) s1"
      using del_facts(3)[OF assms, of "in_progress_key q" "[in_progress_key q]" s] by (simp add: d)
    ultimately show ?thesis unfolding f by metis
  qed
qed

lemma flush_fold_facts:
  assumes "admin_laws a z ex" "set qs \<subseteq> set (targets n)"
  shows "swept z n s (fst (fold (\<lambda>q sc. flush_in_progress a q (flush_pending a q sc)) qs (s, c)))
    \<and> (\<forall>q \<in> set qs. emptied z q (fst (fold (\<lambda>q sc. flush_in_progress a q (flush_pending a q sc)) qs (s, c)))
        \<and> emptied z (in_progress_key q) (fst (fold (\<lambda>q sc. flush_in_progress a q (flush_pending a q sc)) qs (s, c))))"
  using assms(2)
proof (induction qs arbitrary: s c)
  case (Cons q qs)
  obtain s1 c1 where p: "flush_pending a q (s, c) = (s1, c1)" by fastforce
  obtain s2 c2 where i: "flush_in_progress a q (s1, c1) = (s2, c2)" by fastforce
  have "swept z n s s1" "emptied z q s1" using flush_pending_facts[OF assms(1), of q n s c] Cons.prems p by auto
  moreover have "swept z n s1 s2" "emptied z (in_progress_key q) s2" using flush_in_progress_facts[OF assms(1), of n s1 q c1] i by auto
  ultimately have s: "swept z n s s2 \<and> emptied z q s2 \<and> emptied z (in_progress_key q) s2" using swept_trans swept_emptied by metis
  have "set qs \<subseteq> set (targets n)" using Cons.prems by simp
  note ih = Cons.IH[OF this, of s2 c2]
  show ?case using ih s swept_trans[of z n s s2] swept_emptied[of z n s2] by (simp add: p i)
qed simp

text \<open>The loop ends, and then no stage key is left.\<close>

lemma scan_stage_facts:
  assumes laws: "admin_laws a z ex"
    and scan: "\<And>c s. \<exists>c' ks. d_scan a c s = Some (c', ks) \<and> (c' = 0 \<or> pos c < pos c' \<and> pos c' \<le> N)
        \<and> (\<forall>k \<in> set ks. stage_key k)
        \<and> (\<forall>k. ex k s \<and> stage_key k \<and> (pos c :: nat) \<le> b k \<and> (c' = 0 \<or> b k < pos c') \<longrightarrow> k \<in> set ks)"
    and "\<And>k. ex k s \<Longrightarrow> stage_key k \<Longrightarrow> pos c \<le> b k"
  shows "\<exists>s' m. scan_stage a c s r = Some (s', m) \<and> swept z n s s' \<and> (\<forall>k. stage_key k \<longrightarrow> \<not> ex k s')"
  using assms(3)
proof (induction "N - pos c" arbitrary: c s r rule: less_induct)
  case less
  obtain c' ks where k: "d_scan a c s = Some (c', ks)" "c' = 0 \<or> pos c < pos c' \<and> pos c' \<le> N" "\<forall>k \<in> set ks. stage_key k"
    "\<forall>k. ex k s \<and> stage_key k \<and> pos c \<le> b k \<and> (c' = 0 \<or> b k < pos c') \<longrightarrow> k \<in> set ks" using scan[of c s] by blast
  obtain d t where d: "d_del a ks s = (Some d, t)" using del_facts(1)[OF laws] by metis
  define s1 where "s1 = (if ks = [] then s else t)"
  let ?r1 = "r + length ks"
  have e: "scan_stage a c s r = (if c' = 0 then Some (s1, ?r1) else scan_stage a c' s1 ?r1)"
    by (subst scan_stage.simps) (simp add: k(1) d s1_def)
  have ex1: "ex x s1 \<longleftrightarrow> ex x s \<and> x \<notin> set ks" for x using del_facts(4)[OF laws, of x ks s] by (auto simp: d s1_def)
  have sw: "swept z n s s1" using del_facts(2)[OF laws, of ks n s] k(3) by (auto simp: admin_key_def d s1_def)
  show ?case
  proof (cases "c' = 0")
    case True
    then have "\<not> ex x s1" if "stage_key x" for x using k(4) less(2) that ex1 by blast
    then show ?thesis using e True sw by auto
  next
    case False
    then have "pos c' \<le> b x" if "ex x s1" "stage_key x" for x using k(4) less(2) that ex1 by (metis not_le)
    moreover have "N - pos c' < N - pos c" using k(2) False by auto
    ultimately obtain s' m where "scan_stage a c' s1 ?r1 = Some (s', m)" "swept z n s1 s'" "\<forall>x. stage_key x \<longrightarrow> \<not> ex x s'"
      using less(1)[of c' s1 ?r1] by blast
    then show ?thesis using e False swept_trans[OF sw] by auto
  qed
qed

lemma acquire_same:
  assumes "zset_laws z" "\<And>m. z_score z k m s' = z_score z k m s"
  shows "fst (acquire_on z fails lim now k task s') = fst (acquire_on z fails lim now k task s)"
proof -
  have "z_card z k (z_remrangebyscore z k hi s') = z_card z k (z_remrangebyscore z k hi s)"
    "z_score z k task (z_remrangebyscore z k hi s') = z_score z k task (z_remrangebyscore z k hi s)" for hi
    using assms(2) by (simp_all add: zset_lawsD(3,6)[OF assms(1)])
  then show ?thesis by (simp add: acquire_on_def Let_def)
qed

lemma gate_keys:
  "admin_key n (slot_key e) \<longleftrightarrow> slot_key e \<in> set (targets n)"
  "admin_key n (project_inflight_key p) \<longleftrightarrow> project_inflight_key p \<in> set (targets n)"
  by (auto simp: admin_key_def slot_key_def project_inflight_key_def job_key_def in_progress_key_def stage_key_def)


text \<open>Sorted sets only, a stage key among them; SCAN in one page.\<close>

definition ref_admin :: "((string \<times> string) \<times> int) list admin_api" where
  "ref_admin = \<lparr>
     d_zrange = (\<lambda>k s. Some (map (snd \<circ> fst) (filter (\<lambda>kv. fst (fst kv) = k) s))),
     d_zcard = (\<lambda>k s. Some (z_card ref_zset k s)),
     d_get = (\<lambda>k s. Some None),
     d_del = (\<lambda>ks s. (Some (length (filter (\<lambda>k. k \<in> fst ` fst ` set s) (remdups ks))), al_delete (\<lambda>km. fst km \<in> set ks) s)),
     d_scan = (\<lambda>c s. Some (0, filter stage_key (map (fst \<circ> fst) s)))\<rparr>"

lemma ref_admin_laws: "admin_laws ref_admin ref_zset (\<lambda>k s. k \<in> fst ` fst ` set s)"
proof -
  show ?thesis
    unfolding admin_laws_def
  proof (intro conjI allI ref_zset_laws)
    show "\<exists>b pos N. pos 0 = 0 \<and> (\<forall>c s. \<exists>c' ks. d_scan ref_admin c s = Some (c', ks) \<and> (c' = 0 \<or> pos c < pos c' \<and> pos c' \<le> N)
        \<and> (\<forall>k \<in> set ks. stage_key k)
        \<and> (\<forall>k. k \<in> fst ` fst ` set s \<and> stage_key k \<and> (pos c :: nat) \<le> b k \<and> (c' = 0 \<or> b k < pos c') \<longrightarrow> k \<in> set ks))"
      by (intro exI[of _ "\<lambda>_. 0"] exI[of _ id] exI[of _ 0] conjI allI) (auto simp: ref_admin_def image_iff)
    show "\<exists>ms. d_zrange ref_admin k s = Some ms \<and> set ms = {m. z_score ref_zset k m s \<noteq> None}" for k s
      using ref_members[of s k] by (simp add: ref_admin_def ref_zset_def del: not_None_eq)
    show "z_score ref_zset k m (snd (d_del ref_admin ks s)) = (if k \<in> set ks then None else z_score ref_zset k m s)" for k m ks s
      by (simp add: ref_admin_def ref_zset_def map_of_al_delete)
  qed (force simp: ref_admin_def al_delete_def)+
qed


section \<open>Connection settings\<close>

text \<open>What urlparse gives; reading the port may raise. \<open>py_int\<close> is int() of a text.\<close>

record parsed_url =
  pu_hostname :: "string option"
  pu_port :: "int option option"
  pu_password :: "string option"
  pu_path :: string

record redis_conf =
  rc_host :: string
  rc_port :: int
  rc_password :: "string option"
  rc_database :: int
  rc_conn_timeout :: int
  rc_conn_retries :: int
  rc_conn_retry_delay :: int

definition database_of :: "(string \<Rightarrow> int option) \<Rightarrow> string \<Rightarrow> int option" where
  "database_of py_int path =
     (let t = dropWhile (\<lambda>c. c = CHR ''/'') (if path = '''' then ''/0'' else path) in if t = '''' then Some 0 else py_int t)"

definition redis_settings :: "(string \<Rightarrow> int option) \<Rightarrow> (string \<Rightarrow> parsed_url) \<Rightarrow> (string \<Rightarrow> string option) \<Rightarrow> redis_conf option" where
  "redis_settings py_int urlparse env =
     do { conn_timeout \<leftarrow> py_int (coalesce (env ''REDIS_CONN_TIMEOUT_SEC'') ''1'');
          conn_retries \<leftarrow> py_int (coalesce (env ''REDIS_CONN_RETRIES'') ''1'');
          conn_retry_delay \<leftarrow> py_int (coalesce (env ''REDIS_CONN_RETRY_DELAY_SEC'') ''1'');
          case or_none (env ''REDIS_URL'') of
            Some url \<Rightarrow>
              (let p = urlparse url
               in do { port \<leftarrow> pu_port p;
                       db \<leftarrow> database_of py_int (pu_path p);
                       Some \<lparr>rc_host = py_or (pu_hostname p) ''localhost'',
                             rc_port = (case port of Some n \<Rightarrow> if n = 0 then 6379 else n | None \<Rightarrow> 6379),
                             rc_password = or_none (pu_password p), rc_database = db, rc_conn_timeout = conn_timeout,
                             rc_conn_retries = conn_retries, rc_conn_retry_delay = conn_retry_delay\<rparr> })
          | None \<Rightarrow>
              do { port \<leftarrow> py_int (coalesce (env ''REDIS_PORT'') ''6379'');
                   db \<leftarrow> py_int (coalesce (env ''REDIS_DB'') ''0'');
                   Some \<lparr>rc_host = coalesce (env ''REDIS_HOST'') ''localhost'', rc_port = port,
                         rc_password = or_none (env ''REDIS_PASSWORD''), rc_database = db, rc_conn_timeout = conn_timeout,
                         rc_conn_retries = conn_retries, rc_conn_retry_delay = conn_retry_delay\<rparr> } }"

text \<open>A URL without user and port, with the password alone.\<close>

lemma redis_settings_url:
  assumes "env ''REDIS_URL'' = Some url" "url \<noteq> ''''" "env ''REDIS_CONN_TIMEOUT_SEC'' = None" "env ''REDIS_CONN_RETRIES'' = None"
    "env ''REDIS_CONN_RETRY_DELAY_SEC'' = None" "py_int ''1'' = Some 1"
    "urlparse url = \<lparr>pu_hostname = Some ''redis'', pu_port = Some None, pu_password = Some pw, pu_path = ''/''\<rparr>"
  shows "redis_settings py_int urlparse env =
    Some \<lparr>rc_host = ''redis'', rc_port = 6379, rc_password = or_none (Some pw), rc_database = 0, rc_conn_timeout = 1, rc_conn_retries = 1,
          rc_conn_retry_delay = 1\<rparr>"
  using assms by (simp add: redis_settings_def database_of_def or_none_def)

end
