(* ===== verification/SchemaSetup.thy ===== *)
theory SchemaSetup
  imports PyText
begin

text \<open>
  The set-up of the Neo4j schema: src/app/service/domain_indexes.py and the ensure functions of
  user_repository.py, audit_repository.py, ownership_repository.py, webhook_event_repository.py and
  notification_log_repository.py, with src/app/api/setup_routes.py. A schema is the list of its named
  indexes and constraints. As Neo4j documents, IF NOT EXISTS makes a statement do nothing
  when an object of the same name or the same kind, labels and properties is there, a uniqueness
  constraint counts as a range index for that, and a constraint whose labels and properties already have a range
  index cannot be created.
\<close>

section \<open>Statements\<close>

datatype schema_kind = RangeIndex | Fulltext | Unique

record schema_object =
  so_kind :: schema_kind
  so_name :: string
  so_labels :: "string list"
  so_props :: "string list"

definition make :: "schema_kind \<Rightarrow> string \<Rightarrow> string list \<Rightarrow> string list \<Rightarrow> schema_object" where
  "make k n ls ps = \<lparr>so_kind = k, so_name = n, so_labels = ls, so_props = ps\<rparr>"

type_synonym schema = "schema_object list"

datatype ddl = CreateIfMissing schema_object | DropIfExists string

definition same_place :: "schema_object \<Rightarrow> schema_object \<Rightarrow> bool" where
  "same_place x y = (so_labels x = so_labels y \<and> so_props x = so_props y)"

text \<open>Whether an object takes the place of another one that is asked for; whether it blocks it.\<close>

definition serves :: "schema_object \<Rightarrow> schema_object \<Rightarrow> bool" where
  "serves new x =
     (so_name x = so_name new \<and> so_kind x = so_kind new \<or>
      same_place x new \<and> (so_kind x = so_kind new \<or> so_kind new = RangeIndex \<and> so_kind x = Unique))"

definition blocks :: "schema_object \<Rightarrow> schema_object \<Rightarrow> bool" where
  "blocks new x =
     (so_name x = so_name new \<or> so_kind new = Unique \<and> so_kind x = RangeIndex \<and> same_place x new)"

text \<open>One statement: whether it runs without an error, and the schema after it. \<open>ok\<close>: the database answers and
  the data allow the constraint.\<close>

definition run_ddl :: "bool \<Rightarrow> ddl \<Rightarrow> schema \<Rightarrow> bool \<times> schema" where
  "run_ddl ok d sc =
     (if \<not> ok then (False, sc)
      else case d of
        DropIfExists n \<Rightarrow> (True, filter (\<lambda>x. so_name x \<noteq> n) sc)
      | CreateIfMissing new \<Rightarrow>
          if list_ex (serves new) sc then (True, sc)
          else if list_ex (blocks new) sc then (False, sc)
          else (True, sc @ [new]))"

text \<open>Statements each in a try of its own, with the number that ran; statements in one try.\<close>

fun ensure_each :: "(nat \<Rightarrow> bool) \<Rightarrow> nat \<Rightarrow> ddl list \<Rightarrow> schema \<Rightarrow> nat \<times> schema" where
  "ensure_each ok i [] sc = (0, sc)"
| "ensure_each ok i (d # ds) sc =
     (case run_ddl (ok i) d sc of (b, sc1) \<Rightarrow>
        (case ensure_each ok (Suc i) ds sc1 of (n, sc2) \<Rightarrow> (if b then Suc n else n, sc2)))"

fun ensure_until :: "(nat \<Rightarrow> bool) \<Rightarrow> nat \<Rightarrow> ddl list \<Rightarrow> schema \<Rightarrow> schema" where
  "ensure_until ok i [] sc = sc"
| "ensure_until ok i (d # ds) sc =
     (case run_ddl (ok i) d sc of (b, sc1) \<Rightarrow> if b then ensure_until ok (Suc i) ds sc1 else sc1)"

section \<open>The ensure functions\<close>

definition INDEX_STATEMENTS :: "schema_object list" where
  "INDEX_STATEMENTS =
     [make RangeIndex ''cps_document_project'' [''CPS_Document''] [''project''],
      make RangeIndex ''prd_document_project'' [''PRD_Document''] [''project''],
      make RangeIndex ''skill_project'' [''Skill''] [''project''],
      make RangeIndex ''meeting_log_project'' [''Meeting_Log''] [''project''],
      make RangeIndex ''meeting_log_project_version'' [''Meeting_Log''] [''project'', ''version''],
      make RangeIndex ''meeting_upload_user_email'' [''MeetingUpload''] [''user_email''],
      make RangeIndex ''story_project'' [''Story''] [''project''],
      make RangeIndex ''lint_result_project'' [''LintResult''] [''project''],
      make RangeIndex ''lineage_result_project'' [''LineageResult''] [''project''],
      make RangeIndex ''lineage_truth_project'' [''LineageTruth''] [''project''],
      make RangeIndex ''epic_project'' [''Epic''] [''project''],
      make RangeIndex ''problem_project'' [''Problem''] [''project''],
      make RangeIndex ''solution_project'' [''Solution''] [''project''],
      make RangeIndex ''api_project'' [''API''] [''project''],
      make RangeIndex ''entity_project'' [''Entity''] [''project''],
      make RangeIndex ''policy_project'' [''Policy''] [''project''],
      make RangeIndex ''aggregate_project'' [''Aggregate''] [''project''],
      make RangeIndex ''bounded_context_project'' [''BoundedContext''] [''project''],
      make RangeIndex ''domain_entity_project'' [''DomainEntity''] [''project''],
      make RangeIndex ''domain_event_project'' [''DomainEvent''] [''project''],
      make RangeIndex ''arch_service_project'' [''ArchService''] [''project''],
      make RangeIndex ''arch_database_project'' [''ArchDatabase''] [''project''],
      make RangeIndex ''problem_project_id'' [''Problem''] [''project'', ''id''],
      make RangeIndex ''solution_project_id'' [''Solution''] [''project'', ''id''],
      make RangeIndex ''epic_project_id'' [''Epic''] [''project'', ''id''],
      make RangeIndex ''story_project_id'' [''Story''] [''project'', ''id''],
      make Unique ''meeting_log_project_version_unique'' [''Meeting_Log''] [''project'', ''version''],
      make Fulltext ''spec_text_search'' [''Story'', ''Epic'', ''Aggregate'', ''Entity'', ''DomainEntity'', ''ArchService'', ''ArchDatabase'', ''API''] [''name'', ''description'']]"

definition ensure_domain_indexes :: "(nat \<Rightarrow> bool) \<Rightarrow> schema \<Rightarrow> nat \<times> schema" where
  "ensure_domain_indexes ok sc = ensure_each ok 0 (map CreateIfMissing INDEX_STATEMENTS) sc"

definition user_statements :: "schema_object list" where
  "user_statements =
     [make Unique ''user_email_unique'' [''User''] [''email''], make Unique ''user_github_id_unique'' [''User''] [''github_id''],
      make Unique ''user_google_id_unique'' [''User''] [''google_id''],
      make RangeIndex ''vibe_repo_user_url'' [''VibeRepo''] [''user_email'', ''url'']]"

definition ensure_user_constraints :: "(nat \<Rightarrow> bool) \<Rightarrow> schema \<Rightarrow> schema" where
  "ensure_user_constraints ok sc = ensure_until ok 0 (map CreateIfMissing user_statements) sc"

definition audit_statements :: "schema_object list" where
  "audit_statements =
     [make RangeIndex ''audit_log_created_at'' [''AuditLog''] [''created_at''],
      make RangeIndex ''audit_log_actor'' [''AuditLog''] [''actor_email''],
      make RangeIndex ''audit_log_target'' [''AuditLog''] [''target_email'']]"

definition ensure_audit_indexes :: "(nat \<Rightarrow> bool) \<Rightarrow> schema \<Rightarrow> schema" where
  "ensure_audit_indexes ok sc = ensure_until ok 0 (map CreateIfMissing audit_statements) sc"

definition webhook_statements :: "schema_object list" where
  "webhook_statements =
     [make Unique ''webhook_event_pg_id_unique'' [''WebhookEvent''] [''pg_event_id''],
      make RangeIndex ''webhook_event_received_at'' [''WebhookEvent''] [''received_at'']]"

definition ensure_webhook_constraints :: "(nat \<Rightarrow> bool) \<Rightarrow> schema \<Rightarrow> schema" where
  "ensure_webhook_constraints ok sc = snd (ensure_each ok 0 (map CreateIfMissing webhook_statements) sc)"

definition notification_statements :: "schema_object list" where
  "notification_statements =
     [make Unique ''notification_log_id_unique'' [''NotificationLog''] [''id''],
      make RangeIndex ''notification_log_user_email'' [''NotificationLog''] [''user_email''],
      make RangeIndex ''notification_log_sent_at'' [''NotificationLog''] [''sent_at'']]"

definition ensure_notification_log_constraints :: "(nat \<Rightarrow> bool) \<Rightarrow> schema \<Rightarrow> schema" where
  "ensure_notification_log_constraints ok sc = snd (ensure_each ok 0 (map CreateIfMissing notification_statements) sc)"

text \<open>The schema statements of ensure_project_constraint; its back-fills are in the theory Ownership.\<close>

definition project_statements :: "ddl list" where
  "project_statements =
     [DropIfExists ''project_name_unique'',
      CreateIfMissing (make Unique ''project_owner_name_unique'' [''Project''] [''owner_email'', ''name'']),
      CreateIfMissing (make Unique ''project_id_unique'' [''Project''] [''id'']),
      CreateIfMissing (make Unique ''project_team_name_unique'' [''Project''] [''team_id'', ''name''])]"

text \<open>POST /setup/user-constraints: success, whatever became of the statements.\<close>

definition setup_user_constraints :: "(nat \<Rightarrow> bool) \<Rightarrow> schema \<Rightarrow> string \<times> schema" where
  "setup_user_constraints ok sc = (''success'', ensure_user_constraints ok sc)"

section \<open>Which indexes there will be\<close>

text \<open>No statement of the list is served or blocked by an earlier one, except one: the constraint on
  the version of a meeting log, at 26, has the index at 4 in its way.\<close>

definition clear_list :: "schema_object list \<Rightarrow> bool" where
  "clear_list os = list_all (\<lambda>i. list_all (\<lambda>j. \<not> serves (os ! i) (os ! j) \<and> (blocks (os ! i) (os ! j) = (i = 26 \<and> j = 4))) [0..<i]) [0..<length os]"

definition place :: "schema_object \<Rightarrow> string list \<times> string list" where
  "place x = (so_labels x, so_props x)"

lemma same_place_iff: "same_place x y \<longleftrightarrow> place x = place y"
  by (auto simp: same_place_def place_def)

text \<open>Enough for it: distinct names, distinct places but for that pair, and the kinds around it.\<close>

lemma clear_listI:
  assumes names: "distinct (map so_name os)" and places: "distinct (map place (take 26 os @ drop 27 os))"
    and "list_all (\<lambda>x. so_kind x = RangeIndex) (take 26 os)" "so_kind (os ! 26) = Unique" "26 < length os"
    "list_all (\<lambda>x. so_kind x = Fulltext) (drop 27 os)" "place (os ! 4) = place (os ! 26)"
  shows "clear_list os"
proof -
  have kinds: "i < 26 \<Longrightarrow> so_kind (os ! i) = RangeIndex" "26 < i \<Longrightarrow> i < length os \<Longrightarrow> so_kind (os ! i) = Fulltext" for i
  proof -
    assume "i < 26"
    then have "os ! i \<in> set (take 26 os)" using assms(5) by (metis in_set_conv_nth length_take min.absorb4 nth_take)
    then show "so_kind (os ! i) = RangeIndex" using assms(3) by (simp add: list_all_iff)
  next
    assume "26 < i" "i < length os"
    then have "os ! i = drop 27 os ! (i - 27)" "i - 27 < length (drop 27 os)" by auto
    then have "os ! i \<in> set (drop 27 os)" by (metis nth_mem)
    then show "so_kind (os ! i) = Fulltext" using assms(6) by (simp add: list_all_iff)
  qed
  let ?ls = "take 26 os @ drop 27 os"
  define at where "at i = (if i < 26 then i else i - 1)" for i :: nat
  have at: "?ls ! at i = os ! i" "at i < length ?ls" if "i < length os" "i \<noteq> 26" for i
    using that assms(5) by (auto simp: at_def nth_append min_def)
  have pl: "place (os ! i) \<noteq> place (os ! j)" if "j < i" "i < length os" "i \<noteq> 26" "j \<noteq> 26" for i j
  proof -
    have "at i \<noteq> at j" using that by (auto simp: at_def)
    moreover have "map place ?ls ! at i = place (os ! i)" "map place ?ls ! at j = place (os ! j)" using nth_map[OF at(2)[of i], of place] nth_map[OF at(2)[of j], of place] at(1)[of i] at(1)[of j] that by simp_all
    ultimately show ?thesis using nth_eq_iff_index_eq[OF places, of "at i" "at j"] at(2)[of i] at(2)[of j] that by auto
  qed
  have nm: "so_name (os ! i) \<noteq> so_name (os ! j)" if "j < i" "i < length os" for i j
    using nth_eq_iff_index_eq[OF names, of i j] that by auto
  have "\<not> serves (os ! i) (os ! j) \<and> (blocks (os ! i) (os ! j) = (i = 26 \<and> j = 4))" if "j < i" "i < length os" for i j
  proof -
    consider "i = 26" | "j = 26" | "i \<noteq> 26" "j \<noteq> 26" by blast
    then show ?thesis
    proof cases
      case 1
      have "place (os ! 26) = place (os ! j) \<longleftrightarrow> j = 4"
      proof (cases j "4 :: nat" rule: linorder_cases)
        case less
        then show ?thesis using assms(5,7) pl[of j 4] by auto
      next
        case greater
        then show ?thesis using assms(7) pl[of 4 j] that 1 by auto
      qed (use assms(7) in simp)
      then show ?thesis using nm[OF that] kinds(1)[of j] assms(4) that 1 by (auto simp: serves_def blocks_def same_place_iff)
    next
      case 2
      then show ?thesis using nm[OF that] kinds(2)[of i] assms(4) that by (auto simp: serves_def blocks_def)
    next
      case 3
      then have "so_kind (os ! i) \<noteq> Unique" using kinds[of i] that by (cases "i < 26") auto
      then show ?thesis using nm[OF that] pl[OF that] 3 by (auto simp: serves_def blocks_def same_place_iff)
    qed
  qed
  then show ?thesis by (simp add: clear_list_def list_all_iff)
qed

lemma statements_kinds:
  "list_all (\<lambda>x. so_kind x = RangeIndex) (take 26 INDEX_STATEMENTS)" "so_kind (INDEX_STATEMENTS ! 26) = Unique"
  "list_all (\<lambda>x. so_kind x = Fulltext) (drop 27 INDEX_STATEMENTS)" "place (INDEX_STATEMENTS ! 4) = place (INDEX_STATEMENTS ! 26)"
  "length INDEX_STATEMENTS = 28"
  by (simp_all add: INDEX_STATEMENTS_def make_def place_def)

lemma statements_clear: "clear_list INDEX_STATEMENTS"
proof (rule clear_listI)
  show "distinct (map so_name INDEX_STATEMENTS)" by (simp add: INDEX_STATEMENTS_def make_def)
  show "distinct (map place (take 26 INDEX_STATEMENTS @ drop 27 INDEX_STATEMENTS))" by (simp add: INDEX_STATEMENTS_def make_def place_def)
qed (simp_all add: statements_kinds)

definition made :: "(nat \<Rightarrow> bool) \<Rightarrow> nat \<Rightarrow> bool" where
  "made ok i = (ok i \<and> (i = 26 \<longrightarrow> \<not> ok 4))"

lemma ensure_each_clear:
  assumes "clear_list os" "k \<le> length os"
  shows "ensure_each ok k (map CreateIfMissing (drop k os)) (map (nth os) (filter (made ok) [0..<k])) =
    (length (filter (made ok) [k..<length os]), map (nth os) (filter (made ok) [0..<length os]))"
  using assms(2)
proof (induction "length os - k" arbitrary: k)
  case 0
  then show ?case by simp
next
  case (Suc n)
  then have k: "k < length os" by simp
  let ?sc = "map (nth os) (filter (made ok) [0..<k])"
  have c: "\<not> serves (os ! k) (os ! j)" "blocks (os ! k) (os ! j) = (k = 26 \<and> j = 4)" if "j < k" for j
    using assms(1) k that by (auto simp: clear_list_def list_all_iff)
  have "\<not> list_ex (serves (os ! k)) ?sc" using c(1) by (auto simp: list_ex_iff)
  moreover have "list_ex (blocks (os ! k)) ?sc \<longleftrightarrow> k = 26 \<and> made ok 4" using c(2) by (auto simp: list_ex_iff)
  ultimately have r: "run_ddl (ok k) (CreateIfMissing (os ! k)) ?sc =
      (made ok k, map (nth os) (filter (made ok) [0..<Suc k]))"
    by (auto simp: run_ddl_def made_def)
  have "drop k os = os ! k # drop (Suc k) os" using k by (rule Cons_nth_drop_Suc[symmetric])
  moreover have "[k..<length os] = k # [Suc k..<length os]" using k by (rule upt_conv_Cons)
  ultimately show ?case using Suc.hyps(1)[of "Suc k"] Suc.hyps(2) k r by (simp del: upt_Suc)
qed

text \<open>Once made, an object serves its statement, and the constraint goes on failing.\<close>

lemma ensure_each_stable:
  "(\<And>k. k < length ds \<Longrightarrow> run_ddl True (ds ! k) sc = (f k, sc)) \<Longrightarrow>
    ensure_each (\<lambda>_. True) i ds sc = (length (filter f [0..<length ds]), sc)"
proof (induction ds arbitrary: i f)
  case (Cons d ds)
  have "ensure_each (\<lambda>_. True) (Suc i) ds sc = (length (filter (\<lambda>k. f (Suc k)) [0..<length ds]), sc)"
    using Cons.prems[of "Suc _"] by (intro Cons.IH) auto
  moreover have "[0..<length (d # ds)] = 0 # map Suc [0..<length ds]" by (simp only: map_Suc_upt length_Cons upt_conv_Cons[OF zero_less_Suc])
  moreover have "run_ddl True d sc = (f 0, sc)" using Cons.prems[of 0] by simp
  ultimately show ?case by (simp add: filter_map comp_def del: upt_Suc)
qed simp

definition made_schema :: schema where
  "made_schema = map (nth INDEX_STATEMENTS) (filter (made (\<lambda>_. True)) [0..<28])"

lemma constraint_fails: "\<not> list_ex (serves (INDEX_STATEMENTS ! 26)) made_schema \<and> list_ex (blocks (INDEX_STATEMENTS ! 26)) made_schema"
  by code_simp

lemma second_run: "ensure_domain_indexes (\<lambda>_. True) made_schema = (27, made_schema)"
proof -
  have "run_ddl True (map CreateIfMissing INDEX_STATEMENTS ! k) made_schema = (k \<noteq> 26, made_schema)"
    if k: "k < length (map CreateIfMissing INDEX_STATEMENTS)" for k
  proof (cases "k = 26")
    case False
    then have "INDEX_STATEMENTS ! k \<in> set made_schema" using k statements_kinds(5) by (auto simp: made_schema_def made_def)
    then have "list_ex (serves (INDEX_STATEMENTS ! k)) made_schema" by (auto simp: list_ex_iff serves_def)
    then show ?thesis using False k by (simp add: run_ddl_def)
  qed (use constraint_fails statements_kinds(5) in \<open>simp add: run_ddl_def\<close>)
  then have "ensure_domain_indexes (\<lambda>_. True) made_schema = (length (filter (\<lambda>k. k \<noteq> 26) [0..<28]), made_schema)"
    using ensure_each_stable[of "map CreateIfMissing INDEX_STATEMENTS" made_schema "\<lambda>k. k \<noteq> 26" 0]
    by (simp add: ensure_domain_indexes_def statements_kinds(5))
  also have "length (filter (\<lambda>k. k \<noteq> 26) [0..<28]) = 27" by code_simp
  finally show ?thesis .
qed

text \<open>C40: in an empty database exactly those indexes of the list are made whose statements run, one failure not
  hindering another; the uniqueness constraint on the version of a meeting log, the last
  guard against writing a version twice, is never among them when its index could be made, however often
  the application starts.\<close>

theorem domain_schema:
  "ensure_domain_indexes ok [] = (length (filter (made ok) [0..<28]), map (nth INDEX_STATEMENTS) (filter (made ok) [0..<28]))
   \<and> ensure_domain_indexes (\<lambda>_. True) (snd (ensure_domain_indexes (\<lambda>_. True) [])) = (27, snd (ensure_domain_indexes (\<lambda>_. True) []))
   \<and> \<not> list_ex (\<lambda>x. so_kind x = Unique) (snd (ensure_domain_indexes (\<lambda>_. True) []))"
proof -
  have r: "ensure_domain_indexes ok [] = (length (filter (made ok) [0..<28]), map (nth INDEX_STATEMENTS) (filter (made ok) [0..<28]))" for ok
    using ensure_each_clear[OF statements_clear, of 0 ok] by (simp add: ensure_domain_indexes_def statements_kinds(5))
  then have t: "snd (ensure_domain_indexes (\<lambda>_. True) []) = made_schema" by (simp add: made_schema_def)
  have "\<not> list_ex (\<lambda>x. so_kind x = Unique) made_schema" by code_simp
  then show ?thesis using r second_run unfolding t by simp
qed

end
