(* ===== verification/Lifecycle.thy ===== *)
theory Lifecycle
  imports Observability QueueAdmin
begin

text \<open>
  What a process sets up once and gives back: the database engine of src/app/infra/db.py, the
  life cycle of the application (src/app/main.py) and of the worker (src/app/queue/jobs.py, worker.py, the
  metrics server of core/metrics.py), the order of the version-1 routers (src/app/api/v1/__init__.py) and
  the clock of src/app/common/timezone.py.
\<close>

section \<open>The database engine\<close>

text \<open>The pool options are given to the engine of a database with a server only.\<close>

record pool_options =
  po_size :: int
  po_max_overflow :: int
  po_recycle :: int
  po_timeout :: int

record engine =
  en_url :: string
  en_pool :: "pool_options option"

record db_process =
  db_engine :: "engine option"
  db_sessionmaker :: "engine option"

definition is_sqlite :: "string \<Rightarrow> bool" where
  "is_sqlite url = starts_with ''sqlite'' url"

definition get_engine :: "settings \<Rightarrow> db_process \<Rightarrow> engine \<times> db_process" where
  "get_engine cfg st =
     (case db_engine st of
        Some e \<Rightarrow> (e, st)
      | None \<Rightarrow>
          (let url = S_DATABASE_URL cfg;
               e = \<lparr>en_url = url,
                    en_pool = (if is_sqlite url then None
                               else Some \<lparr>po_size = S_DB_POOL_SIZE cfg, po_max_overflow = S_DB_MAX_OVERFLOW cfg,
                                          po_recycle = S_DB_POOL_RECYCLE_SEC cfg, po_timeout = S_DB_POOL_TIMEOUT_SEC cfg\<rparr>)\<rparr>
           in (e, \<lparr>db_engine = Some e, db_sessionmaker = Some e\<rparr>)))"

text \<open>The session maker, by the engine it is bound to; the assertion fails as None.\<close>

definition get_sessionmaker :: "settings \<Rightarrow> db_process \<Rightarrow> engine option \<times> db_process" where
  "get_sessionmaker cfg st =
     (let st1 = (if db_sessionmaker st = None then snd (get_engine cfg st) else st) in (db_sessionmaker st1, st1))"

definition dispose_engine :: "db_process \<Rightarrow> engine option \<times> db_process" where
  "dispose_engine st =
     (case db_engine st of None \<Rightarrow> (None, st) | Some e \<Rightarrow> (Some e, \<lparr>db_engine = None, db_sessionmaker = None\<rparr>))"

section \<open>The application\<close>

record app_process =
  ap_driver :: bool
  ap_pool :: "string option"
  ap_db :: db_process

text \<open>The part of lifespan after the yield: what is closed, and the process then. Nothing was set up before it.\<close>

definition shut_down :: "app_process \<Rightarrow> (bool \<times> string option \<times> engine option) \<times> app_process" where
  "shut_down ap =
     (case close_pool (ap_pool ap) of (p, pool) \<Rightarrow>
        (case dispose_engine (ap_db ap) of (e, db) \<Rightarrow>
           ((ap_driver ap, p, e), \<lparr>ap_driver = False, ap_pool = pool, ap_db = db\<rparr>)))"

text \<open>GET /metrics: the body of the registry, or 404; \<open>rendered\<close> is what the library prints, None without it.\<close>

definition render_metrics :: "(string \<times> string) option \<Rightarrow> string \<times> string" where
  "render_metrics rendered = (case rendered of None \<Rightarrow> ('''', ''text/plain; charset=utf-8'') | Some r \<Rightarrow> r)"

definition metrics_endpoint :: "settings \<Rightarrow> (string \<times> string) option \<Rightarrow> exc + nat \<times> (string \<times> string)" where
  "metrics_endpoint cfg rendered =
     (if \<not> S_METRICS_ENABLED cfg then Inl (HttpExc 404 (JStr ''metrics disabled'')) else Inr (200, render_metrics rendered))"

section \<open>The worker\<close>

text \<open>The Prometheus library of the worker: whether it is there, and whether the port can be bound.\<close>

record prom_lib =
  pr_available :: bool
  pr_binds :: "int \<Rightarrow> bool"

definition start_worker_metrics_server :: "prom_lib \<Rightarrow> int \<Rightarrow> bool \<Rightarrow> bool \<times> bool" where
  "start_worker_metrics_server lib port started =
     (if \<not> pr_available lib then (False, started)
      else if started then (True, started)
      else if pr_binds lib port then (True, True)
      else (False, started))"

record job_metrics =
  jm_jobs :: "(string \<times> string) list"
  jm_latency :: "(string \<times> rat) list"

definition record_job :: "bool \<Rightarrow> string \<Rightarrow> string \<Rightarrow> rat option \<Rightarrow> job_metrics \<Rightarrow> job_metrics" where
  "record_job available job outcome duration m =
     (if \<not> available then m
      else (let m1 = m\<lparr>jm_jobs := jm_jobs m @ [(job, outcome)]\<rparr>
            in (case duration of None \<Rightarrow> m1 | Some d \<Rightarrow> m1\<lparr>jm_latency := jm_latency m1 @ [(job, d)]\<rparr>)))"

text \<open>How a job ends; a cancellation is no Exception.\<close>

datatype ('a, 'e) job_end = Finished 'a | Failed 'e | CancelledJob

text \<open>The wrapper around every job: its end is passed on as it is.\<close>

definition instrument :: "bool \<Rightarrow> sentry_lib \<Rightarrow> settings \<Rightarrow> string \<Rightarrow> rat \<Rightarrow> ('a, 'e) job_end \<Rightarrow> job_metrics
    \<Rightarrow> ('a, 'e) job_end \<times> ('e \<times> (string \<times> string) list) option \<times> job_metrics" where
  "instrument available lib cfg job_name duration r m =
     (case r of
        Finished x \<Rightarrow> (r, None, record_job available job_name ''success'' (Some duration) m)
      | Failed e \<Rightarrow>
          (r, capture_exception lib cfg e [(''component'', ''worker''), (''job'', job_name)],
           record_job available job_name ''failure'' (Some duration) m)
      | CancelledJob \<Rightarrow> (r, None, m))"

text \<open>The jobs a worker offers.\<close>

definition worker_functions :: "string list" where
  "worker_functions =
     [''cps_pipeline_job'', ''post_meeting_pipeline_job'', ''prd_pipeline_job'', ''prefetch_extract_job'', ''design_pipeline_job'',
      ''recommend_skills_job'', ''run_lint_job'', ''generate_fix_spec_job'', ''analyze_lineage_job'', ''autofill_api_specs_job'',
      ''delete_meeting_job'', ''create_md_job'', ''github_onboard_job'', ''cleanup_master_prd_job'']"

text \<open>The clients of a worker by the keys of its context, with the model of each.\<close>

record worker_start =
  wk_log :: root_logger
  wk_sentry :: "bool \<times> sentry_init option"
  wk_metrics :: bool
  wk_clients :: "(string \<times> string) list"

text \<open>on_startup; a level the logging library does not know stops it.\<close>

definition on_startup :: "sentry_lib \<Rightarrow> prom_lib \<Rightarrow> settings \<Rightarrow> root_logger \<Rightarrow> bool \<Rightarrow> log_error + worker_start" where
  "on_startup sl pl cfg rl started =
     (case setup_logging cfg rl of
        Inl e \<Rightarrow> Inl e
      | Inr rl1 \<Rightarrow>
          Inr \<lparr>wk_log = rl1, wk_sentry = init_sentry sl cfg ''worker'',
               wk_metrics = (if S_METRICS_ENABLED cfg then snd (start_worker_metrics_server pl (S_WORKER_METRICS_PORT cfg) started) else started),
               wk_clients = [(''gemini_free'', gemini_model_for_free cfg), (''gemini_pro'', gemini_model_for_pro cfg),
                             (''gemini_lite'', gemini_model_lite cfg)]\<rparr>)"

text \<open>on_shutdown: every client is closed, one failure (\<open>closes\<close> is false) not keeping another open; then the driver.\<close>

definition on_shutdown :: "(string \<Rightarrow> bool) \<Rightarrow> (string \<times> 'c) list \<Rightarrow> string list \<times> string list \<times> bool" where
  "on_shutdown closes ctx =
     (let open_keys = filter (\<lambda>k. k \<in> fst ` set ctx) [''gemini_free'', ''gemini_pro'', ''gemini_lite'', ''gemini'']
      in (filter closes open_keys, filter (\<lambda>k. \<not> closes k) open_keys, False))"

section \<open>Routers of version 1\<close>

definition DOMAIN_ORDER :: "string list" where
  "DOMAIN_ORDER =
     [''version'', ''festivals'', ''search'', ''geo'', ''calendar'', ''favorites'', ''reports'', ''subscriptions'', ''payments'',
      ''notifications'', ''instructors'', ''auth'', ''users'', ''admin'', ''intake'', ''ingestion'']"

definition discover_domains :: "string list \<Rightarrow> string list" where
  "discover_domains found =
     filter (\<lambda>d. d \<in> set found) DOMAIN_ORDER @ sort (filter (\<lambda>d. d \<notin> set DOMAIN_ORDER) (remdups found))"

text \<open>Importing the router module of a domain: any missing module, the domain's own imports included, is taken for
  a missing router; every other exception stops the building.\<close>

datatype 'r import = RouterModule "'r option" | MissingModule string | ImportRaises string

fun build_v1_router :: "(string \<Rightarrow> 'r import) \<Rightarrow> string list \<Rightarrow> string + 'r list" where
  "build_v1_router load [] = Inr []"
| "build_v1_router load (d # ds) =
     (case load d of
        ImportRaises e \<Rightarrow> Inl e
      | MissingModule m \<Rightarrow> build_v1_router load ds
      | RouterModule None \<Rightarrow> build_v1_router load ds
      | RouterModule (Some r) \<Rightarrow> map_sum id (\<lambda>rs. r # rs) (build_v1_router load ds))"

section \<open>Time zones\<close>

text \<open>A datetime: its wall clock in seconds and its offset, None when it is naive.\<close>

record datetime =
  dt_wall :: int
  dt_offset :: "int option"

definition KST :: int where "KST = 9 * 3600"

definition ensure_aware :: "datetime \<Rightarrow> datetime" where
  "ensure_aware t = (if dt_offset t = None then t\<lparr>dt_offset := Some 0\<rparr> else t)"

definition as_zone :: "int \<Rightarrow> datetime \<Rightarrow> datetime" where
  "as_zone z t = (case dt_offset t of None \<Rightarrow> t | Some off \<Rightarrow> \<lparr>dt_wall = dt_wall t - off + z, dt_offset = Some z\<rparr>)"

definition to_utc :: "datetime \<Rightarrow> datetime" where "to_utc t = as_zone 0 (ensure_aware t)"
definition to_kst :: "datetime \<Rightarrow> datetime" where "to_kst t = as_zone KST (ensure_aware t)"

section \<open>One engine, transparent jobs, one instant\<close>

text \<open>The session maker is always that of the engine.\<close>

definition db_ok :: "db_process \<Rightarrow> bool" where
  "db_ok st = (db_engine st = db_sessionmaker st)"

lemma engine_once:
  assumes "db_ok st"
  shows "db_ok (snd (get_engine cfg st))" "db_ok (snd (dispose_engine st))"
    "get_engine cfg' (snd (get_engine cfg st)) = get_engine cfg st"
    "get_sessionmaker cfg st = (Some (fst (get_engine cfg st)), snd (get_engine cfg st))"
    "fst (dispose_engine (snd (get_engine cfg st))) = Some (fst (get_engine cfg st))"
  using assms by (auto simp: db_ok_def get_engine_def get_sessionmaker_def dispose_engine_def Let_def split: option.splits)

text \<open>Whatever was opened is closed, and nothing is left open.\<close>

lemma shut_down_closes:
  "fst (shut_down ap) = (ap_driver ap, ap_pool ap, db_engine (ap_db ap))"
  "db_ok (ap_db ap) \<Longrightarrow> snd (shut_down ap) = \<lparr>ap_driver = False, ap_pool = None, ap_db = \<lparr>db_engine = None, db_sessionmaker = None\<rparr>\<rparr>"
  by (auto simp: shut_down_def close_pool_def dispose_engine_def db_ok_def split: option.splits)

text \<open>The wrapper never changes how a job ends; it reports failures only, and counts finished and failed jobs.\<close>

lemma instrument_end:
  "fst (instrument av lib cfg name d r m) = r"
  "fst (snd (instrument av lib cfg name d r m)) \<noteq> None \<longleftrightarrow> (\<exists>e. r = Failed e) \<and> sl_installed lib \<and> sentry_enabled cfg"
  "jm_jobs (snd (snd (instrument av lib cfg name d r m))) = jm_jobs m @
     (if \<not> av then [] else case r of Finished x \<Rightarrow> [(name, ''success'')] | Failed e \<Rightarrow> [(name, ''failure'')] | CancelledJob \<Rightarrow> [])"
  by (auto simp: instrument_def capture_exception_def record_job_def Let_def split: job_end.splits)

text \<open>Every job that takes a slot or a marker is one the worker offers.\<close>

lemma worker_offers: "set heavy_jobs \<union> set master_write_jobs \<subseteq> set worker_functions"
  by (simp add: heavy_jobs_def master_write_jobs_def worker_functions_def)

lemma discover_all: "set (discover_domains found) = set found" "distinct (discover_domains found)"
proof -
  have "distinct DOMAIN_ORDER" by (simp add: DOMAIN_ORDER_def)
  then show "distinct (discover_domains found)" by (auto simp: discover_domains_def)
qed (auto simp: discover_domains_def)

text \<open>A domain whose own imports miss a module disappears without an error.\<close>

lemma missing_import_skips: "load d = MissingModule m \<Longrightarrow> build_v1_router load (d # ds) = build_v1_router load ds"
  by simp

lemma zones_keep_instant:
  "dt_offset (to_kst t) = Some KST" "dt_wall (to_kst t) - KST = dt_wall t - coalesce (dt_offset t) 0" "to_kst (to_utc t) = to_kst t"
  "dt_offset t = Some z \<Longrightarrow> as_zone z (to_utc t) = t"
  by (cases t; auto simp: to_kst_def to_utc_def as_zone_def ensure_aware_def split: option.splits)+

end
