(* ===== verification/Spec2Isabelle.thy ===== *)
theory Spec2Isabelle
  imports GraphStore Users Usage Ownership Concurrency MasterLock QueueClient Gemini ExtractCache Jobs Sessions AuditLog Auth GoogleOAuth AuthRoutes
    PipelineText JsonRetry Ingestion Taxonomy Regex Crawler Boards Config TokenEncryption Webhooks
    Notifications EmailTemplates CoreText HttpFront IngestApi Observability Scorer QueueAdmin SchemaSetup
    Lifecycle
begin

text \<open>Verification development of the gayoje server.\<close>

text \<open>A query whose execution raises leaves the graph as it was, and no call makes more
  than three attempts.\<close>

theorem run_cypher_bounded:
  assumes "run_cypher c outs q g = (r, g', k, sl)"
  shows "k \<le> 3 \<and> length sl \<le> 3 \<and> (\<forall>e. r = Inl e \<longrightarrow> g' = g) \<and> (\<forall>x. r = Inr x \<longrightarrow> (x, g') = q g)"
proof (cases c)
  case True
  then have "run_cypher_loop 3 0 outs q g = (r, g', k, sl)"
    using assms by (simp add: run_cypher_def run_cypher_max_attempts_def)
  then show ?thesis
    using run_cypher_loop_attempts run_cypher_loop_error_frame run_cypher_loop_success by fastforce
qed (use assms in \<open>auto simp: run_cypher_def\<close>)

lemma run_cypher_bounded_witness:
  "\<exists>r g' k sl. run_cypher True (\<lambda>n. if n < 2 then Unavailable else Runs) (\<lambda>g::nat. (g, Suc g)) 7 = (r, g', k, sl)
     \<and> k \<le> 3"
proof -
  obtain r g' k sl where e: "run_cypher True (\<lambda>n. if n < 2 then Unavailable else Runs) (\<lambda>g::nat. (g, Suc g)) 7 = (r, g', k, sl)"
    by (metis prod_cases4)
  from run_cypher_bounded[OF this] e show ?thesis by blast
qed

end
